(* ===== verification/Cuma_Prelude.thy ===== *)
theory Cuma_Prelude
  imports
    Main
    "HOL-Library.Word"
    "HOL-Library.Sublist"
    "HOL-Library.Char_ord"
    "HOL-Library.List_Lexorder"
    "HOL-Library.Product_Lexorder"
begin

text \<open>
  Shared vocabulary of the development: the lemma collections the components use, the
  fixed-width integers of the Rust sources with their saturating operations, and the part
  of \<open>str\<close> that the sources call.

  A Rust \<open>String\<close> is the list of the bytes of its UTF-8 encoding, one \<open>char\<close>
  per byte, so \<open>length\<close> is Rust's \<open>len()\<close> and the lexicographic order of
  \<open>List_Lexorder\<close> is Rust's \<open>Ord\<close> on strings. White space is the white
  space of \<open>char::is_whitespace\<close>, by the encodings of those code points.

  Rust's \<open>+\<close> on \<open>u32\<close> and \<open>u64\<close> is the wrapping \<open>+\<close> on
  words: the workspace has no \<open>[profile]\<close> section, so release builds wrap.
  Where a counter could wrap, the component says whether it matters.
\<close>

named_theorems wf_simps \<open>definitions of the well-formedness predicates\<close>
named_theorems wf_intros \<open>operations preserve well-formedness\<close>
named_theorems enum_simps \<open>tables over the enumerations of the sources\<close>

type_synonym u8 = "8 word"
type_synonym u32 = "32 word"
type_synonym u64 = "64 word"

section \<open>Saturating arithmetic\<close>

definition saturating_add :: "'a::len word \<Rightarrow> 'a word \<Rightarrow> 'a word" where
  "saturating_add a b = (if unat a + unat b < 2 ^ LENGTH('a) then a + b else - 1)"

definition saturating_sub :: "'a::len word \<Rightarrow> 'a word \<Rightarrow> 'a word" where
  "saturating_sub a b = (if b \<le> a then a - b else 0)"

definition saturating_mul :: "'a::len word \<Rightarrow> 'a word \<Rightarrow> 'a word" where
  "saturating_mul a b = (if unat a * unat b < 2 ^ LENGTH('a) then a * b else - 1)"

lemma unat_minus_one_word_len: "unat (- 1 :: 'a::len word) = 2 ^ LENGTH('a) - 1"
  by (simp add: unsigned_minus_1_eq_mask mask_eq_exp_minus_1)

lemma unat_lt_len: "unat (a :: 'a::len word) < 2 ^ LENGTH('a)"
  by (rule unsigned_less)

lemma unat_saturating_add:
  "unat (saturating_add a b) = min (unat a + unat b) (2 ^ LENGTH('a) - 1)"
  for a b :: "'a::len word"
proof (cases "unat a + unat b < 2 ^ LENGTH('a)")
  case True
  then have "unat (a + b) = unat a + unat b"
    by (simp add: unat_word_ariths)
  with True show ?thesis by (simp add: saturating_add_def)
next
  case False
  then show ?thesis by (simp add: saturating_add_def unat_minus_one_word_len)
qed

lemma unat_saturating_sub: "unat (saturating_sub a b) = unat a - unat b"
  by (auto simp: saturating_sub_def word_le_nat_alt unat_sub)

lemma unat_saturating_mul:
  "unat (saturating_mul a b) = min (unat a * unat b) (2 ^ LENGTH('a) - 1)"
  for a b :: "'a::len word"
proof (cases "unat a * unat b < 2 ^ LENGTH('a)")
  case True
  then have "unat (a * b) = unat a * unat b"
    by (simp add: unat_word_ariths)
  with True show ?thesis by (simp add: saturating_mul_def)
next
  case False
  then show ?thesis by (simp add: saturating_mul_def unat_minus_one_word_len)
qed

lemma min_add_assoc: "min (min (x + y) m + z) m = min (x + min (y + z) m) (m :: nat)"
  by (auto simp: min_def)

lemma saturating_add_assoc:
  "saturating_add (saturating_add a b) c = saturating_add a (saturating_add b c)"
  for a b c :: "'a::len word"
  by (rule word_unat_eq_iff [THEN iffD2]) (simp only: unat_saturating_add min_add_assoc)

lemma saturating_add_commute: "saturating_add a b = saturating_add b a"
  by (simp add: saturating_add_def add.commute)

lemma saturating_add_0 [simp]: "saturating_add 0 a = a" "saturating_add a 0 = a"
  by (simp_all add: saturating_add_def unat_lt_len)

lemma saturating_add_mono: "a \<le> saturating_add a b"
proof -
  have "unat a \<le> 2 ^ LENGTH('a) - 1"
    using unat_lt_len [of a] by linarith
  then show ?thesis
    by (simp add: word_le_nat_alt unat_saturating_add)
qed

lemma unat_Suc_word: "unat a < n \<Longrightarrow> n < 2 ^ LENGTH('a) \<Longrightarrow> unat (a + 1) = Suc (unat a)"
  for a :: "'a::len word"
  by (simp add: unat_word_ariths)

section \<open>Lists\<close>

text \<open>Rust's \<open>Vec::contains\<close> and the idiom \<open>if !v.contains(x) then v.push(x)\<close>.\<close>

definition push_new :: "'a \<Rightarrow> 'a list \<Rightarrow> 'a list" where
  "push_new x xs = (if x \<in> set xs then xs else xs @ [x])"

lemma set_push_new [simp]: "set (push_new x xs) = insert x (set xs)"
  by (auto simp: push_new_def)

lemma distinct_push_new [simp, intro]: "distinct xs \<Longrightarrow> distinct (push_new x xs)"
  by (simp add: push_new_def)

lemma set_fold_push_new: "set (fold push_new ys xs) = set xs \<union> set ys"
  by (induction ys arbitrary: xs) auto

lemma distinct_fold_push_new: "distinct xs \<Longrightarrow> distinct (fold push_new ys xs)"
  by (induction ys arbitrary: xs) auto

section \<open>Strings\<close>

text \<open>The UTF-8 encodings of the code points with the Unicode property White\_Space.\<close>

definition whitespace_encodings :: "string list" where
  "whitespace_encodings =
     [[CHR 0x09], [CHR 0x0A], [CHR 0x0B], [CHR 0x0C], [CHR 0x0D], [CHR 0x20],
      [CHR 0xC2, CHR 0x85], [CHR 0xC2, CHR 0xA0],
      [CHR 0xE1, CHR 0x9A, CHR 0x80],
      [CHR 0xE2, CHR 0x80, CHR 0x80], [CHR 0xE2, CHR 0x80, CHR 0x81],
      [CHR 0xE2, CHR 0x80, CHR 0x82], [CHR 0xE2, CHR 0x80, CHR 0x83],
      [CHR 0xE2, CHR 0x80, CHR 0x84], [CHR 0xE2, CHR 0x80, CHR 0x85],
      [CHR 0xE2, CHR 0x80, CHR 0x86], [CHR 0xE2, CHR 0x80, CHR 0x87],
      [CHR 0xE2, CHR 0x80, CHR 0x88], [CHR 0xE2, CHR 0x80, CHR 0x89],
      [CHR 0xE2, CHR 0x80, CHR 0x8A],
      [CHR 0xE2, CHR 0x80, CHR 0xA8], [CHR 0xE2, CHR 0x80, CHR 0xA9],
      [CHR 0xE2, CHR 0x80, CHR 0xAF], [CHR 0xE2, CHR 0x81, CHR 0x9F],
      [CHR 0xE3, CHR 0x80, CHR 0x80]]"

text \<open>How many bytes of the given list the first encoding matching it takes, 0 for none.\<close>

definition match_len :: "string list \<Rightarrow> string \<Rightarrow> nat" where
  "match_len ws s = (case List.find (\<lambda>w. prefix w s) ws of None \<Rightarrow> 0 | Some w \<Rightarrow> length w)"

lemma match_len_le: "match_len ws s \<le> length s"
  by (auto simp: match_len_def find_Some_iff prefix_length_le split: option.splits)

lemma diff_less_eq_match_len: "0 < match_len ws s \<Longrightarrow> length s - match_len ws s < length s"
  using match_len_le [of ws s] by (cases s) (auto simp: match_len_def split: option.splits)

function strip_front :: "string list \<Rightarrow> string \<Rightarrow> string" where
  "strip_front ws s = (if match_len ws s = 0 then s else strip_front ws (drop (match_len ws s) s))"
  by pat_completeness auto
termination
  by (relation "measure (\<lambda>(ws, s). length s)")
    (auto simp: diff_less_eq_match_len)

declare strip_front.simps [simp del]

definition trim_start :: "string \<Rightarrow> string" where
  "trim_start s = strip_front whitespace_encodings s"

definition trim_end :: "string \<Rightarrow> string" where
  "trim_end s = rev (strip_front (map rev whitespace_encodings) (rev s))"

definition trim :: "string \<Rightarrow> string" where
  "trim s = trim_end (trim_start s)"

text \<open>\<open>str::to_ascii_lowercase\<close>: only the bytes A to Z change.\<close>

definition ascii_lower :: "char \<Rightarrow> char" where
  "ascii_lower c =
     (let n = (of_char c :: nat) in if 65 \<le> n \<and> n \<le> 90 then char_of (n + 32) else c)"

definition to_ascii_lowercase :: "string \<Rightarrow> string" where
  "to_ascii_lowercase s = map ascii_lower s"

definition eq_ignore_ascii_case :: "string \<Rightarrow> string \<Rightarrow> bool" where
  "eq_ignore_ascii_case a b \<longleftrightarrow> to_ascii_lowercase a = to_ascii_lowercase b"

definition split_once :: "char \<Rightarrow> string \<Rightarrow> (string \<times> string) option" where
  "split_once c s =
     (if c \<in> set s then Some (takeWhile (\<lambda>x. x \<noteq> c) s, tl (dropWhile (\<lambda>x. x \<noteq> c) s)) else None)"

definition is_ascii_upper :: "char \<Rightarrow> bool" where
  "is_ascii_upper c = (let n = (of_char c :: nat) in 65 \<le> n \<and> n \<le> 90)"

lemma ascii_lower_not_upper: "\<not> is_ascii_upper (ascii_lower c)"
  using nat_of_char_less_256 [of c]
  by (simp add: is_ascii_upper_def ascii_lower_def Let_def of_char_of take_bit_eq_mod)

lemma ascii_lower_idem [simp]: "ascii_lower (ascii_lower c) = ascii_lower c"
  using nat_of_char_less_256 [of c]
  by (simp add: ascii_lower_def Let_def of_char_of take_bit_eq_mod)

lemma to_ascii_lowercase_idem [simp]:
  "to_ascii_lowercase (to_ascii_lowercase s) = to_ascii_lowercase s"
  by (simp add: to_ascii_lowercase_def)

lemma length_to_ascii_lowercase [simp]: "length (to_ascii_lowercase s) = length s"
  by (simp add: to_ascii_lowercase_def)

lemma to_ascii_lowercase_no_upper: "c \<in> set (to_ascii_lowercase s) \<Longrightarrow> \<not> is_ascii_upper c"
  by (auto simp: to_ascii_lowercase_def ascii_lower_not_upper)

text \<open>\<open>str::contains\<close>, \<open>starts_with\<close> and \<open>ends_with\<close> are the library's
  \<open>sublist\<close>, \<open>prefix\<close> and \<open>suffix\<close>.\<close>

abbreviation str_contains :: "string \<Rightarrow> string \<Rightarrow> bool" where
  "str_contains haystack needle \<equiv> sublist needle haystack"

lemma not_contains_if_char:
  "c \<in> set needle \<Longrightarrow> c \<notin> set haystack \<Longrightarrow> \<not> str_contains haystack needle"
  using set_mono_sublist by blast

text \<open>\<open><[String]>::join\<close>.\<close>

fun join :: "string \<Rightarrow> string list \<Rightarrow> string" where
  "join sep [] = []"
| "join sep [s] = s"
| "join sep (s # t # ss) = s @ sep @ join sep (t # ss)"

text \<open>\<open>str::split_whitespace\<close>: the maximal runs of non-white-space, in order. The
  accumulator is the current word, reversed.\<close>

function words_from :: "string \<Rightarrow> string \<Rightarrow> string list" where
  "words_from acc [] = (if acc = [] then [] else [rev acc])"
| "words_from acc (c # s) =
     (let n = match_len whitespace_encodings (c # s) in
      if n = 0 then words_from (c # acc) s
      else (if acc = [] then [] else [rev acc]) @ words_from [] (drop n (c # s)))"
  by pat_completeness auto
termination
  by (relation "measure (\<lambda>(acc, s). length s)") auto

definition split_whitespace :: "string \<Rightarrow> string list" where
  "split_whitespace s = words_from [] s"

text \<open>Decimal rendering of an unsigned integer (\<open>Display\<close>).\<close>

function show_nat :: "nat \<Rightarrow> string" where
  "show_nat n =
     (if n < 10 then [char_of (n + 48)] else show_nat (n div 10) @ [char_of (n mod 10 + 48)])"
  by pat_completeness auto
termination
  by (relation "measure id") auto

declare show_nat.simps [simp del]

definition show_word :: "'a::len word \<Rightarrow> string" where
  "show_word w = show_nat (unat w)"

text \<open>The encoded characters of a string: a byte from 0x80 to 0xBF continues the one before it.\<close>

definition continues_char :: "char \<Rightarrow> bool" where
  "continues_char c = (let n = (of_char c :: nat) in 128 \<le> n \<and> n < 192)"

fun utf8_chars :: "string \<Rightarrow> string list" where
  "utf8_chars [] = []"
| "utf8_chars (c # s) =
     (case utf8_chars s of
        (d # ds) # rest \<Rightarrow> if continues_char d then (c # d # ds) # rest else [c] # (d # ds) # rest
      | rest \<Rightarrow> [c] # rest)"

lemma concat_utf8_chars [simp]: "concat (utf8_chars s) = s"
  by (induction s) (auto split: list.splits)

lemma utf8_chars_nonempty: "c \<in> set (utf8_chars s) \<Longrightarrow> c \<noteq> []"
  by (induction s arbitrary: c) (auto split: list.splits if_splits)

text \<open>\<open>str::trim_end_matches(c)\<close> and \<open>trim_start_matches(prefix)\<close>.\<close>

definition trim_end_matches :: "char \<Rightarrow> string \<Rightarrow> string" where
  "trim_end_matches c s = rev (dropWhile (\<lambda>d. d = c) (rev s))"

definition trim_start_matches :: "string \<Rightarrow> string \<Rightarrow> string" where
  "trim_start_matches p s = strip_front [p] s"

section \<open>Laws of trimming\<close>

lemma match_len_0_iff: "[] \<notin> set ws \<Longrightarrow> match_len ws s = 0 \<longleftrightarrow> (\<forall>w \<in> set ws. \<not> prefix w s)"
  by (auto simp: match_len_def find_None_iff find_Some_iff split: option.splits)
    (metis find_None_iff find_Some_iff not_None_eq nth_mem)

lemma match_len_strip_front [simp]: "match_len ws (strip_front ws s) = 0"
proof (induction ws s rule: strip_front.induct)
  case (1 ws s)
  then show ?case by (cases "match_len ws s = 0") (auto simp: strip_front.simps [of ws s])
qed

lemma strip_front_id: "match_len ws s = 0 \<Longrightarrow> strip_front ws s = s"
  by (simp add: strip_front.simps)

lemma strip_front_suffix: "suffix (strip_front ws s) s"
proof (induction ws s rule: strip_front.induct)
  case (1 ws s)
  show ?case
  proof (cases "match_len ws s = 0")
    case False
    with "1.IH" have "suffix (strip_front ws (drop (match_len ws s) s)) (drop (match_len ws s) s)" .
    with False show ?thesis
      by (simp add: strip_front.simps [of ws s]) (meson suffix_drop suffix_order.order_trans)
  qed (simp add: strip_front_id)
qed

lemma match_len_prefix_0:
  "[] \<notin> set ws \<Longrightarrow> match_len ws s = 0 \<Longrightarrow> prefix t s \<Longrightarrow> match_len ws t = 0"
  by (meson match_len_0_iff prefix_order.order_trans)

lemma whitespace_encodings_nonempty: "[] \<notin> set whitespace_encodings"
  by (simp add: whitespace_encodings_def)

lemma trim_prefix_of_trim_start: "prefix (trim s) (trim_start s)"
  using strip_front_suffix [of "map rev whitespace_encodings" "rev (trim_start s)"]
  by (simp add: trim_def trim_end_def suffix_to_prefix)

lemma trim_idem [simp]: "trim (trim s) = trim s"
proof -
  have "match_len whitespace_encodings (trim s) = 0"
    using match_len_prefix_0 [OF whitespace_encodings_nonempty _ trim_prefix_of_trim_start]
    by (simp add: trim_start_def)
  then have "trim_start (trim s) = trim s"
    by (simp add: trim_start_def strip_front_id)
  then show ?thesis
    by (simp add: trim_def trim_end_def strip_front_id)
qed

text \<open>A byte-wise rewriting that neither changes nor produces a byte of an encoding commutes
  with trimming.\<close>

definition keeps_bytes :: "char set \<Rightarrow> (char \<Rightarrow> char) \<Rightarrow> bool" where
  "keeps_bytes W f \<longleftrightarrow> (\<forall>c. c \<in> W \<or> f c \<in> W \<longrightarrow> f c = c)"

lemma prefix_map_keeps:
  "keeps_bytes W f \<Longrightarrow> set w \<subseteq> W \<Longrightarrow> prefix w (map f s) \<longleftrightarrow> prefix w s"
proof (induction w arbitrary: s)
  case (Cons b w)
  then show ?case by (cases s) (auto simp: keeps_bytes_def)
qed simp

lemma match_len_map_keeps:
  assumes "keeps_bytes W f" "\<forall>w \<in> set ws. set w \<subseteq> W"
  shows "match_len ws (map f s) = match_len ws s"
proof -
  have "List.find (\<lambda>w. prefix w (map f s)) ws = List.find (\<lambda>w. prefix w s) ws"
    using assms by (intro find_cong) (auto simp: prefix_map_keeps)
  then show ?thesis by (simp add: match_len_def)
qed

lemma strip_front_map_keeps:
  assumes "keeps_bytes W f" "\<forall>w \<in> set ws. set w \<subseteq> W"
  shows "strip_front ws (map f s) = map f (strip_front ws s)"
  using assms
proof (induction ws s rule: strip_front.induct)
  case (1 ws s)
  have m: "match_len ws (map f s) = match_len ws s"
    using 1 by (intro match_len_map_keeps) auto
  show ?case
  proof (cases "match_len ws s = 0")
    case False
    with 1 m show ?thesis
      by (simp add: strip_front.simps [of ws s] strip_front.simps [of ws "map f s"] flip: drop_map)
  qed (simp add: strip_front_id m)
qed

abbreviation whitespace_bytes :: "char set" where
  "whitespace_bytes \<equiv> \<Union> (set ` set whitespace_encodings)"

lemma trim_map_keeps: "keeps_bytes whitespace_bytes f \<Longrightarrow> trim (map f s) = map f (trim s)"
proof -
  assume k: "keeps_bytes whitespace_bytes f"
  have "strip_front whitespace_encodings (map f s) = map f (strip_front whitespace_encodings s)" for s
    using k by (rule strip_front_map_keeps) auto
  moreover have "strip_front (map rev whitespace_encodings) (map f s) =
      map f (strip_front (map rev whitespace_encodings) s)" for s
    using k by (rule strip_front_map_keeps) auto
  ultimately show ?thesis
    by (simp add: trim_def trim_start_def trim_end_def rev_map)
qed

lemma trim_no_whitespace: "set s \<inter> whitespace_bytes = {} \<Longrightarrow> trim s = s"
proof -
  assume none: "set s \<inter> whitespace_bytes = {}"
  have "\<not> prefix w t" if "w \<in> set whitespace_encodings \<union> set (map rev whitespace_encodings)" "set t = set s"
    for w t
  proof -
    have "w \<noteq> []" and sub: "set w \<subseteq> whitespace_bytes"
      using that whitespace_encodings_nonempty by auto
    then obtain b where "b \<in> set w" by (cases w) auto
    then show ?thesis using sub none that(2) set_mono_prefix [of w t] by blast
  qed
  then have "match_len whitespace_encodings s = 0" "match_len (map rev whitespace_encodings) (rev s) = 0"
    using whitespace_encodings_nonempty by (subst match_len_0_iff, auto)+
  then show ?thesis by (simp add: trim_def trim_start_def trim_end_def strip_front_id)
qed

lemma in_map_filter: "y \<in> set (List.map_filter f xs) \<longleftrightarrow> (\<exists>x \<in> set xs. f x = Some y)"
  by (induction xs) (auto simp: List.map_filter_simps split: option.splits)

end
