(* ===== verification/Ids.thy ===== *)
theory Ids
  imports Cuma_Prelude
begin

text \<open>
  The identifiers of \<open>cuma-core/src/ids.rs\<close>: each is a newtype over a string whose
  derived \<open>Ord\<close> is the order of the strings. \<open>generate()\<close> draws a random
  UUID; operations that call it take the fresh identifier as an argument.
\<close>

datatype agent_id = AgentId (agent_str: string)

instantiation agent_id :: linorder
begin

definition less_eq_agent_id :: "agent_id \<Rightarrow> agent_id \<Rightarrow> bool" where
  "x \<le> y \<longleftrightarrow> agent_str x \<le> agent_str y"

definition less_agent_id :: "agent_id \<Rightarrow> agent_id \<Rightarrow> bool" where
  "x < y \<longleftrightarrow> agent_str x < agent_str y"

instance
  by standard (auto simp: less_eq_agent_id_def less_agent_id_def agent_id.expand)

end

lemma less_agent_id_code [simp, code]: "AgentId a < AgentId b \<longleftrightarrow> a < b"
  by (simp add: less_agent_id_def)

datatype model_id = ModelId (model_str: string)

instantiation model_id :: linorder
begin

definition less_eq_model_id :: "model_id \<Rightarrow> model_id \<Rightarrow> bool" where
  "x \<le> y \<longleftrightarrow> model_str x \<le> model_str y"

definition less_model_id :: "model_id \<Rightarrow> model_id \<Rightarrow> bool" where
  "x < y \<longleftrightarrow> model_str x < model_str y"

instance
  by standard (auto simp: less_eq_model_id_def less_model_id_def model_id.expand)

end

lemma less_model_id_code [simp, code]: "ModelId a < ModelId b \<longleftrightarrow> a < b"
  by (simp add: less_model_id_def)

datatype task_id = TaskId (task_str: string)

instantiation task_id :: linorder
begin

definition less_eq_task_id :: "task_id \<Rightarrow> task_id \<Rightarrow> bool" where
  "x \<le> y \<longleftrightarrow> task_str x \<le> task_str y"

definition less_task_id :: "task_id \<Rightarrow> task_id \<Rightarrow> bool" where
  "x < y \<longleftrightarrow> task_str x < task_str y"

instance
  by standard (auto simp: less_eq_task_id_def less_task_id_def task_id.expand)

end

lemma less_task_id_code [simp, code]: "TaskId a < TaskId b \<longleftrightarrow> a < b"
  by (simp add: less_task_id_def)

datatype attempt_id = AttemptId (attempt_str: string)

datatype session_id = SessionId (session_str: string)

end
