(* ===== verification/Errors.thy ===== *)
theory Errors
  imports Ids
begin

text \<open>
  \<open>cuma-core/src/error.rs\<close> and \<open>cuma-resilience/src/classify.rs\<close>: the
  error classes, the predicates the retry policy and the breakers key on, the harness error
  with its class and its message, and the classification of free-text failures.
\<close>

section \<open>Error classes\<close>

datatype error_class =
    RateLimit | QuotaExceeded | AuthenticationFailure | AgentCrash | Timeout | ProtocolError
  | ContextOverflow | ToolFailure | ModelUnavailable | ConnectionFailure | InvalidResponse
  | TaskFailure | SecurityViolation | Configuration | Cancelled | Unknown

definition is_retryable_on_same_target :: "error_class \<Rightarrow> bool" where
  "is_retryable_on_same_target c = (c \<in> {RateLimit, Timeout, ConnectionFailure, Unknown})"

definition is_reroutable :: "error_class \<Rightarrow> bool" where
  "is_reroutable c =
     (c \<in> {RateLimit, QuotaExceeded, AgentCrash, Timeout, ProtocolError, ModelUnavailable,
           ConnectionFailure, InvalidResponse, ToolFailure, Unknown})"

definition counts_against_health :: "error_class \<Rightarrow> bool" where
  "counts_against_health c =
     (c \<notin> {Cancelled, Configuration, SecurityViolation, ContextOverflow})"

definition requires_replan :: "error_class \<Rightarrow> bool" where
  "requires_replan c = (c \<in> {ContextOverflow, TaskFailure})"

lemmas error_class_tables [enum_simps] =
  is_retryable_on_same_target_def is_reroutable_def counts_against_health_def requires_replan_def

text \<open>The derived \<open>Debug\<close> rendering, which the reasons of the retry policy embed.\<close>

fun debug_error_class :: "error_class \<Rightarrow> string" where
  "debug_error_class RateLimit = ''RateLimit''"
| "debug_error_class QuotaExceeded = ''QuotaExceeded''"
| "debug_error_class AuthenticationFailure = ''AuthenticationFailure''"
| "debug_error_class AgentCrash = ''AgentCrash''"
| "debug_error_class Timeout = ''Timeout''"
| "debug_error_class ProtocolError = ''ProtocolError''"
| "debug_error_class ContextOverflow = ''ContextOverflow''"
| "debug_error_class ToolFailure = ''ToolFailure''"
| "debug_error_class ModelUnavailable = ''ModelUnavailable''"
| "debug_error_class ConnectionFailure = ''ConnectionFailure''"
| "debug_error_class InvalidResponse = ''InvalidResponse''"
| "debug_error_class TaskFailure = ''TaskFailure''"
| "debug_error_class SecurityViolation = ''SecurityViolation''"
| "debug_error_class Configuration = ''Configuration''"
| "debug_error_class Cancelled = ''Cancelled''"
| "debug_error_class Unknown = ''Unknown''"

section \<open>The harness error\<close>

text \<open>The boxed source error of the protocol variant is kept as its rendered text.\<close>

datatype meta_agent_error =
    EProtocol string string "string option"
  | EAgent agent_id string error_class
  | EModel model_id string
  | ERouting task_id string
  | EAuthentication string string
  | ETimeout string u64
  | ERateLimit agent_id "u64 option"
  | ESkill string
  | EMemory string
  | ETool string string
  | ESecurity string
  | EConfiguration string
  | EPersistence string
  | ECancelled string
  | EOther string

type_synonym 'a result = "meta_agent_error + 'a"

fun error_class_of :: "meta_agent_error \<Rightarrow> error_class" where
  "error_class_of (EProtocol _ _ _) = ProtocolError"
| "error_class_of (EAgent _ _ c) = c"
| "error_class_of (EModel _ _) = ModelUnavailable"
| "error_class_of (ERouting _ _) = Configuration"
| "error_class_of (EAuthentication _ _) = AuthenticationFailure"
| "error_class_of (ETimeout _ _) = Timeout"
| "error_class_of (ERateLimit _ _) = RateLimit"
| "error_class_of (ESkill _) = ToolFailure"
| "error_class_of (EMemory _) = Unknown"
| "error_class_of (ETool _ _) = ToolFailure"
| "error_class_of (ESecurity _) = SecurityViolation"
| "error_class_of (EConfiguration _) = Configuration"
| "error_class_of (EPersistence _) = Unknown"
| "error_class_of (ECancelled _) = Cancelled"
| "error_class_of (EOther _) = Unknown"

text \<open>The \<open>#[error(...)]\<close> messages.\<close>

fun display_error :: "meta_agent_error \<Rightarrow> string" where
  "display_error (EProtocol p m _) = ''protocol error on '' @ p @ '' adapter: '' @ m"
| "display_error (EAgent a m _) = ''agent '' @ agent_str a @ '' failed: '' @ m"
| "display_error (EModel d m) = ''model '' @ model_str d @ '' unavailable: '' @ m"
| "display_error (ERouting t r) = ''no agent could be routed for task '' @ task_str t @ '': '' @ r"
| "display_error (EAuthentication t m) = ''authentication failed for '' @ t @ '': '' @ m"
| "display_error (ETimeout p ms) = p @ '' timed out after '' @ show_word ms @ ''ms''"
| "display_error (ERateLimit a r) = ''rate limited by '' @ agent_str a @
     (case r of None \<Rightarrow> [] | Some ms \<Rightarrow> '', retry after '' @ show_word ms @ ''ms'')"
| "display_error (ESkill m) = ''skill error: '' @ m"
| "display_error (EMemory m) = ''memory error: '' @ m"
| "display_error (ETool t m) = ''tool '' @ t @ '' failed: '' @ m"
| "display_error (ESecurity m) = ''security policy violation: '' @ m"
| "display_error (EConfiguration m) = ''configuration error: '' @ m"
| "display_error (EPersistence m) = ''persistence error: '' @ m"
| "display_error (ECancelled m) = ''operation cancelled: '' @ m"
| "display_error (EOther m) = m"

section \<open>Classification of messages\<close>

definition contains_one_of :: "string \<Rightarrow> string list \<Rightarrow> bool" where
  "contains_one_of m ns = list_ex (str_contains m) ns"

definition classify_message :: "string \<Rightarrow> error_class" where
  "classify_message message =
     (let m = to_ascii_lowercase message in
      if contains_one_of m [''quota'', ''insufficient_quota'', ''billing''] then QuotaExceeded
      else if contains_one_of m [''rate limit'', ''rate_limit'', ''429'', ''too many requests'']
      then RateLimit
      else if contains_one_of m [''unauthorized'', ''401'', ''403'', ''forbidden'',
          ''invalid api key'', ''authentication'']
      then AuthenticationFailure
      else if contains_one_of m [''context length'', ''context window'', ''too many tokens'',
          ''maximum context'']
      then ContextOverflow
      else if contains_one_of m [''timeout'', ''timed out'', ''deadline exceeded''] then Timeout
      else if contains_one_of m [''connection refused'', ''connection reset'', ''broken pipe'',
          ''dns'', ''unreachable'']
      then ConnectionFailure
      else if contains_one_of m [''exited with'', ''killed'', ''signal'', ''panicked'', ''crash'']
      then AgentCrash
      else if contains_one_of m [''model not found'', ''unknown model'', ''model unavailable'',
          ''overloaded'']
      then ModelUnavailable
      else if contains_one_of m [''jsonrpc'', ''json-rpc'', ''protocol''] then ProtocolError
      else if str_contains m ''cancel'' then Cancelled
      else Unknown)"

text \<open>Case never matters to the classifier.\<close>

lemma classify_message_lower: "classify_message (to_ascii_lowercase m) = classify_message m"
  by (simp add: classify_message_def)

text \<open>
  What a failure message alone can and cannot say: the classifier never reports a class that
  needs structured knowledge (a security refusal, a local misconfiguration, a failed tool or
  task, an unusable reply).
\<close>

lemma classify_message_range:
  "classify_message m \<in>
     {QuotaExceeded, RateLimit, AuthenticationFailure, ContextOverflow, Timeout,
      ConnectionFailure, AgentCrash, ModelUnavailable, ProtocolError, Cancelled, Unknown}"
  by (simp add: classify_message_def Let_def)

lemma classify_message_quota_first:
  "str_contains (to_ascii_lowercase m) ''quota'' \<Longrightarrow> classify_message m = QuotaExceeded"
  by (simp add: classify_message_def contains_one_of_def)

end
