(* ===== verification/F64.thy ===== *)
theory F64
  imports Cuma_Prelude Complex_Main "HOL-Library.Log_Nat"
begin

text \<open>
  IEEE 754 binary64, the \<open>f64\<close> of the sources. A finite value is the rational it
  denotes; the result of an operation is the exact rational rounded to 53 significant bits,
  half to even, with the subnormal threshold \<open>2 ^ (-1074)\<close>, and overflow to an
  infinity above \<open>(2 ^ 53 - 1) * 2 ^ 971\<close>. The two zeros are one value: no code
  modelled here divides by a zero it computed or reads the sign of a zero.
  A decimal literal of the sources is the rounding of the decimal (\<open>flit\<close>).

  The lemmas show what the scoring code needs of rounding: it is monotone, it keeps
  integers up to \<open>2 ^ 53\<close>, and so clamped values stay in their interval.
\<close>

section \<open>Rounding\<close>

definition rne :: "rat \<Rightarrow> int" where
  "rne x =
     (let f = \<lfloor>x\<rfloor>; d = x - of_int f in
      if d < 1 / 2 then f else if d > 1 / 2 then f + 1 else if even f then f else f + 1)"

definition ilog2 :: "rat \<Rightarrow> int" where
  "ilog2 q =
     (let (n, d) = quotient_of q; l = bitlen n - bitlen d in
      if 2 powi l \<le> q then l else l - 1)"

definition fexp :: "rat \<Rightarrow> int" where
  "fexp q = max (ilog2 q - 52) (- 1074)"

definition round_pos :: "rat \<Rightarrow> rat" where
  "round_pos q = of_int (rne (q / 2 powi fexp q)) * 2 powi fexp q"

definition fround :: "rat \<Rightarrow> rat" where
  "fround q = (if q = 0 then 0 else if q > 0 then round_pos q else - round_pos (- q))"

lemma rne_of_int [simp]: "rne (of_int k) = k"
  by (simp add: rne_def)

lemma rne_0 [simp]: "rne 0 = 0" and rne_numeral [simp]: "rne (numeral k) = numeral k"
  using rne_of_int [of 0] rne_of_int [of "numeral k"] by simp_all

lemma rne_cases: "rne x = \<lfloor>x\<rfloor> \<or> rne x = \<lfloor>x\<rfloor> + 1"
  by (simp add: rne_def Let_def)

lemma rne_mono:
  assumes "x \<le> y"
  shows "rne x \<le> rne y"
proof (cases "\<lfloor>x\<rfloor> = \<lfloor>y\<rfloor>")
  case True
  with assms show ?thesis by (auto simp: rne_def Let_def)
next
  case False
  with assms have "\<lfloor>x\<rfloor> + 1 \<le> \<lfloor>y\<rfloor>"
    using floor_mono [of x y] by linarith
  with rne_cases [of x] rne_cases [of y] show ?thesis by linarith
qed

lemma powi2_pos [simp]: "0 < (2::rat) powi k"
  by (simp add: zero_less_power_int)

lemma powi2_nz [simp]: "(2::rat) powi k \<noteq> 0"
  using powi2_pos [of k] by linarith

lemma powi2_add: "(2::rat) powi (a + b) = 2 powi a * 2 powi b"
  by (rule power_int_add) simp

lemma powi2_mono: "a \<le> b \<Longrightarrow> (2::rat) powi a \<le> 2 powi b"
  by (rule power_int_increasing) simp_all

lemma powi2_le_cancel: "(2::rat) powi a < 2 powi b \<Longrightarrow> a < b"
  using powi2_mono [of b a] by linarith

lemma bitlen_powi_bounds:
  assumes "0 < (n::int)"
  shows "(2::rat) powi (bitlen n - 1) \<le> of_int n" and "of_int n < (2::rat) powi bitlen n"
proof -
  have b: "bitlen n \<ge> 1"
    using assms bitlen_eq_zero_iff [of n] bitlen_nonneg [of n] by linarith
  have *: "2 ^ nat (bitlen n - 1) \<le> n" "n < 2 ^ nat (bitlen n)"
    using bitlen_bounds [OF assms] by auto
  from *(1) have "(of_int (2 ^ nat (bitlen n - 1)) :: rat) \<le> of_int n"
    by (simp only: of_int_le_iff)
  then show "(2::rat) powi (bitlen n - 1) \<le> of_int n"
    using b by (simp add: power_int_def)
  from *(2) have "(of_int n :: rat) < of_int (2 ^ nat (bitlen n))"
    by (simp only: of_int_less_iff)
  then show "of_int n < (2::rat) powi bitlen n"
    using b by (simp add: power_int_def)
qed

lemma ilog2_bounds:
  assumes "0 < q"
  shows "2 powi ilog2 q \<le> q" and "q < 2 powi (ilog2 q + 1)"
proof -
  obtain n d where nd: "quotient_of q = (n, d)" by fastforce
  have d: "0 < d" using quotient_of_denom_pos [OF nd] .
  have q: "q = of_int n / of_int d" using quotient_of_div [OF nd] .
  with assms d have n: "0 < n"
    by (simp add: zero_less_divide_iff)
  let ?l = "bitlen n - bitlen d"
  have "q < 2 powi bitlen n / 2 powi (bitlen d - 1)"
    unfolding q using bitlen_powi_bounds [OF n] bitlen_powi_bounds [OF d] d n
    by (intro frac_less) auto
  also have "\<dots> = 2 powi (?l + 1)"
    using power_int_diff [of "2::rat" "bitlen n" "bitlen d - 1"] by (simp add: algebra_simps)
  finally have up: "q < 2 powi (?l + 1)" .
  have "2 powi (bitlen n - 1) / 2 powi bitlen d < q"
    unfolding q using bitlen_powi_bounds [OF n] bitlen_powi_bounds [OF d] d n
    by (intro frac_less2) auto
  moreover have "(2::rat) powi (bitlen n - 1) / 2 powi bitlen d = 2 powi (?l - 1)"
    using power_int_diff [of "2::rat" "bitlen n - 1" "bitlen d"] by (simp add: algebra_simps)
  ultimately have lo: "2 powi (?l - 1) < q" by simp
  show "2 powi ilog2 q \<le> q" "q < 2 powi (ilog2 q + 1)"
    using up lo by (auto simp: ilog2_def nd Let_def)
qed

lemma ilog2_mono: "0 < p \<Longrightarrow> p \<le> q \<Longrightarrow> ilog2 p \<le> ilog2 q"
proof -
  assume pq: "0 < p" "p \<le> q"
  then have "(2::rat) powi ilog2 p < 2 powi (ilog2 q + 1)"
    using ilog2_bounds(1) [of p] ilog2_bounds(2) [of q] by linarith
  then show ?thesis using powi2_le_cancel by fastforce
qed

lemma fexp_mono: "0 < p \<Longrightarrow> p \<le> q \<Longrightarrow> fexp p \<le> fexp q"
  using ilog2_mono [of p q] by (simp add: fexp_def max_def)

lemma scaled_upper:
  assumes "0 < q"
  shows "q / 2 powi fexp q \<le> 2 ^ 53"
proof -
  have "q < 2 powi (ilog2 q + 1)" by (rule ilog2_bounds(2) [OF assms])
  also have "\<dots> \<le> 2 powi (53 + fexp q)" by (rule powi2_mono) (simp add: fexp_def)
  also have "\<dots> = 2 ^ 53 * 2 powi fexp q" by (subst powi2_add) (simp add: power_int_def)
  finally show ?thesis by (simp add: field_simps)
qed

lemma scaled_lower:
  assumes "0 < q" and "- 1074 < fexp q"
  shows "2 ^ 52 \<le> q / 2 powi fexp q"
proof -
  have "52 + fexp q = ilog2 q" using assms(2) by (simp add: fexp_def max_def split: if_splits)
  then have "2 ^ 52 * 2 powi fexp q = (2::rat) powi ilog2 q"
    using powi2_add [of 52 "fexp q"] by (simp add: power_int_def)
  also have "\<dots> \<le> q" by (rule ilog2_bounds(1) [OF assms(1)])
  finally show ?thesis by (simp add: field_simps)
qed

lemma round_pos_mono:
  assumes "0 < p" "p \<le> q"
  shows "round_pos p \<le> round_pos q"
proof (cases "fexp p = fexp q")
  case True
  have "p / 2 powi fexp p \<le> q / 2 powi fexp q"
    using assms True by (simp add: divide_right_mono)
  then have "rne (p / 2 powi fexp p) \<le> rne (q / 2 powi fexp q)" by (rule rne_mono)
  then show ?thesis unfolding round_pos_def True by (simp add: mult_right_mono)
next
  case False
  with fexp_mono [OF assms] have lt: "fexp p < fexp q" by simp
  then have "- 1074 < fexp q" using fexp_def [of p] by linarith
  then have "rne (of_int (2 ^ 52)) \<le> rne (q / 2 powi fexp q)"
    using assms scaled_lower [of q] by (intro rne_mono) simp
  then have "(2 ^ 52 :: int) \<le> rne (q / 2 powi fexp q)" by simp
  then have hi: "(2 ^ 52 :: rat) * 2 powi fexp q \<le> round_pos q"
    unfolding round_pos_def by (intro mult_right_mono) (use of_int_le_iff in fastforce)+
  have "rne (p / 2 powi fexp p) \<le> rne (of_int (2 ^ 53))"
    using assms scaled_upper [of p] by (intro rne_mono) simp
  then have "rne (p / 2 powi fexp p) \<le> (2 ^ 53 :: int)" by simp
  then have "(of_int (rne (p / 2 powi fexp p)) :: rat) \<le> of_int (2 ^ 53)"
    by (simp only: of_int_le_iff)
  then have "round_pos p \<le> 2 ^ 53 * 2 powi fexp p"
    unfolding round_pos_def by (intro mult_right_mono) (simp_all add: less_imp_le)
  also have "\<dots> = 2 ^ 52 * 2 powi (1 + fexp p)" by (simp add: powi2_add)
  also have "\<dots> \<le> 2 ^ 52 * 2 powi fexp q" using lt by (intro mult_left_mono powi2_mono) auto
  finally show ?thesis using hi by linarith
qed

lemma round_pos_nonneg: "0 < q \<Longrightarrow> 0 \<le> round_pos q"
proof -
  assume "0 < q"
  then have "rne (of_int 0) \<le> rne (q / 2 powi fexp q)" by (intro rne_mono) (simp add: less_imp_le)
  then show ?thesis unfolding round_pos_def by simp
qed

lemma fround_0 [simp]: "fround 0 = 0"
  by (simp add: fround_def)

lemma fround_minus: "fround (- q) = - fround q"
  by (auto simp: fround_def)

lemma fround_mono: "p \<le> q \<Longrightarrow> fround p \<le> fround q"
proof -
  assume le: "p \<le> q"
  consider "0 < p" | "p \<le> 0" "0 \<le> q" | "q < 0" by linarith
  then show ?thesis
  proof cases
    case 1
    with le show ?thesis by (simp add: fround_def round_pos_mono)
  next
    case 2
    then have "fround p \<le> 0" "0 \<le> fround q"
      using round_pos_nonneg [of "- p"] round_pos_nonneg [of q] by (auto simp: fround_def)
    then show ?thesis by linarith
  next
    case 3
    with le show ?thesis by (simp add: fround_def round_pos_mono)
  qed
qed

lemma fround_nonneg: "0 \<le> q \<Longrightarrow> 0 \<le> fround q"
  using fround_mono [of 0 q] by simp

text \<open>A value that is already a multiple of its own unit in the last place is kept.\<close>

lemma round_pos_exact: "q / 2 powi fexp q = of_int k \<Longrightarrow> round_pos q = q"
proof -
  assume k: "q / 2 powi fexp q = of_int k"
  then have "q = of_int k * 2 powi fexp q" by (simp add: field_simps)
  then show ?thesis using k unfolding round_pos_def by simp
qed

lemma fround_nat_exact:
  assumes "n \<le> 2 ^ 53"
  shows "fround (of_nat n) = of_nat n"
proof (cases "n = 0 \<or> n = 2 ^ 53")
  case True
  moreover have "fround (9007199254740992) = 9007199254740992" by code_simp
  ultimately show ?thesis by auto
next
  case False
  with assms have n: "0 < n" "n < 2 ^ 53" by auto
  let ?q = "of_nat n :: rat"
  have "(2::rat) powi ilog2 ?q \<le> ?q" using n by (intro ilog2_bounds(1)) simp
  also have "?q < of_nat (2 ^ 53)" using n by (simp only: of_nat_less_iff)
  also have "of_nat (2 ^ 53) = (2::rat) powi 53" by (simp add: power_int_def)
  finally have "ilog2 ?q < 53" by (rule powi2_le_cancel)
  then have e: "fexp ?q \<le> 0" by (simp add: fexp_def)
  have "?q / 2 powi fexp ?q = ?q * 2 powi (- fexp ?q)"
    by (simp add: power_int_minus field_simps)
  also have "\<dots> = of_int (int n * 2 ^ nat (- fexp ?q))"
    using e by (simp add: power_int_def)
  finally have "round_pos ?q = ?q" by (rule round_pos_exact)
  then show ?thesis using n by (simp add: fround_def)
qed

lemma fround_1 [simp]: "fround 1 = 1"
  using fround_nat_exact [of 1] by simp

section \<open>Values and operations\<close>

datatype f64 = Fin rat | PInf | NInf | NaN

definition f64_max :: rat where
  "f64_max = (2 ^ 53 - 1) * 2 ^ 971"

definition flit :: "rat \<Rightarrow> f64" where
  "flit q = (let r = fround q in
     if r > f64_max then PInf else if r < - f64_max then NInf else Fin r)"

fun fneg :: "f64 \<Rightarrow> f64" where
  "fneg (Fin a) = Fin (- a)"
| "fneg PInf = NInf"
| "fneg NInf = PInf"
| "fneg NaN = NaN"

fun fadd :: "f64 \<Rightarrow> f64 \<Rightarrow> f64" where
  "fadd NaN y = NaN"
| "fadd x NaN = NaN"
| "fadd (Fin a) (Fin b) = flit (a + b)"
| "fadd PInf NInf = NaN"
| "fadd NInf PInf = NaN"
| "fadd PInf y = PInf"
| "fadd NInf y = NInf"
| "fadd x PInf = PInf"
| "fadd x NInf = NInf"

definition fsub :: "f64 \<Rightarrow> f64 \<Rightarrow> f64" where
  "fsub x y = fadd x (fneg y)"

definition signed_inf :: "rat \<Rightarrow> f64" where
  "signed_inf s = (if s > 0 then PInf else if s < 0 then NInf else NaN)"

fun fmul :: "f64 \<Rightarrow> f64 \<Rightarrow> f64" where
  "fmul NaN y = NaN"
| "fmul x NaN = NaN"
| "fmul (Fin a) (Fin b) = flit (a * b)"
| "fmul (Fin a) PInf = signed_inf a"
| "fmul (Fin a) NInf = signed_inf (- a)"
| "fmul PInf (Fin b) = signed_inf b"
| "fmul NInf (Fin b) = signed_inf (- b)"
| "fmul PInf PInf = PInf"
| "fmul NInf NInf = PInf"
| "fmul PInf NInf = NInf"
| "fmul NInf PInf = NInf"

fun fdiv :: "f64 \<Rightarrow> f64 \<Rightarrow> f64" where
  "fdiv NaN y = NaN"
| "fdiv x NaN = NaN"
| "fdiv (Fin a) (Fin b) = (if b = 0 then signed_inf a else flit (a / b))"
| "fdiv (Fin a) y = Fin 0"
| "fdiv PInf (Fin b) = (if b < 0 then NInf else PInf)"
| "fdiv NInf (Fin b) = (if b < 0 then PInf else NInf)"
| "fdiv x y = NaN"

fun flt :: "f64 \<Rightarrow> f64 \<Rightarrow> bool" where
  "flt NaN y = False"
| "flt x NaN = False"
| "flt (Fin a) (Fin b) = (a < b)"
| "flt NInf y = (y \<noteq> NInf)"
| "flt x PInf = (x \<noteq> PInf)"
| "flt x y = False"

fun fle :: "f64 \<Rightarrow> f64 \<Rightarrow> bool" where
  "fle NaN y = False"
| "fle x NaN = False"
| "fle (Fin a) (Fin b) = (a \<le> b)"
| "fle NInf y = True"
| "fle x PInf = True"
| "fle x y = False"

text \<open>\<open>f64::min\<close> and \<open>f64::max\<close> ignore a NaN operand; \<open>f64::clamp\<close> keeps it.\<close>

definition fmin :: "f64 \<Rightarrow> f64 \<Rightarrow> f64" where
  "fmin x y = (if x = NaN then y else if y = NaN then x else if flt y x then y else x)"

definition fmax :: "f64 \<Rightarrow> f64 \<Rightarrow> f64" where
  "fmax x y = (if x = NaN then y else if y = NaN then x else if flt x y then y else x)"

definition fclamp :: "f64 \<Rightarrow> f64 \<Rightarrow> f64 \<Rightarrow> f64" where
  "fclamp x lo hi = (let y = (if flt x lo then lo else x) in if flt hi y then hi else y)"

definition is_finite :: "f64 \<Rightarrow> bool" where
  "is_finite x = (case x of Fin _ \<Rightarrow> True | _ \<Rightarrow> False)"

text \<open>\<open>as f64\<close> of an unsigned integer, and the saturating cast \<open>as u64\<close>.\<close>

definition f64_of_nat :: "nat \<Rightarrow> f64" where
  "f64_of_nat n = flit (of_nat n)"

definition word_to_f64 :: "'a::len word \<Rightarrow> f64" where
  "word_to_f64 n = f64_of_nat (unat n)"

fun f64_to_u64 :: "f64 \<Rightarrow> u64" where
  "f64_to_u64 (Fin q) =
     (if q \<le> 0 then 0 else if \<lfloor>q\<rfloor> \<ge> 2 ^ 64 then - 1 else word_of_int \<lfloor>q\<rfloor>)"
| "f64_to_u64 PInf = - 1"
| "f64_to_u64 NInf = 0"
| "f64_to_u64 NaN = 0"

abbreviation f0 :: f64 where "f0 \<equiv> Fin 0"
abbreviation f1 :: f64 where "f1 \<equiv> Fin 1"

text \<open>\<open>format!("{:.n}")\<close>: the exact value rounded to \<open>n\<close> decimals, half to even.\<close>

fun fmt_fixed :: "nat \<Rightarrow> f64 \<Rightarrow> string" where
  "fmt_fixed n (Fin q) =
     (let k = nat (rne (\<bar>q\<bar> * 10 ^ n));
          frac = show_nat (k mod 10 ^ n);
          pad = replicate (n - length frac) CHR ''0''
      in (if q < 0 then ''-'' else []) @ show_nat (k div 10 ^ n)
         @ (if n = 0 then [] else ''.'' @ pad @ frac))"
| "fmt_fixed n PInf = ''inf''"
| "fmt_fixed n NInf = ''-inf''"
| "fmt_fixed n NaN = ''NaN''"

section \<open>Laws\<close>

lemma f64_max_gt: "(2::rat) ^ 64 < f64_max"
  by (simp add: f64_max_def)

lemma f64_max_pos: "0 < f64_max"
  using f64_max_gt by (rule less_trans [rotated]) simp

lemma flit_range:
  assumes "0 \<le> q" "q \<le> 1"
  shows "\<exists>r. flit q = Fin r \<and> 0 \<le> r \<and> r \<le> 1"
proof -
  have "0 \<le> fround q" "fround q \<le> 1"
    using fround_nonneg [of q] fround_mono [of q 1] assms by auto
  moreover have "1 < f64_max" using f64_max_gt by simp
  ultimately show ?thesis by (auto simp: flit_def Let_def)
qed

lemma flit_nat_exact: "n \<le> 2 ^ 53 \<Longrightarrow> flit (of_nat n) = Fin (of_nat n)"
proof -
  assume n: "n \<le> 2 ^ 53"
  then have "(of_nat n :: rat) \<le> of_nat (2 ^ 53)" by (simp only: of_nat_le_iff)
  then have "(of_nat n :: rat) \<le> f64_max" using f64_max_gt by simp
  moreover have "- f64_max \<le> (of_nat n :: rat)"
    using f64_max_pos of_nat_0_le_iff [of n, where ?'a = rat] by linarith
  ultimately show ?thesis using n by (simp add: flit_def fround_nat_exact Let_def)
qed

lemma flit_0_1 [simp]: "flit 0 = f0" "flit 1 = f1"
  using flit_nat_exact [of 0] flit_nat_exact [of 1] by simp_all

lemma flit_not_NaN [simp]: "flit q \<noteq> NaN"
  by (simp add: flit_def Let_def)

lemma flit_mono_le: "p \<le> q \<Longrightarrow> fle (flit p) (flit q)"
  using fround_mono [of p q] f64_max_gt
  by (auto simp: flit_def Let_def not_less)

lemma flit_nonneg: "0 \<le> q \<Longrightarrow> fle f0 (flit q)"
  using flit_mono_le [of 0 q] f64_max_gt by (simp add: flit_def Let_def)

lemma fle_refl: "x \<noteq> NaN \<Longrightarrow> fle x x"
  by (cases x) auto

lemma fle_trans: "fle x y \<Longrightarrow> fle y z \<Longrightarrow> fle x z"
  by (cases x; cases y; cases z) auto

lemma fle_total: "x \<noteq> NaN \<Longrightarrow> y \<noteq> NaN \<Longrightarrow> fle x y \<or> fle y x"
  by (cases x; cases y) auto

lemma flt_iff_not_fle: "x \<noteq> NaN \<Longrightarrow> y \<noteq> NaN \<Longrightarrow> flt x y \<longleftrightarrow> \<not> fle y x"
  by (cases x; cases y) auto

lemma fle_PInf [simp]: "x \<noteq> NaN \<Longrightarrow> fle x PInf"
  by (cases x) auto

lemma fle_NaN [simp]: "\<not> fle NaN x" "\<not> fle x NaN"
  by (cases x, auto)+

lemma flt_NaN [simp]: "\<not> flt NaN x" "\<not> flt x NaN"
  by (cases x, auto)+

text \<open>The unit interval: what every score of the router lives in.\<close>

definition unit_range :: "f64 \<Rightarrow> bool" where
  "unit_range x \<longleftrightarrow> fle f0 x \<and> fle x f1"

lemma unit_range_cases: "unit_range x \<longleftrightarrow> (\<exists>q. x = Fin q \<and> 0 \<le> q \<and> q \<le> 1)"
  by (cases x) (auto simp: unit_range_def)

lemma unit_range_not_NaN: "unit_range x \<Longrightarrow> x \<noteq> NaN"
  by (auto simp: unit_range_cases)

lemma fclamp_unit: "x \<noteq> NaN \<Longrightarrow> unit_range (fclamp x f0 f1)"
  by (cases x) (auto simp: fclamp_def unit_range_cases Let_def)

lemma fclamp_unit_id: "unit_range x \<Longrightarrow> fclamp x f0 f1 = x"
  by (auto simp: fclamp_def unit_range_cases Let_def)

lemma fclamp_NaN [simp]: "fclamp NaN lo hi = NaN"
  by (cases hi) (simp_all add: fclamp_def)

lemma unit_range_flit: "0 \<le> q \<Longrightarrow> q \<le> 1 \<Longrightarrow> unit_range (flit q)"
  using flit_range [of q] by (auto simp: unit_range_cases)

lemma unit_range_0 [simp]: "unit_range f0" and unit_range_1 [simp]: "unit_range f1"
  by (simp_all add: unit_range_def)

lemma unit_range_mul: "unit_range x \<Longrightarrow> unit_range y \<Longrightarrow> unit_range (fmul x y)"
  by (auto simp: unit_range_cases intro!: flit_range mult_le_one)

lemma unit_range_one_minus: "unit_range x \<Longrightarrow> unit_range (fsub f1 x)"
  by (auto simp: unit_range_cases fsub_def intro!: flit_range)

lemma fadd_unit_not_NaN: "unit_range x \<Longrightarrow> unit_range y \<Longrightarrow> fadd x y \<noteq> NaN"
  by (auto simp: unit_range_cases)

text \<open>Sums of values that are neither NaN nor negative are neither NaN nor negative.\<close>

lemma fle_0_cases: "fle f0 x \<longleftrightarrow> x = PInf \<or> (\<exists>q. x = Fin q \<and> 0 \<le> q)"
  by (cases x) auto

lemma fadd_nonneg: "fle f0 x \<Longrightarrow> fle f0 y \<Longrightarrow> fle f0 (fadd x y)"
  by (cases x; cases y) (auto intro!: flit_nonneg)

lemma fadd_mono_nonneg: "fle x x' \<Longrightarrow> fle y y' \<Longrightarrow> fle f0 x \<Longrightarrow> fle f0 y \<Longrightarrow> fle (fadd x y) (fadd x' y')"
  by (cases x; cases y; cases x'; cases y') (auto intro!: flit_mono_le add_mono)

lemma fmul_nonneg_unit: "unit_range x \<Longrightarrow> fle f0 y \<Longrightarrow> y \<noteq> PInf \<Longrightarrow> fle f0 (fmul x y)"
  by (cases y) (auto simp: unit_range_cases intro!: flit_nonneg)

text \<open>The cast back to an integer keeps small naturals, and never exceeds a bound it was cut to.\<close>

lemma unat_f64_to_u64_le:
  assumes "fle x (Fin (of_nat n))"
  shows "unat (f64_to_u64 x) \<le> n"
proof (cases x)
  case (Fin q)
  with assms have q: "q \<le> of_nat n" by simp
  then have f: "\<lfloor>q\<rfloor> \<le> int n" by linarith
  show ?thesis
  proof (cases "0 < q \<and> \<lfloor>q\<rfloor> < 2 ^ 64")
    case True
    then have "0 \<le> \<lfloor>q\<rfloor>" by simp
    with True have "uint (word_of_int \<lfloor>q\<rfloor> :: u64) = \<lfloor>q\<rfloor>"
      by (simp add: uint_word_of_int_eq take_bit_int_eq_self)
    then have "int (unat (word_of_int \<lfloor>q\<rfloor> :: u64)) = \<lfloor>q\<rfloor>" by (simp only: uint_nat [symmetric])
    with f have "unat (word_of_int \<lfloor>q\<rfloor> :: u64) \<le> n" by linarith
    with True Fin show ?thesis by simp
  next
    case False
    have big: "unat (- 1 :: u64) \<le> n" if "2 ^ 64 \<le> \<lfloor>q\<rfloor>"
      using that f by (simp add: unat_minus_one_word_len) linarith
    show ?thesis
    proof (cases "q \<le> 0")
      case True
      with Fin show ?thesis by simp
    next
      case nonpos: False
      with False have "2 ^ 64 \<le> \<lfloor>q\<rfloor>" by linarith
      with nonpos Fin big show ?thesis by simp
    qed
  qed
qed (use assms in auto)

lemma fmin_le_right: "y \<noteq> NaN \<Longrightarrow> fle (fmin x y) y"
  using fle_total [of x y] by (cases "x = NaN") (auto simp: fmin_def fle_refl flt_iff_not_fle)

lemma fmax_zero_le: "fle x (Fin b) \<Longrightarrow> 0 \<le> b \<Longrightarrow> fle (fmax x f0) (Fin b)"
  by (auto simp: fmax_def)

lemma word_to_f64_exact: "unat n \<le> 2 ^ 53 \<Longrightarrow> word_to_f64 n = Fin (of_nat (unat n))"
  unfolding word_to_f64_def f64_of_nat_def by (rule flit_nat_exact)

text \<open>A finite value of the type is a value of the hardware format when rounding keeps it.\<close>

definition representable :: "f64 \<Rightarrow> bool" where
  "representable x = (case x of Fin q \<Rightarrow> fround q = q | _ \<Rightarrow> True)"

lemma fadd_ge_keep:
  assumes "representable v" "is_finite v" "fle f0 v" "fle v x" "fle f0 y"
  shows "fle v (fadd x y)"
proof (cases "x = PInf \<or> y = PInf")
  case True
  then show ?thesis using assms by (cases x; cases y; cases v) (auto simp: is_finite_def)
next
  case False
  obtain q where q: "v = Fin q" using assms(2) by (auto simp: is_finite_def split: f64.splits)
  obtain a b where ab: "x = Fin a" "y = Fin b" "q \<le> a" "0 \<le> b"
    using assms(4,5) False q by (cases x; cases y) auto
  have "fround q \<le> fround (a + b)" using ab by (intro fround_mono) simp
  then have "q \<le> fround (a + b)" using assms(1) q by (simp add: representable_def)
  moreover have "0 \<le> q" using assms(3) q by simp
  ultimately show ?thesis using q ab f64_max_pos by (auto simp: flit_def Let_def)
qed

lemma fadd_commute: "fadd x y = fadd y x"
  by (cases x; cases y) (simp_all add: add.commute)

lemma fadd_ge_right: "representable y \<Longrightarrow> is_finite y \<Longrightarrow> fle f0 x \<Longrightarrow> fle f0 y \<Longrightarrow> fle y (fadd x y)"
  using fadd_ge_keep [of y y x] fle_refl [of y] by (cases y) (simp_all add: fadd_commute)

lemma fdiv_unit: "fle f0 x \<Longrightarrow> fle x y \<Longrightarrow> y \<noteq> PInf \<Longrightarrow> flt f0 y \<Longrightarrow> unit_range (fdiv x y)"
  by (cases x; cases y) (auto intro!: unit_range_flit)

text \<open>Powers of two are exact.\<close>

lemma ilog2_powi [simp]: "ilog2 (2 powi k) = k"
proof -
  have "ilog2 (2 powi k) \<le> k"
  proof (rule ccontr)
    assume "\<not> ?thesis"
    then have "(2::rat) powi k < 2 powi ilog2 (2 powi k)" by (intro power_int_strict_increasing) simp_all
    then show False using ilog2_bounds(1) [of "2 powi k"] by simp
  qed
  moreover have "k < ilog2 (2 powi k) + 1"
    by (rule powi2_le_cancel) (simp add: ilog2_bounds(2))
  ultimately show ?thesis by simp
qed

lemma fround_powi:
  assumes "- 1022 \<le> k"
  shows "fround (2 powi k) = 2 powi k"
proof -
  have "fexp (2 powi k) = k - 52" using assms by (simp add: fexp_def)
  then have "2 powi k / 2 powi fexp (2 powi k) = (of_int (2 ^ 52) :: rat)"
    by (simp add: power_int_diff)
  from round_pos_exact [OF this] show ?thesis by (simp add: fround_def)
qed

lemma flit_powi:
  assumes "- 1022 \<le> k" "k \<le> 0"
  shows "flit (2 powi k) = Fin (2 powi k)"
proof -
  have "(2::rat) powi k \<le> 2 powi 0" using assms(2) by (rule powi2_mono)
  then have "\<not> f64_max < 2 powi k" "\<not> (2::rat) powi k < - f64_max"
    using f64_max_gt f64_max_pos less_trans [OF _ powi2_pos [of k], of "- f64_max"] by (simp_all add: not_less)
  then show ?thesis by (simp add: flit_def fround_powi [OF assms(1)])
qed

lemma fadd_lower: "flit e = Fin e \<Longrightarrow> fle (Fin e) x \<Longrightarrow> fle f0 y \<Longrightarrow> fle (Fin e) (fadd x y)"
proof -
  assume e: "flit e = Fin e" and x: "fle (Fin e) x" and y: "fle f0 y"
  have "fle (Fin e) (flit (a + b))" if "e \<le> a" "0 \<le> b" for a b
    using flit_mono_le [of e "a + b"] that by (simp add: e)
  with x y show ?thesis by (cases x; cases y) auto
qed

end
