(* ===== verification/BTree.thy ===== *)
theory BTree
  imports Cuma_Prelude
begin

text \<open>
  \<open>std::collections::BTreeMap\<close> as an association list with strictly increasing keys,
  which is the order in which Rust iterates it. \<open>BTreeSet\<close> is a strictly increasing
  list. The interface the components rely on is the locale \<open>key_map\<close>: what a lookup
  returns after each operation, that the keys enumerate the domain in order, and that every
  operation keeps the representation invariant.
\<close>

type_synonym ('k, 'v) btree = "('k \<times> 'v) list"

fun bt_insert :: "'k::linorder \<Rightarrow> 'v \<Rightarrow> ('k, 'v) btree \<Rightarrow> ('k, 'v) btree" where
  "bt_insert k v [] = [(k, v)]"
| "bt_insert k v ((k', v') # m) =
     (if k < k' then (k, v) # (k', v') # m
      else if k = k' then (k, v) # m
      else (k', v') # bt_insert k v m)"

definition bt_get :: "('k, 'v) btree \<Rightarrow> 'k \<Rightarrow> 'v option" where
  "bt_get m k = map_of m k"

definition bt_remove :: "'k \<Rightarrow> ('k, 'v) btree \<Rightarrow> ('k, 'v) btree" where
  "bt_remove k m = filter (\<lambda>e. fst e \<noteq> k) m"

definition bt_retain :: "('k \<Rightarrow> 'v \<Rightarrow> bool) \<Rightarrow> ('k, 'v) btree \<Rightarrow> ('k, 'v) btree" where
  "bt_retain P m = filter (\<lambda>e. P (fst e) (snd e)) m"

text \<open>\<open>get_mut\<close> followed by a write through the reference: nothing when the key is absent.\<close>

definition bt_modify :: "'k \<Rightarrow> ('v \<Rightarrow> 'v) \<Rightarrow> ('k, 'v) btree \<Rightarrow> ('k, 'v) btree" where
  "bt_modify k f m = map (\<lambda>e. if fst e = k then (fst e, f (snd e)) else e) m"

text \<open>\<open>entry(k).or_insert(d)\<close> followed by a write through the reference.\<close>

definition bt_entry :: "'k::linorder \<Rightarrow> 'v \<Rightarrow> ('v \<Rightarrow> 'v) \<Rightarrow> ('k, 'v) btree \<Rightarrow> ('k, 'v) btree" where
  "bt_entry k d f m = bt_insert k (f (case bt_get m k of None \<Rightarrow> d | Some v \<Rightarrow> v)) m"

definition bt_keys :: "('k, 'v) btree \<Rightarrow> 'k list" where
  "bt_keys m = map fst m"

definition bt_values :: "('k, 'v) btree \<Rightarrow> 'v list" where
  "bt_values m = map snd m"

definition bt_wf :: "('k::linorder, 'v) btree \<Rightarrow> bool" where
  "bt_wf m = sorted_wrt (<) (bt_keys m)"

lemma bt_wf_Nil [simp]: "bt_wf []"
  by (simp add: bt_wf_def bt_keys_def)

lemma bt_wf_Cons: "bt_wf (e # m) \<longleftrightarrow> (\<forall>k \<in> fst ` set m. fst e < k) \<and> bt_wf m"
  by (auto simp: bt_wf_def bt_keys_def)

lemma fst_set_bt_insert: "fst ` set (bt_insert k v m) = insert k (fst ` set m)"
  by (induction k v m rule: bt_insert.induct) auto

lemma bt_wf_insert [wf_intros]: "bt_wf m \<Longrightarrow> bt_wf (bt_insert k v m)"
  by (induction k v m rule: bt_insert.induct)
    (auto simp: bt_wf_Cons fst_set_bt_insert not_less less_le)

lemma bt_get_insert: "bt_get (bt_insert k v m) k' = (if k' = k then Some v else bt_get m k')"
  by (induction k v m rule: bt_insert.induct) (auto simp: bt_get_def)

lemma bt_get_remove: "bt_get (bt_remove k m) k' = (if k' = k then None else bt_get m k')"
  by (induction m) (auto simp: bt_get_def bt_remove_def)

lemma bt_get_modify:
  "bt_get (bt_modify k f m) k' = (if k' = k then map_option f (bt_get m k') else bt_get m k')"
  by (induction m) (auto simp: bt_get_def bt_modify_def)

lemma bt_get_entry:
  "bt_get (bt_entry k d f m) k' =
     (if k' = k then Some (f (case bt_get m k of None \<Rightarrow> d | Some v \<Rightarrow> v)) else bt_get m k')"
  by (simp add: bt_entry_def bt_get_insert)

lemma bt_keys_modify [simp]: "bt_keys (bt_modify k f m) = bt_keys m"
  by (auto simp: bt_keys_def bt_modify_def)

lemma bt_wf_modify [wf_intros]: "bt_wf m \<Longrightarrow> bt_wf (bt_modify k f m)"
  by (simp add: bt_wf_def)

lemma bt_wf_filter: "bt_wf m \<Longrightarrow> bt_wf (filter P m)"
  by (induction m) (auto simp: bt_wf_Cons)

lemma bt_wf_remove [wf_intros]: "bt_wf m \<Longrightarrow> bt_wf (bt_remove k m)"
  by (simp add: bt_remove_def bt_wf_filter)

lemma bt_wf_retain [wf_intros]: "bt_wf m \<Longrightarrow> bt_wf (bt_retain P m)"
  by (simp add: bt_retain_def bt_wf_filter)

lemma bt_get_Nil [simp]: "bt_get [] k = None"
  by (simp add: bt_get_def)

text \<open>Grouping by a key: each key gets the values of its own elements, folded in order.\<close>

lemma bt_get_fold_entry:
  "bt_get (fold (\<lambda>r. bt_entry (key r) d (f r)) rs m) x =
     (if bt_get m x = None \<and> x \<notin> key ` set rs then None
      else Some (fold f (filter (\<lambda>r. key r = x) rs) (case bt_get m x of None \<Rightarrow> d | Some t \<Rightarrow> t)))"
  by (induction rs arbitrary: m) (auto simp: bt_get_entry split: option.splits)

lemma bt_wf_entry [wf_intros]: "bt_wf m \<Longrightarrow> bt_wf (bt_entry k d f m)"
  by (simp add: bt_entry_def bt_wf_insert)

lemma set_bt_keys: "set (bt_keys m) = {k. bt_get m k \<noteq> None}"
  by (auto simp: bt_keys_def bt_get_def map_of_eq_None_iff)

lemma bt_wf_distinct: "bt_wf m \<Longrightarrow> distinct (bt_keys m)"
  by (induction m) (auto simp: bt_wf_Cons bt_keys_def)

lemma bt_get_iff_mem: "bt_wf m \<Longrightarrow> bt_get m k = Some v \<longleftrightarrow> (k, v) \<in> set m"
  using bt_wf_distinct [of m] by (simp add: bt_get_def bt_keys_def)

lemma bt_get_retain:
  "bt_wf m \<Longrightarrow>
   bt_get (bt_retain P m) k =
     (case bt_get m k of Some v \<Rightarrow> if P k v then Some v else None | None \<Rightarrow> None)"
  by (induction m)
    (auto simp: bt_get_def bt_retain_def bt_wf_Cons map_of_eq_None_iff split: option.splits)

lemma set_bt_values: "bt_wf m \<Longrightarrow> set (bt_values m) = {v. \<exists>k. bt_get m k = Some v}"
  by (force simp: bt_values_def bt_get_iff_mem)

lemma bt_ext: "bt_wf m \<Longrightarrow> bt_wf m' \<Longrightarrow> (\<And>k. bt_get m k = bt_get m' k) \<Longrightarrow> m = m'"
proof -
  assume wf: "bt_wf m" "bt_wf m'" and eq: "\<And>k. bt_get m k = bt_get m' k"
  then have "set m = set m'"
    by (auto simp flip: bt_get_iff_mem [OF wf(1)] bt_get_iff_mem [OF wf(2)])
  moreover have "sorted_wrt (\<lambda>x y. fst x < fst y) n" if "bt_wf n" for n :: "('a, 'b) btree"
    using that by (simp add: bt_wf_def bt_keys_def sorted_wrt_map)
  moreover have "n = n'" if "set n = set n'" "sorted_wrt (\<lambda>x y. fst x < fst y) n"
      "sorted_wrt (\<lambda>x y. fst x < fst y) n'" for n n' :: "('a, 'b) btree"
    using that
  proof (induction n arbitrary: n')
    case Nil
    then show ?case by simp
  next
    case (Cons e n)
    then obtain e' r where n': "n' = e' # r" by (cases n') auto
    have "e = e'"
      using Cons.prems unfolding n' by (metis insert_iff less_asym list.simps(15) sorted_wrt.simps(2))
    moreover from this have "set n = set r"
      using Cons.prems unfolding n' by auto
    ultimately show ?case using Cons.IH [of r] Cons.prems unfolding n' by simp
  qed
  ultimately show ?thesis using wf by blast
qed

section \<open>The interface\<close>

locale key_map =
  fixes empty :: "'m"
    and insert_at :: "'k::linorder \<Rightarrow> 'v \<Rightarrow> 'm \<Rightarrow> 'm"
    and modify :: "'k \<Rightarrow> ('v \<Rightarrow> 'v) \<Rightarrow> 'm \<Rightarrow> 'm"
    and remove :: "'k \<Rightarrow> 'm \<Rightarrow> 'm"
    and lookup :: "'m \<Rightarrow> 'k \<Rightarrow> 'v option"
    and keys :: "'m \<Rightarrow> 'k list"
    and invar :: "'m \<Rightarrow> bool"
  assumes lookup_empty: "lookup empty k = None"
    and lookup_insert: "invar m \<Longrightarrow> lookup (insert_at k v m) k' = (if k' = k then Some v else lookup m k')"
    and lookup_modify: "invar m \<Longrightarrow>
      lookup (modify k f m) k' = (if k' = k then map_option f (lookup m k') else lookup m k')"
    and lookup_remove: "invar m \<Longrightarrow> lookup (remove k m) k' = (if k' = k then None else lookup m k')"
    and keys_domain: "invar m \<Longrightarrow> set (keys m) = {k. lookup m k \<noteq> None}"
    and keys_sorted: "invar m \<Longrightarrow> sorted_wrt (<) (keys m)"
    and invar_empty: "invar empty"
    and invar_insert: "invar m \<Longrightarrow> invar (insert_at k v m)"
    and invar_modify: "invar m \<Longrightarrow> invar (modify k f m)"
    and invar_remove: "invar m \<Longrightarrow> invar (remove k m)"
begin

lemma keys_empty: "keys empty = []"
  using keys_domain [OF invar_empty] by (simp add: lookup_empty)

lemma keys_distinct: "invar m \<Longrightarrow> distinct (keys m)"
  using keys_sorted strict_sorted_iff by blast

lemma keys_modify: "invar m \<Longrightarrow> set (keys (modify k f m)) = set (keys m)"
  by (auto simp: keys_domain invar_modify lookup_modify)

lemma keys_insert_at: "invar m \<Longrightarrow> set (keys (insert_at k v m)) = insert k (set (keys m))"
  by (auto simp: keys_domain invar_insert lookup_insert)

lemma count_insert_at:
  "invar m \<Longrightarrow> length (keys (insert_at k v m)) = length (keys m) + (if lookup m k = None then 1 else 0)"
proof -
  assume wf: "invar m"
  have "length (keys (insert_at k v m)) = card (insert k (set (keys m)))"
    using keys_insert_at [OF wf] keys_distinct [OF invar_insert [OF wf]] by (metis distinct_card)
  also have "\<dots> = length (keys m) + (if lookup m k = None then 1 else 0)"
  proof -
    have "k \<in> set (keys m) \<longleftrightarrow> lookup m k \<noteq> None" using keys_domain [OF wf] by auto
    then show ?thesis
      using keys_distinct [OF wf] by (cases "lookup m k") (simp_all add: distinct_card insert_absorb)
  qed
  finally show ?thesis .
qed

lemma invar_fold_insert:
  "invar m \<Longrightarrow> invar (fold (\<lambda>x. insert_at (f x) (g x)) xs m)"
  by (induction xs arbitrary: m) (auto intro: invar_insert)

lemma lookup_fold_insert_same:
  "invar m \<Longrightarrow>
   lookup (fold (\<lambda>x. insert_at (f x) c) xs m) k = (if k \<in> f ` set xs then Some c else lookup m k)"
  by (induction xs arbitrary: m) (auto simp: lookup_insert invar_insert)

lemma insert_then_remove: "invar m \<Longrightarrow> lookup (remove k (insert_at k v m)) k' = lookup (remove k m) k'"
  by (simp add: lookup_remove lookup_insert invar_insert)

end

interpretation bt: key_map "[]" bt_insert bt_modify bt_remove bt_get bt_keys bt_wf
  by unfold_locales
    (auto simp: bt_get_insert bt_get_modify bt_get_remove set_bt_keys wf_intros,
     simp_all add: bt_get_def bt_wf_def)

lemma bt_wf_fold_insert: "bt_wf m \<Longrightarrow> bt_wf (fold (\<lambda>x. bt_insert (f x) (g x)) xs m)"
  by (rule bt.invar_fold_insert)

section \<open>Sets\<close>

text \<open>\<open>BTreeSet::insert\<close> on a strictly increasing list.\<close>

fun bs_insert :: "'k::linorder \<Rightarrow> 'k list \<Rightarrow> 'k list" where
  "bs_insert k [] = [k]"
| "bs_insert k (k' # s) = (if k < k' then k # k' # s else if k = k' then k' # s else k' # bs_insert k s)"

abbreviation bs_wf :: "'k::linorder list \<Rightarrow> bool" where
  "bs_wf s \<equiv> sorted_wrt (<) s"

lemma set_bs_insert [simp]: "set (bs_insert k s) = insert k (set s)"
  by (induction k s rule: bs_insert.induct) auto

lemma bs_wf_insert [wf_intros]: "bs_wf s \<Longrightarrow> bs_wf (bs_insert k s)"
  by (induction k s rule: bs_insert.induct) (auto simp: not_less less_le)

lemma set_fold_bs_insert: "set (fold bs_insert xs s) = set xs \<union> set s"
  by (induction xs arbitrary: s) auto

lemma bs_wf_fold_insert [wf_intros]: "bs_wf s \<Longrightarrow> bs_wf (fold bs_insert xs s)"
  by (induction xs arbitrary: s) (auto intro: bs_wf_insert)

lemma bs_wf_distinct: "bs_wf s \<Longrightarrow> distinct s"
  using strict_sorted_iff by blast

lemma bs_wf_eqI: "bs_wf s \<Longrightarrow> bs_wf t \<Longrightarrow> set s = set t \<Longrightarrow> s = t"
  by (rule strict_sorted_equal)

end
