(* ===== verification/Capability.thy ===== *)
theory Capability
  imports Errors F64 BTree
begin

text \<open>
  \<open>cuma-core/src/capability.rs\<close>: the vocabulary of capabilities, parsing and
  rendering of their names, and matching an agent's set against what a task requires.
  A \<open>CapabilitySet\<close> is a \<open>BTreeSet\<close>, a strictly increasing list in the
  derived order of the enumeration.
\<close>

section \<open>The enumeration and its order\<close>

datatype capability =
    CodeComprehension | CodeGeneration | CodeEditing | Debugging | Refactoring | CTesting
  | ShellExecution | FileSystem | VersionControl | CResearch | CDocumentation | Architecture
  | CodeReview | Planning | ToolUse | Vision | StructuredOutput | Custom string

fun capability_index :: "capability \<Rightarrow> nat" where
  "capability_index CodeComprehension = 0"
| "capability_index CodeGeneration = 1"
| "capability_index CodeEditing = 2"
| "capability_index Debugging = 3"
| "capability_index Refactoring = 4"
| "capability_index CTesting = 5"
| "capability_index ShellExecution = 6"
| "capability_index FileSystem = 7"
| "capability_index VersionControl = 8"
| "capability_index CResearch = 9"
| "capability_index CDocumentation = 10"
| "capability_index Architecture = 11"
| "capability_index CodeReview = 12"
| "capability_index Planning = 13"
| "capability_index ToolUse = 14"
| "capability_index Vision = 15"
| "capability_index StructuredOutput = 16"
| "capability_index (Custom _) = 17"

fun custom_name :: "capability \<Rightarrow> string" where
  "custom_name (Custom s) = s"
| "custom_name _ = []"

definition capability_rank :: "capability \<Rightarrow> nat \<times> string" where
  "capability_rank c = (capability_index c, custom_name c)"

lemma capability_rank_inj: "capability_rank c = capability_rank d \<Longrightarrow> c = d"
  by (cases c; cases d) (simp_all add: capability_rank_def)

instantiation capability :: linorder
begin

definition less_eq_capability :: "capability \<Rightarrow> capability \<Rightarrow> bool" where
  "c \<le> d \<longleftrightarrow> capability_rank c \<le> capability_rank d"

definition less_capability :: "capability \<Rightarrow> capability \<Rightarrow> bool" where
  "c < d \<longleftrightarrow> capability_rank c < capability_rank d"

instance
proof
  fix x y z :: capability
  show "x < y \<longleftrightarrow> x \<le> y \<and> \<not> y \<le> x"
    unfolding less_eq_capability_def less_capability_def by (rule less_le_not_le)
  show "x \<le> x" by (simp add: less_eq_capability_def)
  show "x \<le> y \<Longrightarrow> y \<le> z \<Longrightarrow> x \<le> z" unfolding less_eq_capability_def by (rule order_trans)
  show "x \<le> y \<Longrightarrow> y \<le> x \<Longrightarrow> x = y"
    unfolding less_eq_capability_def by (intro capability_rank_inj antisym)
  show "x \<le> y \<or> y \<le> x" unfolding less_eq_capability_def by (rule linear)
qed

end

section \<open>Names\<close>

text \<open>The match arms of \<open>Capability::parse\<close>, which are also the serde names.\<close>

definition capability_names :: "(string \<times> capability) list" where
  "capability_names =
     [(''code_comprehension'', CodeComprehension), (''code_generation'', CodeGeneration),
      (''code_editing'', CodeEditing), (''debugging'', Debugging),
      (''refactoring'', Refactoring), (''testing'', CTesting),
      (''shell_execution'', ShellExecution), (''file_system'', FileSystem),
      (''version_control'', VersionControl), (''research'', CResearch),
      (''documentation'', CDocumentation), (''architecture'', Architecture),
      (''code_review'', CodeReview), (''planning'', Planning), (''tool_use'', ToolUse),
      (''vision'', Vision), (''structured_output'', StructuredOutput)]"

definition normalize_name :: "string \<Rightarrow> string" where
  "normalize_name raw =
     map (\<lambda>c. if c = CHR ''-'' then CHR ''_'' else c) (to_ascii_lowercase (trim raw))"

definition parse_capability :: "string \<Rightarrow> capability" where
  "parse_capability raw =
     (let s = normalize_name raw in
      case map_of capability_names s of Some c \<Rightarrow> c | None \<Rightarrow> Custom s)"

fun display_capability :: "capability \<Rightarrow> string" where
  "display_capability CodeComprehension = ''code_comprehension''"
| "display_capability CodeGeneration = ''code_generation''"
| "display_capability CodeEditing = ''code_editing''"
| "display_capability Debugging = ''debugging''"
| "display_capability Refactoring = ''refactoring''"
| "display_capability CTesting = ''testing''"
| "display_capability ShellExecution = ''shell_execution''"
| "display_capability FileSystem = ''file_system''"
| "display_capability VersionControl = ''version_control''"
| "display_capability CResearch = ''research''"
| "display_capability CDocumentation = ''documentation''"
| "display_capability Architecture = ''architecture''"
| "display_capability CodeReview = ''code_review''"
| "display_capability Planning = ''planning''"
| "display_capability ToolUse = ''tool_use''"
| "display_capability Vision = ''vision''"
| "display_capability StructuredOutput = ''structured_output''"
| "display_capability (Custom name) = name"

section \<open>Sets and matching\<close>

type_synonym capability_set = "capability list"

definition capability_set_of :: "capability list \<Rightarrow> capability_set" where
  "capability_set_of cs = fold bs_insert cs []"

record capability_match =
  cm_score :: f64
  cm_missing :: "capability list"

definition match_against :: "capability_set \<Rightarrow> capability_set \<Rightarrow> capability_match" where
  "match_against self required =
     (if required = [] then \<lparr>cm_score = f1, cm_missing = []\<rparr>
      else
        let missing = filter (\<lambda>c. c \<notin> set self) required;
            matched = length required - length missing
        in \<lparr>cm_score = fdiv (f64_of_nat matched) (f64_of_nat (length required)),
            cm_missing = missing\<rparr>)"

definition cm_is_complete :: "capability_match \<Rightarrow> bool" where
  "cm_is_complete m = (cm_missing m = [])"

lemma cm_is_complete_iff: "cm_is_complete (match_against self required) \<longleftrightarrow> set required \<subseteq> set self"
  by (auto simp: cm_is_complete_def match_against_def Let_def filter_empty_conv)

lemma capability_set_of_wf [wf_intros]: "bs_wf (capability_set_of cs)"
  by (simp add: capability_set_of_def bs_wf_fold_insert)

lemma set_capability_set_of [simp]: "set (capability_set_of cs) = set cs"
  by (simp add: capability_set_of_def set_fold_bs_insert)

text \<open>Division of two exactly represented counts lands in the unit interval.\<close>

lemma fdiv_counts_unit:
  assumes "m \<le> n" "0 < n" "n \<le> 2 ^ 53"
  shows "unit_range (fdiv (f64_of_nat m) (f64_of_nat n))"
proof -
  have "(of_nat m :: rat) / of_nat n \<le> 1" using assms(1,2) by simp
  then show ?thesis
    using assms by (simp add: f64_of_nat_def flit_nat_exact unit_range_flit)
qed

lemma fdiv_counts_self: "0 < n \<Longrightarrow> n \<le> 2 ^ 53 \<Longrightarrow> fdiv (f64_of_nat n) (f64_of_nat n) = f1"
proof -
  assume "0 < n" "n \<le> 2 ^ 53"
  moreover have "flit 1 = f1" using flit_nat_exact [of 1] by simp
  ultimately show ?thesis by (simp add: f64_of_nat_def flit_nat_exact)
qed

lemma match_score_unit:
  assumes "length required \<le> 2 ^ 53"
  shows "unit_range (cm_score (match_against self required))"
proof (cases "required = []")
  case False
  then have "unit_range (fdiv (f64_of_nat (length required - length (filter (\<lambda>c. c \<notin> set self) required)))
      (f64_of_nat (length required)))"
    using assms by (intro fdiv_counts_unit) auto
  with False show ?thesis by (simp add: match_against_def Let_def)
qed (simp add: match_against_def)

lemma match_complete_score:
  assumes "length required \<le> 2 ^ 53" "set required \<subseteq> set self"
  shows "cm_score (match_against self required) = f1"
proof (cases "required = []")
  case False
  have "filter (\<lambda>c. c \<notin> set self) required = []" using assms(2) by (auto simp: filter_empty_conv)
  with False assms(1) show ?thesis by (simp add: match_against_def Let_def fdiv_counts_self)
qed (simp add: match_against_def)

section \<open>Parsing is a projection, and reads back what is displayed\<close>

abbreviation name_byte :: "char \<Rightarrow> char" where
  "name_byte \<equiv> (\<lambda>c. if c = CHR ''-'' then CHR ''_'' else c) \<circ> ascii_lower"

lemma normalize_name_map: "normalize_name raw = map name_byte (trim raw)"
  by (simp add: normalize_name_def to_ascii_lowercase_def)

lemma name_byte_cases: "name_byte c = c \<or> (of_char (name_byte c) :: nat) \<in> insert 95 {97..122}"
  using nat_of_char_less_256 [of c]
  by (auto simp: ascii_lower_def Let_def of_char_of take_bit_eq_mod)

lemma whitespace_bytes_not_names: "b \<in> whitespace_bytes \<Longrightarrow> (of_char b :: nat) \<notin> insert 95 {97..122}"
  by (auto simp: whitespace_encodings_def)

lemma whitespace_bytes_fixed: "b \<in> whitespace_bytes \<Longrightarrow> name_byte b = b"
  by (auto simp: whitespace_encodings_def ascii_lower_def Let_def)

lemma name_byte_keeps: "keeps_bytes whitespace_bytes name_byte"
  unfolding keeps_bytes_def
  using name_byte_cases whitespace_bytes_not_names whitespace_bytes_fixed by blast

lemma name_byte_idem: "name_byte (name_byte c) = name_byte c"
  using name_byte_cases [of c] nat_of_char_less_256 [of c]
  by (auto simp: ascii_lower_def Let_def of_char_of take_bit_eq_mod)

lemma normalize_name_idem [simp]: "normalize_name (normalize_name raw) = normalize_name raw"
proof -
  have "normalize_name (normalize_name raw) = map name_byte (trim (map name_byte (trim raw)))"
    by (simp only: normalize_name_map)
  also have "\<dots> = map name_byte (map name_byte (trim raw))"
    by (simp only: trim_map_keeps [OF name_byte_keeps] trim_idem)
  also have "\<dots> = map name_byte (trim raw)"
    by (simp only: map_map, rule map_cong) (simp_all only: comp_def name_byte_idem [unfolded comp_def])
  finally show ?thesis by (simp only: normalize_name_map)
qed

lemma display_of_table: "map_of capability_names s = Some c \<Longrightarrow> display_capability c = s"
  by (auto simp: capability_names_def split: if_splits)

lemma table_of_display: "capability_index c < 17 \<Longrightarrow> map_of capability_names (display_capability c) = Some c"
  by (cases c) (simp_all add: capability_names_def)

lemma display_normal: "capability_index c < 17 \<Longrightarrow> normalize_name (display_capability c) = display_capability c"
proof -
  assume c: "capability_index c < 17"
  have "set (display_capability c) \<inter> whitespace_bytes = {}"
    using c by (cases c) (simp_all add: whitespace_encodings_def)
  then have "trim (display_capability c) = display_capability c"
    by (rule trim_no_whitespace)
  then show ?thesis
    using c by (cases c) (simp_all add: normalize_name_map ascii_lower_def)
qed

lemma parse_display_builtin: "capability_index c < 17 \<Longrightarrow> parse_capability (display_capability c) = c"
  by (simp add: parse_capability_def display_normal table_of_display)

lemma parse_display_parsed: "parse_capability (display_capability (parse_capability raw)) = parse_capability raw"
proof (cases "map_of capability_names (normalize_name raw)")
  case None
  then show ?thesis by (simp add: parse_capability_def)
next
  case (Some c)
  then have "display_capability c = normalize_name raw" by (rule display_of_table)
  with Some show ?thesis by (simp add: parse_capability_def)
qed

end
