(* ===== verification/Agent.thy ===== *)
theory Agent
  imports Capability
begin

text \<open>
  \<open>cuma-core/src/agent.rs\<close>: the normalized description of agents and models. A
  metric that nobody reported is \<open>UnknownValue\<close>, never a flattering default. A
  timestamp is the number of milliseconds it denotes.
\<close>

type_synonym timestamp = int

datatype agent_protocol = Acp | A2A | Native

datatype 'a known = Reported 'a | Estimated 'a | UnknownValue

fun known_value :: "'a known \<Rightarrow> 'a option" where
  "known_value (Reported v) = Some v"
| "known_value (Estimated v) = Some v"
| "known_value UnknownValue = None"

definition known_or :: "'a known \<Rightarrow> 'a \<Rightarrow> 'a" where
  "known_or k fallback = (case known_value k of None \<Rightarrow> fallback | Some v \<Rightarrow> v)"

definition is_reported :: "'a known \<Rightarrow> bool" where
  "is_reported k = (case k of Reported _ \<Rightarrow> True | _ \<Rightarrow> False)"

datatype health_state = Healthy | Degraded | RateLimited | Unavailable | HealthUnknown

definition health_is_routable :: "health_state \<Rightarrow> bool" where
  "health_is_routable h = (h \<in> {Healthy, Degraded, HealthUnknown})"

fun debug_health_state :: "health_state \<Rightarrow> string" where
  "debug_health_state Healthy = ''Healthy''"
| "debug_health_state Degraded = ''Degraded''"
| "debug_health_state RateLimited = ''RateLimited''"
| "debug_health_state Unavailable = ''Unavailable''"
| "debug_health_state HealthUnknown = ''Unknown''"

record agent_health =
  ah_state :: health_state
  ah_consecutive_failures :: u32
  ah_last_latency_ms :: "u64 known"
  ah_last_success :: "timestamp option"
  ah_last_error :: "string option"

definition default_health :: agent_health where
  "default_health = \<lparr>ah_state = Healthy, ah_consecutive_failures = 0,
     ah_last_latency_ms = UnknownValue, ah_last_success = None, ah_last_error = None\<rparr>"

record agent_limits =
  max_concurrent_sessions :: "u32 option"
  requests_per_minute :: "u32 known"
  tokens_per_minute :: "u64 known"

definition default_agent_limits :: agent_limits where
  "default_agent_limits = \<lparr>max_concurrent_sessions = None, requests_per_minute = UnknownValue,
     tokens_per_minute = UnknownValue\<rparr>"

record cost_profile =
  input_per_mtok :: "f64 known"
  output_per_mtok :: "f64 known"
  cache_read_per_mtok :: "f64 known"

definition default_cost_profile :: cost_profile where
  "default_cost_profile = \<lparr>input_per_mtok = UnknownValue, output_per_mtok = UnknownValue,
     cache_read_per_mtok = UnknownValue\<rparr>"

definition million :: f64 where
  "million = f64_of_nat 1000000"

definition cost_estimate :: "cost_profile \<Rightarrow> u64 \<Rightarrow> u64 \<Rightarrow> f64 known" where
  "cost_estimate p input_tokens output_tokens =
     (case (known_value (input_per_mtok p), known_value (output_per_mtok p)) of
        (Some input_price, Some output_price) \<Rightarrow>
          Estimated (fadd (fmul (fdiv (f64_of_nat (unat input_tokens)) million) input_price)
                          (fmul (fdiv (f64_of_nat (unat output_tokens)) million) output_price))
      | _ \<Rightarrow> UnknownValue)"

record performance_profile =
  typical_latency_ms :: "u64 known"
  throughput_tps :: "f64 known"
  historical_success_rate :: "f64 known"
  coding_score :: "f64 known"
  reasoning_score :: "f64 known"

definition default_performance :: performance_profile where
  "default_performance = \<lparr>typical_latency_ms = UnknownValue, throughput_tps = UnknownValue,
     historical_success_rate = UnknownValue, coding_score = UnknownValue,
     reasoning_score = UnknownValue\<rparr>"

datatype agent_auth = AgentManaged | SecretRef string | NoAuth

record model_descriptor =
  md_id :: model_id
  md_agent_id :: agent_id
  md_name :: string
  md_provider :: "string option"
  md_context_window :: "u64 known"
  md_cost :: cost_profile
  md_performance :: performance_profile
  md_capabilities :: capability_set
  md_available :: bool

definition minimal_model :: "agent_id \<Rightarrow> model_id \<Rightarrow> string \<Rightarrow> model_descriptor" where
  "minimal_model agent i name = \<lparr>md_id = i, md_agent_id = agent, md_name = name, md_provider = None,
     md_context_window = UnknownValue, md_cost = default_cost_profile,
     md_performance = default_performance, md_capabilities = [], md_available = True\<rparr>"

record agent_descriptor =
  ad_id :: agent_id
  ad_name :: string
  ad_protocol :: agent_protocol
  ad_capabilities :: capability_set
  ad_models :: "model_descriptor list"
  ad_health :: agent_health
  ad_limits :: agent_limits
  ad_cost_profile :: cost_profile
  ad_performance_profile :: performance_profile
  ad_auth :: agent_auth
  ad_enabled :: bool
  ad_metadata :: "(string, string) btree"

definition new_agent :: "agent_id \<Rightarrow> string \<Rightarrow> agent_protocol \<Rightarrow> agent_descriptor" where
  "new_agent i name protocol = \<lparr>ad_id = i, ad_name = name, ad_protocol = protocol,
     ad_capabilities = [], ad_models = [], ad_health = default_health,
     ad_limits = default_agent_limits, ad_cost_profile = default_cost_profile,
     ad_performance_profile = default_performance, ad_auth = AgentManaged, ad_enabled = True,
     ad_metadata = []\<rparr>"

definition with_capabilities :: "agent_descriptor \<Rightarrow> capability_set \<Rightarrow> agent_descriptor" where
  "with_capabilities a cs = a\<lparr>ad_capabilities := cs\<rparr>"

definition with_model :: "agent_descriptor \<Rightarrow> model_descriptor \<Rightarrow> agent_descriptor" where
  "with_model a m = a\<lparr>ad_models := ad_models a @ [m]\<rparr>"

definition agent_is_routable :: "agent_descriptor \<Rightarrow> bool" where
  "agent_is_routable a = (ad_enabled a \<and> health_is_routable (ah_state (ad_health a)))"

definition effective_capabilities :: "agent_descriptor \<Rightarrow> model_descriptor option \<Rightarrow> capability_set" where
  "effective_capabilities a model =
     (case model of
        None \<Rightarrow> ad_capabilities a
      | Some m \<Rightarrow> fold bs_insert (md_capabilities m) (ad_capabilities a))"

definition agent_model :: "agent_descriptor \<Rightarrow> model_id \<Rightarrow> model_descriptor option" where
  "agent_model a i = List.find (\<lambda>m. md_id m = i) (ad_models a)"

text \<open>The effective set is the union, and stays a set.\<close>

lemma set_effective_capabilities:
  "set (effective_capabilities a model) =
     set (ad_capabilities a) \<union> (case model of None \<Rightarrow> {} | Some m \<Rightarrow> set (md_capabilities m))"
  by (auto simp: effective_capabilities_def set_fold_bs_insert split: option.splits)

lemma bs_wf_effective_capabilities [wf_intros]:
  "bs_wf (ad_capabilities a) \<Longrightarrow> bs_wf (effective_capabilities a model)"
  by (auto simp: effective_capabilities_def intro: bs_wf_fold_insert split: option.splits)

text \<open>A cost is reported as unknown exactly when one of the two prices is.\<close>

lemma cost_estimate_unknown_iff:
  "cost_estimate p i out = UnknownValue \<longleftrightarrow>
     input_per_mtok p = UnknownValue \<or> output_per_mtok p = UnknownValue"
  by (cases "input_per_mtok p"; cases "output_per_mtok p") (simp_all add: cost_estimate_def)

lemma cost_estimate_never_reported: "\<not> is_reported (cost_estimate p i out)"
  by (simp add: cost_estimate_def is_reported_def split: option.splits)

lemma agent_model_Some: "agent_model a i = Some m \<Longrightarrow> m \<in> set (ad_models a) \<and> md_id m = i"
  by (auto simp: agent_model_def find_Some_iff)

end
