(* ===== verification/Task.thy ===== *)
theory Task
  imports Agent
begin

text \<open>
  \<open>cuma-core/src/task.rs\<close>, without the graph: task types and their baselines, token
  accounting, specifications, execution outcomes and tasks. \<open>TaskId::generate\<close> in
  \<open>Task::new\<close> is the argument \<open>fresh\<close> of \<open>new_task\<close>.
\<close>

section \<open>Task types, risk, status\<close>

datatype task_type =
    Inspection | Research | Design | Implementation | BugFix | Refactor | Testing | Validation
  | Documentation | Review | General

fun task_type_index :: "task_type \<Rightarrow> nat" where
  "task_type_index Inspection = 0"
| "task_type_index Research = 1"
| "task_type_index Design = 2"
| "task_type_index Implementation = 3"
| "task_type_index BugFix = 4"
| "task_type_index Refactor = 5"
| "task_type_index Testing = 6"
| "task_type_index Validation = 7"
| "task_type_index Documentation = 8"
| "task_type_index Review = 9"
| "task_type_index General = 10"

lemma task_type_index_inj: "task_type_index s = task_type_index t \<Longrightarrow> s = t"
  by (cases s; cases t) simp_all

instantiation task_type :: linorder
begin

definition less_eq_task_type :: "task_type \<Rightarrow> task_type \<Rightarrow> bool" where
  "s \<le> t \<longleftrightarrow> task_type_index s \<le> task_type_index t"

definition less_task_type :: "task_type \<Rightarrow> task_type \<Rightarrow> bool" where
  "s < t \<longleftrightarrow> task_type_index s < task_type_index t"

instance
  by standard (auto simp: less_eq_task_type_def less_task_type_def task_type_index_inj)

end

fun debug_task_type :: "task_type \<Rightarrow> string" where
  "debug_task_type Inspection = ''Inspection''"
| "debug_task_type Research = ''Research''"
| "debug_task_type Design = ''Design''"
| "debug_task_type Implementation = ''Implementation''"
| "debug_task_type BugFix = ''BugFix''"
| "debug_task_type Refactor = ''Refactor''"
| "debug_task_type Testing = ''Testing''"
| "debug_task_type Validation = ''Validation''"
| "debug_task_type Documentation = ''Documentation''"
| "debug_task_type Review = ''Review''"
| "debug_task_type General = ''General''"

fun baseline_capability_list :: "task_type \<Rightarrow> capability list" where
  "baseline_capability_list Inspection = [CodeComprehension, FileSystem]"
| "baseline_capability_list Research = [CResearch]"
| "baseline_capability_list Design = [Architecture, Planning]"
| "baseline_capability_list Implementation = [CodeGeneration, CodeEditing, FileSystem]"
| "baseline_capability_list BugFix = [Debugging, CodeEditing, CodeComprehension]"
| "baseline_capability_list Refactor = [Refactoring, CodeEditing, CodeComprehension]"
| "baseline_capability_list Testing = [CTesting, CodeGeneration]"
| "baseline_capability_list Validation = [ShellExecution]"
| "baseline_capability_list Documentation = [CDocumentation]"
| "baseline_capability_list Review = [CodeReview, CodeComprehension]"
| "baseline_capability_list General = []"

definition baseline_capabilities :: "task_type \<Rightarrow> capability_set" where
  "baseline_capabilities t = capability_set_of (baseline_capability_list t)"

fun baseline_complexity :: "task_type \<Rightarrow> f64" where
  "baseline_complexity Validation = flit (1 / 10)"
| "baseline_complexity Inspection = flit (3 / 10)"
| "baseline_complexity Documentation = flit (3 / 10)"
| "baseline_complexity Testing = flit (4 / 10)"
| "baseline_complexity Research = flit (4 / 10)"
| "baseline_complexity Review = flit (5 / 10)"
| "baseline_complexity Refactor = flit (5 / 10)"
| "baseline_complexity Implementation = flit (6 / 10)"
| "baseline_complexity General = flit (6 / 10)"
| "baseline_complexity BugFix = flit (7 / 10)"
| "baseline_complexity Design = flit (8 / 10)"

datatype risk = ReadOnly | Low | Medium | High

datatype task_status = Pending | Ready | Running | Completed | Failed | Skipped | TaskCancelled

definition is_terminal :: "task_status \<Rightarrow> bool" where
  "is_terminal s = (s \<in> {Completed, Failed, Skipped, TaskCancelled})"

section \<open>Token accounting\<close>

record token_usage =
  tu_input :: u64
  tu_output :: u64
  tu_cached :: u64
  tu_reported :: bool

definition reported_usage :: "u64 \<Rightarrow> u64 \<Rightarrow> token_usage" where
  "reported_usage i out = \<lparr>tu_input = i, tu_output = out, tu_cached = 0, tu_reported = True\<rparr>"

definition estimated_usage :: "u64 \<Rightarrow> u64 \<Rightarrow> token_usage" where
  "estimated_usage i out = \<lparr>tu_input = i, tu_output = out, tu_cached = 0, tu_reported = False\<rparr>"

text \<open>\<open>div_ceil(4)\<close> of the byte length, which fits in 64 bits.\<close>

definition estimate_from_text :: "string \<Rightarrow> string \<Rightarrow> token_usage" where
  "estimate_from_text i out =
     (let tokens = \<lambda>t. of_nat ((length t + 3) div 4) in estimated_usage (tokens i) (tokens out))"

definition usage_total :: "token_usage \<Rightarrow> u64" where
  "usage_total u = saturating_add (tu_input u) (tu_output u)"

definition usage_merge :: "token_usage \<Rightarrow> token_usage \<Rightarrow> token_usage" where
  "usage_merge u v =
     \<lparr>tu_input = saturating_add (tu_input u) (tu_input v),
      tu_output = saturating_add (tu_output u) (tu_output v),
      tu_cached = saturating_add (tu_cached u) (tu_cached v),
      tu_reported = (tu_reported u \<and> tu_reported v)\<rparr>"

section \<open>Specifications, outcomes, tasks\<close>

record task_spec =
  ts_description :: string
  ts_task_type :: task_type
  ts_required_capabilities :: capability_set
  ts_dependencies :: "task_id list"
  ts_priority :: u8
  ts_risk :: risk
  ts_complexity :: f64
  ts_estimated_tokens :: "u64 option"

definition new_spec :: "string \<Rightarrow> task_type \<Rightarrow> task_spec" where
  "new_spec d t = \<lparr>ts_description = d, ts_task_type = t,
     ts_required_capabilities = baseline_capabilities t, ts_dependencies = [], ts_priority = 5,
     ts_risk = ReadOnly, ts_complexity = baseline_complexity t, ts_estimated_tokens = None\<rparr>"

definition depends_on :: "task_spec \<Rightarrow> task_id \<Rightarrow> task_spec" where
  "depends_on s t = s\<lparr>ts_dependencies := ts_dependencies s @ [t]\<rparr>"

definition with_risk :: "task_spec \<Rightarrow> risk \<Rightarrow> task_spec" where
  "with_risk s r = s\<lparr>ts_risk := r\<rparr>"

definition with_complexity :: "task_spec \<Rightarrow> f64 \<Rightarrow> task_spec" where
  "with_complexity s c = s\<lparr>ts_complexity := fclamp c f0 f1\<rparr>"

definition requiring :: "task_spec \<Rightarrow> capability \<Rightarrow> task_spec" where
  "requiring s c = s\<lparr>ts_required_capabilities := bs_insert c (ts_required_capabilities s)\<rparr>"

record execution_outcome =
  eo_attempt_id :: attempt_id
  eo_agent_id :: agent_id
  eo_model_id :: "model_id option"
  eo_success :: bool
  eo_output :: string
  eo_changed_files :: "string list"
  eo_tokens :: token_usage
  eo_latency_ms :: u64
  eo_failure_class :: "error_class option"
  eo_failure_reason :: "string option"
  eo_reported_cost_usd :: "f64 option"

record task =
  tk_id :: task_id
  tk_parent_id :: "task_id option"
  tk_spec :: task_spec
  tk_status :: task_status
  tk_assigned_agent :: "agent_id option"
  tk_assigned_model :: "model_id option"
  tk_attempts :: "execution_outcome list"
  tk_artifacts :: "string list"

definition new_task :: "task_id \<Rightarrow> task_spec \<Rightarrow> task" where
  "new_task fresh spec = \<lparr>tk_id = fresh, tk_parent_id = None, tk_spec = spec, tk_status = Pending,
     tk_assigned_agent = None, tk_assigned_model = None, tk_attempts = [], tk_artifacts = []\<rparr>"

definition task_with_id :: "task_id \<Rightarrow> task_spec \<Rightarrow> task" where
  "task_with_id i spec = (new_task i spec)\<lparr>tk_id := i\<rparr>"

definition attempt_count :: "task \<Rightarrow> nat" where
  "attempt_count t = length (tk_attempts t)"

definition failed_targets :: "task \<Rightarrow> (agent_id \<times> model_id option) list" where
  "failed_targets t =
     map (\<lambda>a. (eo_agent_id a, eo_model_id a)) (filter (\<lambda>a. \<not> eo_success a) (tk_attempts t))"

definition successful_outcome :: "task \<Rightarrow> execution_outcome option" where
  "successful_outcome t = List.find eo_success (tk_attempts t)"

definition task_total_tokens :: "task \<Rightarrow> token_usage" where
  "task_total_tokens t =
     fold (\<lambda>a acc. usage_merge acc (eo_tokens a)) (tk_attempts t) (reported_usage 0 0)"

section \<open>Laws of token accounting\<close>

lemma usage_merge_assoc: "usage_merge (usage_merge u v) w = usage_merge u (usage_merge v w)"
  by (simp add: usage_merge_def saturating_add_assoc)

lemma usage_merge_commute: "usage_merge u v = usage_merge v u"
  by (auto simp: usage_merge_def saturating_add_commute)

text \<open>The merge of a list of usages: every counter is the true sum, cut at the 64-bit maximum,
  and the result counts as reported only when every part was.\<close>

lemma fold_usage_merge:
  fixes us :: "token_usage list"
  defines "r \<equiv> \<lambda>acc. fold (\<lambda>u acc. usage_merge acc u) us acc"
  shows "unat (tu_input (r acc)) = min (unat (tu_input acc) + (\<Sum>u\<leftarrow>us. unat (tu_input u))) (2 ^ 64 - 1)"
    and "unat (tu_output (r acc)) = min (unat (tu_output acc) + (\<Sum>u\<leftarrow>us. unat (tu_output u))) (2 ^ 64 - 1)"
    and "tu_reported (r acc) \<longleftrightarrow> tu_reported acc \<and> list_all tu_reported us"
proof -
  have lt: "unat (w :: u64) \<le> 2 ^ 64 - 1" for w using unat_lt_len [of w] by simp
  show "unat (tu_input (r acc)) = min (unat (tu_input acc) + (\<Sum>u\<leftarrow>us. unat (tu_input u))) (2 ^ 64 - 1)"
    unfolding r_def
  proof (induction us arbitrary: acc)
    case Nil
    then show ?case using lt [of "tu_input acc"] by simp
  next
    case (Cons u us)
    then show ?case by (simp add: usage_merge_def unat_saturating_add)
  qed
  show "unat (tu_output (r acc)) = min (unat (tu_output acc) + (\<Sum>u\<leftarrow>us. unat (tu_output u))) (2 ^ 64 - 1)"
    unfolding r_def
  proof (induction us arbitrary: acc)
    case Nil
    then show ?case using lt [of "tu_output acc"] by simp
  next
    case (Cons u us)
    then show ?case by (simp add: usage_merge_def unat_saturating_add)
  qed
  show "tu_reported (r acc) \<longleftrightarrow> tu_reported acc \<and> list_all tu_reported us"
    unfolding r_def by (induction us arbitrary: acc) (auto simp: usage_merge_def)
qed

lemma task_total_tokens_fold:
  "task_total_tokens t = fold (\<lambda>u acc. usage_merge acc u) (map eo_tokens (tk_attempts t)) (reported_usage 0 0)"
  by (simp add: task_total_tokens_def fold_map comp_def)

lemma successful_outcome_iff: "successful_outcome t = None \<longleftrightarrow> (\<forall>a \<in> set (tk_attempts t). \<not> eo_success a)"
  by (auto simp: successful_outcome_def find_None_iff)

lemma baseline_complexity_unit: "unit_range (baseline_complexity t)"
  by (cases t) (simp_all add: unit_range_flit)

lemma bs_wf_baseline [wf_intros]: "bs_wf (baseline_capabilities t)"
  by (simp add: baseline_capabilities_def capability_set_of_wf)

end
