(* ===== verification/Step_System.thy ===== *)
theory Step_System
  imports Main
begin

text \<open>
  The contract a stateful component offers its clients: a set of start states, a total step
  function on the events it accepts, and an invariant that the start states have and every step
  keeps. A framed system also says which parts of its view an event may change. The circuit
  breakers, the ownership ledger, the routing history and the agent registry interpret these
  locales on their own definitions, so that the lemmas on runs are proved once, here.
\<close>

locale step_system =
  fixes start :: "'s \<Rightarrow> bool" and step :: "'e \<Rightarrow> 's \<Rightarrow> 's" and inv :: "'s \<Rightarrow> bool"
  assumes inv_start: "start s \<Longrightarrow> inv s"
    and inv_step: "inv s \<Longrightarrow> inv (step e s)"
begin

lemma inv_run: "inv s \<Longrightarrow> inv (fold step es s)"
  by (induction es arbitrary: s) (simp_all add: inv_step)

lemma inv_reached: "start s \<Longrightarrow> inv (fold step es s)"
  by (rule inv_run) (rule inv_start)

end

locale framed_system = step_system start step inv
  for start :: "'s \<Rightarrow> bool" and step :: "'e \<Rightarrow> 's \<Rightarrow> 's" and inv :: "'s \<Rightarrow> bool" +
  fixes view :: "'s \<Rightarrow> 'k \<Rightarrow> 'v" and touches :: "'e \<Rightarrow> 'k \<Rightarrow> bool"
  assumes frame: "inv s \<Longrightarrow> \<not> touches e k \<Longrightarrow> view (step e s) k = view s k"
begin

lemma frame_run: "inv s \<Longrightarrow> \<forall>e \<in> set es. \<not> touches e k \<Longrightarrow> view (fold step es s) k = view s k"
  by (induction es arbitrary: s) (simp_all add: inv_step frame)

text \<open>What no event of a run touches is as it was at the start.\<close>

lemma frame_reached: "start s \<Longrightarrow> \<forall>e \<in> set es. \<not> touches e k \<Longrightarrow> view (fold step es s) k = view s k"
  by (rule frame_run) (rule inv_start)

end

end
