(* ===== verification/Adaptive.thy ===== *)
theory Adaptive
  imports Task Step_System
begin

text \<open>
  \<open>cuma-router/src/adaptive.rs\<close>: observed outcomes folded into per-bucket statistics,
  and the blend of an observed success rate into a prior. The counters are 32 bits wide and
  wrap; the running means saturate at 64 bits, as in the source.
\<close>

record outcome_record =
  or_agent_id :: agent_id
  or_model_id :: "model_id option"
  or_task_type :: task_type
  or_success :: bool
  or_failure_class :: "error_class option"
  or_latency_ms :: u64
  or_tokens :: u64
  or_estimated_cost_usd :: "f64 option"
  or_retry_count :: u32
  or_user_accepted :: "bool option"
  or_at :: timestamp

definition outcome_success ::
  "timestamp \<Rightarrow> agent_id \<Rightarrow> model_id option \<Rightarrow> task_type \<Rightarrow> u64 \<Rightarrow> u64 \<Rightarrow> outcome_record" where
  "outcome_success now a m t latency tokens =
     \<lparr>or_agent_id = a, or_model_id = m, or_task_type = t, or_success = True, or_failure_class = None,
      or_latency_ms = latency, or_tokens = tokens, or_estimated_cost_usd = None, or_retry_count = 0,
      or_user_accepted = None, or_at = now\<rparr>"

definition outcome_failure ::
  "timestamp \<Rightarrow> agent_id \<Rightarrow> model_id option \<Rightarrow> task_type \<Rightarrow> error_class \<Rightarrow> u64 \<Rightarrow> outcome_record" where
  "outcome_failure now a m t cls latency =
     \<lparr>or_agent_id = a, or_model_id = m, or_task_type = t, or_success = False, or_failure_class = Some cls,
      or_latency_ms = latency, or_tokens = 0, or_estimated_cost_usd = None, or_retry_count = 0,
      or_user_accepted = None, or_at = now\<rparr>"

record adaptive_stats =
  as_attempts :: u32
  as_successes :: u32
  as_mean_latency_ms :: u64
  as_mean_tokens :: u64

definition default_stats :: adaptive_stats where
  "default_stats = \<lparr>as_attempts = 0, as_successes = 0, as_mean_latency_ms = 0, as_mean_tokens = 0\<rparr>"

definition success_rate :: "adaptive_stats \<Rightarrow> f64 option" where
  "success_rate s =
     (if as_attempts s = 0 then None
      else Some (fdiv (word_to_f64 (as_successes s)) (word_to_f64 (as_attempts s))))"

definition running_mean :: "u64 \<Rightarrow> u32 \<Rightarrow> u64 \<Rightarrow> u64" where
  "running_mean current count sample =
     (if count = 0 then sample
      else let n = ucast count in saturating_add (saturating_mul current n) sample div (n + 1))"

definition stats_record :: "outcome_record \<Rightarrow> adaptive_stats \<Rightarrow> adaptive_stats" where
  "stats_record out s =
     (let previous = as_attempts s;
          s = s\<lparr>as_attempts := as_attempts s + 1\<rparr>;
          s = (if or_success out then s\<lparr>as_successes := as_successes s + 1\<rparr> else s);
          s = s\<lparr>as_mean_latency_ms := running_mean (as_mean_latency_ms s) previous (or_latency_ms out)\<rparr>
      in if or_success out
         then s\<lparr>as_mean_tokens := running_mean (as_mean_tokens s) previous (or_tokens out)\<rparr> else s)"

type_synonym bucket = "agent_id \<times> model_id option \<times> task_type"
type_synonym routing_history = "(string, adaptive_stats) btree"

definition history_key :: "bucket \<Rightarrow> string" where
  "history_key b =
     (case b of (a, m, t) \<Rightarrow>
        agent_str a @ ''|'' @ (case m of None \<Rightarrow> ''*'' | Some m \<Rightarrow> model_str m) @ ''|'' @ debug_task_type t)"

definition outcome_bucket :: "outcome_record \<Rightarrow> bucket" where
  "outcome_bucket out = (or_agent_id out, or_model_id out, or_task_type out)"

definition history_record :: "outcome_record \<Rightarrow> routing_history \<Rightarrow> routing_history" where
  "history_record out h = bt_entry (history_key (outcome_bucket out)) default_stats (stats_record out) h"

definition history_stats :: "routing_history \<Rightarrow> bucket \<Rightarrow> adaptive_stats option" where
  "history_stats h b = bt_get h (history_key b)"

definition history_restore :: "bucket \<Rightarrow> adaptive_stats \<Rightarrow> routing_history \<Rightarrow> routing_history" where
  "history_restore b s h = bt_insert (history_key b) s h"

definition history_len :: "routing_history \<Rightarrow> nat" where
  "history_len h = length h"

definition blend :: "routing_history \<Rightarrow> f64 \<Rightarrow> bucket \<Rightarrow> f64 \<Rightarrow> u32 \<Rightarrow> f64 \<times> bool" where
  "blend h prior b adaptive_weight min_samples =
     (let weight = fclamp adaptive_weight f0 f1 in
      if fle weight f0 then (prior, False)
      else case history_stats h b of
        None \<Rightarrow> (prior, False)
      | Some stats \<Rightarrow>
          (case success_rate stats of
             None \<Rightarrow> (prior, False)
           | Some observed \<Rightarrow>
               let floor = max min_samples 1 in
               if as_attempts stats < floor then (prior, False)
               else
                 let confidence = fclamp (fdiv (word_to_f64 (as_attempts stats)) (word_to_f64 (floor * 2))) f0 f1;
                     effective = fmul weight confidence
                 in (fclamp (fadd (fmul prior (fsub f1 effective)) (fmul observed effective)) f0 f1, True)))"

section \<open>The statistics of a bucket\<close>

lemma stats_record_fields:
  "as_attempts (stats_record out s) = as_attempts s + 1"
  "as_successes (stats_record out s) = (if or_success out then as_successes s + 1 else as_successes s)"
  "as_mean_latency_ms (stats_record out s) = running_mean (as_mean_latency_ms s) (as_attempts s) (or_latency_ms out)"
  "as_mean_tokens (stats_record out s) =
     (if or_success out then running_mean (as_mean_tokens s) (as_attempts s) (or_tokens out) else as_mean_tokens s)"
  by (simp_all add: stats_record_def Let_def)

text \<open>Below the width of the counters the statistics count exactly.\<close>

lemma stats_fold_counts:
  assumes "unat (as_attempts s) + length outs < 2 ^ 32" "as_successes s \<le> as_attempts s"
  shows "unat (as_attempts (fold stats_record outs s)) = unat (as_attempts s) + length outs \<and>
    unat (as_successes (fold stats_record outs s)) = unat (as_successes s) + length (filter or_success outs)"
  using assms
proof (induction outs arbitrary: s)
  case (Cons out outs)
  have le: "unat (as_successes s) \<le> unat (as_attempts s)" using Cons.prems(2) by (simp add: word_le_nat_alt)
  have a: "unat (as_attempts s + 1) = Suc (unat (as_attempts s))"
    using Cons.prems(1) by (intro unat_Suc_word [where n = "2 ^ 32 - 1"]) auto
  have b: "unat (as_successes s + 1) = Suc (unat (as_successes s))"
    using Cons.prems(1) le by (intro unat_Suc_word [where n = "2 ^ 32 - 1"]) auto
  have "unat (as_attempts (stats_record out s)) + length outs < 2 ^ 32"
    "as_successes (stats_record out s) \<le> as_attempts (stats_record out s)"
    using Cons.prems(1) le a b by (auto simp: stats_record_fields word_le_nat_alt)
  then show ?case using Cons.IH [of "stats_record out s"] a b by (simp add: stats_record_fields)
qed simp

text \<open>A running mean never leaves the range of what it has seen: it is at most the larger of the
  old mean and the sample, even when the product saturates, and at least the smaller unless it does.\<close>

lemma unat_running_mean:
  "unat (running_mean current count sample) =
     (if count = 0 then unat sample
      else min (min (unat current * unat count) (2 ^ 64 - 1) + unat sample) (2 ^ 64 - 1) div Suc (unat count))"
proof (cases "count = 0")
  case False
  have n: "unat (ucast count :: u64) = unat count"
    using unat_lt_len [of count] by (simp add: unsigned_ucast_eq take_bit_nat_eq_self_iff)
  have "unat ((ucast count :: u64) + 1) = Suc (unat count)"
    using unat_lt_len [of count] n by (subst unat_Suc_word [where n = "2 ^ 64 - 1"]) auto
  with False n show ?thesis
    by (simp add: running_mean_def Let_def unat_div_distrib unat_saturating_add unat_saturating_mul)
qed (simp add: running_mean_def)

lemma running_mean_le: "unat (running_mean current count sample) \<le> max (unat current) (unat sample)"
proof (cases "count = 0")
  case False
  let ?m = "max (unat current) (unat sample)"
  have "unat (running_mean current count sample) \<le> (unat current * unat count + unat sample) div Suc (unat count)"
    using False by (simp add: unat_running_mean div_le_mono)
  also have "\<dots> \<le> (?m * unat count + ?m) div Suc (unat count)"
    by (intro div_le_mono add_mono mult_le_mono1) auto
  also have "?m * unat count + ?m = ?m * Suc (unat count)" by simp
  finally show ?thesis by (simp del: mult_Suc_right)
qed (simp add: unat_running_mean)

lemma running_mean_ge:
  assumes "unat current * unat count + unat sample < 2 ^ 64"
  shows "min (unat current) (unat sample) \<le> unat (running_mean current count sample)"
proof (cases "count = 0")
  case False
  let ?m = "min (unat current) (unat sample)"
  have "?m = (?m * Suc (unat count)) div Suc (unat count)" by (simp del: mult_Suc_right)
  also have "\<dots> \<le> (unat current * unat count + unat sample) div Suc (unat count)"
    by (intro div_le_mono) (simp add: add_mono mult_le_mono1 add.commute)
  finally show ?thesis using False assms by (simp add: unat_running_mean)
qed (simp add: unat_running_mean)

lemma success_rate_unit:
  assumes "as_successes s \<le> as_attempts s" "success_rate s = Some r"
  shows "unit_range r"
proof -
  have "unat (as_attempts s) \<le> 2 ^ 53" using unat_lt_len [of "as_attempts s"] by simp
  moreover have "unat (as_attempts s) \<noteq> 0" using assms(2) by (auto simp: success_rate_def unat_gt_0 split: if_splits)
  ultimately have "unit_range (fdiv (word_to_f64 (as_successes s)) (word_to_f64 (as_attempts s)))"
    unfolding word_to_f64_def using assms(1) by (intro fdiv_counts_unit) (simp_all add: word_le_nat_alt)
  then show ?thesis using assms(2) by (auto simp: success_rate_def split: if_splits)
qed

section \<open>Blending\<close>

lemma blend_not_applied: "blend h prior b w n = (r, False) \<Longrightarrow> r = prior"
  by (auto simp: blend_def Let_def split: if_splits option.splits)

lemma blend_applied_iff:
  "snd (blend h prior b w n) \<longleftrightarrow> \<not> fle (fclamp w f0 f1) f0 \<and>
     (\<exists>s. history_stats h b = Some s \<and> as_attempts s \<noteq> 0 \<and> max n 1 \<le> as_attempts s)"
  by (auto simp: blend_def Let_def success_rate_def not_less simp del: max.bounded_iff split: option.splits)

lemma confidence_unit:
  assumes "as_attempts s \<noteq> 0"
  shows "unit_range (fclamp (fdiv (word_to_f64 (as_attempts s)) (word_to_f64 (k :: u32))) f0 f1)"
proof (intro fclamp_unit)
  have "unat (as_attempts s) \<le> 2 ^ 53" "unat k \<le> 2 ^ 53" "0 < unat (as_attempts s)"
    using unat_lt_len [of "as_attempts s"] unat_lt_len [of k] assms by (auto simp: unat_gt_0)
  then show "fdiv (word_to_f64 (as_attempts s)) (word_to_f64 k) \<noteq> NaN"
    by (simp add: word_to_f64_def f64_of_nat_def flit_nat_exact signed_inf_def del: of_nat_unat)
qed

lemma blend_unit:
  assumes prior: "unit_range prior" and w: "w \<noteq> NaN"
    and hist: "\<forall>s. history_stats h b = Some s \<longrightarrow> as_successes s \<le> as_attempts s"
  shows "unit_range (fst (blend h prior b w n))"
proof (cases "snd (blend h prior b w n)")
  case False
  then have "fst (blend h prior b w n) = prior"
    using blend_not_applied [of h prior b w n "fst (blend h prior b w n)"] by (simp add: prod_eq_iff)
  with prior show ?thesis by simp
next
  case True
  then obtain s where s: "history_stats h b = Some s" "as_attempts s \<noteq> 0" "max n 1 \<le> as_attempts s"
    "\<not> fle (fclamp w f0 f1) f0"
    by (auto simp: blend_applied_iff simp del: max.bounded_iff)
  let ?e = "fmul (fclamp w f0 f1) (fclamp (fdiv (word_to_f64 (as_attempts s)) (word_to_f64 (max n 1 * 2))) f0 f1)"
  let ?r = "fdiv (word_to_f64 (as_successes s)) (word_to_f64 (as_attempts s))"
  have e: "unit_range ?e" using fclamp_unit [OF w] confidence_unit [OF s(2)] by (rule unit_range_mul)
  have r: "unit_range ?r" using success_rate_unit [of s ?r] hist s by (simp add: success_rate_def)
  have "fadd (fmul prior (fsub f1 ?e)) (fmul ?r ?e) \<noteq> NaN"
    by (intro fadd_unit_not_NaN unit_range_mul unit_range_one_minus e r prior)
  then have "unit_range (fclamp (fadd (fmul prior (fsub f1 ?e)) (fmul ?r ?e)) f0 f1)" by (rule fclamp_unit)
  then show ?thesis using s by (simp add: blend_def Let_def success_rate_def not_less [symmetric] del: max.bounded_iff)
qed

section \<open>The history as a framed system\<close>

datatype history_event = Observed outcome_record | Restored bucket adaptive_stats

fun history_step :: "history_event \<Rightarrow> routing_history \<Rightarrow> routing_history" where
  "history_step (Observed out) h = history_record out h"
| "history_step (Restored b s) h = history_restore b s h"

fun event_key :: "history_event \<Rightarrow> string" where
  "event_key (Observed out) = history_key (outcome_bucket out)"
| "event_key (Restored b _) = history_key b"

interpretation history: framed_system
  "\<lambda>h. h = []" history_step bt_wf history_stats "\<lambda>e b. history_key b = event_key e"
proof
  show "bt_wf (history_step e h)" if "bt_wf h" for e h
    using that by (cases e) (simp_all add: history_record_def history_restore_def wf_intros)
  show "history_stats (history_step e h) b = history_stats h b" if "history_key b \<noteq> event_key e" for e h b
    using that by (cases e) (simp_all add: history_record_def history_restore_def history_stats_def
      bt_get_entry bt_get_insert)
qed auto

lemma history_record_stats:
  "history_stats (history_record out h) (outcome_bucket out) =
     Some (stats_record out (case history_stats h (outcome_bucket out) of None \<Rightarrow> default_stats | Some s \<Rightarrow> s))"
  by (simp add: history_record_def history_stats_def bt_get_entry split: option.split)

text \<open>The key of a bucket with no model is the key of the bucket of a model called \<open>*\<close>.\<close>

lemma history_fold_stats:
  "history_stats (fold history_record outs []) b =
     (let mine = filter (\<lambda>out. history_key (outcome_bucket out) = history_key b) outs
      in if mine = [] then None else Some (fold stats_record mine default_stats))"
proof -
  have "fold history_record outs [] =
      fold (\<lambda>out. bt_entry (history_key (outcome_bucket out)) default_stats (stats_record out)) outs []"
    by (rule fold_cong) (simp_all add: history_record_def fun_eq_iff)
  moreover have "filter (\<lambda>out. history_key (outcome_bucket out) = history_key b) outs = [] \<longleftrightarrow>
      history_key b \<notin> (\<lambda>out. history_key (outcome_bucket out)) ` set outs"
    unfolding filter_empty_conv image_iff by metis
  ultimately show ?thesis by (simp add: history_stats_def bt_get_fold_entry Let_def)
qed

lemma history_key_collision: "history_key (a, None, t) = history_key (a, Some (ModelId ''*''), t)"
  by (simp add: history_key_def)

end
