(* ===== verification/Config.thy ===== *)
theory Config
  imports Agent
begin

text \<open>
  The parts of \<open>cuma-config/src/model.rs\<close> that the router, the registry and the executor
  read: routing strategies and weights with their validation and normalization, the settings of
  one agent, and the limits. The text of a weight in an error message is the standard library's
  shortest rendering of an \<open>f64\<close>, an argument of the validation.
\<close>

section \<open>Weights\<close>

datatype routing_strategy =
  Balanced | QualityFirst | CostFirst | LatencyFirst | LocalFirst | PrivacyFirst | Manual

fun debug_strategy :: "routing_strategy \<Rightarrow> string" where
  "debug_strategy Balanced = ''Balanced''"
| "debug_strategy QualityFirst = ''QualityFirst''"
| "debug_strategy CostFirst = ''CostFirst''"
| "debug_strategy LatencyFirst = ''LatencyFirst''"
| "debug_strategy LocalFirst = ''LocalFirst''"
| "debug_strategy PrivacyFirst = ''PrivacyFirst''"
| "debug_strategy Manual = ''Manual''"

record router_weights =
  rw_quality :: f64
  rw_cost :: f64
  rw_latency :: f64
  rw_reliability :: f64
  rw_context :: f64

definition mk_weights :: "rat \<Rightarrow> rat \<Rightarrow> rat \<Rightarrow> rat \<Rightarrow> rat \<Rightarrow> router_weights" where
  "mk_weights q c l r x = \<lparr>rw_quality = flit q, rw_cost = flit c, rw_latency = flit l,
     rw_reliability = flit r, rw_context = flit x\<rparr>"

definition balanced_weights :: router_weights where
  "balanced_weights = mk_weights (30 / 100) (20 / 100) (10 / 100) (30 / 100) (10 / 100)"

fun default_weights :: "routing_strategy \<Rightarrow> router_weights" where
  "default_weights Balanced = balanced_weights"
| "default_weights QualityFirst = mk_weights (55 / 100) (5 / 100) (5 / 100) (25 / 100) (10 / 100)"
| "default_weights CostFirst = mk_weights (15 / 100) (55 / 100) (5 / 100) (15 / 100) (10 / 100)"
| "default_weights LatencyFirst = mk_weights (15 / 100) (10 / 100) (50 / 100) (20 / 100) (5 / 100)"
| "default_weights LocalFirst = mk_weights (25 / 100) (15 / 100) (15 / 100) (35 / 100) (10 / 100)"
| "default_weights PrivacyFirst = mk_weights (25 / 100) (15 / 100) (15 / 100) (35 / 100) (10 / 100)"
| "default_weights Manual = balanced_weights"

definition weights_sum :: "router_weights \<Rightarrow> f64" where
  "weights_sum w =
     fadd (fadd (fadd (fadd (rw_quality w) (rw_cost w)) (rw_latency w)) (rw_reliability w)) (rw_context w)"

definition weight_dims :: "router_weights \<Rightarrow> (string \<times> f64) list" where
  "weight_dims w =
     [(''quality'', rw_quality w), (''cost'', rw_cost w), (''latency'', rw_latency w),
      (''reliability'', rw_reliability w), (''context'', rw_context w)]"

definition weights_validate :: "(f64 \<Rightarrow> string) \<Rightarrow> router_weights \<Rightarrow> unit result" where
  "weights_validate show_f64 w =
     (case List.find (\<lambda>(name, v). flt v f0 \<or> \<not> is_finite v) (weight_dims w) of
        Some (name, v) \<Rightarrow>
          Inl (EConfiguration (''router.weights.'' @ name @
            '' must be a finite non-negative number, got '' @ show_f64 v))
      | None \<Rightarrow>
          if fle (weights_sum w) f0
          then Inl (EConfiguration ''router weights cannot all be zero; routing would be arbitrary'')
          else Inr ())"

definition weights_normalized :: "router_weights \<Rightarrow> router_weights" where
  "weights_normalized w =
     (let sum = weights_sum w in
      if fle sum f0 then balanced_weights
      else \<lparr>rw_quality = fdiv (rw_quality w) sum, rw_cost = fdiv (rw_cost w) sum,
            rw_latency = fdiv (rw_latency w) sum, rw_reliability = fdiv (rw_reliability w) sum,
            rw_context = fdiv (rw_context w) sum\<rparr>)"

section \<open>Router, agent and limit settings\<close>

record router_config =
  rc_strategy :: routing_strategy
  rc_weights :: router_weights
  rc_pin_agent :: "string option"
  rc_pin_model :: "string option"
  rc_exclude_agents :: "string list"
  rc_exclude_models :: "string list"
  rc_adaptive_weight :: f64
  rc_adaptive_min_samples :: u32

definition default_router_config :: router_config where
  "default_router_config =
     \<lparr>rc_strategy = Balanced, rc_weights = balanced_weights, rc_pin_agent = None, rc_pin_model = None,
      rc_exclude_agents = [], rc_exclude_models = [], rc_adaptive_weight = f0,
      rc_adaptive_min_samples = 0\<rparr>"

record agent_config =
  ac_enabled :: bool
  ac_protocol :: string
  ac_command :: "string option"
  ac_endpoint :: "string option"
  ac_capabilities :: "string list"
  ac_models :: "string list"
  ac_auth_secret_ref :: "string option"
  ac_metadata :: "(string, string) btree"
  ac_sandbox :: "string option"
  ac_state :: "string list"
  ac_env :: "string list"

definition default_agent_config :: agent_config where
  "default_agent_config =
     \<lparr>ac_enabled = True, ac_protocol = ''acp'', ac_command = None, ac_endpoint = None,
      ac_capabilities = [], ac_models = [], ac_auth_secret_ref = None, ac_metadata = [],
      ac_sandbox = None, ac_state = [], ac_env = []\<rparr>"

definition add_stated_model :: "string \<Rightarrow> agent_descriptor \<Rightarrow> agent_descriptor" where
  "add_stated_model m d =
     (if agent_model d (ModelId m) = None
      then d\<lparr>ad_models := ad_models d @ [minimal_model (ad_id d) (ModelId m) m]\<rparr> else d)"

definition apply_to :: "agent_config \<Rightarrow> agent_descriptor \<Rightarrow> agent_descriptor" where
  "apply_to c d0 =
     (let d = d0\<lparr>ad_capabilities := fold bs_insert (map parse_capability (ac_capabilities c)) (ad_capabilities d0)\<rparr>;
          d = fold add_stated_model (ac_models c) d
      in d\<lparr>ad_metadata := fold (\<lambda>(k, v). bt_insert k v) (ac_metadata c) (ad_metadata d)\<rparr>)"

datatype task_isolation = Shared | Worktree

record limits_config =
  lc_max_parallel_tasks :: nat
  lc_max_retries :: u32
  lc_task_timeout_secs :: u64
  lc_max_cost_usd :: "f64 option"
  lc_max_tokens :: "u64 option"
  lc_isolation :: task_isolation

definition default_limits :: limits_config where
  "default_limits =
     \<lparr>lc_max_parallel_tasks = 4, lc_max_retries = 3, lc_task_timeout_secs = 600,
      lc_max_cost_usd = None, lc_max_tokens = None, lc_isolation = Shared\<rparr>"

text \<open>The checks of \<open>Config::validate\<close> on the weights and the limits, in its order.\<close>

definition limits_validate :: "limits_config \<Rightarrow> unit result" where
  "limits_validate l =
     (if lc_max_parallel_tasks l = 0 then
        Inl (EConfiguration ''limits.max_parallel_tasks must be at least 1'')
      else if 10 < lc_max_retries l then
        Inl (EConfiguration (''limits.max_retries = '' @ show_word (lc_max_retries l) @
          '' is implausibly high; retries must stay bounded''))
      else if (case lc_max_cost_usd l of Some budget \<Rightarrow> fle budget f0 | None \<Rightarrow> False) then
        Inl (EConfiguration ''limits.max_cost_usd must be positive when set'')
      else Inr ())"

section \<open>What validation and normalization guarantee\<close>

definition valid_weight :: "f64 \<Rightarrow> bool" where
  "valid_weight v \<longleftrightarrow> is_finite v \<and> fle f0 v"

definition all_weights :: "(f64 \<Rightarrow> bool) \<Rightarrow> router_weights \<Rightarrow> bool" where
  "all_weights P w \<longleftrightarrow> P (rw_quality w) \<and> P (rw_cost w) \<and> P (rw_latency w) \<and> P (rw_reliability w) \<and> P (rw_context w)"

lemma valid_weight_iff: "valid_weight v \<longleftrightarrow> \<not> (flt v f0 \<or> \<not> is_finite v)"
  by (cases v) (auto simp: valid_weight_def is_finite_def)

lemma weights_validate_iff:
  "weights_validate show_f64 w = Inr () \<longleftrightarrow> all_weights valid_weight w \<and> \<not> fle (weights_sum w) f0"
proof -
  have "List.find (\<lambda>(name, v). flt v f0 \<or> \<not> is_finite v) (weight_dims w) = None \<longleftrightarrow> all_weights valid_weight w"
    by (simp add: find_None_iff weight_dims_def all_weights_def valid_weight_iff)
  then show ?thesis by (auto simp: weights_validate_def split: option.split)
qed

lemma weights_sum_ge:
  assumes valid: "all_weights valid_weight w" and rep: "all_weights representable w"
  shows "all_weights (\<lambda>v. fle v (weights_sum w)) w"
proof -
  have v: "fle f0 (rw_quality w)" "fle f0 (rw_cost w)" "fle f0 (rw_latency w)" "fle f0 (rw_reliability w)"
    "fle f0 (rw_context w)" "is_finite (rw_quality w)" "is_finite (rw_cost w)" "is_finite (rw_latency w)"
    "is_finite (rw_reliability w)" "is_finite (rw_context w)"
    using valid by (auto simp: all_weights_def valid_weight_def)
  have r: "representable (rw_quality w)" "representable (rw_cost w)" "representable (rw_latency w)"
    "representable (rw_reliability w)" "representable (rw_context w)"
    using rep by (auto simp: all_weights_def)
  have "fle (rw_quality w) (rw_quality w)" using v(1) by (cases "rw_quality w") auto
  then show ?thesis unfolding all_weights_def weights_sum_def
    by (intro conjI fadd_ge_keep fadd_ge_right fadd_nonneg v r)
qed

text \<open>Normalized weights lie between zero and one, unless their sum overflows.\<close>

lemma weights_normalized_unit:
  assumes ok: "weights_validate show_f64 w = Inr ()" and rep: "all_weights representable w"
    and sum: "weights_sum w \<noteq> PInf"
  shows "all_weights unit_range (weights_normalized w)"
proof -
  have valid: "all_weights valid_weight w" and pos: "\<not> fle (weights_sum w) f0"
    using ok by (auto simp: weights_validate_iff)
  note le = weights_sum_ge [OF valid rep]
  have "fle f0 (rw_quality w)" "fle (rw_quality w) (weights_sum w)"
    using valid le by (auto simp: all_weights_def valid_weight_def)
  then have "flt f0 (weights_sum w)" using pos by (cases "weights_sum w") auto
  then show ?thesis
    using valid le sum pos
    by (auto simp: all_weights_def valid_weight_def weights_normalized_def Let_def intro!: fdiv_unit)
qed

lemma balanced_unit: "all_weights unit_range balanced_weights"
  by (simp add: all_weights_def balanced_weights_def mk_weights_def unit_range_flit)

text \<open>Applying the operator's settings keeps what the agent advertised and adds what was stated.\<close>

lemma add_stated_model_fields [simp]:
  "ad_id (add_stated_model m d) = ad_id d" "ad_capabilities (add_stated_model m d) = ad_capabilities d"
  "ad_metadata (add_stated_model m d) = ad_metadata d"
  by (simp_all add: add_stated_model_def)

lemma fold_add_stated_model:
  "ad_id (fold add_stated_model ms d) = ad_id d"
  "ad_capabilities (fold add_stated_model ms d) = ad_capabilities d"
  "ad_metadata (fold add_stated_model ms d) = ad_metadata d"
  by (induction ms arbitrary: d) simp_all

lemma add_stated_model_ids:
  "set (map md_id (ad_models (add_stated_model m d))) = insert (ModelId m) (set (map md_id (ad_models d)))"
  by (cases "agent_model d (ModelId m)")
     (auto simp: add_stated_model_def minimal_model_def dest!: agent_model_Some intro: rev_image_eqI)

lemma distinct_add_stated_model:
  "distinct (map md_id (ad_models d)) \<Longrightarrow> distinct (map md_id (ad_models (add_stated_model m d)))"
  by (auto simp: add_stated_model_def minimal_model_def agent_model_def find_None_iff)

lemma apply_to_capabilities:
  "set (ad_capabilities (apply_to c d)) =
     set (ad_capabilities d) \<union> parse_capability ` set (ac_capabilities c)"
  by (auto simp: apply_to_def Let_def fold_add_stated_model set_fold_bs_insert)

lemma apply_to_models:
  "set (map md_id (ad_models (apply_to c d))) = set (map md_id (ad_models d)) \<union> ModelId ` set (ac_models c)"
  "distinct (map md_id (ad_models d)) \<Longrightarrow> distinct (map md_id (ad_models (apply_to c d)))"
proof -
  have "set (map md_id (ad_models (fold add_stated_model ms d))) =
      set (map md_id (ad_models d)) \<union> ModelId ` set ms" for ms d
    by (induction ms arbitrary: d) (auto simp del: set_map simp: add_stated_model_ids)
  then show "set (map md_id (ad_models (apply_to c d))) =
      set (map md_id (ad_models d)) \<union> ModelId ` set (ac_models c)"
    by (simp add: apply_to_def Let_def)
  have "distinct (map md_id (ad_models d)) \<Longrightarrow> distinct (map md_id (ad_models (fold add_stated_model ms d)))" for ms d
    by (induction ms arbitrary: d) (simp_all add: distinct_add_stated_model)
  then show "distinct (map md_id (ad_models d)) \<Longrightarrow> distinct (map md_id (ad_models (apply_to c d)))"
    by (simp add: apply_to_def Let_def)
qed

text \<open>Every preset is accepted.\<close>

lemma mk_weights_valid:
  assumes "\<forall>x \<in> {q, c, l, r, y}. 1 / 64 \<le> x \<and> x \<le> 1"
  shows "weights_validate show_f64 (mk_weights q c l r y) = Inr ()"
proof -
  have e: "flit (1 / 64) = Fin (1 / 64)" using flit_powi [of "- 6"] by (simp add: power_int_minus)
  have w: "valid_weight (flit x) \<and> fle (Fin (1 / 64)) (flit x) \<and> fle f0 (flit x)" if "x \<in> {q, c, l, r, y}" for x
  proof -
    have x: "1 / 64 \<le> x" "x \<le> 1" using assms that by auto
    then have "unit_range (flit x)" by (intro unit_range_flit) auto
    then have "valid_weight (flit x)" by (auto simp: valid_weight_def unit_range_cases is_finite_def)
    moreover have "fle (Fin (1 / 64)) (flit x)" using flit_mono_le [OF x(1)] by (simp add: e)
    ultimately show ?thesis by (simp add: valid_weight_def)
  qed
  have "fle (Fin (1 / 64)) (weights_sum (mk_weights q c l r y))"
    unfolding weights_sum_def mk_weights_def by (simp add: w fadd_lower [OF e])
  then have "\<not> fle (weights_sum (mk_weights q c l r y)) f0" by (cases "weights_sum (mk_weights q c l r y)") auto
  moreover have "all_weights valid_weight (mk_weights q c l r y)" by (simp add: all_weights_def mk_weights_def w)
  ultimately show ?thesis by (simp add: weights_validate_iff)
qed

lemma presets_valid: "weights_validate show_f64 (default_weights s) = Inr ()"
  by (cases s) (simp_all add: balanced_weights_def mk_weights_valid)

end
