(* ===== verification/Score.thy ===== *)
theory Score
  imports Adaptive Config
begin

text \<open>
  \<open>cuma-router/src/score.rs\<close>: the five dimension scores of a candidate. Every
  dimension is a number between zero and one for inputs that are numbers; an unknown metric
  scores at the midpoint.
\<close>

definition unknown_score :: f64 where "unknown_score = flit (1 / 2)"
definition cost_ceiling :: f64 where "cost_ceiling = flit 30"
definition latency_ceiling :: f64 where "latency_ceiling = flit 120000"

record dimension_scores =
  ds_quality :: f64
  ds_cost :: f64
  ds_latency :: f64
  ds_reliability :: f64
  ds_context :: f64

abbreviation performance_of :: "agent_descriptor \<Rightarrow> model_descriptor option \<Rightarrow> performance_profile" where
  "performance_of agent model \<equiv>
     (case model of Some m \<Rightarrow> md_performance m | None \<Rightarrow> ad_performance_profile agent)"

abbreviation cost_of :: "agent_descriptor \<Rightarrow> model_descriptor option \<Rightarrow> cost_profile" where
  "cost_of agent model \<equiv> (case model of Some m \<Rightarrow> md_cost m | None \<Rightarrow> ad_cost_profile agent)"

definition score_quality :: "agent_descriptor \<Rightarrow> model_descriptor option \<Rightarrow> task \<Rightarrow> f64" where
  "score_quality agent model t =
     (let coverage = cm_score (match_against (effective_capabilities agent model)
                       (ts_required_capabilities (tk_spec t)));
          performance = performance_of agent model;
          coding = known_or (coding_score performance) unknown_score;
          reasoning = known_or (reasoning_score performance) unknown_score;
          complexity = fclamp (ts_complexity (tk_spec t)) f0 f1;
          skill = fadd (fmul coding (fsub f1 complexity)) (fmul reasoning complexity)
      in fclamp (fadd (fmul coverage (flit (7 / 10))) (fmul skill (flit (3 / 10)))) f0 f1)"

definition score_cost :: "agent_descriptor \<Rightarrow> model_descriptor option \<Rightarrow> f64 \<times> bool" where
  "score_cost agent model =
     (let profile = cost_of agent model in
      case (known_value (input_per_mtok profile), known_value (output_per_mtok profile)) of
        (Some input, Some output) \<Rightarrow>
          let blended = fadd (fmul input (flit (4 / 10))) (fmul output (flit (6 / 10)))
          in (fsub f1 (fclamp (fdiv blended cost_ceiling) f0 f1), True)
      | _ \<Rightarrow> (unknown_score, False))"

definition score_latency :: "agent_descriptor \<Rightarrow> model_descriptor option \<Rightarrow> f64 \<times> bool" where
  "score_latency agent model =
     (let observed = known_value (ah_last_latency_ms (ad_health agent));
          profiled = known_value (typical_latency_ms (performance_of agent model))
      in case (case observed of Some v \<Rightarrow> Some v | None \<Rightarrow> profiled) of
           None \<Rightarrow> (unknown_score, False)
         | Some ms \<Rightarrow> (fsub f1 (fclamp (fdiv (word_to_f64 ms) latency_ceiling) f0 f1), True))"

fun health_multiplier :: "health_state \<Rightarrow> f64" where
  "health_multiplier Healthy = f1"
| "health_multiplier Degraded = flit (6 / 10)"
| "health_multiplier RateLimited = flit (3 / 10)"
| "health_multiplier HealthUnknown = f1"
| "health_multiplier Unavailable = f0"

definition score_reliability :: "agent_descriptor \<Rightarrow> model_descriptor option \<Rightarrow> f64 \<times> bool" where
  "score_reliability agent model =
     (let (base, known) =
        (case historical_success_rate (performance_of agent model) of
           Reported rate \<Rightarrow> (fclamp rate f0 f1, True)
         | Estimated rate \<Rightarrow> (fclamp rate f0 f1, True)
         | UnknownValue \<Rightarrow> (unknown_score, False))
      in (fclamp (fmul base (health_multiplier (ah_state (ad_health agent)))) f0 f1, known))"

definition score_context :: "model_descriptor option \<Rightarrow> u64 option \<Rightarrow> f64 \<times> bool" where
  "score_context model estimated_tokens =
     (case (model, estimated_tokens) of
        (Some m, Some needed) \<Rightarrow>
          (case known_value (md_context_window m) of
             None \<Rightarrow> (unknown_score, False)
           | Some window \<Rightarrow>
               if window \<le> needed then (f0, True)
               else
                 let headroom = fsub f1 (fdiv (word_to_f64 needed) (word_to_f64 window))
                 in (fclamp (fdiv headroom (flit (66 / 100))) f0 f1, True))
      | _ \<Rightarrow> (unknown_score, False))"

definition score_all ::
  "agent_descriptor \<Rightarrow> model_descriptor option \<Rightarrow> task \<Rightarrow> dimension_scores \<times> string list" where
  "score_all agent model t =
     (let quality_score = score_quality agent model t;
          (cost_score, cost_known) = score_cost agent model;
          (latency_score, latency_known) = score_latency agent model;
          (reliability_score, reliability_known) = score_reliability agent model;
          (context_score, context_known) = score_context model (ts_estimated_tokens (tk_spec t));
          missing = cm_missing (match_against (effective_capabilities agent model)
                      (ts_required_capabilities (tk_spec t)));
          notes = (if cost_known then [] else [''pricing unknown; cost scored neutrally''])
            @ (if latency_known then [] else [''no latency data; scored neutrally''])
            @ (if reliability_known then [] else [''no execution history yet; reliability scored neutrally''])
            @ (if context_known then [] else [''context window or task size unknown; scored neutrally''])
            @ (if missing = [] then []
               else [''missing capabilities: '' @ join '', '' (map display_capability missing)])
      in (\<lparr>ds_quality = quality_score, ds_cost = cost_score, ds_latency = latency_score,
           ds_reliability = reliability_score, ds_context = context_score\<rparr>, notes))"

section \<open>Every dimension is in the unit interval\<close>

text \<open>What the scores need of the descriptions: prices and rates are finite and the skill ratings
  lie in the range their documentation gives.\<close>

definition known_all :: "('a \<Rightarrow> bool) \<Rightarrow> 'a known \<Rightarrow> bool" where
  "known_all P k = (case known_value k of None \<Rightarrow> True | Some v \<Rightarrow> P v)"

definition performance_ok :: "performance_profile \<Rightarrow> bool" where
  "performance_ok p \<longleftrightarrow> known_all unit_range (coding_score p) \<and> known_all unit_range (reasoning_score p)
     \<and> known_all (\<lambda>v. v \<noteq> NaN) (historical_success_rate p)"

definition price_ok :: "f64 \<Rightarrow> bool" where
  "price_ok v \<longleftrightarrow> fle f0 v"

definition cost_ok :: "cost_profile \<Rightarrow> bool" where
  "cost_ok c \<longleftrightarrow> known_all price_ok (input_per_mtok c) \<and> known_all price_ok (output_per_mtok c)"

definition target_ok :: "agent_descriptor \<Rightarrow> model_descriptor option \<Rightarrow> bool" where
  "target_ok agent model \<longleftrightarrow> performance_ok (performance_of agent model) \<and> cost_ok (cost_of agent model)"

lemma unknown_score_unit [simp]: "unit_range unknown_score"
  by (simp add: unknown_score_def unit_range_flit)

lemma known_or_unit: "known_all unit_range k \<Longrightarrow> unit_range (known_or k unknown_score)"
  by (simp add: known_all_def known_or_def split: option.splits)

lemma flit_pos_le: "0 \<le> a \<Longrightarrow> a \<le> 2 ^ 53 \<Longrightarrow> \<exists>q. flit a = Fin q \<and> 0 \<le> q"
proof -
  assume a: "0 \<le> a" "a \<le> 2 ^ 53"
  have "fle (flit a) (flit (of_nat (2 ^ 53)))" using a by (intro flit_mono_le) simp
  then have "fle (flit a) (Fin (2 ^ 53))" using flit_nat_exact [of "2 ^ 53"] by simp
  moreover have "fle f0 (flit a)" using a(1) by (rule flit_nonneg)
  ultimately show ?thesis by (cases "flit a") auto
qed

lemma fadd_unit_unit: "unit_range x \<Longrightarrow> unit_range y \<Longrightarrow> \<exists>q. fadd x y = Fin q \<and> 0 \<le> q"
  using flit_pos_le by (auto simp: unit_range_cases)

lemma fmul_unit_fin: "unit_range x \<Longrightarrow> fmul x (Fin q) \<noteq> NaN" "unit_range x \<Longrightarrow> fmul (Fin q) x \<noteq> NaN"
  by (auto simp: unit_range_cases)

lemma fle_0_not_NaN: "fle f0 x \<Longrightarrow> x \<noteq> NaN"
  by auto

lemma score_quality_unit:
  assumes "performance_ok (performance_of agent model)" "ts_complexity (tk_spec t) \<noteq> NaN"
    "length (ts_required_capabilities (tk_spec t)) \<le> 2 ^ 53"
  shows "unit_range (score_quality agent model t)"
proof -
  let ?cov = "cm_score (match_against (effective_capabilities agent model) (ts_required_capabilities (tk_spec t)))"
  let ?p = "performance_of agent model" and ?c = "fclamp (ts_complexity (tk_spec t)) f0 f1"
  have "unit_range (known_or (coding_score ?p) unknown_score)" "unit_range (known_or (reasoning_score ?p) unknown_score)"
    "unit_range ?c"
    using assms(1) fclamp_unit [OF assms(2)] by (auto simp: performance_ok_def known_or_unit)
  then obtain q where q: "fadd (fmul (known_or (coding_score ?p) unknown_score) (fsub f1 ?c))
      (fmul (known_or (reasoning_score ?p) unknown_score) ?c) = Fin q" "0 \<le> q"
    using fadd_unit_unit [OF unit_range_mul [OF _ unit_range_one_minus] unit_range_mul] by blast
  have "fle f0 (fmul ?cov (flit (7 / 10)))"
    using unit_range_mul [OF match_score_unit [OF assms(3)] unit_range_flit [of "7 / 10"]]
    unfolding unit_range_def by simp
  moreover have "fle f0 (fmul (Fin q) (flit (3 / 10)))"
    using unit_range_flit [of "3 / 10"] q(2) by (auto simp: unit_range_cases intro!: flit_nonneg)
  ultimately have "fadd (fmul ?cov (flit (7 / 10))) (fmul (Fin q) (flit (3 / 10))) \<noteq> NaN"
    by (intro fle_0_not_NaN fadd_nonneg)
  then show ?thesis unfolding score_quality_def Let_def q(1) by (rule fclamp_unit)
qed

lemma price_mul_nonneg:
  assumes "price_ok v" "unit_range (flit q)" "flit q \<noteq> f0"
  shows "fle f0 (fmul v (flit q))"
proof -
  obtain u where u: "flit q = Fin u" "0 < u" using assms(2,3) by (auto simp: unit_range_cases)
  then show ?thesis using assms(1) by (cases v) (auto simp: price_ok_def signed_inf_def intro!: flit_nonneg)
qed

lemma fdiv_nonneg_not_NaN: "fle f0 x \<Longrightarrow> 0 < c \<Longrightarrow> fdiv x (Fin c) \<noteq> NaN"
  by (cases x) auto

lemma ceilings: "cost_ceiling = Fin 30" "latency_ceiling = Fin 120000"
  using flit_nat_exact [of 30] flit_nat_exact [of 120000] by (simp_all add: cost_ceiling_def latency_ceiling_def)

lemma flit_ge_quarter: "1 / 4 \<le> q \<Longrightarrow> fle (Fin (1 / 4)) (flit q)"
proof -
  have "fround (1 / 4) = 1 / 4" by code_simp
  then have "flit (1 / 4) = Fin (1 / 4)" by (simp add: flit_def f64_max_def)
  then show "1 / 4 \<le> q \<Longrightarrow> fle (Fin (1 / 4)) (flit q)" using flit_mono_le [of "1 / 4" q] by simp
qed

lemma flit_tenths_nz: "flit (4 / 10) \<noteq> f0" "flit (6 / 10) \<noteq> f0" "flit (66 / 100) \<noteq> f0"
  using flit_ge_quarter [of "4 / 10"] flit_ge_quarter [of "6 / 10"] flit_ge_quarter [of "66 / 100"] by auto

lemma score_cost_unit:
  assumes "cost_ok (cost_of agent model)"
  shows "unit_range (fst (score_cost agent model))"
proof (cases "\<exists>i out. known_value (input_per_mtok (cost_of agent model)) = Some i \<and>
    known_value (output_per_mtok (cost_of agent model)) = Some out")
  case True
  then obtain i out where io: "known_value (input_per_mtok (cost_of agent model)) = Some i"
    "known_value (output_per_mtok (cost_of agent model)) = Some out" by blast
  then have "price_ok i" "price_ok out" using assms by (auto simp: cost_ok_def known_all_def)
  then have "fle f0 (fadd (fmul i (flit (4 / 10))) (fmul out (flit (6 / 10))))"
    by (intro fadd_nonneg price_mul_nonneg unit_range_flit flit_tenths_nz) simp_all
  then have "fdiv (fadd (fmul i (flit (4 / 10))) (fmul out (flit (6 / 10)))) cost_ceiling \<noteq> NaN"
    unfolding ceilings by (rule fdiv_nonneg_not_NaN) simp
  then show ?thesis using io
    by (simp add: score_cost_def Let_def) (intro unit_range_one_minus fclamp_unit)
next
  case False
  then show ?thesis by (auto simp: score_cost_def Let_def split: option.split)
qed

lemma word_to_f64_nonneg: "fle f0 (word_to_f64 w)"
  unfolding word_to_f64_def f64_of_nat_def by (rule flit_nonneg) (rule of_nat_0_le_iff)

lemma word_to_f64_mono: "a \<le> b \<Longrightarrow> fle (word_to_f64 a) (word_to_f64 b)"
  unfolding word_to_f64_def f64_of_nat_def word_le_nat_alt by (intro flit_mono_le of_nat_mono)

lemma word_to_f64_finite: "word_to_f64 (w :: u64) \<noteq> PInf"
proof -
  have "of_nat (unat w) \<le> (of_nat (2 ^ 64) :: rat)" using unat_lt_len [of w] by (intro of_nat_mono) simp
  then have "fround (of_nat (unat w)) \<le> fround (2 ^ 64)" by (intro fround_mono) simp
  also have "fround (2 ^ 64) = 2 ^ 64" by code_simp
  finally have "\<not> f64_max < fround (of_nat (unat w))" using f64_max_gt by linarith
  then show ?thesis by (simp add: word_to_f64_def f64_of_nat_def flit_def Let_def del: of_nat_unat)
qed

lemma word_to_f64_pos: "0 < w \<Longrightarrow> flt f0 (word_to_f64 (w :: u64))"
proof -
  assume "0 < w"
  then have "fle (word_to_f64 (1 :: u64)) (word_to_f64 w)" by (intro word_to_f64_mono) (simp add: word_le_nat_alt word_less_nat_alt)
  moreover have "word_to_f64 (1 :: u64) = f1" using word_to_f64_exact [of "1 :: u64"] by simp
  ultimately show ?thesis by (cases "word_to_f64 w") auto
qed

lemma score_latency_unit: "unit_range (fst (score_latency agent model))"
proof -
  have "fdiv (word_to_f64 ms) latency_ceiling \<noteq> NaN" for ms :: u64
    unfolding ceilings by (rule fdiv_nonneg_not_NaN) (simp_all add: word_to_f64_nonneg)
  then have "unit_range (fsub f1 (fclamp (fdiv (word_to_f64 ms) latency_ceiling) f0 f1))" for ms :: u64
    by (intro unit_range_one_minus fclamp_unit)
  then show ?thesis by (auto simp: score_latency_def Let_def split: option.split)
qed

lemma health_multiplier_unit: "unit_range (health_multiplier h)"
  by (cases h) (simp_all add: unit_range_flit)

lemma score_reliability_unit:
  assumes "performance_ok (performance_of agent model)"
  shows "unit_range (fst (score_reliability agent model))"
proof -
  have "unit_range (fclamp (fmul b (health_multiplier h)) f0 f1)" if "unit_range b" for b h
    using unit_range_mul [OF that health_multiplier_unit] by (intro fclamp_unit unit_range_not_NaN)
  then show ?thesis using assms fclamp_unit
    by (auto simp: score_reliability_def performance_ok_def known_all_def Let_def split: known.splits)
qed

lemma score_context_unit: "unit_range (fst (score_context model tokens))"
proof -
  have "unit_range (fclamp (fdiv (fsub f1 (fdiv (word_to_f64 needed) (word_to_f64 window))) (flit (66 / 100))) f0 f1)"
    if lt: "\<not> window \<le> needed" for needed window :: u64
  proof -
    have "unit_range (fdiv (word_to_f64 needed) (word_to_f64 window))"
      using lt by (intro fdiv_unit word_to_f64_nonneg word_to_f64_mono word_to_f64_finite word_to_f64_pos)
        (simp_all add: not_le order.strict_implies_order le_less_trans [OF word_zero_le])
    then have "fle f0 (fsub f1 (fdiv (word_to_f64 needed) (word_to_f64 window)))"
      using unit_range_one_minus unfolding unit_range_def by blast
    moreover obtain c where "flit (66 / 100) = Fin c" "0 < c"
      using unit_range_flit [of "66 / 100"] flit_tenths_nz(3) by (auto simp: unit_range_cases)
    ultimately show ?thesis by (simp del: fsub_def) (intro fclamp_unit fdiv_nonneg_not_NaN)
  qed
  then show ?thesis by (auto simp: score_context_def Let_def split: option.split)
qed

end
