(* ===== verification/Registry.thy ===== *)
theory Registry
  imports Config Step_System
begin

text \<open>
  \<open>cuma-registry\<close>: the registry of agents with its snapshots, the reverse index from
  capabilities to agents, and the registry of models with its moving average of outcomes. The
  read-write lock serializes the operations, so each is one step on the map; the clock reading of
  \<open>set_health\<close> is an argument, and a discovery source is its name with the result of its
  \<open>discover\<close> call.
\<close>

section \<open>Snapshots\<close>

type_synonym registry_snapshot = "agent_descriptor list"

definition snap_routable :: "registry_snapshot \<Rightarrow> agent_descriptor list" where
  "snap_routable s = filter agent_is_routable s"

definition snap_get :: "registry_snapshot \<Rightarrow> agent_id \<Rightarrow> agent_descriptor option" where
  "snap_get s i = List.find (\<lambda>a. ad_id a = i) s"

definition model_capabilities :: "agent_descriptor \<Rightarrow> capability list" where
  "model_capabilities a = concat (map md_capabilities (ad_models a))"

definition available_capabilities :: "registry_snapshot \<Rightarrow> capability_set" where
  "available_capabilities s =
     fold (\<lambda>a acc. fold bs_insert (model_capabilities a) (fold bs_insert (ad_capabilities a) acc))
       (snap_routable s) []"

section \<open>The agent registry\<close>

type_synonym agent_registry = "(agent_id, agent_descriptor) btree"

definition register :: "agent_descriptor \<Rightarrow> agent_registry \<Rightarrow> agent_registry" where
  "register agent r =
     (let agent = (case bt_get r (ad_id agent) of
                     Some existing \<Rightarrow> agent\<lparr>ad_health := ad_health existing\<rparr>
                   | None \<Rightarrow> agent)
      in bt_insert (ad_id agent) agent r)"

definition register_all :: "agent_descriptor list \<Rightarrow> agent_registry \<Rightarrow> agent_registry" where
  "register_all agents r = fold register agents r"

definition deregister :: "agent_id \<Rightarrow> agent_registry \<Rightarrow> agent_descriptor option \<times> agent_registry" where
  "deregister i r = (bt_get r i, bt_remove i r)"

definition registry_snapshot_of :: "agent_registry \<Rightarrow> registry_snapshot" where
  "registry_snapshot_of r = bt_values r"

definition health_update :: "timestamp \<Rightarrow> health_state \<Rightarrow> string option \<Rightarrow> agent_health \<Rightarrow> agent_health" where
  "health_update now state err h =
     (let h = h\<lparr>ah_state := state\<rparr> in
      if state = Healthy then
        h\<lparr>ah_consecutive_failures := 0, ah_last_success := Some now, ah_last_error := None\<rparr>
      else if err \<noteq> None then
        h\<lparr>ah_consecutive_failures := ah_consecutive_failures h + 1, ah_last_error := err\<rparr>
      else h)"

definition set_health ::
  "timestamp \<Rightarrow> agent_id \<Rightarrow> health_state \<Rightarrow> string option \<Rightarrow> agent_registry \<Rightarrow> agent_registry" where
  "set_health now i state err r =
     bt_modify i (\<lambda>a. a\<lparr>ad_health := health_update now state err (ad_health a)\<rparr>) r"

definition record_latency :: "agent_id \<Rightarrow> u64 \<Rightarrow> agent_registry \<Rightarrow> agent_registry" where
  "record_latency i ms r =
     bt_modify i (\<lambda>a. a\<lparr>ad_health := (ad_health a)\<lparr>ah_last_latency_ms := Reported ms\<rparr>\<rparr>) r"

definition set_enabled :: "agent_id \<Rightarrow> bool \<Rightarrow> agent_registry \<Rightarrow> agent_registry" where
  "set_enabled i enabled r = bt_modify i (\<lambda>a. a\<lparr>ad_enabled := enabled\<rparr>) r"

fun discover ::
  "(string \<times> agent_descriptor list result) list \<Rightarrow> agent_registry \<Rightarrow>
   (nat \<times> (string \<times> string) list) \<times> agent_registry" where
  "discover [] r = ((0, []), r)"
| "discover ((name, found) # sources) r =
     (case found of
        Inr agents \<Rightarrow>
          (case discover sources (register_all agents r) of
             ((n, failures), r) \<Rightarrow> ((length agents + n, failures), r))
      | Inl err \<Rightarrow>
          (case discover sources r of
             ((n, failures), r) \<Rightarrow> ((n, (name, display_error err) # failures), r)))"

definition by_protocol :: "agent_protocol \<Rightarrow> agent_registry \<Rightarrow> agent_descriptor list" where
  "by_protocol p r = filter (\<lambda>a. ad_protocol a = p) (bt_values r)"

definition parse_protocol :: "string \<Rightarrow> agent_protocol option" where
  "parse_protocol s =
     (if s = ''acp'' then Some Acp else if s = ''a2a'' then Some A2A
      else if s = ''native'' then Some Native else None)"

definition configured_agent :: "string \<Rightarrow> agent_config \<Rightarrow> agent_protocol \<Rightarrow> agent_descriptor" where
  "configured_agent i c protocol =
     (let d = (new_agent (AgentId i) i protocol)\<lparr>ad_enabled := ac_enabled c\<rparr>;
          d = apply_to c d;
          d = (case ac_command c of
                 Some command \<Rightarrow> d\<lparr>ad_metadata := bt_insert ''command'' command (ad_metadata d)\<rparr> | None \<Rightarrow> d);
          d = (case ac_endpoint c of
                 Some endpoint \<Rightarrow> d\<lparr>ad_metadata := bt_insert ''endpoint'' endpoint (ad_metadata d)\<rparr> | None \<Rightarrow> d)
      in d\<lparr>ad_auth := (case ac_auth_secret_ref c of Some handle \<Rightarrow> SecretRef handle | None \<Rightarrow> AgentManaged)\<rparr>)"

text \<open>The quoted text of an unknown protocol is the standard library's escaping of a string, an
  argument.\<close>

fun descriptors_from_config ::
  "(string \<Rightarrow> string) \<Rightarrow> (string \<times> agent_config) list \<Rightarrow> agent_descriptor list result" where
  "descriptors_from_config debug_str [] = Inr []"
| "descriptors_from_config debug_str ((i, c) # agents) =
     (let other = to_ascii_lowercase (ac_protocol c) in
      case parse_protocol other of
        None \<Rightarrow>
          Inl (EConfiguration (''agent '' @ i @ '': unknown protocol '' @ debug_str other @
            '' (expected acp, a2a or native)''))
      | Some protocol \<Rightarrow>
          map_sum id (\<lambda>ds. configured_agent i c protocol # ds) (descriptors_from_config debug_str agents))"

section \<open>The capability index\<close>

type_synonym capability_index_map = "(capability, agent_id list) btree"

definition agent_all_capabilities :: "agent_descriptor \<Rightarrow> capability_set" where
  "agent_all_capabilities a = fold bs_insert (model_capabilities a) (ad_capabilities a)"

definition index_agent :: "agent_descriptor \<Rightarrow> capability_index_map \<Rightarrow> capability_index_map" where
  "index_agent a ix = fold (\<lambda>c. bt_entry c [] (bs_insert (ad_id a))) (agent_all_capabilities a) ix"

definition build_index :: "registry_snapshot \<Rightarrow> capability_index_map" where
  "build_index s = fold index_agent (snap_routable s) []"

definition providers :: "capability_index_map \<Rightarrow> capability \<Rightarrow> agent_id list" where
  "providers ix c = (case bt_get ix c of Some ids \<Rightarrow> ids | None \<Rightarrow> [])"

fun narrow :: "capability_index_map \<Rightarrow> capability list \<Rightarrow> agent_id list \<Rightarrow> agent_id list" where
  "narrow ix [] candidates = candidates"
| "narrow ix (c # cs) candidates =
     (case bt_get ix c of
        None \<Rightarrow> []
      | Some ps \<Rightarrow>
          let candidates = filter (\<lambda>i. i \<in> set ps) candidates in
          if candidates = [] then candidates else narrow ix cs candidates)"

definition providers_of_all :: "capability_index_map \<Rightarrow> capability_set \<Rightarrow> agent_id list" where
  "providers_of_all ix required =
     (case required of [] \<Rightarrow> [] | first # rest \<Rightarrow> narrow ix rest (providers ix first))"

definition missing_from :: "capability_index_map \<Rightarrow> capability_set \<Rightarrow> capability list" where
  "missing_from ix required = filter (\<lambda>c. bt_get ix c = None) required"

definition all_capabilities :: "capability_index_map \<Rightarrow> capability list" where
  "all_capabilities ix = bt_keys ix"

section \<open>The model registry\<close>

type_synonym model_registry = "(agent_id \<times> model_id, model_descriptor) btree"

definition register_model :: "model_descriptor \<Rightarrow> model_registry \<Rightarrow> model_registry" where
  "register_model m r = bt_insert (md_agent_id m, md_id m) m r"

definition register_agent_models :: "agent_descriptor \<Rightarrow> model_registry \<Rightarrow> model_registry" where
  "register_agent_models a r = fold register_model (ad_models a) r"

definition models_for_agent :: "agent_id \<Rightarrow> model_registry \<Rightarrow> model_descriptor list" where
  "models_for_agent a r = map snd (filter (\<lambda>((a', _), _). a' = a) r)"

definition set_available :: "agent_id \<Rightarrow> model_id \<Rightarrow> bool \<Rightarrow> model_registry \<Rightarrow> model_registry" where
  "set_available a m available r = bt_modify (a, m) (\<lambda>d. d\<lparr>md_available := available\<rparr>) r"

definition alpha :: f64 where "alpha = flit (1 / 10)"

definition updated_rate :: "bool \<Rightarrow> f64 known \<Rightarrow> f64 known" where
  "updated_rate success rate =
     (let observation = (if success then f1 else f0);
          updated = (case known_value rate of
             Some prev \<Rightarrow> fadd (fmul prev (fsub f1 alpha)) (fmul observation alpha)
           | None \<Rightarrow> observation)
      in Estimated (fclamp updated f0 f1))"

definition record_outcome :: "agent_id \<Rightarrow> model_id \<Rightarrow> bool \<Rightarrow> model_registry \<Rightarrow> model_registry" where
  "record_outcome a m success r =
     bt_modify (a, m)
       (\<lambda>d. d\<lparr>md_performance := (md_performance d)\<lparr>historical_success_rate :=
                updated_rate success (historical_success_rate (md_performance d))\<rparr>\<rparr>) r"

section \<open>The agent registry keeps agents under their ids, and keeps their health\<close>

definition agents_wf :: "agent_registry \<Rightarrow> bool" where
  "agents_wf r \<longleftrightarrow> bt_wf r \<and> (\<forall>i a. bt_get r i = Some a \<longrightarrow> ad_id a = i)"

datatype agents_event =
    Register agent_descriptor
  | Deregister agent_id
  | SetHealth timestamp agent_id health_state "string option"
  | RecordLatency agent_id u64
  | SetEnabled agent_id bool

fun agents_step :: "agents_event \<Rightarrow> agent_registry \<Rightarrow> agent_registry" where
  "agents_step (Register a) r = register a r"
| "agents_step (Deregister i) r = snd (deregister i r)"
| "agents_step (SetHealth now i st err) r = set_health now i st err r"
| "agents_step (RecordLatency i ms) r = record_latency i ms r"
| "agents_step (SetEnabled i b) r = set_enabled i b r"

fun event_target :: "agents_event \<Rightarrow> agent_id" where
  "event_target (Register a) = ad_id a"
| "event_target (Deregister i) = i"
| "event_target (SetHealth _ i _ _) = i"
| "event_target (RecordLatency i _) = i"
| "event_target (SetEnabled i _) = i"

lemma register_get:
  "bt_get (register a r) i =
     (if i = ad_id a then
        Some (case bt_get r i of Some old \<Rightarrow> a\<lparr>ad_health := ad_health old\<rparr> | None \<Rightarrow> a)
      else bt_get r i)"
  by (auto simp: register_def Let_def bt_get_insert split: option.split)

lemma bt_wf_register: "bt_wf r \<Longrightarrow> bt_wf (register a r)"
  by (simp add: register_def Let_def bt_wf_insert)

lemma agents_wf_empty: "agents_wf []"
  by (simp add: agents_wf_def bt_get_def)

lemmas agents_ops = deregister_def set_health_def record_latency_def set_enabled_def

lemma agents_wf_step: "agents_wf r \<Longrightarrow> agents_wf (agents_step e r)"
proof (cases e)
  case (Register a)
  moreover assume "agents_wf r"
  ultimately show ?thesis
    by (auto simp: agents_wf_def register_get bt_wf_register split: option.splits)
qed (auto simp: agents_wf_def agents_ops bt_get_modify bt_get_remove wf_intros split: if_splits)

interpretation agents: framed_system
  "\<lambda>r. r = []" agents_step agents_wf bt_get "\<lambda>e i. i = event_target e"
proof
  show "bt_get (agents_step e r) i = bt_get r i" if "i \<noteq> event_target e" for e r i
    using that by (cases e) (simp_all add: register_get agents_ops bt_get_modify bt_get_remove)
qed (auto simp: agents_wf_step agents_wf_empty)

lemma snapshot_ids: "agents_wf r \<Longrightarrow> map ad_id (registry_snapshot_of r) = bt_keys r"
  by (auto simp: agents_wf_def registry_snapshot_of_def bt_values_def bt_keys_def bt_get_iff_mem)

lemma snapshot_get: "agents_wf r \<Longrightarrow> snap_get (registry_snapshot_of r) i = bt_get r i"
proof -
  assume wf: "agents_wf r"
  have s: "set (registry_snapshot_of r) = {a. \<exists>k. bt_get r k = Some a}"
    using wf by (simp add: registry_snapshot_of_def set_bt_values agents_wf_def)
  show ?thesis
  proof (cases "snap_get (registry_snapshot_of r) i")
    case None
    then have "bt_get r i \<noteq> Some a" for a using wf s by (auto simp: snap_get_def find_None_iff agents_wf_def)
    with None show ?thesis by (cases "bt_get r i") auto
  next
    case (Some a)
    then have "a \<in> set (registry_snapshot_of r)" "ad_id a = i" by (auto simp: snap_get_def find_Some_iff)
    with Some wf s show ?thesis by (auto simp: agents_wf_def)
  qed
qed

section \<open>The index agrees with a scan of the snapshot\<close>

lemma set_agent_all_capabilities:
  "set (agent_all_capabilities a) = set (ad_capabilities a) \<union> (\<Union>m \<in> set (ad_models a). set (md_capabilities m))"
  by (auto simp: agent_all_capabilities_def model_capabilities_def set_fold_bs_insert)

lemma index_entries_get:
  "set (providers (fold (\<lambda>c. bt_entry c [] (bs_insert i)) cs ix) c) =
     set (providers ix c) \<union> (if c \<in> set cs then {i} else {})
   \<and> (bt_get (fold (\<lambda>c. bt_entry c [] (bs_insert i)) cs ix) c = None \<longleftrightarrow> bt_get ix c = None \<and> c \<notin> set cs)"
  by (induction cs arbitrary: ix) (auto simp: providers_def bt_get_entry split: option.splits)

lemma index_fold:
  "set (providers (fold index_agent as ix) c) =
     set (providers ix c) \<union> {ad_id a |a. a \<in> set as \<and> c \<in> set (agent_all_capabilities a)}
   \<and> (bt_get (fold index_agent as ix) c = None \<longleftrightarrow>
        bt_get ix c = None \<and> (\<forall>a \<in> set as. c \<notin> set (agent_all_capabilities a)))"
proof (induction as arbitrary: ix)
  case (Cons a as)
  show ?case
    using Cons.IH [of "index_agent a ix"] index_entries_get [of "ad_id a" "agent_all_capabilities a" ix c]
    by (auto simp: index_agent_def)
qed simp

lemma set_providers:
  "set (providers (build_index s) c) = {ad_id a |a. a \<in> set s \<and> agent_is_routable a \<and> c \<in> set (agent_all_capabilities a)}"
  using index_fold [of "snap_routable s" "[]" c] by (auto simp: build_index_def snap_routable_def providers_def bt_get_def)

lemma index_None:
  "bt_get (build_index s) c = None \<longleftrightarrow> providers (build_index s) c = []"
proof -
  have "bt_get (build_index s) c = None \<longleftrightarrow> (\<forall>a \<in> set (snap_routable s). c \<notin> set (agent_all_capabilities a))"
    using index_fold [of "snap_routable s" "[]" c] by (simp add: build_index_def bt_get_def)
  also have "\<dots> \<longleftrightarrow> set (providers (build_index s) c) = {}"
    unfolding set_providers by (auto simp: snap_routable_def)
  finally show ?thesis by simp
qed

lemma set_narrow:
  "set (narrow ix cs candidates) = {i \<in> set candidates. \<forall>c \<in> set cs. i \<in> set (providers ix c)}"
proof (induction cs arbitrary: candidates)
  case (Cons c cs)
  show ?case
  proof (cases "bt_get ix c")
    case (Some ps)
    then have "providers ix c = ps" by (simp add: providers_def)
    with Some Cons.IH [of "filter (\<lambda>i. i \<in> set ps) candidates"] show ?thesis
      by (auto simp: Let_def filter_empty_conv)
  qed (simp add: providers_def)
qed simp

lemma set_providers_of_all:
  "set (providers_of_all ix required) =
     (if required = [] then {} else {i. \<forall>c \<in> set required. i \<in> set (providers ix c)})"
  by (cases required) (auto simp: providers_of_all_def set_narrow)

text \<open>Narrowing the candidates never loses one the router could select: a target whose effective
  capabilities cover the requirement belongs to an agent the index returns.\<close>

lemma index_covers:
  assumes "a \<in> set s" "agent_is_routable a" "required \<noteq> []"
    and "model = None \<or> (\<exists>m \<in> set (ad_models a). model = Some m)"
    and "set required \<subseteq> set (effective_capabilities a model)"
  shows "ad_id a \<in> set (providers_of_all (build_index s) required)"
proof -
  have "set (effective_capabilities a model) \<subseteq> set (agent_all_capabilities a)"
    using assms(4) by (auto simp: set_effective_capabilities set_agent_all_capabilities)
  then show ?thesis using assms(1,2,3,5) by (auto simp: set_providers_of_all set_providers)
qed

section \<open>The moving average stays a rate\<close>

lemma alpha_unit: "unit_range alpha"
  by (simp add: alpha_def unit_range_flit)

lemma updated_rate_unit:
  assumes "\<forall>v. known_value rate = Some v \<longrightarrow> unit_range v"
  shows "\<exists>r. updated_rate success rate = Estimated r \<and> unit_range r"
proof -
  have ob: "unit_range (if success then f1 else f0)" by simp
  have "unit_range (fclamp (fadd (fmul v (fsub f1 alpha)) (fmul (if success then f1 else f0) alpha)) f0 f1)"
    if "unit_range v" for v
    by (intro fclamp_unit fadd_unit_not_NaN unit_range_mul unit_range_one_minus alpha_unit ob that)
  moreover have "unit_range (fclamp (if success then f1 else f0) f0 f1)"
    by (intro fclamp_unit unit_range_not_NaN ob)
  ultimately show ?thesis using assms by (auto simp: updated_rate_def Let_def split: option.split)
qed

end
