(* ===== verification/Breaker.thy ===== *)
theory Breaker
  imports Cuma_Prelude BTree Ids Errors Agent Step_System
begin

text \<open>
  \<open>cuma-resilience/src/breaker.rs\<close>: the circuit breaker of one target and the registry of
  breakers keyed by agent and by agent and model.

  An \<open>Instant\<close> is a number of nanoseconds and \<open>duration_since\<close> is zero when the
  argument is later. The counters are 32 bits wide and wrap. The clock readings of the registry's
  operations are arguments. A registry whose mutex is poisoned gives no information:
  \<open>with_breaker\<close> then returns \<open>None\<close> and each caller falls back as the code does.
\<close>

type_synonym instant = nat

datatype breaker_state = Closed | Open | HalfOpen

fun to_health :: "breaker_state \<Rightarrow> health_state" where
  "to_health Closed = Healthy"
| "to_health Open = Unavailable"
| "to_health HalfOpen = Degraded"

record breaker_config =
  bc_failure_threshold :: u32
  bc_success_threshold :: u32
  bc_cooldown_ms :: u64

definition default_breaker_config :: breaker_config where
  "default_breaker_config =
     \<lparr>bc_failure_threshold = 3, bc_success_threshold = 1, bc_cooldown_ms = 30000\<rparr>"

record circuit_breaker =
  cb_config :: breaker_config
  cb_state :: breaker_state
  cb_consecutive_failures :: u32
  cb_consecutive_successes :: u32
  cb_opened_at :: "instant option"
  cb_last_error :: "string option"

definition new_breaker :: "breaker_config \<Rightarrow> circuit_breaker" where
  "new_breaker c =
     \<lparr>cb_config = c, cb_state = Closed, cb_consecutive_failures = 0, cb_consecutive_successes = 0,
      cb_opened_at = None, cb_last_error = None\<rparr>"

definition duration_since :: "instant \<Rightarrow> instant \<Rightarrow> nat" where
  "duration_since now earlier = now - earlier"

definition from_millis :: "u64 \<Rightarrow> nat" where
  "from_millis ms = unat ms * 1000000"

definition cooldown_over :: "circuit_breaker \<Rightarrow> instant \<Rightarrow> bool" where
  "cooldown_over b now =
     (case cb_opened_at b of
        None \<Rightarrow> False
      | Some opened_at \<Rightarrow> from_millis (bc_cooldown_ms (cb_config b)) \<le> duration_since now opened_at)"

text \<open>The source updates the breaker in place and returns a value; the model returns both.\<close>

definition state_at :: "instant \<Rightarrow> circuit_breaker \<Rightarrow> breaker_state \<times> circuit_breaker" where
  "state_at now b =
     (let b' = (if cb_state b = Open \<and> cooldown_over b now
                then b\<lparr>cb_state := HalfOpen, cb_consecutive_successes := 0\<rparr> else b)
      in (cb_state b', b'))"

definition allows_request :: "instant \<Rightarrow> circuit_breaker \<Rightarrow> bool \<times> circuit_breaker" where
  "allows_request now b = (case state_at now b of (s, b') \<Rightarrow> (s \<noteq> Open, b'))"

definition record_success :: "circuit_breaker \<Rightarrow> circuit_breaker" where
  "record_success b0 =
     (let b = b0\<lparr>cb_consecutive_failures := 0, cb_last_error := None\<rparr> in
      case cb_state b of
        HalfOpen \<Rightarrow>
          let b = b\<lparr>cb_consecutive_successes := cb_consecutive_successes b + 1\<rparr> in
          if bc_success_threshold (cb_config b) \<le> cb_consecutive_successes b
          then b\<lparr>cb_state := Closed, cb_opened_at := None, cb_consecutive_successes := 0\<rparr>
          else b
      | Closed \<Rightarrow> b
      | Open \<Rightarrow> b\<lparr>cb_state := HalfOpen, cb_consecutive_successes := 1\<rparr>)"

definition record_failure :: "error_class \<Rightarrow> string \<Rightarrow> instant \<Rightarrow> circuit_breaker \<Rightarrow> circuit_breaker" where
  "record_failure cls message now b0 =
     (if \<not> counts_against_health cls then b0
      else
        let b = b0\<lparr>cb_consecutive_failures := cb_consecutive_failures b0 + 1,
                   cb_consecutive_successes := 0, cb_last_error := Some message\<rparr> in
        case cb_state b of
          HalfOpen \<Rightarrow> b\<lparr>cb_state := Open, cb_opened_at := Some now\<rparr>
        | Closed \<Rightarrow>
            if bc_failure_threshold (cb_config b) \<le> cb_consecutive_failures b
            then b\<lparr>cb_state := Open, cb_opened_at := Some now\<rparr> else b
        | Open \<Rightarrow> b\<lparr>cb_opened_at := Some now\<rparr>)"

section \<open>The registry\<close>

datatype breaker_key = AgentKey agent_id | ModelKey agent_id model_id

fun less_breaker_key :: "breaker_key \<Rightarrow> breaker_key \<Rightarrow> bool" where
  "less_breaker_key (AgentKey a) (AgentKey b) = (a < b)"
| "less_breaker_key (AgentKey _) (ModelKey _ _) = True"
| "less_breaker_key (ModelKey _ _) (AgentKey _) = False"
| "less_breaker_key (ModelKey a m) (ModelKey b n) = (a < b \<or> a = b \<and> m < n)"

instantiation breaker_key :: linorder
begin
definition less_breaker_key_def: "k < k' \<longleftrightarrow> less_breaker_key k k'"
definition less_eq_breaker_key_def: "k \<le> k' \<longleftrightarrow> k = k' \<or> less_breaker_key k k'" for k :: breaker_key
instance
proof
  fix x y z :: breaker_key
  have trans: "less_breaker_key x y \<Longrightarrow> less_breaker_key y z \<Longrightarrow> less_breaker_key x z" for x y z
    by (cases x; cases y; cases z) auto
  have asym: "less_breaker_key x y \<Longrightarrow> \<not> less_breaker_key y x" for x y
    by (cases x; cases y) auto
  have total: "x = y \<or> less_breaker_key x y \<or> less_breaker_key y x" for x y
    by (cases x; cases y) auto
  show "x < y \<longleftrightarrow> x \<le> y \<and> \<not> y \<le> x"
    using asym by (auto simp: less_breaker_key_def less_eq_breaker_key_def)
  show "x \<le> x" by (simp add: less_eq_breaker_key_def)
  show "x \<le> y \<Longrightarrow> y \<le> z \<Longrightarrow> x \<le> z" using trans by (auto simp: less_eq_breaker_key_def)
  show "x \<le> y \<Longrightarrow> y \<le> x \<Longrightarrow> x = y" using asym by (auto simp: less_eq_breaker_key_def)
  show "x \<le> y \<or> y \<le> x" using total by (auto simp: less_eq_breaker_key_def)
qed
end

record breaker_registry =
  br_config :: breaker_config
  br_breakers :: "(breaker_key, circuit_breaker) btree"
  br_poisoned :: bool

definition new_breaker_registry :: "breaker_config \<Rightarrow> breaker_registry" where
  "new_breaker_registry c = \<lparr>br_config = c, br_breakers = [], br_poisoned = False\<rparr>"

text \<open>The breaker tracked under a key: the stored one, or a new one when there is none.\<close>

definition breaker_of :: "breaker_registry \<Rightarrow> breaker_key \<Rightarrow> circuit_breaker" where
  "breaker_of r k = (case bt_get (br_breakers r) k of None \<Rightarrow> new_breaker (br_config r) | Some b \<Rightarrow> b)"

definition with_breaker ::
  "breaker_key \<Rightarrow> (circuit_breaker \<Rightarrow> 'a \<times> circuit_breaker) \<Rightarrow> breaker_registry \<Rightarrow> 'a option \<times> breaker_registry" where
  "with_breaker k f r =
     (if br_poisoned r then (None, r)
      else case f (breaker_of r k) of
        (x, b) \<Rightarrow> (Some x, r\<lparr>br_breakers := bt_insert k b (br_breakers r)\<rparr>))"

definition unwrap_or :: "'a \<Rightarrow> 'a option \<Rightarrow> 'a" where
  "unwrap_or d x = (case x of None \<Rightarrow> d | Some y \<Rightarrow> y)"

definition reg_allows :: "instant \<Rightarrow> agent_id \<Rightarrow> model_id option \<Rightarrow> breaker_registry \<Rightarrow> bool \<times> breaker_registry" where
  "reg_allows now agent model r =
     (case with_breaker (AgentKey agent) (allows_request now) r of
        (ok, r) \<Rightarrow>
          if \<not> unwrap_or True ok then (False, r)
          else case model of
            Some m \<Rightarrow>
              (case with_breaker (ModelKey agent m) (allows_request now) r of
                 (ok, r) \<Rightarrow> (unwrap_or True ok, r))
          | None \<Rightarrow> (True, r))"

definition reg_health :: "instant \<Rightarrow> agent_id \<Rightarrow> breaker_registry \<Rightarrow> health_state \<times> breaker_registry" where
  "reg_health now agent r =
     (case with_breaker (AgentKey agent) (\<lambda>b. case state_at now b of (s, b) \<Rightarrow> (to_health s, b)) r of
        (h, r) \<Rightarrow> (unwrap_or HealthUnknown h, r))"

definition reg_record_success :: "agent_id \<Rightarrow> model_id option \<Rightarrow> breaker_registry \<Rightarrow> breaker_registry" where
  "reg_record_success agent model r =
     (let r = snd (with_breaker (AgentKey agent) (\<lambda>b. ((), record_success b)) r) in
      case model of
        Some m \<Rightarrow> snd (with_breaker (ModelKey agent m) (\<lambda>b. ((), record_success b)) r)
      | None \<Rightarrow> r)"

definition reg_record_failure ::
  "instant \<Rightarrow> agent_id \<Rightarrow> model_id option \<Rightarrow> error_class \<Rightarrow> string \<Rightarrow> breaker_registry \<Rightarrow>
   breaker_state \<times> breaker_registry" where
  "reg_record_failure now agent model cls message r =
     (let on_model = (\<lambda>m r. snd (with_breaker (ModelKey agent m) (\<lambda>b. ((), record_failure cls message now b)) r)) in
      if cls = ModelUnavailable \<and> model \<noteq> None then
        (case with_breaker (AgentKey agent) (state_at now) (on_model (the model) r) of
           (s, r) \<Rightarrow> (unwrap_or Closed s, r))
      else
        let r = (case model of Some m \<Rightarrow> on_model m r | None \<Rightarrow> r) in
        case with_breaker (AgentKey agent) (\<lambda>b. state_at now (record_failure cls message now b)) r of
          (s, r) \<Rightarrow> (unwrap_or Closed s, r))"

definition breaker_label :: "breaker_key \<Rightarrow> string" where
  "breaker_label k = (case k of AgentKey a \<Rightarrow> agent_str a | ModelKey a m \<Rightarrow> agent_str a @ ''/'' @ model_str m)"

definition snapshot ::
  "instant \<Rightarrow> breaker_registry \<Rightarrow> (string \<times> breaker_state \<times> u32) list \<times> breaker_registry" where
  "snapshot now r =
     (if br_poisoned r then ([], r)
      else
        let es = map (\<lambda>(k, b). (k, snd (state_at now b))) (br_breakers r)
        in (map (\<lambda>(k, b). (breaker_label k, cb_state b, cb_consecutive_failures b)) es,
            r\<lparr>br_breakers := es\<rparr>))"

section \<open>The state machine of one breaker\<close>

datatype breaker_event = Query instant | Success | Failure error_class string instant

fun breaker_step :: "breaker_event \<Rightarrow> circuit_breaker \<Rightarrow> circuit_breaker" where
  "breaker_step (Query now) b = snd (state_at now b)"
| "breaker_step Success b = record_success b"
| "breaker_step (Failure cls message now) b = record_failure cls message now b"

text \<open>A breaker trips at the first counted failure when the threshold is zero, so the effective
  threshold is at least one. A closed breaker is below it; an open one knows when it opened.\<close>

definition trip_at :: "breaker_config \<Rightarrow> nat" where
  "trip_at c = max 1 (unat (bc_failure_threshold c))"

definition breaker_inv :: "circuit_breaker \<Rightarrow> bool" where
  "breaker_inv b \<longleftrightarrow>
     (case cb_state b of
        Closed \<Rightarrow> cb_opened_at b = None \<and> cb_consecutive_successes b = 0
          \<and> unat (cb_consecutive_failures b) < trip_at (cb_config b)
      | Open \<Rightarrow> cb_opened_at b \<noteq> None \<and> cb_consecutive_successes b = 0 \<and> cb_last_error b \<noteq> None
      | HalfOpen \<Rightarrow> cb_opened_at b \<noteq> None
          \<and> (cb_consecutive_successes b < bc_success_threshold (cb_config b) \<or> cb_consecutive_successes b \<le> 1))"

lemmas breaker_defs = state_at_def record_success_def record_failure_def allows_request_def Let_def

lemma breaker_inv_new: "breaker_inv (new_breaker c)"
  by (simp add: breaker_inv_def new_breaker_def trip_at_def)

lemma breaker_inv_state_at: "breaker_inv b \<Longrightarrow> breaker_inv (snd (state_at now b))"
  by (auto simp: breaker_inv_def state_at_def Let_def)

lemma breaker_inv_success: "breaker_inv b \<Longrightarrow> breaker_inv (record_success b)"
  by (cases "cb_state b") (auto simp: breaker_inv_def record_success_def Let_def trip_at_def)

lemma breaker_inv_failure: "breaker_inv b \<Longrightarrow> breaker_inv (record_failure cls m now b)"
proof (cases "cb_state b = Closed \<and> \<not> bc_failure_threshold (cb_config b) \<le> cb_consecutive_failures b + 1")
  case True
  then have "unat (cb_consecutive_failures b + 1) < unat (bc_failure_threshold (cb_config b))"
    by (simp add: word_less_nat_alt linorder_not_le)
  moreover assume "breaker_inv b"
  ultimately show ?thesis using True by (auto simp: breaker_inv_def record_failure_def Let_def trip_at_def)
next
  case False
  moreover assume "breaker_inv b"
  ultimately show ?thesis by (cases "cb_state b") (auto simp: breaker_inv_def record_failure_def Let_def)
qed

lemma cb_config_keeps [simp]:
  "cb_config (snd (state_at now b)) = cb_config b" "cb_config (record_success b) = cb_config b"
  "cb_config (record_failure cls m now b) = cb_config b"
  by (auto simp: breaker_defs split: breaker_state.split)

interpretation breaker: step_system
  "\<lambda>b. \<exists>c. b = new_breaker c" breaker_step breaker_inv
proof
  show "breaker_inv (breaker_step e b)" if "breaker_inv b" for e b
    using that by (cases e) (simp_all add: breaker_inv_state_at breaker_inv_success breaker_inv_failure)
qed (auto simp: breaker_inv_new)

section \<open>Tripping and recovering\<close>

text \<open>The consecutive-failure counter of a closed breaker counts, without wrapping.\<close>

lemma closed_failures:
  assumes "breaker_inv b" "cb_state b = Closed" "\<forall>e \<in> set es. \<exists>cls m t. e = Failure cls m t \<and> counts_against_health cls"
  shows "if unat (cb_consecutive_failures b) + length es < trip_at (cb_config b)
    then cb_state (fold breaker_step es b) = Closed
      \<and> unat (cb_consecutive_failures (fold breaker_step es b)) = unat (cb_consecutive_failures b) + length es
    else cb_state (fold breaker_step es b) = Open"
  using assms
proof (induction es arbitrary: b)
  case Nil
  then show ?case by (simp add: breaker_inv_def)
next
  case (Cons e es)
  then obtain cls m t where e: "e = Failure cls m t" and c: "counts_against_health cls" by auto
  let ?b = "record_failure cls m t b"
  have below: "unat (cb_consecutive_failures b) < trip_at (cb_config b)"
    using Cons.prems(1,2) by (simp add: breaker_inv_def)
  then have inc: "unat (cb_consecutive_failures b + 1) = Suc (unat (cb_consecutive_failures b))"
    using unat_lt_len [of "bc_failure_threshold (cb_config b)"]
    by (intro unat_Suc_word [where n = "trip_at (cb_config b)"]) (auto simp: trip_at_def)
  have inv: "breaker_inv ?b" using Cons.prems(1) by (rule breaker_inv_failure)
  have failed: "cb_consecutive_failures ?b = cb_consecutive_failures b + 1"
    using c by (simp add: record_failure_def Let_def split: breaker_state.split)
  have state: "cb_state ?b = (if Suc (unat (cb_consecutive_failures b)) < trip_at (cb_config b) then Closed else Open)"
    using c Cons.prems(2) inc by (auto simp: record_failure_def Let_def trip_at_def word_le_nat_alt)
  have open_stays: "cb_state (fold breaker_step es b') = Open"
    if "cb_state b' = Open" "\<forall>e \<in> set es. \<exists>cls m t. e = Failure cls m t \<and> counts_against_health cls" for b' es
    using that by (induction es arbitrary: b') (auto simp: record_failure_def Let_def)
  show ?case
  proof (cases "cb_state ?b = Closed")
    case True
    then show ?thesis using Cons.IH [OF inv True] Cons.prems(3) e inc failed by simp
  next
    case False
    then show ?thesis using state open_stays [of ?b es] Cons.prems(3) e by (auto split: if_splits)
  qed
qed

lemma open_allows_iff:
  "breaker_inv b \<Longrightarrow> fst (allows_request now b) \<longleftrightarrow> cb_state b \<noteq> Open \<or> cooldown_over b now"
  by (auto simp: breaker_defs)

lemma half_open_never_blocks: "cb_state b = HalfOpen \<Longrightarrow> allows_request now b = (True, b)"
  by (simp add: breaker_defs)

lemma success_half_open:
  assumes "cb_state b = HalfOpen"
  shows "cb_state (record_success b) =
      (if bc_success_threshold (cb_config b) \<le> cb_consecutive_successes b + 1 then Closed else HalfOpen)"
    "\<not> bc_success_threshold (cb_config b) \<le> cb_consecutive_successes b + 1 \<Longrightarrow>
      cb_consecutive_successes (record_success b) = cb_consecutive_successes b + 1"
  using assms by (simp_all add: record_success_def Let_def)

lemma cb_config_successes [simp]: "cb_config ((record_success ^^ n) b) = cb_config b"
  by (induction n) simp_all

lemma half_open_waits:
  assumes "cb_state b = HalfOpen" "cb_consecutive_successes b = 0" "n < unat (bc_success_threshold (cb_config b))"
  shows "cb_state ((record_success ^^ n) b) = HalfOpen \<and> cb_consecutive_successes ((record_success ^^ n) b) = of_nat n"
  using assms(3)
proof (induction n)
  case (Suc n)
  let ?b = "(record_success ^^ n) b" and ?T = "bc_success_threshold (cb_config b)"
  have half: "cb_state ?b = HalfOpen" and s: "cb_consecutive_successes ?b = of_nat n" using Suc by simp_all
  have "Suc n < 2 ^ LENGTH(32)" using Suc.prems unat_lt_len [of ?T] by simp
  then have "unat (of_nat (Suc n) :: u32) = Suc n" unfolding unat_of_nat by (rule mod_less)
  then have "\<not> ?T \<le> cb_consecutive_successes ?b + 1"
    using Suc.prems unfolding s by (simp add: word_le_nat_alt add.commute)
  with success_half_open [OF half] s show ?case by (simp add: add.commute)
qed (use assms in simp)

lemma half_open_recovers:
  assumes "cb_state b = HalfOpen" "cb_consecutive_successes b = 0" "1 \<le> unat (bc_success_threshold (cb_config b))"
  shows "cb_state ((record_success ^^ unat (bc_success_threshold (cb_config b))) b) = Closed"
proof -
  let ?T = "bc_success_threshold (cb_config b)"
  obtain n where n: "unat ?T = Suc n" using assms(3) by (cases "unat ?T") auto
  have "cb_state ((record_success ^^ n) b) = HalfOpen"
    "cb_consecutive_successes ((record_success ^^ n) b) = of_nat n"
    using half_open_waits [OF assms(1,2), of n] n by simp_all
  moreover have "?T = of_nat n + 1" using n by (metis add.commute of_nat_Suc of_nat_unat ucast_id)
  ultimately show ?thesis unfolding n by (simp add: success_half_open(1))
qed

section \<open>The registry as a framed system\<close>

definition registry_inv :: "breaker_registry \<Rightarrow> bool" where
  "registry_inv r \<longleftrightarrow> bt_wf (br_breakers r) \<and>
     (\<forall>k. breaker_inv (breaker_of r k) \<and> cb_config (breaker_of r k) = br_config r)"

datatype registry_event =
    QueryTarget instant agent_id "model_id option"
  | QueryHealth instant agent_id
  | TargetSucceeded agent_id "model_id option"
  | TargetFailed instant agent_id "model_id option" error_class string

fun registry_step :: "registry_event \<Rightarrow> breaker_registry \<Rightarrow> breaker_registry" where
  "registry_step (QueryTarget now a m) r = snd (reg_allows now a m r)"
| "registry_step (QueryHealth now a) r = snd (reg_health now a r)"
| "registry_step (TargetSucceeded a m) r = reg_record_success a m r"
| "registry_step (TargetFailed now a m cls msg) r = snd (reg_record_failure now a m cls msg r)"

lemma breaker_of_with:
  "breaker_of (snd (with_breaker k f r)) k' =
     (if k' = k \<and> \<not> br_poisoned r then snd (f (breaker_of r k)) else breaker_of r k')"
  by (auto simp: with_breaker_def breaker_of_def bt_get_insert prod.case_eq_if split: option.split)

lemma with_breaker_fst:
  "fst (with_breaker k f r) = (if br_poisoned r then None else Some (fst (f (breaker_of r k))))"
  by (simp add: with_breaker_def split: prod.splits)

lemma with_breaker_fixed [simp]:
  "br_config (snd (with_breaker k f r)) = br_config r" "br_poisoned (snd (with_breaker k f r)) = br_poisoned r"
  by (simp_all add: with_breaker_def split: prod.splits)

lemma bt_wf_with_breaker: "bt_wf (br_breakers r) \<Longrightarrow> bt_wf (br_breakers (snd (with_breaker k f r)))"
  by (simp add: with_breaker_def bt_wf_insert split: prod.splits)

lemma registry_inv_with:
  assumes "registry_inv r" "\<And>b. breaker_inv b \<Longrightarrow> breaker_inv (snd (f b)) \<and> cb_config (snd (f b)) = cb_config b"
  shows "registry_inv (snd (with_breaker k f r))"
  using assms by (simp add: registry_inv_def breaker_of_with bt_wf_with_breaker)

lemma registry_ops:
  "snd (reg_allows now a m r) =
     (let r1 = snd (with_breaker (AgentKey a) (allows_request now) r) in
      if fst (with_breaker (AgentKey a) (allows_request now) r) = Some False then r1
      else case m of None \<Rightarrow> r1 | Some m \<Rightarrow> snd (with_breaker (ModelKey a m) (allows_request now) r1))"
  "snd (reg_health now a r) =
     snd (with_breaker (AgentKey a) (\<lambda>b. case state_at now b of (s, b) \<Rightarrow> (to_health s, b)) r)"
  by (auto simp: reg_allows_def reg_health_def unwrap_or_def Let_def split: prod.splits option.splits)

lemma breaker_callbacks:
  assumes "breaker_inv b"
  shows "breaker_inv (snd (allows_request now b))" "cb_config (snd (allows_request now b)) = cb_config b"
    "breaker_inv (snd (case state_at now b of (s, b) \<Rightarrow> (to_health s, b)))"
    "cb_config (snd (case state_at now b of (s, b) \<Rightarrow> (to_health s, b))) = cb_config b"
    "breaker_inv (snd (state_at now (record_failure cls msg now b)))"
  using assms breaker_inv_state_at [of b now] cb_config_keeps(1) [of now b]
  by (simp_all add: allows_request_def breaker_inv_state_at breaker_inv_failure prod.case_eq_if)

lemmas registry_inv_ops = registry_inv_with breaker_callbacks breaker_inv_state_at breaker_inv_success
  breaker_inv_failure

lemma registry_inv_step: "registry_inv r \<Longrightarrow> registry_inv (registry_step e r)"
proof (cases e)
  case (QueryTarget now a m)
  moreover assume "registry_inv r"
  ultimately show ?thesis
    by (auto simp: registry_ops Let_def split: option.split intro!: registry_inv_ops)
next
  case (QueryHealth now a)
  moreover assume "registry_inv r"
  ultimately show ?thesis by (auto simp: registry_ops intro!: registry_inv_ops)
next
  case (TargetSucceeded a m)
  moreover assume "registry_inv r"
  ultimately show ?thesis
    by (auto simp: reg_record_success_def Let_def split: option.split intro!: registry_inv_ops)
next
  case (TargetFailed now a m cls msg)
  moreover assume "registry_inv r"
  ultimately show ?thesis
    by (auto simp: reg_record_failure_def Let_def prod.case_eq_if split: option.split
        intro!: registry_inv_ops)
qed

fun event_agent :: "registry_event \<Rightarrow> agent_id" where
  "event_agent (QueryTarget _ a _) = a"
| "event_agent (QueryHealth _ a) = a"
| "event_agent (TargetSucceeded a _) = a"
| "event_agent (TargetFailed _ a _ _ _) = a"

fun key_agent :: "breaker_key \<Rightarrow> agent_id" where
  "key_agent (AgentKey a) = a"
| "key_agent (ModelKey a _) = a"

lemma registry_frame: "key_agent k \<noteq> event_agent e \<Longrightarrow> breaker_of (registry_step e r) k = breaker_of r k"
  by (cases e)
     (auto simp: registry_ops reg_record_success_def reg_record_failure_def Let_def breaker_of_with
       prod.case_eq_if split: option.split)

lemma registry_inv_new: "registry_inv (new_breaker_registry c)"
  by (simp add: registry_inv_def new_breaker_registry_def breaker_of_def bt_get_def breaker_inv_new)
     (simp add: new_breaker_def)

interpretation breakers: framed_system
  "\<lambda>r. \<exists>c. r = new_breaker_registry c" registry_step registry_inv
  breaker_of "\<lambda>e k. key_agent k = event_agent e"
  by unfold_locales (auto simp: registry_inv_new registry_inv_step registry_frame)

text \<open>The answer of the gate, and what a model failure means to its agent.\<close>

lemma reg_allows_iff:
  assumes "registry_inv r" "\<not> br_poisoned r"
  shows "fst (reg_allows now a m r) \<longleftrightarrow>
    (\<forall>k \<in> insert (AgentKey a) (ModelKey a ` set_option m).
       cb_state (breaker_of r k) \<noteq> Open \<or> cooldown_over (breaker_of r k) now)"
proof -
  have "fst (reg_allows now a m r) \<longleftrightarrow>
    (\<forall>k \<in> insert (AgentKey a) (ModelKey a ` set_option m). fst (allows_request now (breaker_of r k)))"
    using assms(2)
    by (auto simp: reg_allows_def unwrap_or_def prod.case_eq_if with_breaker_fst breaker_of_with split: option.split)
  then show ?thesis using assms(1) open_allows_iff by (simp add: registry_inv_def)
qed

lemma model_failure_spares_agent:
  "cb_consecutive_failures (breaker_of (snd (reg_record_failure now a (Some m) ModelUnavailable msg r)) (AgentKey a)) =
   cb_consecutive_failures (breaker_of r (AgentKey a))"
  by (simp add: reg_record_failure_def prod.case_eq_if breaker_of_with Let_def state_at_def)

end
