(* ===== verification/Router.thy ===== *)
theory Router
  imports Score Registry Breaker "HOL-Library.Multiset"
begin

text \<open>
  \<open>cuma-router/src/router.rs\<close> and \<open>explain.rs\<close>: filter, score, rank, explain.

  The router reads the circuit breakers through a shared registry, and reading one may move it
  from open to half open, so the model threads that registry through the loops. The clock reading
  of the call for an agent and a model is \<open>clk agent model\<close>. The sort of the source is
  stable and its comparator is total on numbers; the insertion sort of the model gives the same
  list there, and the lemmas on the ranking assume that no total is NaN.
\<close>

section \<open>Explanations\<close>

record score_breakdown =
  sb_quality :: f64
  sb_cost :: f64
  sb_latency :: f64
  sb_reliability :: f64
  sb_context :: f64
  sb_total :: f64

record candidate =
  cd_agent_id :: agent_id
  cd_model_id :: "model_id option"
  cd_breakdown :: score_breakdown
  cd_notes :: "string list"

record rejection =
  rj_agent_id :: agent_id
  rj_model_id :: "model_id option"
  rj_reason :: string

record routing_decision =
  rd_selected :: candidate
  rd_alternatives :: "candidate list"
  rd_rejected :: "rejection list"
  rd_weights :: router_weights
  rd_strategy :: routing_strategy

definition has_alternatives :: "routing_decision \<Rightarrow> bool" where
  "has_alternatives d = (rd_alternatives d \<noteq> [])"

definition candidate_summary :: "candidate \<Rightarrow> string" where
  "candidate_summary c =
     (case cd_model_id c of
        Some m \<Rightarrow> agent_str (cd_agent_id c) @ ''/'' @ model_str m @ ''  '' @ fmt_fixed 3 (sb_total (cd_breakdown c))
      | None \<Rightarrow> agent_str (cd_agent_id c) @ ''  '' @ fmt_fixed 3 (sb_total (cd_breakdown c)))"

definition decision_summary :: "routing_decision \<Rightarrow> string" where
  "decision_summary d =
     candidate_summary (rd_selected d) @ '' (score '' @ fmt_fixed 3 (sb_total (cd_breakdown (rd_selected d)))
     @ '', '' @ show_nat (length (rd_alternatives d)) @ '' alternatives, ''
     @ show_nat (length (rd_rejected d)) @ '' rejected)''"

definition pad_right :: "nat \<Rightarrow> string \<Rightarrow> string" where
  "pad_right n s = s @ replicate (n - length s) (CHR '' '')"

definition pad_left :: "nat \<Rightarrow> string \<Rightarrow> string" where
  "pad_left n s = replicate (n - length s) (CHR '' '') @ s"

abbreviation newline :: string where "newline \<equiv> [CHR 0x0A]"

definition render_row :: "string \<times> f64 \<times> f64 \<Rightarrow> string" where
  "render_row row =
     (case row of (name, raw, weight) \<Rightarrow>
        ''  '' @ pad_right 22 name @ '' '' @ pad_left 6 (fmt_fixed 2 raw) @ ''  x'' @ pad_right 5 (fmt_fixed 2 weight)
        @ '' = '' @ pad_left 6 (fmt_fixed 3 (fmul raw weight)) @ newline)"

definition render :: "router_weights \<Rightarrow> score_breakdown \<Rightarrow> string" where
  "render weights b =
     (let w = weights_normalized weights;
          rows = [(''capability & quality'', sb_quality b, rw_quality w), (''cost'', sb_cost b, rw_cost w),
                  (''latency'', sb_latency b, rw_latency w), (''reliability'', sb_reliability b, rw_reliability w),
                  (''context fit'', sb_context b, rw_context w)]
      in concat (map render_row rows) @ ''  '' @ pad_right 22 ''total'' @ '' '' @
         pad_left 21 (fmt_fixed 3 (sb_total b)) @ newline)"

definition target_label :: "agent_id \<Rightarrow> model_id option \<Rightarrow> string" where
  "target_label a m = (case m of Some m \<Rightarrow> agent_str a @ ''/'' @ model_str m | None \<Rightarrow> agent_str a)"

definition explain :: "routing_decision \<Rightarrow> string" where
  "explain d =
     (let c = rd_selected d in
      ''Selected:'' @ newline @ ''  Agent: '' @ agent_str (cd_agent_id c) @ newline
      @ (case cd_model_id c of Some m \<Rightarrow> ''  Model: '' @ model_str m @ newline | None \<Rightarrow> [])
      @ ''Strategy: '' @ debug_strategy (rd_strategy d) @ newline
      @ ''Reasons:'' @ newline @ render (rd_weights d) (cd_breakdown c)
      @ (if cd_notes c = [] then []
         else ''Notes:'' @ newline @ concat (map (\<lambda>n. ''  - '' @ n @ newline) (cd_notes c)))
      @ (if rd_alternatives d = [] then []
         else ''Alternatives:'' @ newline
           @ concat (map (\<lambda>alt. ''  '' @ candidate_summary alt @ newline) (rd_alternatives d)))
      @ (if rd_rejected d = [] then []
         else ''Rejected:'' @ newline
           @ concat (map (\<lambda>r. ''  '' @ target_label (rj_agent_id r) (rj_model_id r) @ '': '' @ rj_reason r @ newline)
               (rd_rejected d))))"

section \<open>Requests and the router\<close>

record route_request =
  rq_task :: task
  rq_snapshot :: registry_snapshot
  rq_exclude_targets :: "(agent_id \<times> model_id option) list"
  rq_spent_usd :: f64
  rq_budget_usd :: "f64 option"

definition new_request :: "task \<Rightarrow> registry_snapshot \<Rightarrow> route_request" where
  "new_request t s = \<lparr>rq_task = t, rq_snapshot = s, rq_exclude_targets = [], rq_spent_usd = f0, rq_budget_usd = None\<rparr>"

definition excluding :: "(agent_id \<times> model_id option) list \<Rightarrow> route_request \<Rightarrow> route_request" where
  "excluding targets r = r\<lparr>rq_exclude_targets := targets\<rparr>"

definition with_budget :: "f64 \<Rightarrow> f64 option \<Rightarrow> route_request \<Rightarrow> route_request" where
  "with_budget spent budget r = r\<lparr>rq_spent_usd := spent, rq_budget_usd := budget\<rparr>"

record router =
  ro_config :: router_config
  ro_history :: routing_history

type_synonym clock = "agent_id \<Rightarrow> model_id option \<Rightarrow> instant"

definition max_alternatives :: nat where "max_alternatives = 5"

definition router_weights_of :: "router \<Rightarrow> router_weights" where
  "router_weights_of ro = weights_normalized (rc_weights (ro_config ro))"

definition estimate_cost :: "agent_descriptor \<Rightarrow> model_descriptor option \<Rightarrow> task \<Rightarrow> f64 option" where
  "estimate_cost agent model t =
     (case ts_estimated_tokens (tk_spec t) of
        None \<Rightarrow> None
      | Some estimated_tokens \<Rightarrow>
          let input = estimated_tokens * 7 div 10; output = estimated_tokens - input
          in known_value (cost_estimate (cost_of agent model) input output))"

text \<open>The budget test of one target: the reason for refusing it, if there is one.\<close>

definition over_budget :: "route_request \<Rightarrow> agent_descriptor \<Rightarrow> model_descriptor option \<Rightarrow> string option" where
  "over_budget rq agent model =
     (case rq_budget_usd rq of
        None \<Rightarrow> None
      | Some budget \<Rightarrow>
          let remaining = fsub budget (rq_spent_usd rq) in
          if fle remaining f0 then
            Some (''session budget of $'' @ fmt_fixed 2 budget @ '' is exhausted'')
          else case estimate_cost agent model (rq_task rq) of
            None \<Rightarrow> None
          | Some estimated \<Rightarrow>
              if flt remaining estimated then
                Some (''estimated $'' @ fmt_fixed 4 estimated @ '' exceeds $'' @ fmt_fixed 4 remaining @
                  '' remaining budget'')
              else None)"

definition score_candidate ::
  "router \<Rightarrow> route_request \<Rightarrow> agent_descriptor \<Rightarrow> model_descriptor option \<Rightarrow> candidate" where
  "score_candidate ro rq agent model =
     (let (dimensions, notes) = score_all agent model (rq_task rq);
          model_id = map_option md_id model;
          ttype = ts_task_type (tk_spec (rq_task rq));
          (reliability, adapted) =
            blend (ro_history ro) (ds_reliability dimensions) (ad_id agent, model_id, ttype)
              (rc_adaptive_weight (ro_config ro)) (rc_adaptive_min_samples (ro_config ro));
          notes = (if adapted
            then notes @ [''reliability adjusted from observed history for '' @ debug_task_type ttype] else notes);
          w = router_weights_of ro;
          total =
            fadd (fadd (fadd (fadd (fmul (ds_quality dimensions) (rw_quality w))
              (fmul (ds_cost dimensions) (rw_cost w)))
              (fmul (ds_latency dimensions) (rw_latency w)))
              (fmul reliability (rw_reliability w)))
              (fmul (ds_context dimensions) (rw_context w))
      in \<lparr>cd_agent_id = ad_id agent, cd_model_id = model_id,
          cd_breakdown = \<lparr>sb_quality = ds_quality dimensions, sb_cost = ds_cost dimensions,
            sb_latency = ds_latency dimensions, sb_reliability = reliability,
            sb_context = ds_context dimensions, sb_total = total\<rparr>,
          cd_notes = notes\<rparr>)"

section \<open>One target, one agent, the whole snapshot\<close>

text \<open>The checks that come after the model's own, which read no breaker.\<close>

definition judge_target ::
  "router \<Rightarrow> route_request \<Rightarrow> agent_descriptor \<Rightarrow> model_descriptor option \<Rightarrow> string + candidate" where
  "judge_target ro rq agent model =
     (let model_id = map_option md_id model;
          coverage = match_against (effective_capabilities agent model)
            (ts_required_capabilities (tk_spec (rq_task rq)))
      in
      if list_ex (\<lambda>(a, m). a = ad_id agent \<and> (m = None \<or> m = model_id)) (rq_exclude_targets rq) then
        Inl ''already failed this task''
      else if \<not> cm_is_complete coverage then
        Inl (''missing required capabilities: '' @ join '', '' (map display_capability (cm_missing coverage)))
      else case over_budget rq agent model of
        Some reason \<Rightarrow> Inl reason
      | None \<Rightarrow> Inr (score_candidate ro rq agent model))"

definition model_refusal :: "router_config \<Rightarrow> model_descriptor \<Rightarrow> string option" where
  "model_refusal cfg m =
     (if \<not> md_available m then Some ''model unavailable''
      else if model_str (md_id m) \<in> set (rc_exclude_models cfg) then Some ''excluded by router.exclude_models''
      else case rc_pin_model cfg of
        Some pinned \<Rightarrow>
          if pinned \<noteq> model_str (md_id m) then Some (''router.pin_model is '' @ pinned) else None
      | None \<Rightarrow> None)"

definition consider_target ::
  "clock \<Rightarrow> router \<Rightarrow> route_request \<Rightarrow> agent_descriptor \<Rightarrow> model_descriptor option \<Rightarrow>
   (candidate list \<times> rejection list) \<times> breaker_registry \<Rightarrow> (candidate list \<times> rejection list) \<times> breaker_registry" where
  "consider_target clk ro rq agent model s =
     (case s of ((candidates, rejected), br) \<Rightarrow>
        let reject = (\<lambda>reason br. ((candidates, rejected @
              [\<lparr>rj_agent_id = ad_id agent, rj_model_id = map_option md_id model, rj_reason = reason\<rparr>]), br));
            judge = (\<lambda>br. case judge_target ro rq agent model of
              Inl reason \<Rightarrow> reject reason br
            | Inr c \<Rightarrow> ((candidates @ [c], rejected), br))
        in case model of
             None \<Rightarrow> judge br
           | Some m \<Rightarrow>
               (case model_refusal (ro_config ro) m of
                  Some reason \<Rightarrow> reject reason br
                | None \<Rightarrow>
                    (case reg_allows (clk (ad_id agent) (Some (md_id m))) (ad_id agent) (Some (md_id m)) br of
                       (ok, br) \<Rightarrow> if \<not> ok then reject ''model circuit breaker open'' br else judge br)))"

definition agent_refusal :: "router_config \<Rightarrow> agent_descriptor \<Rightarrow> string option" where
  "agent_refusal cfg agent =
     (if \<not> ad_enabled agent then Some ''disabled by configuration''
      else if agent_str (ad_id agent) \<in> set (rc_exclude_agents cfg) then Some ''excluded by router.exclude_agents''
      else if (case rc_pin_agent cfg of Some pinned \<Rightarrow> pinned \<noteq> agent_str (ad_id agent) | None \<Rightarrow> False) then
        Some (''router.pin_agent is '' @ the (rc_pin_agent cfg))
      else if \<not> health_is_routable (ah_state (ad_health agent)) then
        Some (''health is '' @ debug_health_state (ah_state (ad_health agent)))
      else None)"

definition agent_targets :: "agent_descriptor \<Rightarrow> model_descriptor option list" where
  "agent_targets agent = (if ad_models agent = [] then [None] else map Some (ad_models agent))"

definition consider_agent ::
  "clock \<Rightarrow> router \<Rightarrow> route_request \<Rightarrow> agent_descriptor \<Rightarrow>
   (candidate list \<times> rejection list) \<times> breaker_registry \<Rightarrow> (candidate list \<times> rejection list) \<times> breaker_registry" where
  "consider_agent clk ro rq agent s =
     (case s of ((candidates, rejected), br) \<Rightarrow>
        let reject = (\<lambda>reason br. ((candidates, rejected @
              [\<lparr>rj_agent_id = ad_id agent, rj_model_id = None, rj_reason = reason\<rparr>]), br))
        in case agent_refusal (ro_config ro) agent of
             Some reason \<Rightarrow> reject reason br
           | None \<Rightarrow>
               (case reg_allows (clk (ad_id agent) None) (ad_id agent) None br of
                  (ok, br) \<Rightarrow>
                    if \<not> ok then reject ''circuit breaker open'' br
                    else if rc_strategy (ro_config ro) \<in> {LocalFirst, PrivacyFirst} \<and> ad_protocol agent = A2A then
                      reject (debug_strategy (rc_strategy (ro_config ro)) @ '' excludes remote A2A agents'') br
                    else fold (consider_target clk ro rq agent) (agent_targets agent)
                           ((candidates, rejected), br)))"

text \<open>A stable insertion sort, highest total first.\<close>

fun insert_ranked :: "candidate \<Rightarrow> candidate list \<Rightarrow> candidate list" where
  "insert_ranked c [] = [c]"
| "insert_ranked c (d # ds) =
     (if flt (sb_total (cd_breakdown c)) (sb_total (cd_breakdown d)) then d # insert_ranked c ds else c # d # ds)"

definition rank_candidates :: "candidate list \<Rightarrow> candidate list" where
  "rank_candidates cs = foldr insert_ranked cs []"

definition no_route_reason :: "rejection list \<Rightarrow> string" where
  "no_route_reason rejected =
     (if rejected = [] then ''no agents are registered''
      else join ''; '' (map (\<lambda>r. agent_str (rj_agent_id r) @ '': '' @ rj_reason r) rejected))"

definition route ::
  "clock \<Rightarrow> router \<Rightarrow> route_request \<Rightarrow> breaker_registry \<Rightarrow> routing_decision result \<times> breaker_registry" where
  "route clk ro rq br =
     (case fold (consider_agent clk ro rq) (rq_snapshot rq) (([], []), br) of
        ((candidates, rejected), br) \<Rightarrow>
          (case rank_candidates candidates of
             [] \<Rightarrow> (Inl (ERouting (tk_id (rq_task rq)) (no_route_reason rejected)), br)
           | selected # others \<Rightarrow>
               (Inr \<lparr>rd_selected = selected, rd_alternatives = take max_alternatives others,
                     rd_rejected = rejected, rd_weights = router_weights_of ro,
                     rd_strategy = rc_strategy (ro_config ro)\<rparr>, br)))"

section \<open>The specification: filter the targets, score what is left\<close>

text \<open>Whether the breaker under a key lets a request through at a time.\<close>

definition gate :: "breaker_registry \<Rightarrow> breaker_key \<Rightarrow> instant \<Rightarrow> bool" where
  "gate br k now \<longleftrightarrow> br_poisoned br \<or> cb_state (breaker_of br k) \<noteq> Open \<or> cooldown_over (breaker_of br k) now"

definition agent_passes :: "clock \<Rightarrow> router_config \<Rightarrow> breaker_registry \<Rightarrow> agent_descriptor \<Rightarrow> bool" where
  "agent_passes clk cfg br agent \<longleftrightarrow>
     agent_refusal cfg agent = None \<and> gate br (AgentKey (ad_id agent)) (clk (ad_id agent) None)
     \<and> \<not> (rc_strategy cfg \<in> {LocalFirst, PrivacyFirst} \<and> ad_protocol agent = A2A)"

definition model_passes ::
  "clock \<Rightarrow> router_config \<Rightarrow> breaker_registry \<Rightarrow> agent_descriptor \<Rightarrow> model_descriptor option \<Rightarrow> bool" where
  "model_passes clk cfg br agent model \<longleftrightarrow>
     (case model of
        None \<Rightarrow> True
      | Some m \<Rightarrow> model_refusal cfg m = None
          \<and> gate br (ModelKey (ad_id agent) (md_id m)) (clk (ad_id agent) (Some (md_id m))))"

definition request_passes :: "route_request \<Rightarrow> agent_descriptor \<Rightarrow> model_descriptor option \<Rightarrow> bool" where
  "request_passes rq agent model \<longleftrightarrow>
     (ad_id agent, None) \<notin> set (rq_exclude_targets rq)
     \<and> (ad_id agent, map_option md_id model) \<notin> set (rq_exclude_targets rq)
     \<and> set (ts_required_capabilities (tk_spec (rq_task rq))) \<subseteq> set (effective_capabilities agent model)
     \<and> over_budget rq agent model = None"

definition snapshot_targets :: "registry_snapshot \<Rightarrow> (agent_descriptor \<times> model_descriptor option) list" where
  "snapshot_targets s = concat (map (\<lambda>a. map (Pair a) (agent_targets a)) s)"

definition eligible ::
  "clock \<Rightarrow> router_config \<Rightarrow> breaker_registry \<Rightarrow> route_request \<Rightarrow> agent_descriptor \<times> model_descriptor option \<Rightarrow> bool" where
  "eligible clk cfg br rq t \<longleftrightarrow>
     (case t of (agent, model) \<Rightarrow> agent_passes clk cfg br agent \<and> model_passes clk cfg br agent model
        \<and> request_passes rq agent model)"

lemma judge_target_cases:
  "\<exists>reason. judge_target ro rq agent model =
     (if request_passes rq agent model then Inr (score_candidate ro rq agent model) else Inl reason)"
  by (auto simp: judge_target_def request_passes_def Let_def list_ex_iff cm_is_complete_iff split: option.splits)

section \<open>Reading the breakers does not change what the router sees\<close>

text \<open>During a route a breaker is either untouched or has gone from open to half open at the time
  its cooldown was found to be over.\<close>

fun key_time :: "clock \<Rightarrow> breaker_key \<Rightarrow> instant" where
  "key_time clk (AgentKey a) = clk a None"
| "key_time clk (ModelKey a m) = clk a (Some m)"

definition half_opened :: "circuit_breaker \<Rightarrow> circuit_breaker" where
  "half_opened b = b\<lparr>cb_state := HalfOpen, cb_consecutive_successes := 0\<rparr>"

definition drift :: "clock \<Rightarrow> breaker_registry \<Rightarrow> breaker_registry \<Rightarrow> bool" where
  "drift clk br0 br \<longleftrightarrow> br_poisoned br = br_poisoned br0 \<and>
     (\<forall>k. breaker_of br k = breaker_of br0 k \<or>
       cb_state (breaker_of br0 k) = Open \<and> cooldown_over (breaker_of br0 k) (key_time clk k)
       \<and> breaker_of br k = half_opened (breaker_of br0 k))"

lemma drift_refl: "drift clk br br"
  by (simp add: drift_def)

lemma allows_request_eq:
  "allows_request now b = (cb_state b \<noteq> Open \<or> cooldown_over b now,
     if cb_state b = Open \<and> cooldown_over b now then half_opened b else b)"
  by (simp add: allows_request_def state_at_def half_opened_def Let_def)

lemma drift_gate: "drift clk br0 br \<Longrightarrow> gate br k (key_time clk k) \<longleftrightarrow> gate br0 k (key_time clk k)"
  unfolding drift_def gate_def by (auto simp: half_opened_def dest: spec [of _ k])

lemma drift_with:
  assumes "drift clk br0 br" "cb_state (breaker_of br k) = Open \<longrightarrow> now = key_time clk k"
  shows "drift clk br0 (snd (with_breaker k (allows_request now) br))"
  unfolding drift_def
proof (intro conjI allI)
  fix k'
  have "breaker_of br k = breaker_of br0 k" if "cb_state (breaker_of br k) = Open"
    using assms(1) that unfolding drift_def by (metis breaker_state.distinct(5) circuit_breaker.select_convs(2)
      circuit_breaker.surjective circuit_breaker.update_convs(2) circuit_breaker.update_convs(4) half_opened_def)
  then show "breaker_of (snd (with_breaker k (allows_request now) br)) k' = breaker_of br0 k' \<or>
       cb_state (breaker_of br0 k') = Open \<and> cooldown_over (breaker_of br0 k') (key_time clk k')
       \<and> breaker_of (snd (with_breaker k (allows_request now) br)) k' = half_opened (breaker_of br0 k')"
    using assms unfolding drift_def by (auto simp: breaker_of_with allows_request_eq)
qed (use assms(1) in \<open>simp add: drift_def\<close>)

lemma with_allows_fst:
  "unwrap_or True (fst (with_breaker k (allows_request now) br)) \<longleftrightarrow> gate br k now"
  by (simp add: with_breaker_fst unwrap_or_def gate_def allows_request_eq)

lemma agent_gate_step:
  assumes "drift clk br0 br"
  shows "fst (reg_allows (clk a None) a None br) \<longleftrightarrow> gate br0 (AgentKey a) (clk a None)"
    "drift clk br0 (snd (reg_allows (clk a None) a None br))"
    "fst (reg_allows (clk a None) a None br) \<Longrightarrow>
      \<not> br_poisoned br0 \<longrightarrow> cb_state (breaker_of (snd (reg_allows (clk a None) a None br)) (AgentKey a)) \<noteq> Open"
proof -
  let ?w = "with_breaker (AgentKey a) (allows_request (clk a None)) br"
  have eq: "reg_allows (clk a None) a None br = (unwrap_or True (fst ?w), snd ?w)"
    by (simp add: reg_allows_def prod.case_eq_if)
  show "fst (reg_allows (clk a None) a None br) \<longleftrightarrow> gate br0 (AgentKey a) (clk a None)"
    using drift_gate [OF assms, of "AgentKey a"] by (simp add: eq with_allows_fst)
  show "drift clk br0 (snd (reg_allows (clk a None) a None br))"
    unfolding eq by (simp add: drift_with assms)
  show "\<not> br_poisoned br0 \<longrightarrow> cb_state (breaker_of (snd (reg_allows (clk a None) a None br)) (AgentKey a)) \<noteq> Open"
    if "fst (reg_allows (clk a None) a None br)"
    using that assms by (auto simp: eq with_allows_fst gate_def drift_def breaker_of_with allows_request_eq half_opened_def)
qed

lemma model_gate_step:
  fixes m :: model_id
  assumes "drift clk br0 br" "\<not> br_poisoned br0 \<longrightarrow> cb_state (breaker_of br (AgentKey a)) \<noteq> Open"
  defines "s \<equiv> reg_allows (clk a (Some m)) a (Some m) br"
  shows "fst s \<longleftrightarrow> gate br0 (ModelKey a m) (clk a (Some m))" "drift clk br0 (snd s)"
    "\<not> br_poisoned br0 \<longrightarrow> cb_state (breaker_of (snd s) (AgentKey a)) \<noteq> Open"
proof -
  let ?t = "clk a (Some m)"
  let ?w = "with_breaker (AgentKey a) (allows_request ?t) br"
  let ?v = "with_breaker (ModelKey a m) (allows_request ?t) (snd ?w)"
  have p: "br_poisoned br = br_poisoned br0" using assms(1) by (simp add: drift_def)
  have "gate br (AgentKey a) ?t" using assms(2) p by (auto simp: gate_def)
  then have s: "s = (unwrap_or True (fst ?v), snd ?v)"
    using with_allows_fst [of "AgentKey a" ?t br] by (simp add: s_def reg_allows_def prod.case_eq_if)
  have d: "drift clk br0 (snd ?w)"
  proof (cases "br_poisoned br0")
    case True
    then show ?thesis using assms(1) p by (simp add: with_breaker_def)
  next
    case False
    then show ?thesis using assms(1,2) by (intro drift_with) auto
  qed
  show "fst s \<longleftrightarrow> gate br0 (ModelKey a m) ?t"
    using drift_gate [OF d, of "ModelKey a m"] by (simp add: s with_allows_fst)
  show "drift clk br0 (snd s)" unfolding s by (simp add: drift_with [OF d])
  show "\<not> br_poisoned br0 \<longrightarrow> cb_state (breaker_of (snd s) (AgentKey a)) \<noteq> Open"
    using assms(2) by (auto simp: s breaker_of_with allows_request_eq)
qed

section \<open>The loops implement the specification\<close>

definition target_passes ::
  "clock \<Rightarrow> router_config \<Rightarrow> breaker_registry \<Rightarrow> route_request \<Rightarrow> agent_descriptor \<Rightarrow> model_descriptor option \<Rightarrow> bool" where
  "target_passes clk cfg br rq agent model \<longleftrightarrow> model_passes clk cfg br agent model \<and> request_passes rq agent model"

abbreviation rejected_ids :: "rejection list \<Rightarrow> (agent_id \<times> model_id option) list" where
  "rejected_ids rs \<equiv> map (\<lambda>r. (rj_agent_id r, rj_model_id r)) rs"

lemma consider_target_step:
  assumes "drift clk br0 br" "\<not> br_poisoned br0 \<longrightarrow> cb_state (breaker_of br (AgentKey (ad_id agent))) \<noteq> Open"
  shows "\<exists>rj' br'. consider_target clk ro rq agent model ((cs, rj), br) =
      ((cs @ (if target_passes clk (ro_config ro) br0 rq agent model then [score_candidate ro rq agent model] else []),
        rj @ rj'), br')
    \<and> rejected_ids rj' = (if target_passes clk (ro_config ro) br0 rq agent model then [] else [(ad_id agent, map_option md_id model)])
    \<and> drift clk br0 br' \<and> (\<not> br_poisoned br0 \<longrightarrow> cb_state (breaker_of br' (AgentKey (ad_id agent))) \<noteq> Open)"
proof (cases model)
  case None
  obtain reason where "judge_target ro rq agent None =
      (if request_passes rq agent None then Inr (score_candidate ro rq agent None) else Inl reason)"
    using judge_target_cases by blast
  with None assms show ?thesis
    by (simp add: consider_target_def target_passes_def model_passes_def)
next
  case (Some m)
  let ?s = "reg_allows (clk (ad_id agent) (Some (md_id m))) (ad_id agent) (Some (md_id m)) br"
  obtain ok br' where s: "?s = (ok, br')" by (cases ?s)
  note gate = model_gate_step [OF assms, of "md_id m", unfolded s fst_conv snd_conv]
  obtain reason where judge: "judge_target ro rq agent (Some m) =
      (if request_passes rq agent (Some m) then Inr (score_candidate ro rq agent (Some m)) else Inl reason)"
    using judge_target_cases by blast
  show ?thesis
  proof (cases "model_refusal (ro_config ro) m")
    case refused: (Some why)
    with Some assms show ?thesis by (simp add: consider_target_def target_passes_def model_passes_def)
  next
    case None
    with Some s gate judge show ?thesis
      by (cases ok) (simp_all add: consider_target_def target_passes_def model_passes_def Let_def)
  qed
qed

lemma consider_targets:
  assumes "drift clk br0 br" "\<not> br_poisoned br0 \<longrightarrow> cb_state (breaker_of br (AgentKey (ad_id agent))) \<noteq> Open"
  shows "\<exists>rj' br'. fold (consider_target clk ro rq agent) models ((cs, rj), br) =
      ((cs @ map (score_candidate ro rq agent) (filter (target_passes clk (ro_config ro) br0 rq agent) models),
        rj @ rj'), br')
    \<and> rejected_ids rj' =
        map (\<lambda>model. (ad_id agent, map_option md_id model))
          (filter (\<lambda>model. \<not> target_passes clk (ro_config ro) br0 rq agent model) models)
    \<and> drift clk br0 br'"
  using assms
proof (induction models arbitrary: cs rj br)
  case (Cons model models)
  obtain rj1 br1 where step: "consider_target clk ro rq agent model ((cs, rj), br) =
      ((cs @ (if target_passes clk (ro_config ro) br0 rq agent model then [score_candidate ro rq agent model] else []),
        rj @ rj1), br1)"
    and r1: "rejected_ids rj1 = (if target_passes clk (ro_config ro) br0 rq agent model then []
        else [(ad_id agent, map_option md_id model)])"
    and inv: "drift clk br0 br1" "\<not> br_poisoned br0 \<longrightarrow> cb_state (breaker_of br1 (AgentKey (ad_id agent))) \<noteq> Open"
    using consider_target_step [OF Cons.prems, of ro rq model cs rj] by blast
  obtain rj2 br2 where "fold (consider_target clk ro rq agent) models
      ((cs @ (if target_passes clk (ro_config ro) br0 rq agent model then [score_candidate ro rq agent model] else []),
        rj @ rj1), br1) =
      (((cs @ (if target_passes clk (ro_config ro) br0 rq agent model then [score_candidate ro rq agent model] else []))
         @ map (score_candidate ro rq agent) (filter (target_passes clk (ro_config ro) br0 rq agent) models),
        (rj @ rj1) @ rj2), br2)"
    and "rejected_ids rj2 = map (\<lambda>model. (ad_id agent, map_option md_id model))
          (filter (\<lambda>model. \<not> target_passes clk (ro_config ro) br0 rq agent model) models)"
    and "drift clk br0 br2"
    using Cons.IH [OF inv] by blast
  with step r1 show ?case
    by (intro exI [of _ "rj1 @ rj2"] exI [of _ br2]) simp
qed simp

definition rejections_of ::
  "clock \<Rightarrow> router_config \<Rightarrow> breaker_registry \<Rightarrow> route_request \<Rightarrow> agent_descriptor \<Rightarrow> (agent_id \<times> model_id option) list" where
  "rejections_of clk cfg br rq agent =
     (if agent_passes clk cfg br agent then
        map (\<lambda>model. (ad_id agent, map_option md_id model))
          (filter (\<lambda>model. \<not> target_passes clk cfg br rq agent model) (agent_targets agent))
      else [(ad_id agent, None)])"

definition candidates_of ::
  "clock \<Rightarrow> router \<Rightarrow> breaker_registry \<Rightarrow> route_request \<Rightarrow> candidate list" where
  "candidates_of clk ro br rq =
     map (\<lambda>(agent, model). score_candidate ro rq agent model)
       (filter (eligible clk (ro_config ro) br rq) (snapshot_targets (rq_snapshot rq)))"

abbreviation agent_candidates ::
  "clock \<Rightarrow> router \<Rightarrow> breaker_registry \<Rightarrow> route_request \<Rightarrow> agent_descriptor \<Rightarrow> candidate list" where
  "agent_candidates clk ro br rq agent \<equiv>
     (if agent_passes clk (ro_config ro) br agent then
        map (score_candidate ro rq agent) (filter (target_passes clk (ro_config ro) br rq agent) (agent_targets agent))
      else [])"

lemma consider_agent_step:
  assumes "drift clk br0 br"
  shows "\<exists>rj' br'. consider_agent clk ro rq agent ((cs, rj), br) =
      ((cs @ agent_candidates clk ro br0 rq agent, rj @ rj'), br')
    \<and> rejected_ids rj' = rejections_of clk (ro_config ro) br0 rq agent \<and> drift clk br0 br'"
proof (cases "agent_refusal (ro_config ro) agent")
  case (Some reason)
  then show ?thesis using assms by (simp add: consider_agent_def agent_passes_def rejections_of_def)
next
  case None
  let ?s = "reg_allows (clk (ad_id agent) None) (ad_id agent) None br"
  obtain ok br' where s: "?s = (ok, br')" by (cases ?s)
  note gate = agent_gate_step [OF assms, of "ad_id agent", unfolded s fst_conv snd_conv]
  show ?thesis
  proof (cases "agent_passes clk (ro_config ro) br0 agent")
    case True
    then have ok: "ok" using gate(1) by (simp add: agent_passes_def)
    then have "consider_agent clk ro rq agent ((cs, rj), br) =
        fold (consider_target clk ro rq agent) (agent_targets agent) ((cs, rj), br')"
      using True None s by (auto simp: consider_agent_def agent_passes_def)
    then show ?thesis
      using consider_targets [OF gate(2) gate(3) [OF ok], of ro rq "agent_targets agent" cs rj] True
      by (simp add: rejections_of_def)
  next
    case False
    then show ?thesis using None s gate by (auto simp: consider_agent_def agent_passes_def rejections_of_def)
  qed
qed

lemma eligible_pair:
  "eligible clk cfg br rq (agent, model) \<longleftrightarrow> agent_passes clk cfg br agent \<and> target_passes clk cfg br rq agent model"
  by (simp add: eligible_def target_passes_def)

lemma candidates_of_concat:
  "candidates_of clk ro br rq = concat (map (agent_candidates clk ro br rq) (rq_snapshot rq))"
proof -
  have "map (\<lambda>(agent, model). score_candidate ro rq agent model)
      (filter (eligible clk (ro_config ro) br rq) (map (Pair a) (agent_targets a))) = agent_candidates clk ro br rq a" for a
  proof -
    have "filter (eligible clk (ro_config ro) br rq) (map (Pair a) ms) =
        (if agent_passes clk (ro_config ro) br a then map (Pair a) (filter (target_passes clk (ro_config ro) br rq a) ms) else [])" for ms
      by (induction ms) (auto simp: eligible_pair)
    then show ?thesis by (simp add: comp_def)
  qed
  then show ?thesis by (simp add: candidates_of_def snapshot_targets_def filter_concat map_concat comp_def)
qed

lemma consider_snapshot:
  assumes "drift clk br0 br"
  shows "\<exists>rj' br'. fold (consider_agent clk ro rq) agents ((cs, rj), br) =
      ((cs @ concat (map (agent_candidates clk ro br0 rq) agents), rj @ rj'), br')
    \<and> rejected_ids rj' = concat (map (rejections_of clk (ro_config ro) br0 rq) agents) \<and> drift clk br0 br'"
  using assms
proof (induction agents arbitrary: cs rj br)
  case (Cons agent agents)
  obtain rj1 br1 where step: "consider_agent clk ro rq agent ((cs, rj), br) =
      ((cs @ agent_candidates clk ro br0 rq agent, rj @ rj1), br1)"
    and r1: "rejected_ids rj1 = rejections_of clk (ro_config ro) br0 rq agent" and inv: "drift clk br0 br1"
    using consider_agent_step [OF Cons.prems] by blast
  obtain rj2 br2 where "fold (consider_agent clk ro rq) agents ((cs @ agent_candidates clk ro br0 rq agent, rj @ rj1), br1) =
      (((cs @ agent_candidates clk ro br0 rq agent) @ concat (map (agent_candidates clk ro br0 rq) agents),
        (rj @ rj1) @ rj2), br2)"
    and "rejected_ids rj2 = concat (map (rejections_of clk (ro_config ro) br0 rq) agents)" and "drift clk br0 br2"
    using Cons.IH [OF inv] by blast
  with step r1 show ?case by (intro exI [of _ "rj1 @ rj2"] exI [of _ br2]) simp
qed simp

lemma route_refines:
  "\<exists>rejected br'. rejected_ids rejected = concat (map (rejections_of clk (ro_config ro) br rq) (rq_snapshot rq)) \<and>
     drift clk br br' \<and>
     route clk ro rq br =
       (case rank_candidates (candidates_of clk ro br rq) of
          [] \<Rightarrow> (Inl (ERouting (tk_id (rq_task rq)) (no_route_reason rejected)), br')
        | selected # others \<Rightarrow>
            (Inr \<lparr>rd_selected = selected, rd_alternatives = take max_alternatives others, rd_rejected = rejected,
                  rd_weights = router_weights_of ro, rd_strategy = rc_strategy (ro_config ro)\<rparr>, br'))"
proof -
  obtain rj br' where "fold (consider_agent clk ro rq) (rq_snapshot rq) (([], []), br) =
      ((candidates_of clk ro br rq, rj), br')"
    and "rejected_ids rj = concat (map (rejections_of clk (ro_config ro) br rq) (rq_snapshot rq))" "drift clk br br'"
    using consider_snapshot [OF drift_refl, of clk ro rq "rq_snapshot rq" "[]" "[]" br]
    by (auto simp: candidates_of_concat)
  then show ?thesis by (auto simp: route_def)
qed

section \<open>Ranking\<close>

abbreviation total_of :: "candidate \<Rightarrow> f64" where
  "total_of c \<equiv> sb_total (cd_breakdown c)"

lemma set_insert_ranked [simp]: "set (insert_ranked c cs) = insert c (set cs)"
  by (induction cs) auto

lemma length_insert_ranked [simp]: "length (insert_ranked c cs) = Suc (length cs)"
  by (induction cs) auto

lemma mset_insert_ranked: "mset (insert_ranked c cs) = add_mset c (mset cs)"
  by (induction cs) auto

lemma mset_rank_candidates: "mset (rank_candidates cs) = mset cs"
  by (induction cs) (simp_all add: rank_candidates_def mset_insert_ranked)

lemma set_rank_candidates [simp]: "set (rank_candidates cs) = set cs"
  using mset_rank_candidates by (rule mset_eq_setD)

lemma rank_candidates_Nil [simp]: "rank_candidates cs = [] \<longleftrightarrow> cs = []"
  using set_rank_candidates [of cs] by (metis set_empty)

lemma insert_ranked_sorted:
  assumes "sorted_wrt (\<lambda>a b. fle (total_of b) (total_of a)) cs" "\<forall>d \<in> insert c (set cs). total_of d \<noteq> NaN"
  shows "sorted_wrt (\<lambda>a b. fle (total_of b) (total_of a)) (insert_ranked c cs)"
  using assms
proof (induction cs)
  case (Cons d ds)
  show ?case
  proof (cases "flt (total_of c) (total_of d)")
    case True
    then have "fle (total_of c) (total_of d)"
      using Cons.prems(2) flt_iff_not_fle [of "total_of c" "total_of d"] fle_total [of "total_of c" "total_of d"] by auto
    with True Cons show ?thesis by auto
  next
    case False
    then have "fle (total_of d) (total_of c)" using Cons.prems(2) flt_iff_not_fle [of "total_of c" "total_of d"] by auto
    with False Cons.prems show ?thesis by (auto intro: fle_trans)
  qed
qed simp

lemma rank_candidates_sorted:
  assumes "\<forall>c \<in> set cs. total_of c \<noteq> NaN"
  shows "sorted_wrt (\<lambda>a b. fle (total_of b) (total_of a)) (rank_candidates cs)"
  using assms
proof (induction cs)
  case (Cons c cs)
  have "rank_candidates (c # cs) = insert_ranked c (rank_candidates cs)" by (simp add: rank_candidates_def)
  then show ?case using Cons insert_ranked_sorted [of "rank_candidates cs" c] by simp
qed (simp add: rank_candidates_def)

text \<open>Ties keep the order of the snapshot.\<close>

lemma insert_ranked_stable:
  "filter (\<lambda>d. total_of d = v) (insert_ranked c cs) =
     (if total_of c = v then c # filter (\<lambda>d. total_of d = v) cs else filter (\<lambda>d. total_of d = v) cs)"
proof (induction cs)
  case (Cons d ds)
  have "\<not> flt v v" by (cases v) auto
  with Cons show ?case by auto
qed simp

lemma rank_candidates_stable: "filter (\<lambda>d. total_of d = v) (rank_candidates cs) = filter (\<lambda>d. total_of d = v) cs"
  by (induction cs) (simp_all add: rank_candidates_def insert_ranked_stable)

section \<open>Totals are numbers\<close>

definition history_ok :: "routing_history \<Rightarrow> bool" where
  "history_ok h \<longleftrightarrow> (\<forall>b s. history_stats h b = Some s \<longrightarrow> as_successes s \<le> as_attempts s)"

definition task_ok :: "task \<Rightarrow> bool" where
  "task_ok t \<longleftrightarrow> ts_complexity (tk_spec t) \<noteq> NaN \<and> length (ts_required_capabilities (tk_spec t)) \<le> 2 ^ 53"

definition router_ok :: "router \<Rightarrow> bool" where
  "router_ok ro \<longleftrightarrow> all_weights unit_range (router_weights_of ro) \<and> rc_adaptive_weight (ro_config ro) \<noteq> NaN
     \<and> history_ok (ro_history ro)"

definition breakdown_ok :: "score_breakdown \<Rightarrow> bool" where
  "breakdown_ok b \<longleftrightarrow> unit_range (sb_quality b) \<and> unit_range (sb_cost b) \<and> unit_range (sb_latency b)
     \<and> unit_range (sb_reliability b) \<and> unit_range (sb_context b) \<and> fle f0 (sb_total b)"

lemma score_all_unit:
  assumes "target_ok agent model" "task_ok t"
  defines "d \<equiv> fst (score_all agent model t)"
  shows "unit_range (ds_quality d)" "unit_range (ds_cost d)" "unit_range (ds_latency d)"
    "unit_range (ds_reliability d)" "unit_range (ds_context d)"
proof -
  have "d = \<lparr>ds_quality = score_quality agent model t, ds_cost = fst (score_cost agent model),
      ds_latency = fst (score_latency agent model), ds_reliability = fst (score_reliability agent model),
      ds_context = fst (score_context model (ts_estimated_tokens (tk_spec t)))\<rparr>"
    by (simp add: d_def score_all_def Let_def prod.case_eq_if)
  then show "unit_range (ds_quality d)" "unit_range (ds_cost d)" "unit_range (ds_latency d)"
    "unit_range (ds_reliability d)" "unit_range (ds_context d)"
    using assms score_quality_unit score_cost_unit score_latency_unit score_reliability_unit score_context_unit
    by (simp_all add: target_ok_def task_ok_def)
qed

lemma score_candidate_ok:
  assumes "target_ok agent model" "task_ok (rq_task rq)" "router_ok ro"
  shows "breakdown_ok (cd_breakdown (score_candidate ro rq agent model))"
proof -
  let ?d = "fst (score_all agent model (rq_task rq))" and ?w = "router_weights_of ro"
  let ?b = "blend (ro_history ro) (ds_reliability ?d)
      (ad_id agent, map_option md_id model, ts_task_type (tk_spec (rq_task rq)))
      (rc_adaptive_weight (ro_config ro)) (rc_adaptive_min_samples (ro_config ro))"
  note d = score_all_unit [OF assms(1,2)]
  have b: "unit_range (fst ?b)"
    using assms(3) d(4) by (intro blend_unit) (auto simp: router_ok_def history_ok_def)
  have w: "unit_range (rw_quality ?w)" "unit_range (rw_cost ?w)" "unit_range (rw_latency ?w)"
    "unit_range (rw_reliability ?w)" "unit_range (rw_context ?w)"
    using assms(3) by (auto simp: router_ok_def all_weights_def)
  have "fle f0 (fmul x y)" if "unit_range x" "unit_range y" for x y
    using unit_range_mul [OF that] unfolding unit_range_def by simp
  then have "fle f0 (fadd (fadd (fadd (fadd (fmul (ds_quality ?d) (rw_quality ?w)) (fmul (ds_cost ?d) (rw_cost ?w)))
      (fmul (ds_latency ?d) (rw_latency ?w))) (fmul (fst ?b) (rw_reliability ?w))) (fmul (ds_context ?d) (rw_context ?w)))"
    by (intro fadd_nonneg) (use d b w in auto)
  with d b show ?thesis by (simp add: breakdown_ok_def score_candidate_def Let_def prod.case_eq_if)
qed

lemma score_candidate_target [simp]:
  "cd_agent_id (score_candidate ro rq agent model) = ad_id agent"
  "cd_model_id (score_candidate ro rq agent model) = map_option md_id model"
  by (simp_all add: score_candidate_def Let_def case_prod_beta)

text \<open>What a successful route selects is an eligible target of the snapshot.\<close>

lemma route_selected:
  assumes "route clk ro rq br = (Inr d, br')"
  shows "\<exists>agent model. (agent, model) \<in> set (snapshot_targets (rq_snapshot rq)) \<and>
    eligible clk (ro_config ro) br rq (agent, model) \<and> rd_selected d = score_candidate ro rq agent model"
proof -
  let ?cs = "candidates_of clk ro br rq"
  obtain selected others where ranked: "rank_candidates ?cs = selected # others" and "rd_selected d = selected"
    using route_refines [of clk ro br rq] unfolding assms by (cases "rank_candidates ?cs") (clarsimp, fastforce)
  then have "rd_selected d \<in> set ?cs"
    using set_rank_candidates [of ?cs] by (metis list.set_intros(1))
  then show ?thesis by (auto simp: candidates_of_def)
qed

text \<open>And where there is an eligible target, the router finds one.\<close>

lemma route_eligible:
  assumes "(agent, model) \<in> set (snapshot_targets (rq_snapshot rq))" "eligible clk (ro_config ro) br rq (agent, model)"
  shows "\<exists>d br'. route clk ro rq br = (Inr d, br')"
proof -
  let ?cs = "candidates_of clk ro br rq"
  have "?cs \<noteq> []" using assms by (force simp: candidates_of_def filter_empty_conv)
  then obtain c cs where "rank_candidates ?cs = c # cs" by (metis rank_candidates_Nil neq_Nil_conv)
  then show ?thesis using route_refines [of clk ro br rq] by fastforce
qed

end
