(* ===== verification/Retry.thy ===== *)
theory Retry
  imports F64 Errors
begin

text \<open>
  \<open>cuma-resilience/src/retry.rs\<close>: exponential backoff with jitter, and the policy that
  turns a classified failure into a decision.

  Two things come from outside the repository and are arguments of the definitions. The standard
  library leaves the precision of \<open>f64::powi\<close> unspecified, so it is any function. The
  draw from the random source is \<open>random_range lo hi\<close>, \<open>None\<close> when the
  call panics; what the code relies on is \<open>ranged\<close>: between finite bounds in order it
  returns a number between them.
\<close>

record backoff =
  bo_base_ms :: u64
  bo_multiplier :: f64
  bo_max_ms :: u64
  bo_jitter :: f64

definition default_backoff :: backoff where
  "default_backoff = \<lparr>bo_base_ms = 500, bo_multiplier = flit 2, bo_max_ms = 60000, bo_jitter = flit (1 / 4)\<rparr>"

text \<open>A \<open>Duration\<close> built from milliseconds is kept as those milliseconds.\<close>

definition delay_for :: "(f64 \<Rightarrow> nat \<Rightarrow> f64) \<Rightarrow> backoff \<Rightarrow> u32 \<Rightarrow> u64" where
  "delay_for pow b attempt =
     (let exponent = min (unat (saturating_sub attempt 1)) 32;
          raw = fmul (word_to_f64 (bo_base_ms b)) (pow (bo_multiplier b) exponent)
      in f64_to_u64 (fmax (fmin raw (word_to_f64 (bo_max_ms b))) f0))"

definition delay_with_jitter ::
  "(f64 \<Rightarrow> nat \<Rightarrow> f64) \<Rightarrow> (f64 \<Rightarrow> f64 \<Rightarrow> f64 option) \<Rightarrow> backoff \<Rightarrow> u32 \<Rightarrow> u64 option" where
  "delay_with_jitter pow random_range b attempt =
     (let base = delay_for pow b attempt in
      if fle (bo_jitter b) f0 then Some base
      else
        let jitter = fclamp (bo_jitter b) f0 f1;
            base_ms = word_to_f64 base;
            spread = fmul base_ms jitter
        in map_option (\<lambda>offset. f64_to_u64 (fmax (fadd base_ms offset) f0))
             (random_range (fneg spread) spread))"

datatype retry_decision =
    RetrySameTarget u64 u32 string
  | Reroute string
  | Replan string
  | GiveUp string

fun continues :: "retry_decision \<Rightarrow> bool" where
  "continues (GiveUp _) = False"
| "continues _ = True"

fun decision_reason :: "retry_decision \<Rightarrow> string" where
  "decision_reason (RetrySameTarget _ _ r) = r"
| "decision_reason (Reroute r) = r"
| "decision_reason (Replan r) = r"
| "decision_reason (GiveUp r) = r"

record retry_policy =
  rp_max_attempts :: u32
  rp_max_attempts_per_target :: u32
  rp_backoff :: backoff

definition default_retry_policy :: retry_policy where
  "default_retry_policy =
     \<lparr>rp_max_attempts = 4, rp_max_attempts_per_target = 2, rp_backoff = default_backoff\<rparr>"

definition with_max_attempts :: "u32 \<Rightarrow> retry_policy" where
  "with_max_attempts n = default_retry_policy\<lparr>rp_max_attempts := max n 1\<rparr>"

text \<open>\<open>None\<close> is the panic of the random source.\<close>

definition decide ::
  "(f64 \<Rightarrow> nat \<Rightarrow> f64) \<Rightarrow> (f64 \<Rightarrow> f64 \<Rightarrow> f64 option) \<Rightarrow> retry_policy \<Rightarrow> error_class \<Rightarrow> u32 \<Rightarrow> u32 \<Rightarrow> bool \<Rightarrow>
   retry_decision option" where
  "decide pow random_range p cls attempts_so_far attempts_on_target alternatives_available =
     (if cls = Cancelled then Some (GiveUp ''task was cancelled'')
      else if cls \<in> {AuthenticationFailure, SecurityViolation, Configuration} then
        Some (GiveUp (debug_error_class cls @ '' is not recoverable by retrying''))
      else if rp_max_attempts p \<le> attempts_so_far then
        Some (GiveUp (''exhausted the retry budget ('' @ show_word (rp_max_attempts p) @ '' attempts)''))
      else if requires_replan cls then
        Some (Replan (debug_error_class cls @ '' requires a smaller or different plan''))
      else
        let target_budget_left = attempts_on_target < rp_max_attempts_per_target p in
        if is_retryable_on_same_target cls \<and> target_budget_left then
          let next_attempt = attempts_so_far + 1 in
          map_option
            (\<lambda>delay. RetrySameTarget delay next_attempt (debug_error_class cls @ '' is transient; backing off''))
            (delay_with_jitter pow random_range (rp_backoff p) next_attempt)
        else if is_reroutable cls \<and> alternatives_available then
          Some (Reroute
            (if target_budget_left then debug_error_class cls @ '' will not clear on this agent''
             else debug_error_class cls @ '' persisted for '' @ show_word attempts_on_target @
               '' attempts on this agent''))
        else
          Some (GiveUp
            (if is_reroutable cls
             then debug_error_class cls @ '' needs a different agent, but no alternative is available''
             else debug_error_class cls @ '' is not retryable and not reroutable'')))"

section \<open>Bounds of the delay\<close>

definition ranged :: "(f64 \<Rightarrow> f64 \<Rightarrow> f64 option) \<Rightarrow> bool" where
  "ranged random_range \<longleftrightarrow>
     (\<forall>a b. a \<le> b \<longrightarrow> (\<exists>x. random_range (Fin a) (Fin b) = Some (Fin x) \<and> a \<le> x \<and> x \<le> b))"

lemma delay_for_le_max:
  assumes "unat (bo_max_ms b) \<le> 2 ^ 53"
  shows "unat (delay_for pow b attempt) \<le> unat (bo_max_ms b)"
  unfolding delay_for_def Let_def word_to_f64_exact [OF assms]
  by (intro unat_f64_to_u64_le fmax_zero_le fmin_le_right of_nat_0_le_iff) simp

text \<open>The exponent stops growing at 32, so from the 33rd attempt on the delay is constant.\<close>

lemma delay_for_flat: "33 \<le> unat a \<Longrightarrow> 33 \<le> unat a' \<Longrightarrow> delay_for pow b a = delay_for pow b a'"
  by (simp add: delay_for_def unat_saturating_sub)

lemma jittered_le:
  assumes n: "2 * n \<le> 2 ^ 53" and x: "x \<le> of_nat n"
  shows "unat (f64_to_u64 (fmax (fadd (Fin (of_nat n)) (Fin x)) f0)) \<le> 2 * n"
proof -
  have "fle (flit (of_nat n + x)) (flit (of_nat (2 * n)))" using x by (intro flit_mono_le) simp
  then have "fle (flit (of_nat n + x)) (Fin (of_nat (2 * n)))" using flit_nat_exact [OF n] by simp
  then show ?thesis by (intro unat_f64_to_u64_le fmax_zero_le) simp_all
qed

lemma spread_of:
  assumes n: "n \<le> 2 ^ 53" and j: "unit_range j"
  shows "\<exists>s. fmul (Fin (of_nat n)) j = Fin s \<and> 0 \<le> s \<and> s \<le> of_nat n"
proof -
  obtain q where q: "j = Fin q" "0 \<le> q" "q \<le> 1" using j by (auto simp: unit_range_cases)
  have lo: "fle f0 (flit (of_nat n * q))" using q by (intro flit_nonneg) simp
  have "fle (flit (of_nat n * q)) (flit (of_nat n))" using q by (intro flit_mono_le) (simp add: mult_left_le)
  then have "fle (flit (of_nat n * q)) (Fin (of_nat n))" using flit_nat_exact [OF n] by simp
  with lo q(1) show ?thesis by (cases "flit (of_nat n * q)") auto
qed

text \<open>With a jitter fraction that is a number, a delay is drawn, and it is at most twice the
  configured ceiling.\<close>

lemma delay_with_jitter_le:
  assumes max: "2 * unat (bo_max_ms b) \<le> 2 ^ 53" and nan: "bo_jitter b \<noteq> NaN" and rr: "ranged rr"
  shows "\<exists>d. delay_with_jitter pow rr b attempt = Some d \<and> unat d \<le> 2 * unat (delay_for pow b attempt)"
proof (cases "fle (bo_jitter b) f0")
  case True
  then show ?thesis by (simp add: delay_with_jitter_def)
next
  case False
  let ?n = "unat (delay_for pow b attempt)"
  have n: "2 * ?n \<le> 2 ^ 53" using delay_for_le_max [of b pow attempt] max by simp
  obtain s where s: "fmul (Fin (of_nat ?n)) (fclamp (bo_jitter b) f0 f1) = Fin s" "0 \<le> s" "s \<le> of_nat ?n"
    using spread_of [OF _ fclamp_unit [OF nan], of ?n] n by auto
  obtain x where x: "rr (Fin (- s)) (Fin s) = Some (Fin x)" "x \<le> s"
    using rr s(2) unfolding ranged_def by (metis neg_le_0_iff_le order_trans)
  have "word_to_f64 (delay_for pow b attempt) = Fin (of_nat ?n)" using n by (simp add: word_to_f64_exact)
  then have "delay_with_jitter pow rr b attempt =
      Some (f64_to_u64 (fmax (fadd (Fin (of_nat ?n)) (Fin x)) f0))"
    using False s(1) x(1) by (simp add: delay_with_jitter_def Let_def)
  then show ?thesis using jittered_le [OF n, of x] x(2) s(3) by (simp del: fadd.simps)
qed

section \<open>The decision\<close>

definition never_retried :: "error_class \<Rightarrow> bool" where
  "never_retried cls \<longleftrightarrow> cls \<in> {Cancelled, AuthenticationFailure, SecurityViolation, Configuration}"

lemma decide_total:
  assumes "2 * unat (bo_max_ms (rp_backoff p)) \<le> 2 ^ 53" "bo_jitter (rp_backoff p) \<noteq> NaN" "ranged rr"
  shows "\<exists>d. decide pow rr p cls n m alt = Some d"
  using delay_with_jitter_le [OF assms, of pow "n + 1"] by (auto simp: decide_def Let_def)

lemma decide_never_retried: "never_retried cls \<Longrightarrow> \<exists>r. decide pow rr p cls n m alt = Some (GiveUp r)"
  by (auto simp: never_retried_def decide_def)

lemma decide_exhausted: "rp_max_attempts p \<le> n \<Longrightarrow> \<exists>r. decide pow rr p cls n m alt = Some (GiveUp r)"
  by (auto simp: decide_def)

lemma decide_in_budget:
  assumes "decide pow rr p cls n m alt = Some d" "continues d"
  shows "n < rp_max_attempts p" "\<not> never_retried cls"
  using assms decide_exhausted [of p n pow rr cls m alt] decide_never_retried [of cls pow rr p n m alt]
  by (fastforce simp: linorder_not_le [symmetric])+

lemma word_inc_no_wrap: "n < (k :: 'a::len word) \<Longrightarrow> unat (n + 1) = Suc (unat n)"
  using unat_lt_len [of k] by (intro unat_Suc_word) (simp add: word_less_nat_alt)

lemma decide_shape:
  assumes "\<not> never_retried cls" "n < rp_max_attempts p"
  shows "decide pow rr p cls n m alt =
    (if requires_replan cls then
       Some (Replan (debug_error_class cls @ '' requires a smaller or different plan''))
     else if is_retryable_on_same_target cls \<and> m < rp_max_attempts_per_target p then
       map_option (\<lambda>delay. RetrySameTarget delay (n + 1) (debug_error_class cls @ '' is transient; backing off''))
         (delay_with_jitter pow rr (rp_backoff p) (n + 1))
     else if is_reroutable cls \<and> alt then
       Some (Reroute (if m < rp_max_attempts_per_target p
         then debug_error_class cls @ '' will not clear on this agent''
         else debug_error_class cls @ '' persisted for '' @ show_word m @ '' attempts on this agent''))
     else Some (GiveUp (if is_reroutable cls
       then debug_error_class cls @ '' needs a different agent, but no alternative is available''
       else debug_error_class cls @ '' is not retryable and not reroutable'')))"
  using assms by (auto simp: decide_def Let_def never_retried_def)

end
