(* ===== verification/Usage.thy ===== *)
theory Usage
  imports Task
begin

text \<open>
  \<open>cuma-usage/src/lib.rs\<close>: one record per attempt and the totals over any group of them.
  Token counters saturate at 64 bits, attempt counters wrap at 32; the sum of dollars is the
  left-to-right sum of the priced records.
\<close>

record usage_record =
  ur_attempt_id :: attempt_id
  ur_session_id :: session_id
  ur_task_id :: task_id
  ur_task_type :: task_type
  ur_agent_id :: agent_id
  ur_model_id :: "model_id option"
  ur_provider :: "string option"
  ur_started_at :: timestamp
  ur_latency_ms :: u64
  ur_tokens :: token_usage
  ur_estimated_cost_usd :: "f64 option"
  ur_cost_reported :: bool
  ur_success :: bool
  ur_failure_class :: "error_class option"
  ur_retry_count :: u32

record usage_totals =
  ut_attempts :: u32
  ut_successes :: u32
  ut_input_tokens :: u64
  ut_output_tokens :: u64
  ut_cached_tokens :: u64
  ut_estimated_cost_usd :: f64
  ut_attempts_without_pricing :: u32
  ut_attempts_with_estimated_tokens :: u32
  ut_total_latency_ms :: u64
  ut_retries :: u32

definition default_totals :: usage_totals where
  "default_totals =
     \<lparr>ut_attempts = 0, ut_successes = 0, ut_input_tokens = 0, ut_output_tokens = 0, ut_cached_tokens = 0,
      ut_estimated_cost_usd = f0, ut_attempts_without_pricing = 0, ut_attempts_with_estimated_tokens = 0,
      ut_total_latency_ms = 0, ut_retries = 0\<rparr>"

definition totals_add :: "usage_record \<Rightarrow> usage_totals \<Rightarrow> usage_totals" where
  "totals_add r t =
     \<lparr>ut_attempts = ut_attempts t + 1,
      ut_successes = (if ur_success r then ut_successes t + 1 else ut_successes t),
      ut_input_tokens = saturating_add (ut_input_tokens t) (tu_input (ur_tokens r)),
      ut_output_tokens = saturating_add (ut_output_tokens t) (tu_output (ur_tokens r)),
      ut_cached_tokens = saturating_add (ut_cached_tokens t) (tu_cached (ur_tokens r)),
      ut_estimated_cost_usd =
        (case ur_estimated_cost_usd r of Some c \<Rightarrow> fadd (ut_estimated_cost_usd t) c | None \<Rightarrow> ut_estimated_cost_usd t),
      ut_attempts_without_pricing =
        (if ur_estimated_cost_usd r = None then ut_attempts_without_pricing t + 1 else ut_attempts_without_pricing t),
      ut_attempts_with_estimated_tokens =
        (if \<not> tu_reported (ur_tokens r) then ut_attempts_with_estimated_tokens t + 1
         else ut_attempts_with_estimated_tokens t),
      ut_total_latency_ms = saturating_add (ut_total_latency_ms t) (ur_latency_ms r),
      ut_retries = ut_retries t + ur_retry_count r\<rparr>"

definition totals_total_tokens :: "usage_totals \<Rightarrow> u64" where
  "totals_total_tokens t = saturating_add (ut_input_tokens t) (ut_output_tokens t)"

definition totals_success_rate :: "usage_totals \<Rightarrow> f64 option" where
  "totals_success_rate t =
     (if ut_attempts t = 0 then None else Some (fdiv (word_to_f64 (ut_successes t)) (word_to_f64 (ut_attempts t))))"

definition totals_mean_latency_ms :: "usage_totals \<Rightarrow> u64 option" where
  "totals_mean_latency_ms t =
     (if ut_attempts t = 0 then None else Some (ut_total_latency_ms t div ucast (ut_attempts t)))"

definition totals_is_complete :: "usage_totals \<Rightarrow> bool" where
  "totals_is_complete t = (ut_attempts_without_pricing t = 0 \<and> ut_attempts_with_estimated_tokens t = 0)"

text \<open>The leading character of the third form is U+2265, three bytes in UTF-8.\<close>

definition render_cost :: "usage_totals \<Rightarrow> string" where
  "render_cost t =
     (if ut_attempts t = 0 then ''-''
      else if ut_attempts_without_pricing t = ut_attempts t then ''unknown''
      else if 0 < ut_attempts_without_pricing t then
        [CHR 0xE2, CHR 0x89, CHR 0xA5] @ ''$'' @ fmt_fixed 4 (ut_estimated_cost_usd t) @ '' (''
        @ show_word (ut_attempts_without_pricing t) @ '' of '' @ show_word (ut_attempts t) @ '' attempts unpriced)''
      else ''~$'' @ fmt_fixed 4 (ut_estimated_cost_usd t))"

section \<open>The session's ledger\<close>

record usage_tracker =
  uk_records :: "usage_record list"
  uk_rtk_tokens_saved :: u64

definition new_tracker :: usage_tracker where
  "new_tracker = \<lparr>uk_records = [], uk_rtk_tokens_saved = 0\<rparr>"

definition tracker_record :: "usage_record \<Rightarrow> usage_tracker \<Rightarrow> usage_tracker" where
  "tracker_record r u = u\<lparr>uk_records := uk_records u @ [r]\<rparr>"

definition record_rtk_saving :: "u64 \<Rightarrow> usage_tracker \<Rightarrow> usage_tracker" where
  "record_rtk_saving n u = u\<lparr>uk_rtk_tokens_saved := saturating_add (uk_rtk_tokens_saved u) n\<rparr>"

abbreviation sum_records :: "usage_record list \<Rightarrow> usage_totals" where
  "sum_records rs \<equiv> fold totals_add rs default_totals"

definition tracker_totals :: "usage_tracker \<Rightarrow> usage_totals" where
  "tracker_totals u = sum_records (uk_records u)"

definition spent_usd :: "usage_tracker \<Rightarrow> f64" where
  "spent_usd u = fold (\<lambda>c acc. fadd acc c) (List.map_filter ur_estimated_cost_usd (uk_records u)) f0"

definition by_agent :: "usage_tracker \<Rightarrow> (agent_id, usage_totals) btree" where
  "by_agent u = fold (\<lambda>r. bt_entry (ur_agent_id r) default_totals (totals_add r)) (uk_records u) []"

definition by_model :: "usage_tracker \<Rightarrow> (agent_id \<times> model_id, usage_totals) btree" where
  "by_model u =
     fold (\<lambda>r m. case ur_model_id r of
              None \<Rightarrow> m
            | Some d \<Rightarrow> bt_entry (ur_agent_id r, d) default_totals (totals_add r) m)
       (uk_records u) []"

definition by_task_type :: "usage_tracker \<Rightarrow> (task_type, usage_totals) btree" where
  "by_task_type u = fold (\<lambda>r. bt_entry (ur_task_type r) default_totals (totals_add r)) (uk_records u) []"

definition retry_rate :: "usage_tracker \<Rightarrow> f64 option" where
  "retry_rate u =
     (let t = tracker_totals u in
      if ut_attempts t = 0 then None else Some (fdiv (word_to_f64 (ut_retries t)) (word_to_f64 (ut_attempts t))))"

definition failure_label :: "usage_record \<Rightarrow> string" where
  "failure_label r = (case ur_failure_class r of None \<Rightarrow> ''unclassified'' | Some c \<Rightarrow> debug_error_class c)"

definition failure_breakdown :: "usage_tracker \<Rightarrow> (string, u32) btree" where
  "failure_breakdown u =
     fold (\<lambda>r. bt_entry (failure_label r) 0 (\<lambda>n. n + 1)) (filter (\<lambda>r. \<not> ur_success r) (uk_records u)) []"

definition cost_per_success :: "usage_tracker \<Rightarrow> f64 option" where
  "cost_per_success u =
     (let t = tracker_totals u in
      if ut_successes t = 0 \<or> ut_attempts_without_pricing t = ut_attempts t then None
      else Some (fdiv (ut_estimated_cost_usd t) (word_to_f64 (ut_successes t))))"

definition estimate_attempt_cost :: "cost_profile \<Rightarrow> token_usage \<Rightarrow> f64 option" where
  "estimate_attempt_cost profile tokens = known_value (cost_estimate profile (tu_input tokens) (tu_output tokens))"

section \<open>An estimate is never presented as a measurement\<close>

lemma totals_counts:
  assumes "unat (ut_attempts t) + length rs < 2 ^ 32"
    "ut_attempts_without_pricing t \<le> ut_attempts t" "ut_attempts_with_estimated_tokens t \<le> ut_attempts t"
    "ut_successes t \<le> ut_attempts t"
  defines "s \<equiv> fold totals_add rs t"
  shows "unat (ut_attempts s) = unat (ut_attempts t) + length rs
    \<and> unat (ut_successes s) = unat (ut_successes t) + length (filter ur_success rs)
    \<and> unat (ut_attempts_without_pricing s) =
        unat (ut_attempts_without_pricing t) + length (filter (\<lambda>r. ur_estimated_cost_usd r = None) rs)
    \<and> unat (ut_attempts_with_estimated_tokens s) =
        unat (ut_attempts_with_estimated_tokens t) + length (filter (\<lambda>r. \<not> tu_reported (ur_tokens r)) rs)"
  using assms(1-4) unfolding s_def
proof (induction rs arbitrary: t)
  case (Cons r rs)
  have inc: "unat (w + 1) = Suc (unat w)" if "w \<le> ut_attempts t" for w
    using Cons.prems(1) that by (intro unat_Suc_word [where n = "2 ^ 32 - 1"]) (auto simp: word_le_nat_alt)
  let ?t = "totals_add r t"
  have a: "unat (ut_attempts ?t) = Suc (unat (ut_attempts t))" by (simp add: totals_add_def inc)
  have "unat (ut_attempts ?t) + length rs < 2 ^ 32" using Cons.prems(1) a by simp
  moreover have "ut_attempts_without_pricing ?t \<le> ut_attempts ?t" "ut_attempts_with_estimated_tokens ?t \<le> ut_attempts ?t"
    "ut_successes ?t \<le> ut_attempts ?t"
    using Cons.prems(2-4) inc by (auto simp: totals_add_def word_le_nat_alt)
  ultimately show ?case
    using Cons.IH [of ?t] Cons.prems(2-4) a inc by (auto simp: totals_add_def)
qed simp

lemma tracker_complete_iff:
  assumes "length (uk_records u) < 2 ^ 32"
  shows "totals_is_complete (tracker_totals u) \<longleftrightarrow>
    (\<forall>r \<in> set (uk_records u). ur_estimated_cost_usd r \<noteq> None \<and> tu_reported (ur_tokens r))"
proof -
  have z: "w = 0 \<longleftrightarrow> unat w = 0" for w :: u32 by (simp add: unat_eq_zero)
  show ?thesis
    using totals_counts [of default_totals "uk_records u"] assms
    by (auto simp: totals_is_complete_def tracker_totals_def z default_totals_def filter_empty_conv)
qed

lemma spent_is_total: "ut_estimated_cost_usd (tracker_totals u) = spent_usd u"
proof -
  have "ut_estimated_cost_usd (fold totals_add rs t) =
      fold (\<lambda>c acc. fadd acc c) (List.map_filter ur_estimated_cost_usd rs) (ut_estimated_cost_usd t)" for rs t
    by (induction rs arbitrary: t) (auto simp: totals_add_def map_filter_simps split: option.split)
  then show ?thesis by (simp add: tracker_totals_def spent_usd_def default_totals_def)
qed

text \<open>The report by agent gives, for each agent with an attempt, the totals of its records.\<close>

lemma by_agent_get:
  "bt_get (by_agent u) a =
     (if a \<in> ur_agent_id ` set (uk_records u)
      then Some (sum_records (filter (\<lambda>r. ur_agent_id r = a) (uk_records u))) else None)"
  by (simp add: by_agent_def bt_get_fold_entry)

end
