(* ===== verification/Paths.thy ===== *)
theory Paths
  imports Cuma_Prelude BTree
begin

text \<open>
  Paths as \<open>std::path\<close> reads them on Unix: the text of a path and its components.
  Equality, ordering, \<open>starts_with\<close> and \<open>ends_with\<close> of the source go by
  components. The index of the workspace's files (\<open>cuma-workspace/src/index.rs\<close>) is
  here too; the walk of the file system that feeds it is not modelled.
\<close>

datatype component = RootDir | CurDir | ParentDir | Normal string

fun component_rank :: "component \<Rightarrow> nat \<times> string" where
  "component_rank RootDir = (0, [])"
| "component_rank CurDir = (1, [])"
| "component_rank ParentDir = (2, [])"
| "component_rank (Normal s) = (3, s)"

lemma component_rank_inj: "component_rank c = component_rank d \<Longrightarrow> c = d"
  by (cases c; cases d) simp_all

instantiation component :: linorder
begin

definition less_eq_component :: "component \<Rightarrow> component \<Rightarrow> bool" where
  "c \<le> d \<longleftrightarrow> component_rank c \<le> component_rank d"

definition less_component :: "component \<Rightarrow> component \<Rightarrow> bool" where
  "c < d \<longleftrightarrow> component_rank c < component_rank d"

instance
proof
  fix x y z :: component
  show "x < y \<longleftrightarrow> x \<le> y \<and> \<not> y \<le> x"
    unfolding less_eq_component_def less_component_def by (rule less_le_not_le)
  show "x \<le> x" by (simp add: less_eq_component_def)
  show "x \<le> y \<Longrightarrow> y \<le> z \<Longrightarrow> x \<le> z" unfolding less_eq_component_def by (rule order_trans)
  show "x \<le> y \<Longrightarrow> y \<le> x \<Longrightarrow> x = y"
    unfolding less_eq_component_def by (intro component_rank_inj antisym)
  show "x \<le> y \<or> y \<le> x" unfolding less_eq_component_def by (rule linear)
qed

end

type_synonym path = string

text \<open>The pieces between separators, empty ones included.\<close>

fun split_char :: "char \<Rightarrow> string \<Rightarrow> string list" where
  "split_char sep [] = [[]]"
| "split_char sep (c # s) =
     (if c = sep then [] # split_char sep s
      else case split_char sep s of p # ps \<Rightarrow> (c # p) # ps | [] \<Rightarrow> [[c]])"

definition component_of :: "string \<Rightarrow> component" where
  "component_of s = (if s = ''..'' then ParentDir else Normal s)"

text \<open>Repeated separators and every dot but a leading one disappear.\<close>

definition components :: "path \<Rightarrow> component list" where
  "components p =
     (let pieces = split_char (CHR ''/'') p;
          body = map component_of (filter (\<lambda>s. s \<noteq> [] \<and> s \<noteq> ''.'') pieces)
      in if prefix ''/'' p then RootDir # body
         else if hd pieces = ''.'' then CurDir # body else body)"

definition path_eq :: "path \<Rightarrow> path \<Rightarrow> bool" where
  "path_eq p q \<longleftrightarrow> components p = components q"

definition path_starts_with :: "path \<Rightarrow> path \<Rightarrow> bool" where
  "path_starts_with p q \<longleftrightarrow> prefix (components q) (components p)"

definition path_ends_with :: "path \<Rightarrow> path \<Rightarrow> bool" where
  "path_ends_with p q \<longleftrightarrow> suffix (components q) (components p)"

definition file_name :: "path \<Rightarrow> string option" where
  "file_name p =
     (case rev (components p) of Normal s # _ \<Rightarrow> Some s | _ \<Rightarrow> None)"

text \<open>\<open>Vec::contains\<close> followed by \<open>push\<close>, with the equality of paths.\<close>

definition push_path :: "path \<Rightarrow> path list \<Rightarrow> path list" where
  "push_path p ps = (if list_ex (path_eq p) ps then ps else ps @ [p])"

section \<open>The index of the workspace\<close>

definition max_files :: nat where "max_files = 200000"

record workspace_index =
  wi_files :: "path list"
  wi_by_name :: "(string, nat list) btree"
  wi_truncated :: bool

definition index_file :: "nat \<times> path \<Rightarrow> (string, nat list) btree \<Rightarrow> (string, nat list) btree" where
  "index_file e m =
     (case file_name (snd e) of Some name \<Rightarrow> bt_entry name [] (\<lambda>ps. ps @ [fst e]) m | None \<Rightarrow> m)"

definition from_files :: "path list \<Rightarrow> workspace_index" where
  "from_files all =
     (let files = take max_files all in
      \<lparr>wi_files = files, wi_by_name = fold index_file (enumerate 0 files) [],
       wi_truncated = (max_files < length all)\<rparr>)"

definition index_contains :: "workspace_index \<Rightarrow> path \<Rightarrow> bool" where
  "index_contains ix p = list_ex (\<lambda>f. path_eq f p \<or> path_starts_with f p) (wi_files ix)"

definition index_named :: "workspace_index \<Rightarrow> string \<Rightarrow> path list" where
  "index_named ix name =
     (case bt_get (wi_by_name ix) name of Some ps \<Rightarrow> map ((!) (wi_files ix)) ps | None \<Rightarrow> [])"

definition index_ending_with :: "workspace_index \<Rightarrow> path \<Rightarrow> path list" where
  "index_ending_with ix suff = filter (\<lambda>f. path_ends_with f suff) (wi_files ix)"

section \<open>The name table agrees with a scan\<close>

lemma index_files_get:
  "(case bt_get (fold index_file es m) name of Some ps \<Rightarrow> ps | None \<Rightarrow> []) =
     (case bt_get m name of Some ps \<Rightarrow> ps | None \<Rightarrow> []) @ map fst (filter (\<lambda>e. file_name (snd e) = Some name) es)"
  by (induction es arbitrary: m) (auto simp: index_file_def bt_get_entry split: option.split)

lemma nth_enumerate_filter:
  "map ((!) (ys @ xs)) (map fst (filter (\<lambda>e. P (snd e)) (enumerate (length ys) xs))) = filter P xs"
proof (induction xs arbitrary: ys)
  case (Cons x xs)
  have "map ((!) ((ys @ [x]) @ xs)) (map fst (filter (\<lambda>e. P (snd e)) (enumerate (length (ys @ [x])) xs))) = filter P xs"
    by (rule Cons.IH)
  then show ?case by simp
qed simp

lemma index_named_scan:
  "index_named (from_files all) name = filter (\<lambda>f. file_name f = Some name) (take max_files all)"
proof -
  let ?files = "take max_files all"
  have "index_named (from_files all) name =
      map ((!) ?files) (map fst (filter (\<lambda>e. file_name (snd e) = Some name) (enumerate 0 ?files)))"
    using index_files_get [of "enumerate 0 ?files" "[]" name]
    by (auto simp: index_named_def from_files_def Let_def bt_get_def split: option.splits)
  then show ?thesis using nth_enumerate_filter [of "[]" ?files "\<lambda>f. file_name f = Some name"] by simp
qed

end
