(* ===== verification/Ownership.thy ===== *)
theory Ownership
  imports Paths Ids Step_System
begin

text \<open>
  \<open>cuma-workspace/src/ownership.rs\<close>: the ledger of write claims and the prediction of what a
  task will write. A claim is stored under the components of its path, which is how the source's
  map compares keys, with the text it was first made with. A poisoned mutex makes every claim fail.

  Whether a character is alphanumeric is a Unicode property the standard library decides; the
  prediction takes it as an argument on encoded characters.
\<close>

record ledger =
  ld_claims :: "(component list, path \<times> task_id) btree"
  ld_poisoned :: bool

definition new_ledger :: ledger where
  "new_ledger = \<lparr>ld_claims = [], ld_poisoned = False\<rparr>"

record write_conflict =
  wc_path :: path
  wc_held_by :: task_id
  wc_requested_by :: task_id

definition display_conflict :: "write_conflict \<Rightarrow> string" where
  "display_conflict c = wc_path c @ '' is already claimed by task '' @ task_str (wc_held_by c)"

definition normalize_path :: "path \<Rightarrow> path" where
  "normalize_path p =
     (let trimmed = trim_end_matches (CHR 0x5C) (trim_end_matches (CHR ''/'')
                      (trim_start_matches ''./'' (trim p)))
      in if trimmed = [] then ''.'' else trimmed)"

definition key_overlaps :: "component list \<Rightarrow> component list \<Rightarrow> bool" where
  "key_overlaps c h \<longleftrightarrow> c = [CurDir] \<or> h = [CurDir] \<or> c = h \<or> prefix h c \<or> prefix c h"

definition overlaps :: "path \<Rightarrow> path \<Rightarrow> bool" where
  "overlaps candidate held = key_overlaps (components candidate) (components held)"

text \<open>The first claim, in the order of the map, that another task holds over a candidate.\<close>

definition conflict_of :: "task_id \<Rightarrow> path \<Rightarrow> (component list, path \<times> task_id) btree \<Rightarrow> write_conflict option" where
  "conflict_of t candidate claims =
     map_option (\<lambda>(k, text, holder). \<lparr>wc_path = candidate, wc_held_by = holder, wc_requested_by = t\<rparr>)
       (List.find (\<lambda>(k, text, holder). holder \<noteq> t \<and> key_overlaps (components candidate) k) claims)"

fun first_conflict ::
  "task_id \<Rightarrow> path list \<Rightarrow> (component list, path \<times> task_id) btree \<Rightarrow> write_conflict option" where
  "first_conflict t [] claims = None"
| "first_conflict t (p # ps) claims =
     (case conflict_of t p claims of Some c \<Rightarrow> Some c | None \<Rightarrow> first_conflict t ps claims)"

definition insert_claim ::
  "task_id \<Rightarrow> path \<Rightarrow> (component list, path \<times> task_id) btree \<Rightarrow> (component list, path \<times> task_id) btree" where
  "insert_claim t p claims =
     bt_insert (components p)
       (case bt_get claims (components p) of Some (text, _) \<Rightarrow> (text, t) | None \<Rightarrow> (p, t)) claims"

definition claim :: "task_id \<Rightarrow> path list \<Rightarrow> ledger \<Rightarrow> (write_conflict + unit) \<times> ledger" where
  "claim t paths l =
     (if ld_poisoned l then
        (Inl \<lparr>wc_path = (case paths of [] \<Rightarrow> [] | p # _ \<Rightarrow> p), wc_held_by = TaskId ''unknown'', wc_requested_by = t\<rparr>, l)
      else
        let normalized = map normalize_path paths in
        case first_conflict t normalized (ld_claims l) of
          Some c \<Rightarrow> (Inl c, l)
        | None \<Rightarrow> (Inr (), l\<lparr>ld_claims := fold (insert_claim t) normalized (ld_claims l)\<rparr>))"

definition would_conflict :: "task_id \<Rightarrow> path list \<Rightarrow> ledger \<Rightarrow> write_conflict option" where
  "would_conflict t paths l =
     (if ld_poisoned l then None else first_conflict t (map normalize_path paths) (ld_claims l))"

definition release :: "task_id \<Rightarrow> ledger \<Rightarrow> ledger" where
  "release t l =
     (if ld_poisoned l then l else l\<lparr>ld_claims := bt_retain (\<lambda>_ (_, holder). holder \<noteq> t) (ld_claims l)\<rparr>)"

definition held_by :: "task_id \<Rightarrow> ledger \<Rightarrow> path list" where
  "held_by t l =
     (if ld_poisoned l then []
      else map (\<lambda>(_, text, _). text) (filter (\<lambda>(_, _, holder). holder = t) (ld_claims l)))"

definition ledger_len :: "ledger \<Rightarrow> nat" where
  "ledger_len l = (if ld_poisoned l then 0 else length (ld_claims l))"

section \<open>Predicting writes\<close>

definition trim_matches :: "(string \<Rightarrow> bool) \<Rightarrow> string \<Rightarrow> string" where
  "trim_matches P s = concat (rev (dropWhile P (rev (dropWhile P (utf8_chars s)))))"

definition path_char :: "(string \<Rightarrow> bool) \<Rightarrow> string \<Rightarrow> bool" where
  "path_char alnum c \<longleftrightarrow> alnum c \<or> c \<in> {''/'', ''.'', ''_'', ''-''}"

definition looks_like_a_path :: "(string \<Rightarrow> bool) \<Rightarrow> string \<Rightarrow> bool" where
  "looks_like_a_path alnum cleaned \<longleftrightarrow>
     CHR ''/'' \<in> set cleaned \<or>
     (let ext = last (split_char (CHR ''.'') cleaned) in
      1 \<le> length ext \<and> length ext \<le> 5 \<and> list_all alnum (utf8_chars ext))"

definition predict_token :: "(string \<Rightarrow> bool) \<Rightarrow> string \<Rightarrow> path list \<Rightarrow> path list" where
  "predict_token alnum token paths =
     (let cleaned = trim_matches (\<lambda>c. \<not> path_char alnum c) token in
      if length cleaned < 3 \<or> CHR ''/'' \<notin> set cleaned \<and> CHR ''.'' \<notin> set cleaned then paths
      else if looks_like_a_path alnum cleaned \<and> \<not> suffix ''.'' cleaned then push_path cleaned paths
      else paths)"

definition predicted_writes :: "(string \<Rightarrow> bool) \<Rightarrow> string \<Rightarrow> path list" where
  "predicted_writes alnum description =
     (let paths = fold (predict_token alnum) (split_whitespace description) [] in
      if paths = [] then [''.''] else paths)"

definition resolve_path :: "workspace_index option \<Rightarrow> path \<Rightarrow> path list" where
  "resolve_path index p =
     (case index of
        Some ix \<Rightarrow>
          if \<not> index_contains ix p then
            (if length (components p) = 1 then index_named ix p else index_ending_with ix p)
          else []
      | None \<Rightarrow> [])"

definition predict_writes ::
  "(string \<Rightarrow> bool) \<Rightarrow> string \<Rightarrow> workspace_index option \<Rightarrow> string list \<Rightarrow> path list" where
  "predict_writes alnum description index dependency_outputs =
     (let named = predicted_writes alnum description in
      if list_all2 path_eq named [''.''] then named
      else
        let paths = fold (\<lambda>p acc. let resolved = resolve_path index p in
                       if resolved = [] then push_path p acc else fold push_path resolved acc) named []
        in fold (\<lambda>out acc. if trim out = [] then acc else push_path (trim out) acc) dependency_outputs paths)"

section \<open>The contract of a write ledger\<close>

text \<open>What the executor relies on: claims of different tasks never overlap, a claim is all or
  nothing, and a release gives back exactly what its task held.\<close>

locale write_ledger =
  fixes inv :: "'s \<Rightarrow> bool" and holds :: "'s \<Rightarrow> 't \<Rightarrow> 'k \<Rightarrow> bool"
    and clash :: "'k \<Rightarrow> 'k \<Rightarrow> bool" and key :: "'p \<Rightarrow> 'k"
    and claim :: "'t \<Rightarrow> 'p list \<Rightarrow> 's \<Rightarrow> ('c + unit) \<times> 's" and release :: "'t \<Rightarrow> 's \<Rightarrow> 's"
  assumes exclusive: "inv s \<Longrightarrow> holds s t k \<Longrightarrow> holds s t' k' \<Longrightarrow> clash k k' \<Longrightarrow> t = t'"
    and claim_ok: "inv s \<Longrightarrow> claim t ps s = (Inr (), s') \<Longrightarrow>
      inv s' \<and> (\<forall>t' k. holds s' t' k \<longleftrightarrow> holds s t' k \<or> t' = t \<and> k \<in> key ` set ps)"
    and claim_err: "claim t ps s = (Inl c, s') \<Longrightarrow> s' = s"
    and released: "inv s \<Longrightarrow> inv (release t s) \<and> (\<forall>t' k. holds (release t s) t' k \<longleftrightarrow> holds s t' k \<and> t' \<noteq> t)"
begin

lemma claim_inv: "inv s \<Longrightarrow> inv (snd (claim t ps s))"
  using claim_ok [of s t ps] claim_err [of t ps s] by (cases "claim t ps s"; cases "fst (claim t ps s)") auto

lemma claim_keeps: "inv s \<Longrightarrow> holds s t' k \<Longrightarrow> holds (snd (claim t ps s)) t' k"
  using claim_ok [of s t ps] claim_err [of t ps s] by (cases "claim t ps s"; cases "fst (claim t ps s)") auto

text \<open>Two granted claims, one after the other, of different tasks are apart.\<close>

lemma claims_apart:
  assumes "inv s" "claim t ps s = (Inr (), s')" "holds s t' k'" "t' \<noteq> t" "p \<in> set ps"
  shows "\<not> clash (key p) k'"
proof
  assume clash: "clash (key p) k'"
  have "inv s'" "holds s' t (key p)" "holds s' t' k'" using claim_ok [OF assms(1,2)] assms(3,5) by auto
  with clash assms(4) exclusive show False by metis
qed

lemma claim_release: "inv s \<Longrightarrow> claim t ps s = (Inr (), s') \<Longrightarrow> t' \<noteq> t \<Longrightarrow>
    holds (release t s') t' k \<longleftrightarrow> holds s t' k"
  using claim_ok [of s t ps s'] released [of s' t] by auto

end

section \<open>The ledger keeps the contract\<close>

definition holds :: "ledger \<Rightarrow> task_id \<Rightarrow> component list \<Rightarrow> bool" where
  "holds l t k \<longleftrightarrow> (\<exists>text. bt_get (ld_claims l) k = Some (text, t))"

definition ledger_inv :: "ledger \<Rightarrow> bool" where
  "ledger_inv l \<longleftrightarrow> bt_wf (ld_claims l) \<and>
     (\<forall>t t' k k'. holds l t k \<longrightarrow> holds l t' k' \<longrightarrow> key_overlaps k k' \<longrightarrow> t = t')"

lemma key_overlaps_sym: "key_overlaps c h \<longleftrightarrow> key_overlaps h c"
  by (auto simp: key_overlaps_def)

lemma key_overlaps_refl: "key_overlaps c c"
  by (simp add: key_overlaps_def)

lemma conflict_of_None:
  assumes "bt_wf claims"
  shows "conflict_of t p claims = None \<longleftrightarrow>
    (\<forall>k text holder. bt_get claims k = Some (text, holder) \<longrightarrow> key_overlaps (components p) k \<longrightarrow> holder = t)"
  by (auto simp: conflict_of_def find_None_iff bt_get_iff_mem [OF assms])

lemma first_conflict_None: "first_conflict t ps claims = None \<longleftrightarrow> (\<forall>p \<in> set ps. conflict_of t p claims = None)"
  by (induction ps) (auto split: option.splits)

lemma bt_wf_insert_claims: "bt_wf claims \<Longrightarrow> bt_wf (fold (insert_claim t) ps claims)"
  by (induction ps arbitrary: claims) (simp_all add: insert_claim_def bt_wf_insert)

lemma insert_claims_get:
  "(\<exists>text. bt_get (fold (insert_claim t) ps claims) k = Some (text, t')) \<longleftrightarrow>
     (if k \<in> components ` set ps then t' = t else \<exists>text. bt_get claims k = Some (text, t'))"
proof (induction ps arbitrary: claims)
  case (Cons p ps)
  show ?case
    using Cons.IH [of "insert_claim t p claims"]
    by (auto simp: insert_claim_def bt_get_insert split: option.splits)
qed simp

text \<open>The key a path is claimed under.\<close>

definition claim_key :: "path \<Rightarrow> component list" where
  "claim_key p = components (normalize_path p)"

lemma claim_succeeds_iff:
  assumes "ledger_inv l" "\<not> ld_poisoned l"
  shows "fst (claim t ps l) = Inr () \<longleftrightarrow>
    (\<forall>p \<in> set ps. \<forall>t' k. holds l t' k \<longrightarrow> key_overlaps (claim_key p) k \<longrightarrow> t' = t)"
proof -
  have wf: "bt_wf (ld_claims l)" using assms(1) by (simp add: ledger_inv_def)
  have "fst (claim t ps l) = Inr () \<longleftrightarrow> first_conflict t (map normalize_path ps) (ld_claims l) = None"
    using assms(2) by (auto simp: claim_def Let_def split: option.splits)
  also have "\<dots> \<longleftrightarrow> (\<forall>p \<in> set ps. \<forall>t' k. holds l t' k \<longrightarrow> key_overlaps (claim_key p) k \<longrightarrow> t' = t)"
    by (auto simp: first_conflict_None conflict_of_None [OF wf] holds_def claim_key_def)
  finally show ?thesis .
qed

lemma claim_granted:
  assumes "ledger_inv l" "claim t ps l = (Inr (), l')"
  shows "ledger_inv l'" "holds l' t' k \<longleftrightarrow> holds l t' k \<or> t' = t \<and> k \<in> claim_key ` set ps"
proof -
  have np: "\<not> ld_poisoned l" using assms(2) by (auto simp: claim_def)
  have free: "\<forall>p \<in> set ps. \<forall>t' k. holds l t' k \<longrightarrow> key_overlaps (claim_key p) k \<longrightarrow> t' = t"
    using claim_succeeds_iff [OF assms(1) np, of t ps] assms(2) by simp
  have l': "l' = l\<lparr>ld_claims := fold (insert_claim t) (map normalize_path ps) (ld_claims l)\<rparr>"
    using assms(2) np by (auto simp: claim_def Let_def split: option.splits)
  have get: "holds l' t' k \<longleftrightarrow> (if k \<in> claim_key ` set ps then t' = t else holds l t' k)" for t' k
    using insert_claims_get [of t "map normalize_path ps" "ld_claims l" k t']
    by (simp add: l' holds_def claim_key_def image_image)
  have same: "t' = t" if "holds l t' k" "k \<in> claim_key ` set ps" for t' k
    using free that key_overlaps_refl by blast
  show holds: "holds l' t' k \<longleftrightarrow> holds l t' k \<or> t' = t \<and> k \<in> claim_key ` set ps" for t' k
    using get same by auto
  have "t1 = t2" if "holds l' t1 k1" "holds l' t2 k2" "key_overlaps k1 k2" for t1 t2 k1 k2
    using that free assms(1) key_overlaps_sym unfolding holds ledger_inv_def by blast
  moreover have "bt_wf (ld_claims l')" using assms(1) by (simp add: l' ledger_inv_def bt_wf_insert_claims)
  ultimately show "ledger_inv l'" unfolding ledger_inv_def by blast
qed

lemma claim_refused: "claim t ps l = (Inl c, l') \<Longrightarrow> l' = l"
  by (auto simp: claim_def Let_def split: if_splits option.splits)

lemma release_holds:
  assumes "ledger_inv l" "\<not> ld_poisoned l"
  shows "ledger_inv (release t l)" "holds (release t l) t' k \<longleftrightarrow> holds l t' k \<and> t' \<noteq> t"
proof -
  have wf: "bt_wf (ld_claims l)" using assms(1) by (simp add: ledger_inv_def)
  show h: "holds (release t l) t' k \<longleftrightarrow> holds l t' k \<and> t' \<noteq> t" for t' k
    using assms(2) by (auto simp: holds_def release_def bt_get_retain [OF wf] split: option.splits)
  show "ledger_inv (release t l)"
    using assms wf h by (auto simp: ledger_inv_def release_def bt_wf_retain)
qed

lemma ledger_fixed [simp]: "ld_poisoned (snd (claim t ps l)) = ld_poisoned l" "ld_poisoned (release t l) = ld_poisoned l"
  by (auto simp: claim_def release_def Let_def split: option.split)

definition ledger_ok :: "ledger \<Rightarrow> bool" where
  "ledger_ok l \<longleftrightarrow> ledger_inv l \<and> \<not> ld_poisoned l"

lemma ledger_ok_new: "ledger_ok new_ledger"
  by (simp add: ledger_ok_def ledger_inv_def new_ledger_def holds_def bt_get_def)

interpretation ownership: write_ledger ledger_ok holds key_overlaps claim_key claim release
proof
  show "t = t'" if "ledger_ok l" "holds l t k" "holds l t' k'" "key_overlaps k k'" for l t k t' k'
    using that unfolding ledger_ok_def ledger_inv_def by blast
  show "ledger_ok l' \<and> (\<forall>t' k. holds l' t' k \<longleftrightarrow> holds l t' k \<or> t' = t \<and> k \<in> claim_key ` set ps)"
    if "ledger_ok l" "claim t ps l = (Inr (), l')" for l t ps l'
    using that claim_granted [of l t ps l'] ledger_fixed(1) [of t ps l] by (simp add: ledger_ok_def)
  show "ledger_ok (release t l) \<and> (\<forall>t' k. holds (release t l) t' k \<longleftrightarrow> holds l t' k \<and> t' \<noteq> t)"
    if "ledger_ok l" for l t
    using that release_holds [of l t] by (simp add: ledger_ok_def)
qed (rule claim_refused)

datatype ledger_event = Claim task_id "path list" | Release task_id

fun ledger_step :: "ledger_event \<Rightarrow> ledger \<Rightarrow> ledger" where
  "ledger_step (Claim t ps) l = snd (claim t ps l)"
| "ledger_step (Release t) l = release t l"

interpretation ledger_runs: step_system "\<lambda>l. l = new_ledger" ledger_step ledger_ok
proof
  show "ledger_ok (ledger_step e l)" if "ledger_ok l" for e l
    using that ownership.claim_inv ownership.released by (cases e) auto
qed (simp add: ledger_ok_new)

section \<open>Prediction is pessimistic\<close>

lemma push_path_nonempty: "push_path p ps \<noteq> []"
  by (cases ps) (auto simp: push_path_def)

lemma fold_push_path_nonempty: "ps \<noteq> [] \<or> rs \<noteq> [] \<Longrightarrow> fold push_path rs ps \<noteq> []"
proof (induction rs arbitrary: ps)
  case (Cons r rs)
  then show ?case using push_path_nonempty [of r ps] by auto
qed simp

lemma predicted_writes_nonempty: "predicted_writes alnum d \<noteq> []"
  by (simp add: predicted_writes_def Let_def)

lemma predict_writes_nonempty: "predict_writes alnum d index outs \<noteq> []"
proof -
  let ?add = "\<lambda>p acc. let resolved = resolve_path index p in
                       if resolved = [] then push_path p acc else fold push_path resolved acc"
  let ?out = "\<lambda>out acc. if trim out = [] then acc else push_path (trim out) acc"
  have a: "fold ?add named ps \<noteq> []" if "named \<noteq> [] \<or> ps \<noteq> []" for named ps
    using that
  proof (induction named arbitrary: ps)
    case (Cons p named)
    have "?add p ps \<noteq> []" by (auto simp: Let_def push_path_nonempty fold_push_path_nonempty)
    then show ?case using Cons.IH by simp
  qed simp
  have b: "fold ?out xs ps \<noteq> []" if "ps \<noteq> []" for xs ps
    using that by (induction xs arbitrary: ps) (auto simp: push_path_nonempty)
  show ?thesis using a [of "predicted_writes alnum d" "[]"] b predicted_writes_nonempty
    by (simp add: predict_writes_def Let_def)
qed

text \<open>The whole-workspace claim clashes with every other claim.\<close>

lemma root_key: "claim_key ''.'' = [CurDir]"
  by code_simp

lemma root_overlaps: "key_overlaps (claim_key ''.'') k"
  by (simp add: root_key key_overlaps_def)

end
