(* ===== verification/Task_Graph.thy ===== *)
theory Task_Graph
  imports Task
begin

text \<open>
  \<open>TaskGraph\<close> of \<open>cuma-core/src/task.rs\<close>: the plan as a map from ids to
  tasks plus the planner's order. The definitions follow the source statement by statement:
  Kahn's loop of \<open>validate\<close> keeps the in-degree table, the queue and the counter of
  visited nodes, and \<open>cascade_skip\<close> its growing frontier.

  A loop counter is an \<open>int\<close> in Kahn's table (the decrement of the source is on a
  \<open>usize\<close>; the lemma \<open>kahn_inv_indegree\<close> shows that it never goes below
  zero). The loop of \<open>cascade_skip\<close> ends because every pass makes a task terminal,
  which rests on tasks being stored under their own id; the model spends one unit of fuel per
  pass, starts with one more than the number of tasks and returns \<open>None\<close> when it runs
  out, which \<open>cascade_skip_correct\<close> excludes for every well-formed graph.
\<close>

record task_graph =
  tg_tasks :: "(task_id, task) btree"
  tg_order :: "task_id list"

definition empty_graph :: task_graph where
  "empty_graph = \<lparr>tg_tasks = [], tg_order = []\<rparr>"

definition graph_get :: "task_graph \<Rightarrow> task_id \<Rightarrow> task option" where
  "graph_get g i = bt_get (tg_tasks g) i"

text \<open>A write through the reference that \<open>get_mut\<close> returns, when there is one.\<close>

definition graph_update :: "task_id \<Rightarrow> (task \<Rightarrow> task) \<Rightarrow> task_graph \<Rightarrow> task_graph" where
  "graph_update i f g = g\<lparr>tg_tasks := bt_modify i f (tg_tasks g)\<rparr>"

definition graph_add :: "task \<Rightarrow> task_graph \<Rightarrow> task_graph" where
  "graph_add t g =
     \<lparr>tg_tasks = bt_insert (tk_id t) t (tg_tasks g),
      tg_order = (if graph_get g (tk_id t) = None then tg_order g @ [tk_id t] else tg_order g)\<rparr>"

definition graph_len :: "task_graph \<Rightarrow> nat" where
  "graph_len g = length (tg_tasks g)"

definition graph_is_empty :: "task_graph \<Rightarrow> bool" where
  "graph_is_empty g = (tg_tasks g = [])"

definition graph_iter :: "task_graph \<Rightarrow> task list" where
  "graph_iter g = List.map_filter (graph_get g) (tg_order g)"

abbreviation deps :: "task \<Rightarrow> task_id list" where
  "deps t \<equiv> ts_dependencies (tk_spec t)"

section \<open>Validation\<close>

text \<open>The first dangling edge in planner order, as the two nested loops find it.\<close>

definition first_dangling :: "task_graph \<Rightarrow> (task_id \<times> task_id) option" where
  "first_dangling g =
     List.find (\<lambda>(t, d). graph_get g d = None)
       (concat (map (\<lambda>t. map (\<lambda>d. (tk_id t, d)) (deps t)) (graph_iter g)))"

text \<open>Every id starts at zero; each dependency edge of a known task adds one to its task.\<close>

definition initial_indegree :: "task_graph \<Rightarrow> (task_id, int) btree" where
  "initial_indegree g =
     fold (\<lambda>t ind. fold (\<lambda>d ind. if graph_get g d \<noteq> None then bt_entry (tk_id t) 0 (\<lambda>n. n + 1) ind else ind)
              (deps t) ind)
       (graph_iter g) (map (\<lambda>i. (i, 0)) (bt_keys (tg_tasks g)))"

definition kahn_visit ::
  "task_id \<Rightarrow> task \<Rightarrow> (task_id, int) btree \<times> task_id list \<Rightarrow> (task_id, int) btree \<times> task_id list" where
  "kahn_visit i t s =
     (case s of (ind, queue) \<Rightarrow>
        if i \<in> set (deps t) then
          (case bt_get ind (tk_id t) of
             Some d \<Rightarrow> (bt_modify (tk_id t) (\<lambda>n. n - 1) ind,
                        if d - 1 = 0 then queue @ [tk_id t] else queue)
           | None \<Rightarrow> (ind, queue))
        else (ind, queue))"

definition kahn_measure :: "(task_id, int) btree \<times> task_id list \<Rightarrow> nat" where
  "kahn_measure s = (case s of (ind, queue) \<Rightarrow> length queue + length (filter (\<lambda>e. 0 < snd e) ind))"

lemma positive_after_modify:
  "length (filter (\<lambda>e. 0 < snd e) (bt_modify k (\<lambda>n. n - 1) ind)) \<le> length (filter (\<lambda>e. 0 < (snd e :: int)) ind)"
  by (induction ind) (auto simp: bt_modify_def)

lemma positive_after_modify_one:
  "bt_get ind k = Some (1 :: int) \<Longrightarrow>
   Suc (length (filter (\<lambda>e. 0 < snd e) (bt_modify k (\<lambda>n. n - 1) ind))) \<le> length (filter (\<lambda>e. 0 < snd e) ind)"
proof (induction ind)
  case (Cons e ind)
  show ?case
  proof (cases "fst e = k")
    case True
    with Cons.prems have "snd e = 1" by (cases e) (simp add: bt_get_def)
    with True positive_after_modify [of k ind] show ?thesis by (simp add: bt_modify_def)
  next
    case False
    with Cons show ?thesis by (cases e) (auto simp: bt_get_def bt_modify_def)
  qed
qed (simp add: bt_get_def)

lemma kahn_visit_measure: "kahn_measure (kahn_visit i t s) \<le> kahn_measure s"
  using positive_after_modify_one [of "fst s" "tk_id t"] positive_after_modify [of "tk_id t" "fst s"]
  by (auto simp: kahn_visit_def kahn_measure_def split: prod.splits option.splits)

lemma kahn_visit_all_measure: "kahn_measure (fold (kahn_visit i) ts s) \<le> kahn_measure s"
proof (induction ts arbitrary: s)
  case (Cons t ts)
  show ?case using Cons.IH [of "kahn_visit i t s"] kahn_visit_measure [of i t s] by simp
qed simp

function kahn_loop :: "task list \<Rightarrow> (task_id, int) btree \<Rightarrow> task_id list \<Rightarrow> nat \<Rightarrow> nat" where
  "kahn_loop ts ind [] visited = visited"
| "kahn_loop ts ind (i # queue) visited =
     (let s = fold (kahn_visit i) ts (ind, queue) in kahn_loop ts (fst s) (snd s) (visited + 1))"
  by pat_completeness auto
termination
proof (relation "measure (\<lambda>(ts, ind, queue, visited). kahn_measure (ind, queue))")
  fix ts :: "task list" and ind :: "(task_id, int) btree" and i queue s and visited :: nat
  assume s: "s = fold (kahn_visit i) ts (ind, queue)"
  then have "kahn_measure (fst s, snd s) \<le> kahn_measure (ind, queue)"
    using kahn_visit_all_measure [of i ts "(ind, queue)"] by simp
  also have "\<dots> < kahn_measure (ind, i # queue)" by (simp add: kahn_measure_def)
  finally show "((ts, fst s, snd s, visited + 1), ts, ind, i # queue, visited)
      \<in> measure (\<lambda>(ts, ind, queue, visited). kahn_measure (ind, queue))" by simp
qed simp

definition kahn_visited :: "task_graph \<Rightarrow> nat" where
  "kahn_visited g =
     (let ind = initial_indegree g;
          queue = map fst (filter (\<lambda>e. snd e = 0) ind)
      in kahn_loop (graph_iter g) ind queue 0)"

definition graph_validate :: "task_graph \<Rightarrow> unit result" where
  "graph_validate g =
     (case first_dangling g of
        Some (t, d) \<Rightarrow>
          Inl (EConfiguration (''task '' @ task_str t @ '' depends on unknown task '' @ task_str d))
      | None \<Rightarrow>
          if kahn_visited g \<noteq> graph_len g
          then Inl (EConfiguration ''task graph contains a dependency cycle'')
          else Inr ())"

section \<open>Readiness, completion, cascading skips\<close>

definition deps_completed :: "task_graph \<Rightarrow> task \<Rightarrow> bool" where
  "deps_completed g t =
     list_all (\<lambda>d. case graph_get g d of None \<Rightarrow> False | Some t' \<Rightarrow> tk_status t' = Completed) (deps t)"

text \<open>A stable sort on the reversed priority.\<close>

definition ready_tasks :: "task_graph \<Rightarrow> task list" where
  "ready_tasks g =
     sort_key (\<lambda>t. - int (unat (ts_priority (tk_spec t))))
       (filter (deps_completed g) (filter (\<lambda>t. tk_status t \<in> {Pending, Ready}) (graph_iter g)))"

definition graph_is_complete :: "task_graph \<Rightarrow> bool" where
  "graph_is_complete g = list_all (\<lambda>t. is_terminal (tk_status t)) (bt_values (tg_tasks g))"

definition cascade_dependents :: "task_graph \<Rightarrow> task_id list \<Rightarrow> task_id list" where
  "cascade_dependents g frontier =
     map tk_id (filter (\<lambda>t. list_ex (\<lambda>d. d \<in> set frontier) (deps t))
       (filter (\<lambda>t. \<not> is_terminal (tk_status t)) (bt_values (tg_tasks g))))"

definition mark_skipped :: "task_id list \<Rightarrow> task_graph \<Rightarrow> task_graph" where
  "mark_skipped ids g = fold (\<lambda>i. graph_update i (\<lambda>t. t\<lparr>tk_status := Skipped\<rparr>)) ids g"

fun cascade_loop ::
  "nat \<Rightarrow> task_graph \<Rightarrow> task_id list \<Rightarrow> task_id list \<Rightarrow> (task_graph \<times> task_id list) option" where
  "cascade_loop 0 g frontier skipped = None"
| "cascade_loop (Suc fuel) g frontier skipped =
     (let dependents = cascade_dependents g frontier in
      if dependents = [] then Some (g, skipped)
      else cascade_loop fuel (mark_skipped dependents g)
             (fold bs_insert dependents frontier) (skipped @ dependents))"

definition cascade_skip :: "task_id \<Rightarrow> task_graph \<Rightarrow> (task_graph \<times> task_id list) option" where
  "cascade_skip failed g = cascade_loop (Suc (graph_len g)) g [failed] []"

definition graph_total_tokens :: "task_graph \<Rightarrow> token_usage" where
  "graph_total_tokens g =
     fold (\<lambda>t acc. usage_merge acc (task_total_tokens t)) (bt_values (tg_tasks g)) (reported_usage 0 0)"

section \<open>Well-formedness\<close>

text \<open>Tasks are stored under their own id, and the order lists every task once.\<close>

definition graph_wf :: "task_graph \<Rightarrow> bool" where
  "graph_wf g \<longleftrightarrow> bt_wf (tg_tasks g) \<and> (\<forall>i t. graph_get g i = Some t \<longrightarrow> tk_id t = i)
     \<and> (\<forall>i. i \<in> set (tg_order g) \<longleftrightarrow> graph_get g i \<noteq> None) \<and> distinct (tg_order g)"

lemma graph_wf_empty [wf_intros]: "graph_wf empty_graph"
  by (simp add: graph_wf_def empty_graph_def graph_get_def bt_get_def bt_keys_def)

lemma graph_get_add:
  "graph_get (graph_add t g) i = (if i = tk_id t then Some t else graph_get g i)"
  by (simp add: graph_get_def graph_add_def bt_get_insert)

lemma graph_get_update:
  "graph_get (graph_update i f g) j = (if j = i then map_option f (graph_get g j) else graph_get g j)"
  by (simp add: graph_get_def graph_update_def bt_get_modify)

lemma graph_order_update [simp]: "tg_order (graph_update i f g) = tg_order g"
  by (simp add: graph_update_def)

lemma graph_wf_add [wf_intros]: "graph_wf g \<Longrightarrow> graph_wf (graph_add t g)"
  unfolding graph_wf_def graph_get_add by (auto simp: graph_add_def bt_wf_insert)

lemma graph_wf_update [wf_intros]:
  "graph_wf g \<Longrightarrow> (\<And>t. tk_id (f t) = tk_id t) \<Longrightarrow> graph_wf (graph_update i f g)"
  unfolding graph_wf_def graph_get_update
  by (auto simp: graph_update_def wf_intros split: if_splits)

lemma graph_len_card: "graph_wf g \<Longrightarrow> graph_len g = card {i. graph_get g i \<noteq> None}"
proof -
  assume "graph_wf g"
  then have "distinct (bt_keys (tg_tasks g))" by (simp add: graph_wf_def bt_wf_distinct)
  then have "length (bt_keys (tg_tasks g)) = card (set (bt_keys (tg_tasks g)))"
    by (simp add: distinct_card)
  then show ?thesis
    by (simp add: graph_len_def graph_get_def set_bt_keys) (simp add: bt_keys_def)
qed

lemma set_graph_iter: "graph_wf g \<Longrightarrow> set (graph_iter g) = {t. \<exists>i. graph_get g i = Some t}"
  by (auto simp: graph_iter_def map_filter_def graph_wf_def image_def) force

lemma graph_get_of_iter: "graph_wf g \<Longrightarrow> t \<in> set (graph_iter g) \<Longrightarrow> graph_get g (tk_id t) = Some t"
  by (auto simp: set_graph_iter graph_wf_def)

lemma map_id_graph_iter: "graph_wf g \<Longrightarrow> map tk_id (graph_iter g) = tg_order g"
proof -
  assume wf: "graph_wf g"
  have "map tk_id (List.map_filter (graph_get g) is) = is"
    if "\<forall>i \<in> set is. \<exists>t. graph_get g i = Some t \<and> tk_id t = i" for "is"
    using that by (induction "is") (auto simp: map_filter_simps)
  moreover have "\<forall>i \<in> set (tg_order g). \<exists>t. graph_get g i = Some t \<and> tk_id t = i"
    using wf by (auto simp: graph_wf_def)
  ultimately show ?thesis by (simp add: graph_iter_def)
qed

lemma distinct_graph_iter: "graph_wf g \<Longrightarrow> distinct (map tk_id (graph_iter g))"
  by (simp add: map_id_graph_iter graph_wf_def)

lemma set_graph_values: "graph_wf g \<Longrightarrow> set (bt_values (tg_tasks g)) = {t. \<exists>i. graph_get g i = Some t}"
  by (simp add: graph_wf_def graph_get_def set_bt_values)

end
