(* ===== verification/Context.thy ===== *)
theory Context
  imports Task_Graph
begin

text \<open>
  \<open>cuma-core/src/handoff.rs\<close> and \<open>cuma-orchestrator/src/context.rs\<close>: the handoff
  from one agent to the next and the prompt assembled for a task. A memory is the pair of its kind
  and content; both are carried through as text.
\<close>

abbreviation nl :: string where "nl \<equiv> [CHR 0x0A]"

record agent_handoff =
  ho_task_id :: task_id
  ho_task_description :: string
  ho_from_agent :: agent_id
  ho_to_agent :: "agent_id option"
  ho_completed_work :: "string list"
  ho_remaining_work :: "string list"
  ho_decisions :: "string list"
  ho_changed_files :: "string list"
  ho_relevant_context :: "string list"
  ho_warnings :: "string list"
  ho_validation_results :: "string list"
  ho_reason :: string

definition new_handoff :: "task_id \<Rightarrow> string \<Rightarrow> agent_id \<Rightarrow> string \<Rightarrow> agent_handoff" where
  "new_handoff i d a r =
     \<lparr>ho_task_id = i, ho_task_description = d, ho_from_agent = a, ho_to_agent = None,
      ho_completed_work = [], ho_remaining_work = [], ho_decisions = [], ho_changed_files = [],
      ho_relevant_context = [], ho_warnings = [], ho_validation_results = [], ho_reason = r\<rparr>"

definition handoff_to :: "agent_handoff \<Rightarrow> agent_id \<Rightarrow> agent_handoff" where
  "handoff_to h a = h\<lparr>ho_to_agent := Some a\<rparr>"

definition handoff_completed :: "agent_handoff \<Rightarrow> string \<Rightarrow> agent_handoff" where
  "handoff_completed h item = h\<lparr>ho_completed_work := ho_completed_work h @ [item]\<rparr>"

definition handoff_remaining :: "agent_handoff \<Rightarrow> string \<Rightarrow> agent_handoff" where
  "handoff_remaining h item = h\<lparr>ho_remaining_work := ho_remaining_work h @ [item]\<rparr>"

definition handoff_warning :: "agent_handoff \<Rightarrow> string \<Rightarrow> agent_handoff" where
  "handoff_warning h item = h\<lparr>ho_warnings := ho_warnings h @ [item]\<rparr>"

definition handoff_changed_file :: "agent_handoff \<Rightarrow> string \<Rightarrow> agent_handoff" where
  "handoff_changed_file h path = h\<lparr>ho_changed_files := ho_changed_files h @ [path]\<rparr>"

definition prompt_section :: "string \<times> string list \<Rightarrow> string" where
  "prompt_section s =
     (case s of (heading, items) \<Rightarrow>
        if items = [] then []
        else nl @ ''### '' @ heading @ nl @ concat (map (\<lambda>i. ''- '' @ i @ nl) items))"

definition to_prompt :: "agent_handoff \<Rightarrow> string" where
  "to_prompt h =
     ''## Handoff'' @ nl @ nl @ ''Task: '' @ ho_task_description h @ nl
     @ ''Previous agent: '' @ agent_str (ho_from_agent h) @ '' (handed over because: '' @ ho_reason h @ '')'' @ nl
     @ concat (map prompt_section
         [(''Already done'', ho_completed_work h), (''Still to do'', ho_remaining_work h),
          (''Decisions made (do not revisit)'', ho_decisions h), (''Files changed'', ho_changed_files h),
          (''Warnings'', ho_warnings h), (''Validation results'', ho_validation_results h)])
     @ (if ho_relevant_context h = [] then []
        else nl @ ''### Context'' @ nl @ concat (map (\<lambda>i. i @ nl) (ho_relevant_context h)))"

section \<open>Assembling a prompt\<close>

record context_manager =
  cx_memories :: "(string \<times> string) list"
  cx_max_dependency_chars :: nat

definition new_context_manager :: context_manager where
  "new_context_manager = \<lparr>cx_memories = [], cx_max_dependency_chars = 2000\<rparr>"

definition with_memories :: "context_manager \<Rightarrow> (string \<times> string) list \<Rightarrow> context_manager" where
  "with_memories c ms = c\<lparr>cx_memories := ms\<rparr>"

definition chars_per_token :: nat where "chars_per_token = 4"

definition truncate_text :: "string \<Rightarrow> nat \<Rightarrow> string" where
  "truncate_text text max_chars =
     (let chars = utf8_chars text in
      if length chars \<le> max_chars then text
      else concat (take max_chars chars) @ nl @ ''[... truncated, '' @ show_nat (length chars - max_chars) @
        '' chars omitted]'')"

definition estimate_tokens :: "string \<Rightarrow> u64" where
  "estimate_tokens text = of_nat (length text div chars_per_token)"

definition dependency_outputs :: "task_graph \<Rightarrow> task \<Rightarrow> (string \<times> string) list" where
  "dependency_outputs g t =
     List.map_filter
       (\<lambda>dep. map_option (\<lambda>out. (ts_description (tk_spec dep), eo_output out)) (successful_outcome dep))
       (List.map_filter (graph_get g) (deps t))"

definition failure_reasons :: "task \<Rightarrow> string list" where
  "failure_reasons t = List.map_filter eo_failure_reason (filter (\<lambda>a. \<not> eo_success a) (tk_attempts t))"

definition full_prompt :: "context_manager \<Rightarrow> task \<Rightarrow> task_graph \<Rightarrow> agent_handoff option \<Rightarrow> string" where
  "full_prompt cx t g handoff =
     (case handoff of Some h \<Rightarrow> to_prompt h @ nl | None \<Rightarrow> [])
     @ (if cx_memories cx = [] then []
        else ''## Prior knowledge about this project'' @ nl @ nl
          @ concat (map (\<lambda>(kind, content). ''- ('' @ kind @ '') '' @ content @ nl) (cx_memories cx)) @ nl)
     @ ''## Task'' @ nl @ nl @ ts_description (tk_spec t) @ nl @ nl
     @ (let outs = dependency_outputs g t in
        if outs = [] then []
        else ''## Results of prerequisite work'' @ nl @ nl
          @ concat (map (\<lambda>(description, out). ''### '' @ description @ nl
              @ truncate_text out (cx_max_dependency_chars cx) @ nl @ nl) outs))
     @ (let failures = failure_reasons t in
        if failures = [] then []
        else ''## Previous attempts on this task failed'' @ nl @ nl
          @ concat (map (\<lambda>r. ''- '' @ r @ nl) failures) @ nl)"

text \<open>\<open>usize\<close> is 64 bits wide.\<close>

definition budget_chars :: "u64 \<Rightarrow> nat" where
  "budget_chars token_budget = unat (saturating_mul token_budget (of_nat chars_per_token))"

definition assemble :: "context_manager \<Rightarrow> task \<Rightarrow> task_graph \<Rightarrow> agent_handoff option \<Rightarrow> u64 \<Rightarrow> string" where
  "assemble cx t g handoff token_budget =
     (let prompt = full_prompt cx t g handoff; budget = budget_chars token_budget in
      if 0 < budget \<and> budget < length prompt then truncate_text prompt budget else prompt)"

section \<open>What a prompt carries\<close>

lemma concat_take_prefix: "prefix (concat (take n xs)) (concat xs)"
  by (metis append_take_drop_id concat_append prefixI)

lemma length_le_concat: "\<forall>x \<in> set xs. x \<noteq> [] \<Longrightarrow> length xs \<le> length (concat xs)"
proof (induction xs)
  case (Cons x xs)
  then have "1 \<le> length x" by (cases x) auto
  with Cons show ?case by simp
qed simp

text \<open>A cut text starts with as many characters of the original as were allowed.\<close>

lemma truncate_text_cases:
  "truncate_text s n = s \<and> length (utf8_chars s) \<le> n \<or>
   (\<exists>marker. truncate_text s n = concat (take n (utf8_chars s)) @ marker \<and> 2 \<le> length marker \<and> n < length (utf8_chars s))"
  by (auto simp: truncate_text_def Let_def)

lemma length_concat_take: "n \<le> length (utf8_chars s) \<Longrightarrow> n \<le> length (concat (take n (utf8_chars s)))"
proof -
  have "\<forall>x \<in> set (take n (utf8_chars s)). x \<noteq> []" by (auto dest: in_set_takeD utf8_chars_nonempty)
  then have "length (take n (utf8_chars s)) \<le> length (concat (take n (utf8_chars s)))"
    by (rule length_le_concat)
  then show "n \<le> length (utf8_chars s) \<Longrightarrow> ?thesis" by simp
qed

text \<open>The cut prompt is still longer than the budget it was cut to: the marker is added after
  counting, and the test counts bytes while the cut counts characters.\<close>

lemma truncated_over_budget:
  assumes "0 < budget_chars b" "budget_chars b < length (full_prompt cx t g h)"
  shows "budget_chars b < length (assemble cx t g h b)"
proof -
  let ?p = "full_prompt cx t g h" and ?n = "budget_chars b"
  have eq: "assemble cx t g h b = truncate_text ?p ?n" using assms by (simp add: assemble_def Let_def)
  show ?thesis
    using truncate_text_cases [of ?p ?n] length_concat_take [of ?n ?p] assms(2) unfolding eq by auto
qed

text \<open>Whatever is cut, the beginning survives, and the handoff is the beginning.\<close>

lemma truncate_text_front:
  assumes "prefix p s" "length p \<le> n"
  shows "prefix p (truncate_text s n)"
proof (cases "length (utf8_chars s) \<le> n")
  case True
  then show ?thesis using assms(1) by (simp add: truncate_text_def Let_def)
next
  case False
  then have "n \<le> length (concat (take n (utf8_chars s)))" using length_concat_take [of n s] by simp
  moreover have "prefix (concat (take n (utf8_chars s))) s"
    using concat_take_prefix [of n "utf8_chars s"] by simp
  ultimately have "prefix p (concat (take n (utf8_chars s)))"
    using assms by (meson le_trans prefix_length_prefix)
  with False show ?thesis by (simp add: truncate_text_def Let_def prefix_append)
qed

lemma handoff_survives:
  assumes "length (to_prompt h) \<le> budget_chars b \<or> budget_chars b = 0"
  shows "prefix (to_prompt h) (assemble cx t g (Some h) b)"
proof -
  have "prefix (to_prompt h) (full_prompt cx t g (Some h))" by (simp add: full_prompt_def)
  then show ?thesis using assms truncate_text_front [of "to_prompt h"] by (auto simp: assemble_def Let_def)
qed

end
