(* ===== verification/Kahn.thy ===== *)
theory Kahn
  imports Task_Graph
begin

text \<open>
  Correctness of \<open>TaskGraph::validate\<close>. The loop invariant \<open>kahn_inv\<close> relates
  the in-degree table and the queue to the list of visited ids; at exit the visited ids are
  exactly those whose in-degree reached zero and they are in topological order. The result is
  a characterization of the graphs the function accepts.
\<close>

definition gdeps :: "task_graph \<Rightarrow> task_id \<Rightarrow> task_id list" where
  "gdeps g i = (case graph_get g i of None \<Rightarrow> [] | Some t \<Rightarrow> deps t)"

definition nodes :: "task_graph \<Rightarrow> task_id set" where
  "nodes g = {i. graph_get g i \<noteq> None}"

text \<open>An edge leads from a task to one it depends on.\<close>

definition dep_edges :: "task_graph \<Rightarrow> (task_id \<times> task_id) set" where
  "dep_edges g = {(i, d). d \<in> set (gdeps g i)}"

definition closed_deps :: "task_graph \<Rightarrow> bool" where
  "closed_deps g \<longleftrightarrow> (\<forall>i. set (gdeps g i) \<subseteq> nodes g)"

lemma gdeps_of_iter: "graph_wf g \<Longrightarrow> t \<in> set (graph_iter g) \<Longrightarrow> gdeps g (tk_id t) = deps t"
  by (simp add: gdeps_def graph_get_of_iter)

lemma nodes_iter: "graph_wf g \<Longrightarrow> nodes g = tk_id ` set (graph_iter g)"
  using arg_cong [OF map_id_graph_iter [of g], of set] by (auto simp: nodes_def graph_wf_def)

lemma finite_nodes: "graph_wf g \<Longrightarrow> finite (nodes g)"
  by (simp add: nodes_iter)

lemma first_dangling_None: "graph_wf g \<Longrightarrow> first_dangling g = None \<longleftrightarrow> closed_deps g"
proof -
  assume wf: "graph_wf g"
  have "first_dangling g = None \<longleftrightarrow> (\<forall>t \<in> set (graph_iter g). \<forall>d \<in> set (deps t). graph_get g d \<noteq> None)"
    by (fastforce simp: first_dangling_def find_None_iff)
  also have "\<dots> \<longleftrightarrow> closed_deps g"
  proof
    assume l: "\<forall>t \<in> set (graph_iter g). \<forall>d \<in> set (deps t). graph_get g d \<noteq> None"
    show "closed_deps g" unfolding closed_deps_def
    proof (intro allI subsetI)
      fix i d assume "d \<in> set (gdeps g i)"
      then obtain t where "graph_get g i = Some t" "d \<in> set (deps t)"
        by (cases "graph_get g i") (auto simp: gdeps_def)
      with l wf show "d \<in> nodes g" by (auto simp: set_graph_iter nodes_def)
    qed
  next
    assume "closed_deps g"
    then show "\<forall>t \<in> set (graph_iter g). \<forall>d \<in> set (deps t). graph_get g d \<noteq> None"
      using gdeps_of_iter [OF wf] unfolding closed_deps_def nodes_def
      by (metis (mono_tags, lifting) mem_Collect_eq subsetD)
  qed
  finally show ?thesis .
qed

section \<open>The in-degree table\<close>

lemma distinct_map_Cons_iff:
  "distinct (map f (x # xs)) \<longleftrightarrow> (\<forall>y \<in> set xs. f y \<noteq> f x) \<and> distinct (map f xs)"
  by (simp add: image_iff) metis

abbreviation count_edges ::
  "(task_id \<Rightarrow> bool) \<Rightarrow> task_id \<Rightarrow> task_id list \<Rightarrow> (task_id, int) btree \<Rightarrow> (task_id, int) btree" where
  "count_edges P k ds ind \<equiv> fold (\<lambda>d ind. if P d then bt_entry k 0 (\<lambda>n. n + 1) ind else ind) ds ind"

lemma count_edges_get:
  "bt_get ind k = Some n \<Longrightarrow>
   bt_get (count_edges P k ds ind) k' =
     (if k' = k then Some (n + int (length (filter P ds))) else bt_get ind k')"
  by (induction ds arbitrary: ind n) (auto simp: bt_get_entry)

lemma count_all_edges_get:
  assumes "distinct (map tk_id ts)" "\<forall>t \<in> set ts. bt_get ind (tk_id t) = Some 0"
  shows "bt_get (fold (\<lambda>t. count_edges P (tk_id t) (deps t)) ts ind) k =
     (case List.find (\<lambda>t. tk_id t = k) ts of
        None \<Rightarrow> bt_get ind k | Some t \<Rightarrow> Some (int (length (filter P (deps t)))))"
  using assms
proof (induction ts arbitrary: ind)
  case (Cons t ts)
  let ?ind = "count_edges P (tk_id t) (deps t) ind"
  have get: "bt_get ?ind k' = (if k' = tk_id t then Some (0 + int (length (filter P (deps t)))) else bt_get ind k')"
    for k' using Cons.prems(2) by (intro count_edges_get) simp
  have "List.find (\<lambda>t. tk_id t = k) ts = None" if "tk_id t = k"
    using Cons.prems(1) that unfolding distinct_map_Cons_iff by (simp add: find_None_iff)
  moreover have "\<forall>t' \<in> set ts. bt_get ?ind (tk_id t') = Some 0"
    using Cons.prems get unfolding distinct_map_Cons_iff by simp
  ultimately show ?case
    using Cons.IH [of ?ind] Cons.prems(1) get by (auto split: option.splits)
qed simp

lemma find_iter: "graph_wf g \<Longrightarrow> List.find (\<lambda>t. tk_id t = k) (graph_iter g) = graph_get g k"
proof -
  assume wf: "graph_wf g"
  show ?thesis
  proof (cases "List.find (\<lambda>t. tk_id t = k) (graph_iter g)")
    case None
    then have "k \<notin> nodes g" using wf by (auto simp: find_None_iff nodes_iter)
    with None show ?thesis by (simp add: nodes_def)
  next
    case (Some t)
    then have "t \<in> set (graph_iter g)" "tk_id t = k" by (auto simp: find_Some_iff)
    with Some graph_get_of_iter [OF wf] show ?thesis by auto
  qed
qed

lemma zero_table_get: "bt_get (map (\<lambda>i. (i, 0 :: int)) ks) k = (if k \<in> set ks then Some 0 else None)"
  by (induction ks) (auto simp: bt_get_def)

lemma initial_indegree_get:
  assumes "graph_wf g" "closed_deps g"
  shows "bt_get (initial_indegree g) k = (if k \<in> nodes g then Some (int (length (gdeps g k))) else None)"
proof -
  let ?z = "map (\<lambda>i. (i, 0 :: int)) (bt_keys (tg_tasks g))"
  have z: "bt_get ?z k' = (if k' \<in> nodes g then Some 0 else None)" for k'
    by (simp add: zero_table_get set_bt_keys nodes_def graph_get_def)
  have "bt_get (initial_indegree g) k = (case graph_get g k of None \<Rightarrow> bt_get ?z k
      | Some t \<Rightarrow> Some (int (length (filter (\<lambda>d. graph_get g d \<noteq> None) (deps t)))))"
    using assms(1) count_all_edges_get [of "graph_iter g" ?z "\<lambda>d. graph_get g d \<noteq> None" k]
    by (simp add: initial_indegree_def distinct_graph_iter find_iter z nodes_iter)
  moreover have "filter (\<lambda>d. graph_get g d \<noteq> None) (gdeps g k) = gdeps g k"
    using assms(2) by (intro filter_True) (auto simp: closed_deps_def nodes_def)
  ultimately show ?thesis
    by (auto simp: z gdeps_def nodes_def split: option.splits)
qed

lemma bt_wf_count_edges: "bt_wf ind \<Longrightarrow> bt_wf (count_edges P k ds ind)"
  by (induction ds arbitrary: ind) (auto intro: bt_wf_entry)

lemma bt_wf_count_all: "bt_wf ind \<Longrightarrow> bt_wf (fold (\<lambda>t. count_edges P (tk_id t) (deps t)) ts ind)"
  by (induction ts arbitrary: ind) (auto intro: bt_wf_count_edges)

lemma bt_wf_initial_indegree: "graph_wf g \<Longrightarrow> bt_wf (initial_indegree g)"
  unfolding initial_indegree_def
  by (rule bt_wf_count_all) (simp add: graph_wf_def bt_wf_def bt_keys_def comp_def)

section \<open>One pop of the queue\<close>

lemma fold_kahn_visit:
  assumes "distinct (map tk_id ts)" "\<forall>t \<in> set ts. bt_get ind (tk_id t) \<noteq> None"
  shows "bt_get (fst (fold (kahn_visit i) ts (ind, q))) k =
           (case List.find (\<lambda>t. tk_id t = k) ts of
              None \<Rightarrow> bt_get ind k
            | Some t \<Rightarrow> map_option (\<lambda>n. if i \<in> set (deps t) then n - 1 else n) (bt_get ind k))
         \<and> snd (fold (kahn_visit i) ts (ind, q)) =
           q @ map tk_id (filter (\<lambda>t. i \<in> set (deps t) \<and> bt_get ind (tk_id t) = Some 1) ts)"
  using assms
proof (induction ts arbitrary: ind q)
  case (Cons t ts)
  obtain n where n: "bt_get ind (tk_id t) = Some n" using Cons.prems(2) by auto
  define ind' where "ind' = (if i \<in> set (deps t) then bt_modify (tk_id t) (\<lambda>n. n - 1) ind else ind)"
  define q' where "q' = (if i \<in> set (deps t) \<and> n = 1 then q @ [tk_id t] else q)"
  have step: "kahn_visit i t (ind, q) = (ind', q')" by (simp add: kahn_visit_def n ind'_def q'_def)
  have get: "bt_get ind' k' = (if k' = tk_id t \<and> i \<in> set (deps t) then Some (n - 1) else bt_get ind k')" for k'
    by (simp add: bt_get_modify n ind'_def)
  have notin: "\<forall>t' \<in> set ts. tk_id t' \<noteq> tk_id t" using Cons.prems(1) unfolding distinct_map_Cons_iff by blast
  have IH: "bt_get (fst (fold (kahn_visit i) ts (ind', q'))) k =
           (case List.find (\<lambda>t. tk_id t = k) ts of
              None \<Rightarrow> bt_get ind' k
            | Some t \<Rightarrow> map_option (\<lambda>n. if i \<in> set (deps t) then n - 1 else n) (bt_get ind' k))"
      "snd (fold (kahn_visit i) ts (ind', q')) =
           q' @ map tk_id (filter (\<lambda>t. i \<in> set (deps t) \<and> bt_get ind' (tk_id t) = Some 1) ts)"
    using Cons.IH [of ind' q'] Cons.prems by (simp_all add: get)
  have find: "List.find (\<lambda>t'. tk_id t' = tk_id t) ts = None" using notin by (simp add: find_None_iff)
  have same: "filter (\<lambda>t'. i \<in> set (deps t') \<and> bt_get ind' (tk_id t') = Some 1) ts =
          filter (\<lambda>t'. i \<in> set (deps t') \<and> bt_get ind (tk_id t') = Some 1) ts"
    using notin by (intro filter_cong) (auto simp: get)
  have "bt_get (fst (fold (kahn_visit i) ts (ind', q'))) k =
           (case List.find (\<lambda>t. tk_id t = k) (t # ts) of
              None \<Rightarrow> bt_get ind k
            | Some t \<Rightarrow> map_option (\<lambda>n. if i \<in> set (deps t) then n - 1 else n) (bt_get ind k))"
  proof (cases "tk_id t = k")
    case True
    then have "List.find (\<lambda>t. tk_id t = k) ts = None" using find by simp
    with True n show ?thesis by (simp add: IH(1) get)
  next
    case False
    then show ?thesis by (simp add: IH(1) get split: option.splits)
  qed
  moreover have "snd (fold (kahn_visit i) ts (ind', q')) =
           q @ map tk_id (filter (\<lambda>t. i \<in> set (deps t) \<and> bt_get ind (tk_id t) = Some 1) (t # ts))"
    unfolding IH(2) same using n by (simp add: q'_def)
  ultimately show ?case unfolding fold.simps comp_def step by (rule conjI)
qed simp

section \<open>The loop invariant\<close>

definition kahn_inv :: "task_graph \<Rightarrow> task_id list \<Rightarrow> (task_id, int) btree \<Rightarrow> task_id list \<Rightarrow> bool" where
  "kahn_inv g V ind q \<longleftrightarrow>
     (\<forall>k. bt_get ind k =
        (if k \<in> nodes g then Some (int (length (gdeps g k)) - int (card (set (gdeps g k) \<inter> set V))) else None))
     \<and> distinct (V @ q) \<and> set V \<union> set q = {k. bt_get ind k = Some 0}
     \<and> (\<forall>n < length V. set (gdeps g (V ! n)) \<subseteq> set (take n V))"

lemma kahn_inv_table: "kahn_inv g V ind q \<Longrightarrow> bt_get ind k =
    (if k \<in> nodes g then Some (int (length (gdeps g k)) - int (card (set (gdeps g k) \<inter> set V))) else None)"
  by (simp add: kahn_inv_def)

lemma kahn_inv_distinct: "kahn_inv g V ind q \<Longrightarrow> distinct (V @ q)"
  unfolding kahn_inv_def by blast

lemma kahn_inv_seen: "kahn_inv g V ind q \<Longrightarrow> bt_get ind k = Some 0 \<longleftrightarrow> k \<in> set V \<union> set q"
  unfolding kahn_inv_def by blast

lemma kahn_inv_topo: "kahn_inv g V ind q \<Longrightarrow> n < length V \<Longrightarrow> set (gdeps g (V ! n)) \<subseteq> set (take n V)"
  unfolding kahn_inv_def by blast

lemma card_inter_le: "card (set xs \<inter> A) \<le> length xs"
  by (meson card_length card_mono finite_set inf_le1 le_trans)

lemma card_inter_eq: "card (set xs \<inter> A) = length xs \<longleftrightarrow> distinct xs \<and> set xs \<subseteq> A"
proof
  assume eq: "card (set xs \<inter> A) = length xs"
  have "card (set xs \<inter> A) \<le> card (set xs)" "card (set xs) \<le> length xs"
    by (auto intro: card_mono card_length)
  with eq have "card (set xs) = length xs" "card (set xs \<inter> A) = card (set xs)" by linarith+
  then show "distinct xs \<and> set xs \<subseteq> A"
    using card_distinct card_subset_eq [of "set xs" "set xs \<inter> A"] by auto
next
  assume "distinct xs \<and> set xs \<subseteq> A"
  then show "card (set xs \<inter> A) = length xs" by (simp add: Int_absorb2 distinct_card)
qed

text \<open>The counters never go below zero, so the subtraction of the source never underflows.\<close>

lemma kahn_inv_indegree: "kahn_inv g V ind q \<Longrightarrow> bt_get ind k = Some n \<Longrightarrow> 0 \<le> n"
  using card_inter_le [of "gdeps g k" "set V"] by (auto simp: kahn_inv_table split: if_splits)

lemma kahn_inv_zero:
  assumes "kahn_inv g V ind q"
  shows "bt_get ind k = Some 0 \<longleftrightarrow> k \<in> nodes g \<and> distinct (gdeps g k) \<and> set (gdeps g k) \<subseteq> set V"
  using card_inter_eq [of "gdeps g k" "set V"] by (auto simp: kahn_inv_table [OF assms])

lemma kahn_inv_initial:
  assumes "graph_wf g" "closed_deps g"
  shows "kahn_inv g [] (initial_indegree g) (map fst (filter (\<lambda>e. snd e = 0) (initial_indegree g)))"
proof -
  let ?ind = "initial_indegree g"
  note wf = bt_wf_initial_indegree [OF assms(1)]
  have "distinct (map fst ?ind)" using bt_wf_distinct [OF wf] by (simp add: bt_keys_def)
  then have "distinct (map fst (filter (\<lambda>e. snd e = 0) ?ind))" by (rule distinct_map_filter)
  moreover have "set (map fst (filter (\<lambda>e. snd e = 0) ?ind)) = {k. bt_get ?ind k = Some 0}"
    by (force simp: bt_get_iff_mem [OF wf])
  ultimately show ?thesis using initial_indegree_get [OF assms] by (simp add: kahn_inv_def)
qed

lemma kahn_inv_step:
  assumes wf: "graph_wf g" and inv: "kahn_inv g V ind (i # q)"
  defines "s \<equiv> fold (kahn_visit i) (graph_iter g) (ind, q)"
  shows "kahn_inv g (V @ [i]) (fst s) (snd s)"
proof -
  let ?pushed = "map tk_id (filter (\<lambda>t. i \<in> set (deps t) \<and> bt_get ind (tk_id t) = Some 1) (graph_iter g))"
  have present: "\<forall>t \<in> set (graph_iter g). bt_get ind (tk_id t) \<noteq> None"
    using nodes_iter [OF wf] by (auto simp: kahn_inv_table [OF inv])
  note visit' = fold_kahn_visit [OF distinct_graph_iter [OF wf] present, of i q, folded s_def]
  note visit = conjunct1 [OF visit'] conjunct2 [OF visit']
  have ind': "bt_get (fst s) k = map_option (\<lambda>n. if i \<in> set (gdeps g k) then n - 1 else n) (bt_get ind k)" for k
  proof (cases "graph_get g k")
    case None
    then have "bt_get ind k = None" by (simp add: kahn_inv_table [OF inv] nodes_def)
    with None show ?thesis by (simp add: visit(1) find_iter [OF wf])
  next
    case (Some t)
    then show ?thesis by (simp add: visit(1) find_iter [OF wf] gdeps_def)
  qed
  have pushed: "set ?pushed = {k. i \<in> set (gdeps g k) \<and> bt_get ind k = Some 1}"
  proof -
    have "k \<in> nodes g" if "bt_get ind k = Some 1" for k
      using that by (simp add: kahn_inv_table [OF inv] split: if_splits)
    then show ?thesis using nodes_iter [OF wf] gdeps_of_iter [OF wf] by force
  qed
  have iV: "i \<notin> set V" using kahn_inv_distinct [OF inv] by simp
  have "card (set (gdeps g k) \<inter> set (V @ [i])) =
        card (set (gdeps g k) \<inter> set V) + (if i \<in> set (gdeps g k) then 1 else 0)" for k
    using iV by (simp add: Int_insert_right)
  then have c1: "\<forall>k. bt_get (fst s) k = (if k \<in> nodes g
      then Some (int (length (gdeps g k)) - int (card (set (gdeps g k) \<inter> set (V @ [i])))) else None)"
    by (auto simp: ind' kahn_inv_table [OF inv])
  have zero_no_i: "i \<notin> set (gdeps g k)" if "bt_get ind k = Some 0" for k
    using that kahn_inv_zero [OF inv] iV by blast
  have "bt_get ind i = Some 0" by (simp add: kahn_inv_seen [OF inv])
  then have deps_i: "set (gdeps g i) \<subseteq> set V" using kahn_inv_zero [OF inv] by blast
  have c3: "set (V @ [i]) \<union> set (snd s) = {k. bt_get (fst s) k = Some 0}"
  proof -
    have "set (V @ [i]) \<union> set (snd s) = {k. bt_get ind k = Some 0} \<union> set ?pushed"
      by (auto simp: visit(2) kahn_inv_seen [OF inv])
    also have "\<dots> = {k. bt_get (fst s) k = Some 0}"
      unfolding pushed ind' using zero_no_i by (auto split: if_splits)
    finally show ?thesis .
  qed
  have "distinct ?pushed" using distinct_graph_iter [OF wf] by (rule distinct_map_filter)
  moreover have "set ?pushed \<inter> set (V @ i # q) = {}"
  proof -
    have "bt_get ind k = Some 0" if "k \<in> set (V @ i # q)" for k
      using that kahn_inv_seen [OF inv, of k] by auto
    then show ?thesis unfolding pushed by fastforce
  qed
  ultimately have c2: "distinct ((V @ [i]) @ snd s)"
    using kahn_inv_distinct [OF inv] by (auto simp: visit(2))
  have c4: "\<forall>n < length (V @ [i]). set (gdeps g ((V @ [i]) ! n)) \<subseteq> set (take n (V @ [i]))"
    using kahn_inv_topo [OF inv] deps_i by (auto simp: nth_append less_Suc_eq)
  show ?thesis unfolding kahn_inv_def by (intro conjI c1 c2 c3 c4)
qed

lemma kahn_loop_inv:
  assumes "graph_wf g" "kahn_inv g V ind q"
  shows "\<exists>V' ind'. kahn_inv g V' ind' [] \<and> kahn_loop (graph_iter g) ind q (length V) = length V'"
  using assms(2)
proof (induction "graph_iter g" ind q "length V" arbitrary: V rule: kahn_loop.induct)
  case (1 ind)
  then show ?case by auto
next
  case (2 ind i q)
  then show ?case
    using kahn_inv_step [OF assms(1) 2(2)] by (simp add: Let_def) (metis length_append_singleton)
qed

section \<open>What validation accepts\<close>

lemma topological_acyclic:
  assumes topo: "\<forall>n < length V. set (f (V ! n)) \<subseteq> set (take n V)"
    and dom: "\<forall>i. f i \<noteq> [] \<longrightarrow> i \<in> set V" and "distinct V"
  shows "acyclic {(i, d). d \<in> set (f i)}"
proof -
  define pos where "pos i = (LEAST n. n < length V \<and> V ! n = i)" for i
  have "pos d < pos i" if "d \<in> set (f i)" for i d
  proof -
    from that have "f i \<noteq> []" by auto
    with dom have "i \<in> set V" by blast
    then obtain n where n: "n < length V" "V ! n = i" by (auto simp: in_set_conv_nth)
    have p: "pos i < length V \<and> V ! pos i = i"
      unfolding pos_def by (rule LeastI [where P = "\<lambda>n. n < length V \<and> V ! n = i", of n]) (use n in simp)
    then have "set (f i) \<subseteq> set (take (pos i) V)" using topo by metis
    with that have "d \<in> set (take (pos i) V)" by blast
    then obtain m where m: "m < pos i" "m < length V" "V ! m = d"
      by (auto simp: in_set_conv_nth)
    then have "pos d \<le> m" unfolding pos_def [of d] by (intro Least_le) simp
    with m(1) show ?thesis by simp
  qed
  then have "{(i, d). d \<in> set (f i)}\<inverse> \<subseteq> measure pos" by auto
  then have "acyclic ({(i, d). d \<in> set (f i)}\<inverse>)"
    using wf_acyclic wf_measure wf_subset by blast
  then show ?thesis by (simp add: acyclic_converse)
qed

lemma kahn_inv_all_iff:
  assumes wf: "graph_wf g" and closed: "closed_deps g" and inv: "kahn_inv g V ind []"
  shows "length V = graph_len g \<longleftrightarrow> acyclic (dep_edges g) \<and> (\<forall>i. distinct (gdeps g i))"
proof -
  have V: "set V = {k. bt_get ind k = Some 0}" and dV: "distinct V"
    and topo: "\<forall>n < length V. set (gdeps g (V ! n)) \<subseteq> set (take n V)"
    using kahn_inv_seen [OF inv] kahn_inv_distinct [OF inv] kahn_inv_topo [OF inv] by auto
  have sub: "set V \<subseteq> nodes g" using V kahn_inv_zero [OF inv] by blast
  have out: "gdeps g i = []" if "i \<notin> nodes g" for i using that by (simp add: gdeps_def nodes_def)
  have len: "length V = graph_len g \<longleftrightarrow> set V = nodes g"
    using sub dV finite_nodes [OF wf] graph_len_card [OF wf]
    by (metis card_subset_eq distinct_card nodes_def)
  show ?thesis
  proof (rule iffI)
    assume "length V = graph_len g"
    with len have all: "set V = nodes g" by simp
    then have "distinct (gdeps g i)" for i
      using V kahn_inv_zero [OF inv, of i] out [of i] by (cases "i \<in> nodes g") auto
    moreover have "acyclic (dep_edges g)"
      unfolding dep_edges_def using topo out all dV by (intro topological_acyclic) auto
    ultimately show "acyclic (dep_edges g) \<and> (\<forall>i. distinct (gdeps g i))" by blast
  next
    assume r: "acyclic (dep_edges g) \<and> (\<forall>i. distinct (gdeps g i))"
    have "dep_edges g \<subseteq> nodes g \<times> nodes g"
      using closed out unfolding dep_edges_def closed_deps_def by fastforce
    then have "finite (dep_edges g)" using finite_nodes [OF wf] by (meson finite_SigmaI finite_subset)
    with r have "wf ((dep_edges g)\<inverse>)" by (simp add: finite_acyclic_wf_converse)
    then have "k \<in> nodes g \<longrightarrow> k \<in> set V" for k
    proof (induction k rule: wf_induct_rule)
      case (less k)
      have "d \<in> set V" if "d \<in> set (gdeps g k)" for d
        using less [of d] that closed by (auto simp: dep_edges_def closed_deps_def)
      then show ?case using r V kahn_inv_zero [OF inv, of k] by auto
    qed
    with sub len show "length V = graph_len g" by blast
  qed
qed

lemma graph_validate_iff:
  assumes wf: "graph_wf g"
  shows "graph_validate g = Inr () \<longleftrightarrow>
    closed_deps g \<and> acyclic (dep_edges g) \<and> (\<forall>i. distinct (gdeps g i))"
proof (cases "closed_deps g")
  case False
  then show ?thesis
    using first_dangling_None [OF wf] by (auto simp: graph_validate_def split: option.splits)
next
  case True
  obtain V ind where "kahn_inv g V ind []" "kahn_visited g = length V"
    using kahn_loop_inv [OF wf kahn_inv_initial [OF wf True]] by (auto simp: kahn_visited_def Let_def)
  with True show ?thesis
    using first_dangling_None [OF wf] kahn_inv_all_iff [OF wf True]
    by (simp add: graph_validate_def)
qed

end
