(* ===== verification/Schedule.thy ===== *)
theory Schedule
  imports Kahn
begin

text \<open>
  What the scheduling half of \<open>TaskGraph\<close> promises the executor: \<open>cascade_skip\<close>
  returns and settles exactly the tasks that can no longer run, \<open>ready_tasks\<close> offers
  exactly the runnable ones in priority order, and a validated graph in which nothing is blocked
  always has something ready until it is complete.
\<close>

section \<open>The specification of a cascading skip\<close>

text \<open>A task is blocked by \<open>f\<close> when it is not settled and a chain of unsettled
  tasks leads from it to \<open>f\<close>.\<close>

inductive blocked :: "task_graph \<Rightarrow> task_id \<Rightarrow> task_id \<Rightarrow> bool" for g f where
  blocked_direct: "graph_get g i = Some t \<Longrightarrow> \<not> is_terminal (tk_status t) \<Longrightarrow> f \<in> set (deps t) \<Longrightarrow> blocked g f i"
| blocked_chain: "graph_get g i = Some t \<Longrightarrow> \<not> is_terminal (tk_status t) \<Longrightarrow> d \<in> set (deps t) \<Longrightarrow>
    blocked g f d \<Longrightarrow> blocked g f i"

inductive_cases blockedE: "blocked g f i"

abbreviation skip_task :: "task \<Rightarrow> task" where
  "skip_task t \<equiv> t\<lparr>tk_status := Skipped\<rparr>"

lemma is_terminal_simps [simp]:
  "is_terminal Completed" "is_terminal Failed" "is_terminal Skipped" "is_terminal TaskCancelled"
  "\<not> is_terminal Pending" "\<not> is_terminal Ready" "\<not> is_terminal Running"
  by (simp_all add: is_terminal_def)

lemma graph_get_mark_skipped:
  "graph_get (mark_skipped ids g) i = map_option (\<lambda>t. if i \<in> set ids then skip_task t else t) (graph_get g i)"
proof (induction ids arbitrary: g)
  case (Cons j ids)
  then show ?case by (cases "graph_get g i") (auto simp: mark_skipped_def graph_get_update)
qed (simp add: mark_skipped_def option.map_ident)

lemma mark_skipped_open:
  "graph_get (mark_skipped ids g) i = Some t \<and> \<not> is_terminal (tk_status t) \<longleftrightarrow>
   graph_get g i = Some t \<and> \<not> is_terminal (tk_status t) \<and> i \<notin> set ids"
  by (cases "graph_get g i") (auto simp: graph_get_mark_skipped)

lemma graph_order_mark_skipped [simp]: "tg_order (mark_skipped ids g) = tg_order g"
  by (induction ids arbitrary: g) (simp_all add: mark_skipped_def)

lemma graph_wf_mark_skipped [wf_intros]: "graph_wf g \<Longrightarrow> graph_wf (mark_skipped ids g)"
  by (induction ids arbitrary: g) (simp_all add: mark_skipped_def graph_wf_update)

lemma map_id_graph_values: "graph_wf g \<Longrightarrow> map tk_id (bt_values (tg_tasks g)) = bt_keys (tg_tasks g)"
  unfolding graph_wf_def graph_get_def bt_values_def bt_keys_def
  by (auto simp: bt_get_iff_mem)

lemma set_cascade_dependents:
  "graph_wf g \<Longrightarrow> i \<in> set (cascade_dependents g fr) \<longleftrightarrow>
     (\<exists>t. graph_get g i = Some t \<and> \<not> is_terminal (tk_status t) \<and> set (deps t) \<inter> set fr \<noteq> {})"
  unfolding cascade_dependents_def
  by (auto simp: set_graph_values list_ex_iff graph_wf_def)

lemma distinct_cascade_dependents: "graph_wf g \<Longrightarrow> distinct (cascade_dependents g fr)"
  unfolding cascade_dependents_def
  by (intro distinct_map_filter)
     (simp add: map_id_graph_values graph_wf_def bt_wf_distinct)

section \<open>The loop invariant of the cascade\<close>

definition open_ids :: "task_graph \<Rightarrow> task_id set" where
  "open_ids g = {i. \<exists>t. graph_get g i = Some t \<and> \<not> is_terminal (tk_status t)}"

lemma open_ids_nodes: "open_ids g \<subseteq> nodes g"
  by (auto simp: open_ids_def nodes_def)

lemma finite_open_ids: "graph_wf g \<Longrightarrow> finite (open_ids g)"
  using open_ids_nodes finite_nodes by (rule finite_subset)

lemma open_ids_mark_skipped: "open_ids (mark_skipped ids g) = open_ids g - set ids"
  by (auto simp: open_ids_def mark_skipped_open)

definition cascade_inv :: "task_graph \<Rightarrow> task_id \<Rightarrow> task_graph \<Rightarrow> task_id list \<Rightarrow> task_id list \<Rightarrow> bool" where
  "cascade_inv g0 f g fr sk \<longleftrightarrow> g = mark_skipped sk g0 \<and> set fr = insert f (set sk) \<and> distinct sk
     \<and> (\<forall>i \<in> set sk. blocked g0 f i)"

lemma mark_skipped_append: "mark_skipped (xs @ ys) g = mark_skipped ys (mark_skipped xs g)"
  by (simp add: mark_skipped_def)

lemma cascade_dependents_open: "graph_wf g \<Longrightarrow> set (cascade_dependents g fr) \<subseteq> open_ids g"
  by (auto simp: set_cascade_dependents open_ids_def)

lemma cascade_dependents_blocked:
  assumes "graph_wf g0" "cascade_inv g0 f g fr sk" "i \<in> set (cascade_dependents g fr)"
  shows "blocked g0 f i \<and> i \<notin> set sk"
proof -
  have g: "g = mark_skipped sk g0" and fr: "set fr = insert f (set sk)" and bl: "\<forall>i \<in> set sk. blocked g0 f i"
    using assms(2) by (auto simp: cascade_inv_def)
  have "graph_wf g" unfolding g by (rule graph_wf_mark_skipped) fact
  then obtain t d where t: "graph_get g i = Some t" "\<not> is_terminal (tk_status t)" "d \<in> set (deps t)" "d \<in> set fr"
    using assms(3) by (auto simp: set_cascade_dependents)
  then have sk: "i \<notin> set sk" and t0: "graph_get g0 i = Some t"
    using mark_skipped_open [of sk g0 i t] unfolding g by auto
  have "d = f \<or> blocked g0 f d" using t(4) fr bl by auto
  with t t0 sk show ?thesis by (auto intro: blocked.intros)
qed

lemma cascade_inv_step:
  assumes "graph_wf g0" "cascade_inv g0 f g fr sk"
  defines "ds \<equiv> cascade_dependents g fr"
  shows "cascade_inv g0 f (mark_skipped ds g) (fold bs_insert ds fr) (sk @ ds)"
proof -
  have "graph_wf g" using assms(1,2) by (auto simp: cascade_inv_def intro: graph_wf_mark_skipped)
  then have "distinct ds" unfolding ds_def by (rule distinct_cascade_dependents)
  then show ?thesis
    using assms(2) cascade_dependents_blocked [OF assms(1,2)]
    by (auto simp: cascade_inv_def mark_skipped_append set_fold_bs_insert ds_def)
qed

lemma cascade_inv_exit:
  assumes "graph_wf g0" "cascade_inv g0 f g fr sk" "cascade_dependents g fr = []"
  shows "set sk = {i. blocked g0 f i}"
proof -
  have g: "g = mark_skipped sk g0" and fr: "set fr = insert f (set sk)"
    using assms(2) by (auto simp: cascade_inv_def)
  have wf: "graph_wf g" unfolding g by (rule graph_wf_mark_skipped) fact
  have exit: "i \<in> set sk" if "graph_get g0 i = Some t" "\<not> is_terminal (tk_status t)"
      "d \<in> set (deps t)" "d \<in> insert f (set sk)" for i t d
  proof (rule ccontr)
    assume "i \<notin> set sk"
    with that(1) have "graph_get g i = Some t" by (simp add: g graph_get_mark_skipped)
    with that(2-4) fr have "i \<in> set (cascade_dependents g fr)" by (auto simp: set_cascade_dependents [OF wf])
    with assms(3) show False by simp
  qed
  have "i \<in> set sk" if "blocked g0 f i" for i
    using that by induction (use exit in auto)
  then show ?thesis using assms(2) by (auto simp: cascade_inv_def)
qed

lemma cascade_loop_returns:
  assumes "graph_wf g0" "cascade_inv g0 f g fr sk" "card (open_ids g) < fuel"
  shows "\<exists>sk'. cascade_loop fuel g fr sk = Some (mark_skipped sk' g0, sk') \<and> distinct sk' \<and>
    set sk' = {i. blocked g0 f i}"
  using assms(2,3)
proof (induction fuel arbitrary: g fr sk)
  case (Suc fuel)
  let ?ds = "cascade_dependents g fr"
  have wf: "graph_wf g" using assms(1) Suc.prems(1) by (auto simp: cascade_inv_def intro: graph_wf_mark_skipped)
  show ?case
  proof (cases "?ds = []")
    case True
    with Suc.prems cascade_inv_exit [OF assms(1) Suc.prems(1)] show ?thesis
      by (auto simp: cascade_inv_def)
  next
    case False
    have "open_ids (mark_skipped ?ds g) \<subset> open_ids g"
      using cascade_dependents_open [OF wf, of fr] hd_in_set [OF False]
      unfolding open_ids_mark_skipped by blast
    then have "card (open_ids (mark_skipped ?ds g)) < card (open_ids g)"
      using finite_open_ids [OF wf] by (rule psubset_card_mono [rotated])
    with False Suc.IH [OF cascade_inv_step [OF assms(1) Suc.prems(1)]] Suc.prems(2) show ?thesis
      by (simp add: Let_def)
  qed
qed simp

lemma cascade_skip_correct:
  assumes "graph_wf g"
  shows "\<exists>ids. cascade_skip f g = Some (mark_skipped ids g, ids) \<and> distinct ids \<and> set ids = {i. blocked g f i}"
proof -
  have "card (open_ids g) < Suc (graph_len g)"
    using graph_len_card [OF assms] card_mono [OF finite_nodes [OF assms] open_ids_nodes [of g]]
    by (simp add: nodes_def)
  moreover have "cascade_inv g f g [f] []" by (simp add: cascade_inv_def mark_skipped_def)
  ultimately show ?thesis unfolding cascade_skip_def using cascade_loop_returns [OF assms] by blast
qed

section \<open>Ready tasks\<close>

lemma set_ready_tasks:
  assumes "graph_wf g"
  shows "t \<in> set (ready_tasks g) \<longleftrightarrow> graph_get g (tk_id t) = Some t \<and> tk_status t \<in> {Pending, Ready} \<and>
    (\<forall>d \<in> set (deps t). \<exists>t'. graph_get g d = Some t' \<and> tk_status t' = Completed)"
proof -
  have "t \<in> set (graph_iter g) \<longleftrightarrow> graph_get g (tk_id t) = Some t"
    using assms by (auto simp: set_graph_iter graph_wf_def)
  moreover have "deps_completed g t \<longleftrightarrow> (\<forall>d \<in> set (deps t). \<exists>t'. graph_get g d = Some t' \<and> tk_status t' = Completed)"
    by (auto simp: deps_completed_def list_all_iff split: option.splits)
  ultimately show ?thesis by (auto simp: ready_tasks_def)
qed

lemma ready_tasks_priority:
  "sorted_wrt (\<lambda>s t. ts_priority (tk_spec t) \<le> ts_priority (tk_spec s)) (ready_tasks g)"
proof -
  let ?k = "\<lambda>t. - int (unat (ts_priority (tk_spec t)))"
  have "sorted (map ?k (ready_tasks g))" unfolding ready_tasks_def by (rule sorted_sort_key)
  then have "sorted_wrt (\<lambda>s t. ?k s \<le> ?k t) (ready_tasks g)" by (simp add: sorted_wrt_map)
  then show ?thesis by (rule sorted_wrt_mono_rel [rotated]) (simp add: word_le_def)
qed

lemma ready_tasks_stable:
  "filter (\<lambda>t. ts_priority (tk_spec t) = p) (ready_tasks g) =
   filter (\<lambda>t. ts_priority (tk_spec t) = p \<and> tk_status t \<in> {Pending, Ready} \<and> deps_completed g t) (graph_iter g)"
proof -
  have "filter (\<lambda>t. - int (unat (ts_priority (tk_spec t))) = - int (unat p)) (ready_tasks g) =
        filter (\<lambda>t. - int (unat (ts_priority (tk_spec t))) = - int (unat p))
          (filter (deps_completed g) (filter (\<lambda>t. tk_status t \<in> {Pending, Ready}) (graph_iter g)))"
    unfolding ready_tasks_def by (rule sort_key_stable)
  then show ?thesis by (simp add: conj_ac word_uint_eq_iff)
qed

section \<open>Progress\<close>

text \<open>The state the executor keeps between waves: no task is running, and no open task waits on
  a task that ended in any way but completion.\<close>

definition unblocked :: "task_graph \<Rightarrow> bool" where
  "unblocked g \<longleftrightarrow> (\<forall>i t d t'. graph_get g i = Some t \<longrightarrow> \<not> is_terminal (tk_status t) \<longrightarrow> d \<in> set (deps t) \<longrightarrow>
     graph_get g d = Some t' \<longrightarrow> is_terminal (tk_status t') \<longrightarrow> tk_status t' = Completed)"

definition none_running :: "task_graph \<Rightarrow> bool" where
  "none_running g \<longleftrightarrow> (\<forall>i t. graph_get g i = Some t \<longrightarrow> tk_status t \<noteq> Running)"

lemma graph_is_complete_iff: "graph_wf g \<Longrightarrow> graph_is_complete g \<longleftrightarrow> open_ids g = {}"
  unfolding graph_is_complete_def list_all_iff by (auto simp: set_graph_values open_ids_def)

lemma finite_dep_edges: "graph_wf g \<Longrightarrow> closed_deps g \<Longrightarrow> finite (dep_edges g)"
proof -
  assume "graph_wf g" "closed_deps g"
  have "gdeps g i = []" if "i \<notin> nodes g" for i using that by (simp add: gdeps_def nodes_def)
  with \<open>closed_deps g\<close> have "dep_edges g \<subseteq> nodes g \<times> nodes g"
    unfolding dep_edges_def closed_deps_def by fastforce
  then show ?thesis using finite_nodes [OF \<open>graph_wf g\<close>] by (meson finite_SigmaI finite_subset)
qed

lemma ready_exists:
  assumes wf: "graph_wf g" and closed: "closed_deps g" and acyclic: "acyclic (dep_edges g)"
    and unblocked: "unblocked g" and idle: "none_running g" and todo: "\<not> graph_is_complete g"
  shows "ready_tasks g \<noteq> []"
proof -
  have "wf ((dep_edges g)\<inverse>)"
    using finite_dep_edges [OF wf closed] acyclic by (rule finite_acyclic_wf_converse)
  moreover have "open_ids g \<noteq> {}" using todo graph_is_complete_iff [OF wf] by blast
  ultimately obtain i where i: "i \<in> open_ids g" and min: "\<And>d. (d, i) \<in> (dep_edges g)\<inverse> \<Longrightarrow> d \<notin> open_ids g"
    unfolding wf_eq_minimal by (metis all_not_in_conv)
  from i obtain t where t: "graph_get g i = Some t" "\<not> is_terminal (tk_status t)" by (auto simp: open_ids_def)
  have "\<exists>t'. graph_get g d = Some t' \<and> tk_status t' = Completed" if d: "d \<in> set (deps t)" for d
  proof -
    have "d \<in> set (gdeps g i)" using d t by (simp add: gdeps_def)
    then have "d \<in> nodes g" "d \<notin> open_ids g"
      using closed min by (auto simp: closed_deps_def dep_edges_def)
    then obtain t' where "graph_get g d = Some t'" "is_terminal (tk_status t')"
      by (auto simp: nodes_def open_ids_def)
    with unblocked t d show ?thesis unfolding unblocked_def by blast
  qed
  moreover have "tk_status t \<in> {Pending, Ready}"
    using t idle by (cases "tk_status t") (auto simp: none_running_def)
  moreover have "tk_id t = i" using wf t(1) by (simp add: graph_wf_def)
  ultimately have "t \<in> set (ready_tasks g)" using t(1) by (simp add: set_ready_tasks [OF wf])
  then show ?thesis by auto
qed

text \<open>Failing one task and cascading the skip restores the invariant.\<close>

lemma unblocked_after_cascade:
  assumes wf: "graph_wf g" and unb: "unblocked g"
    and casc: "cascade_skip f (graph_update f (\<lambda>t. t\<lparr>tk_status := Failed\<rparr>) g) = Some (g', ids)"
  shows "unblocked g'"
proof -
  let ?g = "graph_update f (\<lambda>t. t\<lparr>tk_status := Failed\<rparr>) g"
  have wf': "graph_wf ?g" using wf by (simp add: graph_wf_update)
  have g': "g' = mark_skipped ids ?g" and ids: "set ids = {i. blocked ?g f i}"
    using cascade_skip_correct [OF wf', of f] casc by auto
  have "tk_status t' = Completed" if
    t: "graph_get g' i = Some t" "\<not> is_terminal (tk_status t)" and d: "d \<in> set (deps t)"
      and t': "graph_get g' d = Some t'" "is_terminal (tk_status t')" for i t d t'
  proof -
    have u: "graph_get ?g i = Some t" "i \<notin> set ids"
      using t mark_skipped_open unfolding g' by metis+
    have nb: "\<not> blocked ?g f i" using u(2) ids by blast
    then have "d \<noteq> f" "d \<notin> set ids" using u(1) t(2) d ids by (auto intro: blocked.intros)
    then have "graph_get g d = Some t'"
      using t'(1) by (simp add: g' graph_get_mark_skipped graph_get_update option.map_ident)
    moreover have "i \<noteq> f" using u(1) t(2) by (auto simp: graph_get_update)
    then have "graph_get g i = Some t" using u(1) by (simp add: graph_get_update)
    ultimately show ?thesis using unb t(2) d t'(2) unfolding unblocked_def by blast
  qed
  then show ?thesis unfolding unblocked_def by blast
qed

end
