(* ===== verification/Planner.thy ===== *)
theory Planner
  imports Schedule
begin

text \<open>
  \<open>cuma-planner/src/heuristic.rs\<close>: the rule-based planner. The id of the n-th task it creates
  is \<open>fresh n\<close> (the source draws a new UUID); what the code relies on is that fresh ids
  differ from each other and from the ids in use. The Unicode lower-casing of a goal is an argument.
\<close>

record goal_shape =
  gs_changes_code :: bool
  gs_needs_research :: bool
  gs_mentions_tests :: bool
  gs_is_investigation :: bool
  gs_is_review :: bool
  gs_is_documentation :: bool
  gs_is_design_heavy :: bool

definition contains_any :: "string \<Rightarrow> string list \<Rightarrow> bool" where
  "contains_any haystack needles = list_ex (str_contains haystack) needles"

definition shape_of :: "(string \<Rightarrow> string) \<Rightarrow> string \<Rightarrow> goal_shape" where
  "shape_of to_lowercase goal =
     (let g = to_lowercase goal in
      \<lparr>gs_changes_code = contains_any g
         [''implement'', ''implementa'', ''add '', ''adicion'', ''create'', ''cri'', ''write'', ''escrev'',
          ''fix'', ''corrig'', ''conserta'', ''refactor'', ''refator'', ''update'', ''atualiz'', ''migrate'',
          ''migra'', ''rename'', ''renome'', ''remove'', ''remov'', ''delete'', ''port '', ''upgrade''],
       gs_needs_research = contains_any g
         [''research'', ''pesquis'', ''how to'', ''como '', ''best practice'',
          ''boas pr'' @ [CHR 0xC3, CHR 0xA1] @ ''tic'', ''compare'', ''compar'', ''evaluate'', ''oauth'',
          ''protocol'', ''protocolo'', ''spec'', ''library'', ''bibliotec'', ''sdk''],
       gs_mentions_tests = contains_any g [''test'', ''teste'', ''spec'', ''coverage'', ''cobertura'', ''ci ''],
       gs_is_investigation = contains_any g
         [''why'', ''por que'', ''porque'', ''investigate'', ''investig'', ''debug'', ''diagnos'', ''understand'',
          ''entend'', ''explain'', ''explic'', ''analyz'', ''analis'', ''audit''],
       gs_is_review = contains_any g [''review'', ''revis'', ''critique'', ''avali''],
       gs_is_documentation = contains_any g [''document'', ''documenta'', ''readme'', ''changelog''],
       gs_is_design_heavy = contains_any g
         [''architect'', ''arquitet'', ''design'', ''desenh'', ''redesign'', ''restructure'', ''reestrutur'',
          ''rewrite'', ''reescrev'', ''migrate'', ''strategy'', ''estrat'' @ [CHR 0xC3, CHR 0xA9] @ ''gia'']\<rparr>)"

text \<open>A plan in the making: the graph and how many ids have been drawn.\<close>

type_synonym draft = "task_graph \<times> nat"

definition push :: "(nat \<Rightarrow> task_id) \<Rightarrow> task_spec \<Rightarrow> task_id list \<Rightarrow> draft \<Rightarrow> task_id \<times> draft" where
  "push fresh spec after d =
     (let spec = spec\<lparr>ts_dependencies := ts_dependencies spec @ after\<rparr>;
          t = new_task (fresh (snd d)) spec
      in (tk_id t, (graph_add t (fst d), Suc (snd d))))"

definition inspect_spec :: "string \<Rightarrow> task_spec" where
  "inspect_spec goal =
     (new_spec (''Inspect the repository to understand: '' @ goal) Inspection)\<lparr>ts_priority := 9\<rparr>"

definition plan_prerequisites ::
  "(nat \<Rightarrow> task_id) \<Rightarrow> goal_shape \<Rightarrow> string \<Rightarrow> task_id list \<times> draft" where
  "plan_prerequisites fresh shape goal =
     (let (inspect, d) = push fresh (inspect_spec goal) [] (empty_graph, 0);
          (research, d) =
            (if gs_needs_research shape then
               (case push fresh (requiring (new_spec (''Research what is needed to: '' @ goal) Research) CResearch)
                       [inspect] d of (i, d) \<Rightarrow> ([i], d))
             else ([], d));
          (design, d) =
            (if gs_is_design_heavy shape then
               (case push fresh (with_complexity (new_spec (''Design the approach for: '' @ goal) Design) (flit (85 / 100)))
                       [inspect] d of (i, d) \<Rightarrow> ([i], d))
             else ([], d))
      in (inspect # research @ design, d))"

definition plan_changes ::
  "bool \<Rightarrow> (nat \<Rightarrow> task_id) \<Rightarrow> goal_shape \<Rightarrow> string \<Rightarrow> task_id list \<Rightarrow> draft \<Rightarrow> draft" where
  "plan_changes always_validate fresh shape goal prerequisites d =
     (let ttype = (if gs_is_investigation shape then BugFix else Implementation);
          (implement, d) = push fresh (with_risk (new_spec (''Implement: '' @ goal) ttype) Medium) prerequisites d;
          (tests, d) =
            (if gs_mentions_tests shape then
               (case push fresh (with_risk (new_spec (''Write or update tests for: '' @ goal) Testing) Low)
                       [implement] d of (i, d) \<Rightarrow> ([i], d))
             else ([], d))
      in if always_validate then
           let (validate, d) =
                 push fresh (with_risk (requiring
                   (new_spec (''Run the project'' @ [CHR 0x27] @ ''s tests and report failures'') Validation)
                   ShellExecution) Low) (implement # tests) d
           in snd (push fresh (with_risk (new_spec (''Review the changes made for: '' @ goal) Review) ReadOnly) [validate] d)
         else d)"

definition plan_draft :: "bool \<Rightarrow> (nat \<Rightarrow> task_id) \<Rightarrow> goal_shape \<Rightarrow> string \<Rightarrow> draft" where
  "plan_draft always_validate fresh shape goal =
     (let (prerequisites, d) = plan_prerequisites fresh shape goal in
          (if gs_is_investigation shape \<and> \<not> gs_changes_code shape then
             snd (push fresh (with_risk (new_spec (''Investigate and report findings for: '' @ goal) BugFix) ReadOnly)
                    prerequisites d)
           else if gs_is_review shape \<and> \<not> gs_changes_code shape then
             snd (push fresh (with_risk (new_spec (''Review: '' @ goal) Review) ReadOnly) prerequisites d)
           else if gs_is_documentation shape \<and> \<not> gs_changes_code shape then
             snd (push fresh (with_risk (new_spec (''Write documentation for: '' @ goal) Documentation) Low)
                    prerequisites d)
           else plan_changes always_validate fresh shape goal prerequisites d))"

abbreviation plan_graph :: "bool \<Rightarrow> (nat \<Rightarrow> task_id) \<Rightarrow> goal_shape \<Rightarrow> string \<Rightarrow> task_graph" where
  "plan_graph always_validate fresh shape goal \<equiv> fst (plan_draft always_validate fresh shape goal)"

text \<open>The capabilities in the planning context only decide whether a warning is logged.\<close>

definition plan ::
  "(string \<Rightarrow> string) \<Rightarrow> (nat \<Rightarrow> task_id) \<Rightarrow> bool \<Rightarrow> string \<Rightarrow> task_graph result" where
  "plan to_lowercase fresh always_validate raw_goal =
     (let goal = trim raw_goal in
      if goal = [] then Inl (EConfiguration ''cannot plan an empty goal'')
      else
        let g = plan_graph always_validate fresh (shape_of to_lowercase goal) goal in
        case graph_validate g of Inl e \<Rightarrow> Inl e | Inr _ \<Rightarrow> Inr g)"

definition half_spec :: "task_spec \<Rightarrow> string \<Rightarrow> task_spec" where
  "half_spec base suff =
     base\<lparr>ts_description := ts_description base @ suff,
          ts_estimated_tokens := map_option (\<lambda>n. n div 2) (ts_estimated_tokens base)\<rparr>"

definition split_task :: "(nat \<Rightarrow> task_id) \<Rightarrow> task \<Rightarrow> task_graph \<Rightarrow> task_graph" where
  "split_task fresh failed g =
     (let base = tk_spec failed;
          first = (new_task (fresh 0) (half_spec base '' (part 1 of 2: narrow the scope to the smallest change)''))
            \<lparr>tk_parent_id := Some (tk_id failed)\<rparr>;
          second = (new_task (fresh 1) ((half_spec base '' (part 2 of 2: complete the remaining work)'')
            \<lparr>ts_dependencies := [tk_id first]\<rparr>))\<lparr>tk_parent_id := Some (tk_id failed)\<rparr>
      in graph_add second (graph_add first
           (graph_update (tk_id failed) (\<lambda>t. t\<lparr>tk_status := Skipped\<rparr>) g)))"

definition replan ::
  "(string \<Rightarrow> string) \<Rightarrow> (nat \<Rightarrow> task_id) \<Rightarrow> task_graph \<Rightarrow> task \<Rightarrow> string \<Rightarrow> task_graph option result" where
  "replan to_lowercase fresh g failed reason =
     (if \<not> str_contains (to_lowercase reason) ''context'' then Inr None
      else if tk_parent_id failed \<noteq> None then Inr None
      else if graph_get g (tk_id failed) = None then Inr None
      else
        let revised = split_task fresh failed g in
        case graph_validate revised of Inl e \<Rightarrow> Inl e | Inr _ \<Rightarrow> Inr (Some revised))"

section \<open>Drafts stay valid\<close>

definition valid_graph :: "task_graph \<Rightarrow> bool" where
  "valid_graph g \<longleftrightarrow> graph_wf g \<and> closed_deps g \<and> acyclic (dep_edges g) \<and> (\<forall>i. distinct (gdeps g i))"

lemma valid_graph_validate: "valid_graph g \<Longrightarrow> graph_validate g = Inr ()"
  using graph_validate_iff [of g] by (simp add: valid_graph_def)

lemma gdeps_add: "gdeps (graph_add t g) i = (if i = tk_id t then deps t else gdeps g i)"
  by (simp add: gdeps_def graph_get_add)

lemma nodes_add: "nodes (graph_add t g) = insert (tk_id t) (nodes g)"
  by (auto simp: nodes_def graph_get_add)

lemma graph_get_empty [simp]: "graph_get empty_graph i = None"
  by (simp add: empty_graph_def graph_get_def bt_get_def)

lemma nodes_empty [simp]: "nodes empty_graph = {}"
  by (simp add: nodes_def)

lemma valid_graph_empty: "valid_graph empty_graph"
  by (simp add: valid_graph_def graph_wf_empty closed_deps_def dep_edges_def gdeps_def acyclic_def)

text \<open>Adding a new task whose dependencies are already in the graph keeps it valid.\<close>

lemma valid_graph_add:
  assumes "valid_graph g" "tk_id t \<notin> nodes g" "set (deps t) \<subseteq> nodes g" "distinct (deps t)"
  shows "valid_graph (graph_add t g)"
proof -
  have out: "gdeps g (tk_id t) = []" using assms(2) by (simp add: gdeps_def nodes_def)
  have closed: "\<forall>i. set (gdeps g i) \<subseteq> nodes g" using assms(1) by (simp add: valid_graph_def closed_deps_def)
  have edges: "dep_edges (graph_add t g) = dep_edges g \<union> {(tk_id t, d) |d. d \<in> set (deps t)}"
    using out by (auto simp: dep_edges_def gdeps_add split: if_splits)
  have range: "Range (dep_edges g) \<subseteq> nodes g" using closed by (auto simp: dep_edges_def)
  have "acyclic (dep_edges (graph_add t g))"
  proof -
    have new: "d \<noteq> tk_id t" if "(d', d) \<in> dep_edges (graph_add t g)" for d' d
      using that edges range assms(2,3) by (auto simp: edges)
    have "(x, x) \<notin> (dep_edges (graph_add t g))\<^sup>+" for x
    proof
      assume cyc: "(x, x) \<in> (dep_edges (graph_add t g))\<^sup>+"
      have "(x, y) \<in> (dep_edges g)\<^sup>+" if "(x, y) \<in> (dep_edges (graph_add t g))\<^sup>+" "x \<noteq> tk_id t" for x y
        using that
      proof (induction rule: trancl_induct)
        case (base y)
        then show ?case using edges by auto
      next
        case (step y z)
        have "y \<noteq> tk_id t" using step.hyps(1) new by (metis tranclE)
        then have "(y, z) \<in> dep_edges g" using step.hyps(2) edges by auto
        with step.IH step.prems show ?case by (auto intro: trancl_into_trancl)
      qed
      moreover have "x \<noteq> tk_id t" using cyc new by (metis tranclE)
      ultimately show False using cyc assms(1) by (auto simp: valid_graph_def acyclic_def)
    qed
    then show ?thesis by (simp add: acyclic_def)
  qed
  then show ?thesis
    using assms closed by (auto simp: valid_graph_def closed_deps_def gdeps_add nodes_add graph_wf_add)
qed

definition draft_ok :: "(nat \<Rightarrow> task_id) \<Rightarrow> draft \<Rightarrow> bool" where
  "draft_ok fresh d \<longleftrightarrow> valid_graph (fst d) \<and> nodes (fst d) = fresh ` {..<snd d}"

lemma push_ok:
  assumes "inj fresh" "draft_ok fresh d" "ts_dependencies spec = []" "set after \<subseteq> nodes (fst d)" "distinct after"
  shows "draft_ok fresh (snd (push fresh spec after d))"
    "fst (push fresh spec after d) = fresh (snd d)"
    "nodes (fst (snd (push fresh spec after d))) = insert (fresh (snd d)) (nodes (fst d))"
    "fresh (snd d) \<notin> nodes (fst d)"
proof -
  show new: "fresh (snd d) \<notin> nodes (fst d)"
    using assms(1,2) by (auto simp: draft_ok_def dest: injD)
  show "nodes (fst (snd (push fresh spec after d))) = insert (fresh (snd d)) (nodes (fst d))"
    by (simp add: push_def Let_def nodes_add new_task_def)
  moreover have "valid_graph (fst (snd (push fresh spec after d)))"
    using assms new by (auto simp: push_def Let_def new_task_def draft_ok_def intro!: valid_graph_add)
  ultimately show "draft_ok fresh (snd (push fresh spec after d))"
    using assms(2) by (auto simp: draft_ok_def push_def Let_def lessThan_Suc)
qed (simp add: push_def Let_def new_task_def)

lemma pushE:
  assumes "inj fresh" "draft_ok fresh d" "ts_dependencies spec = []" "set after \<subseteq> nodes (fst d)" "distinct after"
  obtains d' where "push fresh spec after d = (fresh (snd d), d')" "draft_ok fresh d'"
    "nodes (fst d') = insert (fresh (snd d)) (nodes (fst d))" "fresh (snd d) \<notin> nodes (fst d)"
  using push_ok [OF assms] by (metis prod.collapse)

lemmas spec_builders = new_spec_def with_risk_def requiring_def with_complexity_def inspect_spec_def

lemma no_dependencies [simp]:
  "ts_dependencies (new_spec d t) = []" "ts_dependencies (with_risk s r) = ts_dependencies s"
  "ts_dependencies (requiring s c) = ts_dependencies s" "ts_dependencies (with_complexity s x) = ts_dependencies s"
  "ts_dependencies (inspect_spec goal) = []"
  by (simp_all add: spec_builders)

lemma plan_prerequisites_ok:
  assumes inj: "inj fresh"
  shows "draft_ok fresh (snd (plan_prerequisites fresh shape goal))
    \<and> set (fst (plan_prerequisites fresh shape goal)) \<subseteq> nodes (fst (snd (plan_prerequisites fresh shape goal)))
    \<and> distinct (fst (plan_prerequisites fresh shape goal))"
proof -
  have "draft_ok fresh (empty_graph, 0)"
    by (simp add: draft_ok_def valid_graph_empty)
  then obtain d1 where d1: "push fresh (inspect_spec goal) [] (empty_graph, 0) = (fresh 0, d1)" "draft_ok fresh d1"
    "nodes (fst d1) = {fresh 0}"
    by (rule pushE [OF inj, of _ "inspect_spec goal" "[]"]) auto
  let ?r = "requiring (new_spec (''Research what is needed to: '' @ goal) Research) CResearch"
  let ?s = "with_complexity (new_spec (''Design the approach for: '' @ goal) Design) (flit (85 / 100))"
  obtain d2 where d2: "push fresh ?r [fresh 0] d1 = (fresh (snd d1), d2)" "draft_ok fresh d2"
    "nodes (fst d2) = {fresh (snd d1), fresh 0}" "fresh (snd d1) \<notin> nodes (fst d1)"
    by (rule pushE [OF inj d1(2), of ?r "[fresh 0]"]) (auto simp: d1(3))
  obtain d3 where d3: "push fresh ?s [fresh 0] d1 = (fresh (snd d1), d3)" "draft_ok fresh d3"
    "nodes (fst d3) = {fresh (snd d1), fresh 0}"
    by (rule pushE [OF inj d1(2), of ?s "[fresh 0]"]) (auto simp: d1(3))
  obtain d4 where d4: "push fresh ?s [fresh 0] d2 = (fresh (snd d2), d4)" "draft_ok fresh d4"
    "nodes (fst d4) = insert (fresh (snd d2)) (nodes (fst d2))" "fresh (snd d2) \<notin> nodes (fst d2)"
    by (rule pushE [OF inj d2(2), of ?s "[fresh 0]"]) (auto simp: d2(3))
  show ?thesis using d1 d2 d3 d4
    by (cases "gs_needs_research shape"; cases "gs_is_design_heavy shape")
       (auto simp: plan_prerequisites_def)
qed

lemma plan_changes_ok:
  assumes inj: "inj fresh" and d: "draft_ok fresh d" and pre: "set pre \<subseteq> nodes (fst d)" "distinct pre"
  shows "draft_ok fresh (plan_changes v fresh shape goal pre d)"
proof -
  let ?s1 = "with_risk (new_spec (''Implement: '' @ goal) (if gs_is_investigation shape then BugFix else Implementation)) Medium"
  let ?s2 = "with_risk (new_spec (''Write or update tests for: '' @ goal) Testing) Low"
  let ?s3 = "with_risk (requiring (new_spec (''Run the project'' @ [CHR 0x27] @ ''s tests and report failures'')
    Validation) ShellExecution) Low"
  let ?s4 = "with_risk (new_spec (''Review the changes made for: '' @ goal) Review) ReadOnly"
  obtain d1 where d1: "push fresh ?s1 pre d = (fresh (snd d), d1)" "draft_ok fresh d1"
    "nodes (fst d1) = insert (fresh (snd d)) (nodes (fst d))"
    by (rule pushE [OF inj d _ pre, of ?s1]) auto
  obtain d2 where d2: "push fresh ?s2 [fresh (snd d)] d1 = (fresh (snd d1), d2)" "draft_ok fresh d2"
    "nodes (fst d2) = insert (fresh (snd d1)) (nodes (fst d1))" "fresh (snd d1) \<notin> nodes (fst d1)"
    by (rule pushE [OF inj d1(2), of ?s2 "[fresh (snd d)]"]) (auto simp: d1(3))
  have tail: "draft_ok fresh (snd (push fresh ?s4 [fst (push fresh ?s3 after e)] (snd (push fresh ?s3 after e))))"
    if e: "draft_ok fresh e" "set after \<subseteq> nodes (fst e)" "distinct after" for e after
  proof -
    obtain e1 where e1: "push fresh ?s3 after e = (fresh (snd e), e1)" "draft_ok fresh e1"
      "nodes (fst e1) = insert (fresh (snd e)) (nodes (fst e))"
      by (rule pushE [OF inj e(1) _ e(2,3), of ?s3]) auto
    then show ?thesis using push_ok(1) [OF inj e1(2), of ?s4 "[fresh (snd e)]"] by simp
  qed
  have t1: "draft_ok fresh (snd (push fresh ?s4 [fst (push fresh ?s3 [fresh (snd d)] d1)] (snd (push fresh ?s3 [fresh (snd d)] d1))))"
    using tail [OF d1(2)] d1(3) by auto
  have "draft_ok fresh (snd (push fresh ?s4 [fst (push fresh ?s3 [fresh (snd d), fresh (snd d1)] d2)]
      (snd (push fresh ?s3 [fresh (snd d), fresh (snd d1)] d2))))"
    using tail [OF d2(2), of "[fresh (snd d), fresh (snd d1)]"] d1(3) d2(3,4) by auto
  with t1 d1 d2 show ?thesis
    by (simp add: plan_changes_def Let_def prod.case_eq_if)
qed

lemma plan_graph_valid:
  assumes inj: "inj fresh"
  shows "valid_graph (plan_graph v fresh shape goal)"
proof -
  obtain pre d where p: "plan_prerequisites fresh shape goal = (pre, d)" by (cases "plan_prerequisites fresh shape goal")
  have ok: "draft_ok fresh d" "set pre \<subseteq> nodes (fst d)" "distinct pre"
    using plan_prerequisites_ok [OF inj, of shape goal] by (simp_all add: p)
  have "draft_ok fresh (snd (push fresh (with_risk (new_spec x t) r) pre d))" for x t r
    by (rule push_ok(1) [OF inj ok(1) _ ok(2,3)]) simp
  then show ?thesis
    using plan_changes_ok [OF inj ok, of v shape goal] by (simp add: plan_draft_def p draft_ok_def)
qed

section \<open>What a plan contains\<close>

definition all_tasks :: "(task \<Rightarrow> bool) \<Rightarrow> task_graph \<Rightarrow> bool" where
  "all_tasks P g \<longleftrightarrow> (\<forall>i t. graph_get g i = Some t \<longrightarrow> P t)"

lemma all_tasks_push:
  "all_tasks P (fst d) \<Longrightarrow> P (new_task (fresh (snd d)) (spec\<lparr>ts_dependencies := ts_dependencies spec @ after\<rparr>)) \<Longrightarrow>
   all_tasks P (fst (snd (push fresh spec after d)))"
  by (auto simp: all_tasks_def push_def Let_def graph_get_add new_task_def)

lemma all_tasks_empty: "all_tasks P empty_graph"
  by (simp add: all_tasks_def)

lemma inspect_no_deps: "(inspect_spec goal)\<lparr>ts_dependencies := []\<rparr> = inspect_spec goal"
  by (simp add: spec_builders)

lemma all_tasks_prerequisites:
  assumes "P (new_task (fresh 0) (inspect_spec goal))"
    and step: "\<And>n spec i. spec \<in> {requiring (new_spec (''Research what is needed to: '' @ goal) Research) CResearch,
        with_complexity (new_spec (''Design the approach for: '' @ goal) Design) (flit (85 / 100))} \<Longrightarrow>
      P (new_task (fresh n) (spec\<lparr>ts_dependencies := [i]\<rparr>))"
  shows "all_tasks P (fst (snd (plan_prerequisites fresh shape goal)))"
proof -
  let ?d1 = "snd (push fresh (inspect_spec goal) [] (empty_graph, 0))"
  have 1: "all_tasks P (fst ?d1)"
  proof (rule all_tasks_push)
    show "P (new_task (fresh (snd (empty_graph, 0))) ((inspect_spec goal)\<lparr>ts_dependencies := ts_dependencies (inspect_spec goal) @ []\<rparr>))"
      using assms(1) by (simp only: inspect_no_deps no_dependencies append_Nil snd_conv)
  qed (simp add: all_tasks_empty)
  have 2: "all_tasks P (fst (snd (push fresh spec [i] d)))"
    if "all_tasks P (fst d)" "spec \<in> {requiring (new_spec (''Research what is needed to: '' @ goal) Research) CResearch,
        with_complexity (new_spec (''Design the approach for: '' @ goal) Design) (flit (85 / 100))}" for d spec i
  proof -
    have "ts_dependencies spec = []" using that(2) by auto
    then show ?thesis using all_tasks_push [OF that(1), of fresh spec "[i]"] step [OF that(2)] by simp
  qed
  show ?thesis
    using 1 2 by (simp add: plan_prerequisites_def prod.case_eq_if)
qed

lemma plan_readonly:
  assumes "gs_is_investigation shape \<or> gs_is_review shape" "\<not> gs_changes_code shape"
  shows "all_tasks (\<lambda>t. ts_risk (tk_spec t) = ReadOnly) (plan_graph v fresh shape goal)"
proof -
  let ?P = "\<lambda>t. ts_risk (tk_spec t) = ReadOnly"
  have pre: "all_tasks ?P (fst (snd (plan_prerequisites fresh shape goal)))"
    by (rule all_tasks_prerequisites) (auto simp: new_task_def spec_builders)
  show ?thesis
    using assms by (auto simp: plan_draft_def prod.case_eq_if new_task_def spec_builders intro!: all_tasks_push pre)
qed

text \<open>Every task but the inspection waits for another one.\<close>

definition waits :: "(nat \<Rightarrow> task_id) \<Rightarrow> task \<Rightarrow> bool" where
  "waits fresh t \<longleftrightarrow> tk_status t = Pending \<and> (tk_id t = fresh 0 \<or> deps t \<noteq> [])"

lemma waits_push:
  "all_tasks (waits fresh) (fst d) \<Longrightarrow> after \<noteq> [] \<Longrightarrow> all_tasks (waits fresh) (fst (snd (push fresh spec after d)))"
  by (rule all_tasks_push) (simp_all add: waits_def new_task_def)

lemma plan_waits: "all_tasks (waits fresh) (plan_graph v fresh shape goal)"
proof -
  have pre: "all_tasks (waits fresh) (fst (snd (plan_prerequisites fresh shape goal)))"
    by (rule all_tasks_prerequisites) (auto simp: waits_def new_task_def)
  have "fst (plan_prerequisites fresh shape goal) \<noteq> []"
    by (simp add: plan_prerequisites_def prod.case_eq_if)
  then show ?thesis
    using pre by (auto simp: plan_draft_def plan_changes_def prod.case_eq_if Let_def intro!: waits_push)
qed

text \<open>A graph nothing has been tried on yet, which every plan is, whatever ids it draws.\<close>

definition untried_graph :: "task_graph \<Rightarrow> bool" where
  "untried_graph g \<longleftrightarrow> graph_wf g \<and> all_tasks (\<lambda>t. tk_status t = Pending \<and> tk_attempts t = []) g"

lemma untried_push: "untried_graph (fst d) \<Longrightarrow> untried_graph (fst (snd (push fresh spec after d)))"
  unfolding untried_graph_def
  by (intro conjI all_tasks_push) (auto simp: push_def Let_def graph_wf_add new_task_def)

lemma plan_untried: "untried_graph (plan_graph v fresh shape goal)"
proof -
  have "untried_graph empty_graph" by (simp add: untried_graph_def graph_wf_empty all_tasks_empty)
  then have "untried_graph (fst (snd (plan_prerequisites fresh shape goal)))"
    by (simp add: plan_prerequisites_def prod.case_eq_if untried_push)
  then show ?thesis
    by (simp add: plan_draft_def plan_changes_def prod.case_eq_if Let_def untried_push)
qed

lemma push_get_old:
  "fresh (snd d) \<noteq> i \<Longrightarrow> graph_get (fst (snd (push fresh spec after d))) i = graph_get (fst d) i"
  by (auto simp: push_def Let_def graph_get_add new_task_def)

lemma push_count: "snd (snd (push fresh spec after d)) = Suc (snd d)"
  by (simp add: push_def Let_def)

text \<open>The inspection keeps its place while the plan grows.\<close>

definition has_inspection :: "(nat \<Rightarrow> task_id) \<Rightarrow> string \<Rightarrow> draft \<Rightarrow> bool" where
  "has_inspection fresh goal d \<longleftrightarrow> 0 < snd d \<and> graph_get (fst d) (fresh 0) = Some (new_task (fresh 0) (inspect_spec goal))"

lemma has_inspection_push:
  "inj fresh \<Longrightarrow> has_inspection fresh goal d \<Longrightarrow> has_inspection fresh goal (snd (push fresh spec after d))"
  by (auto simp: has_inspection_def push_count push_get_old inj_eq)

lemma plan_has_inspection:
  assumes inj: "inj fresh"
  shows "graph_get (plan_graph v fresh shape goal) (fresh 0) = Some (new_task (fresh 0) (inspect_spec goal))"
proof -
  have "has_inspection fresh goal (snd (push fresh (inspect_spec goal) [] (empty_graph, 0)))"
    by (simp add: has_inspection_def push_def Let_def graph_get_add new_task_def inspect_no_deps)
  then have pre: "has_inspection fresh goal (snd (plan_prerequisites fresh shape goal))"
    by (simp add: plan_prerequisites_def prod.case_eq_if has_inspection_push [OF inj])
  then have "has_inspection fresh goal (plan_draft v fresh shape goal)"
    by (simp add: plan_draft_def plan_changes_def prod.case_eq_if Let_def has_inspection_push [OF inj])
  then show ?thesis by (simp add: has_inspection_def)
qed

lemma plan_ready:
  assumes inj: "inj fresh"
  shows "ready_tasks (plan_graph v fresh shape goal) = [new_task (fresh 0) (inspect_spec goal)]"
proof -
  let ?g = "plan_graph v fresh shape goal" and ?t = "new_task (fresh 0) (inspect_spec goal)"
  have wf: "graph_wf ?g" using plan_graph_valid [OF inj] by (simp add: valid_graph_def)
  have w: "waits fresh t" if "graph_get ?g i = Some t" for i t
    using plan_waits that unfolding all_tasks_def by blast
  have "set (ready_tasks ?g) = {?t}"
  proof (intro set_eqI iffI)
    fix t assume "t \<in> set (ready_tasks ?g)"
    then have t: "graph_get ?g (tk_id t) = Some t"
      and d: "\<forall>d \<in> set (deps t). \<exists>t'. graph_get ?g d = Some t' \<and> tk_status t' = Completed"
      by (auto simp: set_ready_tasks [OF wf])
    have "deps t = []"
    proof (rule ccontr)
      assume "deps t \<noteq> []"
      then obtain t' where "graph_get ?g (hd (deps t)) = Some t'" "tk_status t' = Completed"
        using d hd_in_set by blast
      with w show False by (auto simp: waits_def)
    qed
    then have "tk_id t = fresh 0" using w [OF t] by (simp add: waits_def)
    with t plan_has_inspection [OF inj] show "t \<in> {?t}" by simp
  next
    fix t assume "t \<in> {?t}"
    then show "t \<in> set (ready_tasks ?g)"
      using plan_has_inspection [OF inj] by (simp add: set_ready_tasks [OF wf] new_task_def)
  qed
  moreover have "distinct (map tk_id (ready_tasks ?g))"
    using distinct_graph_iter [OF wf]
    by (simp add: ready_tasks_def distinct_map distinct_filter distinct_sort inj_on_def)
  ultimately show ?thesis
    by (cases "ready_tasks ?g"; cases "tl (ready_tasks ?g)") (auto simp: distinct_map)
qed

section \<open>Re-planning\<close>

lemma split_task_get:
  assumes "fresh 0 \<noteq> fresh 1" "fresh 0 \<notin> nodes g" "fresh 1 \<notin> nodes g"
  shows "graph_get (split_task fresh failed g) i =
    (if i = fresh 1 then Some ((new_task (fresh 1) ((half_spec (tk_spec failed) '' (part 2 of 2: complete the remaining work)'')
         \<lparr>ts_dependencies := [fresh 0]\<rparr>))\<lparr>tk_parent_id := Some (tk_id failed)\<rparr>)
     else if i = fresh 0 then Some ((new_task (fresh 0)
         (half_spec (tk_spec failed) '' (part 1 of 2: narrow the scope to the smallest change)''))\<lparr>tk_parent_id := Some (tk_id failed)\<rparr>)
     else if i = tk_id failed then map_option (\<lambda>t. t\<lparr>tk_status := Skipped\<rparr>) (graph_get g i)
     else graph_get g i)"
  by (simp add: split_task_def Let_def graph_get_add graph_get_update new_task_def)

lemma valid_graph_update:
  assumes "valid_graph g" "\<And>t. tk_id (f t) = tk_id t" "\<And>t. deps (f t) = deps t"
  shows "valid_graph (graph_update i f g)"
proof -
  have g: "gdeps (graph_update i f g) j = gdeps g j" for j
    by (cases "graph_get g j") (auto simp: gdeps_def graph_get_update assms(3))
  have n: "nodes (graph_update i f g) = nodes g" by (auto simp: nodes_def graph_get_update)
  have e: "dep_edges (graph_update i f g) = dep_edges g" by (simp add: dep_edges_def g)
  show ?thesis using assms(1,2) by (simp add: valid_graph_def closed_deps_def g n e graph_wf_update)
qed

lemma split_task_valid:
  assumes "valid_graph g" "fresh 0 \<noteq> fresh 1" "fresh 0 \<notin> nodes g" "fresh 1 \<notin> nodes g"
    and "set (deps failed) \<subseteq> nodes g" "distinct (deps failed)"
  shows "valid_graph (split_task fresh failed g)"
proof -
  let ?g = "graph_update (tk_id failed) (\<lambda>t. t\<lparr>tk_status := Skipped\<rparr>) g"
  have "valid_graph ?g" using assms(1) by (rule valid_graph_update) simp_all
  moreover have "nodes ?g = nodes g" by (auto simp: nodes_def graph_get_update)
  ultimately show ?thesis
    using assms(2-) by (auto simp: split_task_def Let_def nodes_add new_task_def half_spec_def intro!: valid_graph_add)
qed

lemma split_task_strands:
  assumes "graph_wf g" "fresh 0 \<noteq> fresh 1" "fresh 0 \<notin> nodes g" "fresh 1 \<notin> nodes g"
    and "graph_get g (tk_id failed) = Some failed" "graph_get g i = Some t" "tk_id failed \<in> set (deps t)" "i \<noteq> tk_id failed"
  shows "graph_get (split_task fresh failed g) i = Some t \<and> \<not> deps_completed (split_task fresh failed g) t"
proof -
  have "i \<noteq> fresh 0" "i \<noteq> fresh 1" "tk_id failed \<noteq> fresh 0" "tk_id failed \<noteq> fresh 1"
    using assms by (auto simp: nodes_def)
  moreover from this have "graph_get (split_task fresh failed g) (tk_id failed) = Some (failed\<lparr>tk_status := Skipped\<rparr>)"
    using assms(5) by (simp add: split_task_get [OF assms(2-4)])
  then have "\<not> deps_completed (split_task fresh failed g) t"
    using assms(7) by (auto simp: deps_completed_def list_all_iff intro!: bexI [of _ "tk_id failed"])
  ultimately show ?thesis using assms(6,8) by (simp add: split_task_get [OF assms(2-4)])
qed

end
