(* ===== verification/Events.thy ===== *)
theory Events
  imports Task
begin

text \<open>
  \<open>cuma-core/src/event.rs\<close>: what the harness announces. The bus is the list of everything
  published, in order; the time stamp of an event and the buffers of the subscribers, which only
  they can see, are left out.
\<close>

datatype event_kind =
    SessionStarted string
  | SessionCompleted bool
  | TaskPlanned nat
  | TaskCreated string
  | TaskStatusChanged task_status
  | TaskCompletedEv token_usage
  | TaskFailedEv string
  | TaskSkippedEv task_id
  | AgentSelected agent_id "model_id option" f64 string
  | RoutingFailed string
  | AgentStarted agent_id
  | AgentOutputReceived string
  | AgentFailed agent_id error_class string
  | RetryScheduled u32 u64 string
  | FallbackSelected agent_id agent_id string
  | CircuitBreakerChanged agent_id string
  | HandoffPerformed agent_id agent_id
  | SkillInstalled string string
  | SkillRejected string string
  | UsageRecorded token_usage "f64 option"

record event =
  ev_session_id :: session_id
  ev_task_id :: "task_id option"
  ev_attempt_id :: "attempt_id option"
  ev_kind :: event_kind

definition session_event :: "session_id \<Rightarrow> event_kind \<Rightarrow> event" where
  "session_event s k = \<lparr>ev_session_id = s, ev_task_id = None, ev_attempt_id = None, ev_kind = k\<rparr>"

definition task_event :: "session_id \<Rightarrow> task_id \<Rightarrow> event_kind \<Rightarrow> event" where
  "task_event s t k = \<lparr>ev_session_id = s, ev_task_id = Some t, ev_attempt_id = None, ev_kind = k\<rparr>"

definition with_attempt :: "event \<Rightarrow> attempt_id \<Rightarrow> event" where
  "with_attempt e a = e\<lparr>ev_attempt_id := Some a\<rparr>"

end
