(* ===== verification/Task_Run.thy ===== *)
theory Task_Run
  imports Executor
begin

text \<open>
  What one task of a wave can and cannot do, whatever the other tasks do to the shared state
  between its steps: it only touches its own row of its copy of the graph (until a planner replaces
  the graph), it makes no more attempts than the retry policy allows, a target it has abandoned is
  not chosen again, every step brings it closer to its end, and where it ends its row says so.
\<close>

section \<open>Only the own row changes\<close>

definition same_plan :: "task \<Rightarrow> task \<Rightarrow> bool" where
  "same_plan t t' \<longleftrightarrow> tk_id t' = tk_id t \<and> tk_spec t' = tk_spec t \<and> tk_parent_id t' = tk_parent_id t"

definition only_row :: "task_id \<Rightarrow> task_graph \<Rightarrow> task_graph \<Rightarrow> bool" where
  "only_row i g g' \<longleftrightarrow> (\<exists>f. g' = graph_update i f g \<and> (\<forall>t. same_plan t (f t)))"

lemma graph_update_update: "graph_update i f (graph_update i h g) = graph_update i (\<lambda>t. f (h t)) g"
  by (simp add: graph_update_def bt_modify_def)

lemma graph_update_id: "graph_update i (\<lambda>t. t) g = g"
  by (cases g) (auto simp: graph_update_def bt_modify_def intro: map_idI)

lemma only_row_refl [simp]: "only_row i g g"
  unfolding only_row_def by (rule exI [of _ "\<lambda>t. t"]) (simp add: graph_update_id same_plan_def)

lemma only_row_update:
  assumes "only_row i g g'" "\<And>t. same_plan t (f t)"
  shows "only_row i g (graph_update i f g')"
proof -
  obtain h where "g' = graph_update i h g" "\<forall>t. same_plan t (h t)" using assms(1) by (auto simp: only_row_def)
  with assms(2) show ?thesis unfolding only_row_def
    by (intro exI [of _ "\<lambda>t. f (h t)"]) (simp add: graph_update_update same_plan_def)
qed

lemma only_row_get_other: "only_row i g g' \<Longrightarrow> j \<noteq> i \<Longrightarrow> graph_get g' j = graph_get g j"
  by (auto simp: only_row_def graph_get_update)

lemma only_row_get_own: "only_row i g g' \<Longrightarrow> graph_get g i = Some t \<Longrightarrow> \<exists>t'. graph_get g' i = Some t' \<and> same_plan t t'"
  by (auto simp: only_row_def graph_get_update)

lemma only_row_len: "only_row i g g' \<Longrightarrow> graph_len g' = graph_len g"
  by (auto simp: only_row_def graph_len_def graph_update_def bt_modify_def)

definition attempts_of :: "task_id \<Rightarrow> task_graph \<Rightarrow> nat" where
  "attempts_of i g = (case graph_get g i of Some t \<Rightarrow> attempt_count t | None \<Rightarrow> 0)"

definition status_of :: "task_id \<Rightarrow> task_graph \<Rightarrow> task_status option" where
  "status_of i g = map_option tk_status (graph_get g i)"

lemma attempts_of_update:
  "(\<And>t. tk_attempts (f t) = tk_attempts t) \<Longrightarrow> attempts_of i (graph_update i f g) = attempts_of i g"
  by (auto simp: attempts_of_def graph_get_update attempt_count_def split: option.splits)

section \<open>The invariant of a task's run\<close>

text \<open>\<open>rp_max_attempts\<close> as a number.\<close>

definition budget :: "orchestrator \<Rightarrow> nat" where
  "budget oc = unat (rp_max_attempts (oc_retry_policy oc))"

text \<open>The graph a planner gave in exchange for the one the task was working on.\<close>

definition replanned :: "orchestrator \<Rightarrow> task_id \<Rightarrow> task_graph \<Rightarrow> task_graph \<Rightarrow> bool" where
  "replanned oc i g0 g \<longleftrightarrow>
     (\<exists>g1 t reason revised. only_row i g0 g1 \<and> graph_get g1 i = Some t \<and>
        oc_replan oc g1 t reason = Inr (Some revised) \<and> only_row i revised g)"

text \<open>How a run may end: completed, failed, or failed with the planner's own error.\<close>

definition ends_well :: "task_id \<Rightarrow> bool result \<Rightarrow> task_graph \<Rightarrow> bool" where
  "ends_well i r g \<longleftrightarrow> (case r of
     Inr True \<Rightarrow> status_of i g = Some Completed
   | Inr False \<Rightarrow> status_of i g = Some Failed
   | Inl e \<Rightarrow> True)"

definition row_ok :: "orchestrator \<Rightarrow> task_id \<Rightarrow> task_graph \<Rightarrow> task_graph \<Rightarrow> bool" where
  "row_ok oc i g0 g \<longleftrightarrow> only_row i g0 g \<and> attempts_of i g \<le> max (attempts_of i g0) (budget oc)"

definition settled :: "orchestrator \<Rightarrow> task_id \<Rightarrow> task_graph \<Rightarrow> bool result \<Rightarrow> task_graph \<Rightarrow> bool" where
  "settled oc i g0 r g \<longleftrightarrow> row_ok oc i g0 g \<and> ends_well i r g \<or> replanned oc i g0 g"

definition phase_ok :: "orchestrator \<Rightarrow> task_id \<Rightarrow> task_graph \<Rightarrow> phase \<Rightarrow> bool" where
  "phase_ok oc i g0 ph \<longleftrightarrow> (case ph of
     Starting g \<Rightarrow> g = g0
   | Routing st \<Rightarrow> row_ok oc i g0 (es_graph st)
   | Invoking t a m rq st \<Rightarrow> row_ok oc i g0 (es_graph st) \<and> attempts_of i (es_graph st) < budget oc
   | Settling r st \<Rightarrow> settled oc i g0 r (es_graph st)
   | Finished r g \<Rightarrow> settled oc i g0 r g)"

lemma row_ok_update:
  assumes "row_ok oc i g0 g" "\<And>t. same_plan t (f t)"
    "attempts_of i (graph_update i f g) \<le> max (attempts_of i g0) (budget oc)"
  shows "row_ok oc i g0 (graph_update i f g)"
  using assms only_row_update by (simp add: row_ok_def)

lemma row_ok_status:
  "row_ok oc i g0 g \<Longrightarrow> (\<And>t. same_plan t (f t)) \<Longrightarrow> (\<And>t. tk_attempts (f t) = tk_attempts t) \<Longrightarrow>
   row_ok oc i g0 (graph_update i f g)"
  using row_ok_update [of oc i g0 g f] attempts_of_update [of f i g] by (simp add: row_ok_def)

lemma status_of_update: "graph_get g i = Some t \<Longrightarrow> status_of i (graph_update i f g) = Some (tk_status (f t))"
  by (simp add: status_of_def graph_get_update)

lemma row_ok_get: "row_ok oc i g0 g \<Longrightarrow> graph_get g0 i = Some t0 \<Longrightarrow> \<exists>t. graph_get g i = Some t"
  using only_row_get_own [of i g0 g t0] by (auto simp: row_ok_def)

lemma fail_task_settled:
  assumes "row_ok oc i g0 g" "graph_get g0 i = Some t0"
  shows "settled oc i g0 (Inr False) (fst (fail_task s i reason (g, sh)))"
proof -
  obtain t where "graph_get g i = Some t" using row_ok_get [OF assms] by blast
  then show ?thesis using row_ok_status [OF assms(1), of "\<lambda>t. t\<lparr>tk_status := Failed\<rparr>"]
    by (auto simp: fail_task_def settled_def ends_well_def same_plan_def status_of_update)
qed

section \<open>Each step keeps it and comes closer to the end\<close>

text \<open>Two steps per remaining attempt, one to notice an exhausted budget, one to settle.\<close>

definition steps_left :: "orchestrator \<Rightarrow> task_id \<Rightarrow> phase \<Rightarrow> nat" where
  "steps_left oc i ph = (case ph of
     Starting g \<Rightarrow> 2 * budget oc + 3
   | Routing st \<Rightarrow> 2 * (budget oc - attempts_of i (es_graph st)) + 2
   | Invoking t a m rq st \<Rightarrow> 2 * (budget oc - attempts_of i (es_graph st)) + 1
   | Settling r st \<Rightarrow> 1
   | Finished r g \<Rightarrow> 0)"

definition proper_task :: "task_id \<Rightarrow> task_graph \<Rightarrow> bool" where
  "proper_task i g \<longleftrightarrow> (\<exists>t. graph_get g i = Some t) \<and> attempts_of i g < 2 ^ 32"

lemma es_graph_deliver [simp]: "es_graph (fst (deliver_handoff oc s i a st sh)) = es_graph st"
  by (auto simp: deliver_handoff_def Let_def split: option.splits)

lemma budget_lt: "budget oc < 2 ^ 32"
  unfolding budget_def using unat_lt_len [of "rp_max_attempts (oc_retry_policy oc)"] by simp

lemma within_budget:
  assumes "row_ok oc i g0 g" "proper_task i g0" "graph_get g i = Some t"
    "\<not> rp_max_attempts (oc_retry_policy oc) \<le> of_nat (attempt_count t)"
  shows "attempts_of i g < budget oc"
proof -
  have "attempt_count t < 2 ^ 32"
    using assms(1-3) budget_lt [of oc] by (auto simp: row_ok_def attempts_of_def proper_task_def)
  then have "unat (of_nat (attempt_count t) :: u32) = attempt_count t"
    by (simp add: unat_of_nat take_bit_eq_mod)
  with assms(3,4) show ?thesis by (simp add: attempts_of_def budget_def word_le_nat_alt)
qed

text \<open>A pass that starts either fails the task or hands it to the agent the router selected.\<close>

abbreviation run_on :: "agent_id \<Rightarrow> model_id option \<Rightarrow> task \<Rightarrow> task" where
  "run_on a m t \<equiv> t\<lparr>tk_status := Running, tk_assigned_agent := Some a, tk_assigned_model := m\<rparr>"

lemma begin_pass_cases:
  assumes t: "graph_get (es_graph st) i = Some t"
  obtains (fails) reason sh1 where
      "begin_pass oc s i te st sh = (Settling (Inr False) (st\<lparr>es_graph := fst (fail_task s i reason (es_graph st, sh1))\<rparr>),
         snd (fail_task s i reason (es_graph st, sh1)))"
  | (invokes) d sh1 rq st' sh' where
      "\<not> rp_max_attempts (oc_retry_policy oc) \<le> of_nat (attempt_count t)"
      "route_task oc (ae_route_clock (te_attempt te (es_pass st))) t (es_abandoned st) sh = (Inr d, sh1)"
      "begin_pass oc s i te st sh =
         (Invoking t (cd_agent_id (rd_selected d)) (cd_model_id (rd_selected d)) rq st', sh')"
      "es_graph st' = graph_update i (run_on (cd_agent_id (rd_selected d)) (cd_model_id (rd_selected d))) (es_graph st)"
proof (cases "rp_max_attempts (oc_retry_policy oc) \<le> of_nat (attempt_count t)")
  case True
  with t show ?thesis by (intro fails [of "''retry budget exhausted''" sh]) (simp add: begin_pass_def Let_def case_prod_beta)
next
  case False
  obtain r sh1 where r: "route_task oc (ae_route_clock (te_attempt te (es_pass st))) t (es_abandoned st) sh = (r, sh1)"
    by force
  show ?thesis
  proof (cases r)
    case (Inl err)
    with False t r show ?thesis
      by (intro fails [of "display_error err" "publish (task_event s i (RoutingFailed (display_error err))) sh1"])
         (simp add: begin_pass_def Let_def case_prod_beta)
  next
    case (Inr d)
    show ?thesis
      by (rule invokes [OF False r [unfolded Inr]])
         (use False t r Inr in \<open>simp add: begin_pass_def Let_def case_prod_beta\<close>, simp)
  qed
qed

lemma begin_pass_ok:
  assumes ok: "phase_ok oc i g0 (Routing st)" and pt: "proper_task i g0"
  shows "phase_ok oc i g0 (fst (begin_pass oc s i te st sh)) \<and>
    steps_left oc i (fst (begin_pass oc s i te st sh)) < steps_left oc i (Routing st)"
proof -
  have row: "row_ok oc i g0 (es_graph st)" using ok by (simp add: phase_ok_def)
  obtain t0 where t0: "graph_get g0 i = Some t0" using pt by (auto simp: proper_task_def)
  obtain t where t: "graph_get (es_graph st) i = Some t" using row_ok_get [OF row t0] by blast
  from t show ?thesis
  proof (cases rule: begin_pass_cases [where oc = oc and s = s and te = te and sh = sh])
    case fails
    then show ?thesis using fail_task_settled [OF row t0] by (simp add: phase_ok_def steps_left_def)
  next
    case (invokes d sh1 rq st' sh')
    have "row_ok oc i g0 (es_graph st')" unfolding invokes(4)
      by (rule row_ok_status [OF row]) (simp_all add: same_plan_def)
    moreover have "attempts_of i (es_graph st') = attempts_of i (es_graph st)"
      unfolding invokes(4) by (rule attempts_of_update) simp
    ultimately show ?thesis
      using invokes(3) within_budget [OF row pt t invokes(1)] by (simp add: phase_ok_def steps_left_def)
  qed
qed

text \<open>What the draw of a delay needs: a ceiling the floating-point arithmetic represents, a jitter
  fraction that is a number, a random source that answers within the range it is given.\<close>

definition policy_ok :: "orchestrator \<Rightarrow> bool" where
  "policy_ok oc \<longleftrightarrow> 2 * unat (bo_max_ms (rp_backoff (oc_retry_policy oc))) \<le> 2 ^ 53
     \<and> bo_jitter (rp_backoff (oc_retry_policy oc)) \<noteq> NaN"

definition sound_env :: "task_env \<Rightarrow> bool" where
  "sound_env te \<longleftrightarrow> (\<forall>k. ranged (ae_random (te_attempt te k)))"

lemma policy_ok_new: "policy_ok (new_orchestrator r l p rp w b c)"
  by (simp add: policy_ok_def new_orchestrator_def with_max_attempts_def default_retry_policy_def default_backoff_def)

abbreviation push_attempt :: "execution_outcome \<Rightarrow> task \<Rightarrow> task" where
  "push_attempt out t \<equiv> t\<lparr>tk_attempts := tk_attempts t @ [out]\<rparr>"

abbreviation complete_with :: "execution_outcome \<Rightarrow> task \<Rightarrow> task" where
  "complete_with out t \<equiv> t\<lparr>tk_artifacts := tk_artifacts t @ eo_changed_files out,
     tk_attempts := tk_attempts t @ [out], tk_status := Completed\<rparr>"

lemma on_failure_cases:
  assumes row: "graph_get (es_graph st) i = Some row" and pol: "policy_ok oc" and rnd: "ranged (ae_random env)"
  obtains alternative d st1 sh1 where
    "on_failure pow oc s i env a m cls reason recorded st sh =
       Some (react oc s i (push_attempt recorded row) a m alternative d st1 sh1)"
    "decide pow (ae_random env) (oc_retry_policy oc) cls (of_nat (Suc (attempt_count row))) (es_on_target st + 1)
       (alternative \<noteq> None) = Some d"
    "st1 = st\<lparr>es_graph := graph_update i (push_attempt recorded) (es_graph st),
       es_on_target := es_on_target st + 1, es_pass := Suc (es_pass st)\<rparr>"
proof -
  let ?t = "push_attempt recorded row"
  obtain probe sh1 where probe: "route_task oc (ae_probe_clock env) ?t (es_abandoned st @ [(a, m)])
      (note_failure oc s i env a m cls reason sh) = (probe, sh1)" by force
  let ?alt = "case probe of Inr d \<Rightarrow> Some d | Inl _ \<Rightarrow> None"
  have count: "attempt_count ?t = Suc (attempt_count row)" by (simp add: attempt_count_def)
  obtain d where "decide pow (ae_random env) (oc_retry_policy oc) cls (of_nat (Suc (attempt_count row)))
      (es_on_target st + 1) (?alt \<noteq> None) = Some d"
    using decide_total [of "oc_retry_policy oc" "ae_random env"] pol rnd unfolding policy_ok_def by blast
  with row probe count show ?thesis
    by (intro that [of ?alt d "st\<lparr>es_graph := graph_update i (push_attempt recorded) (es_graph st),
         es_on_target := es_on_target st + 1, es_pass := Suc (es_pass st)\<rparr>" sh1])
       (simp_all add: on_failure_def Let_def graph_get_update del: of_nat_Suc)
qed

lemma end_pass_cases:
  assumes row: "graph_get (es_graph st) i = Some row" and pol: "policy_ok oc" and snd: "sound_env te"
  obtains (completes) out sh' where
      "end_pass pow oc s i te t a m rq st sh =
         Some (Settling (Inr True) (st\<lparr>es_graph := graph_update i (complete_with out) (es_graph st)\<rparr>), sh')"
      "snd (invoke_adapter oc (te_attempt te (es_pass st)) a rq) = Inr out" "eo_success out"
  | (fails) cls reason recorded alternative d st1 sh1 where
      "end_pass pow oc s i te t a m rq st sh =
         Some (react oc s i (push_attempt recorded row) a m alternative d st1 sh1)"
      "failure_of (snd (invoke_adapter oc (te_attempt te (es_pass st)) a rq)) = Some (cls, reason)"
      "decide pow (ae_random (te_attempt te (es_pass st))) (oc_retry_policy oc) cls (of_nat (Suc (attempt_count row)))
         (es_on_target st + 1) (alternative \<noteq> None) = Some d"
      "st1 = st\<lparr>es_graph := graph_update i (push_attempt recorded) (es_graph st),
         es_on_target := es_on_target st + 1, es_pass := Suc (es_pass st)\<rparr>"
proof -
  let ?env = "te_attempt te (es_pass st)"
  obtain chunks r where r: "invoke_adapter oc ?env a rq = (chunks, r)" by force
  show ?thesis
  proof (cases "failure_of r")
    case None
    then obtain out where "r = Inr out" "eo_success out" by (auto simp: failure_of_def split: sum.splits if_splits)
    then show ?thesis using None r completes [of out]
      by (simp add: end_pass_def Let_def on_success_def outcome_of_def)
  next
    case (Some f)
    obtain cls reason where f: "f = (cls, reason)" by force
    have rnd: "ranged (ae_random ?env)" using snd by (simp add: sound_env_def)
    obtain env recorded sh0 where e: "end_pass pow oc s i te t a m rq st sh =
        on_failure pow oc s i ?env a m cls reason recorded st sh0"
      using Some r f by (simp add: end_pass_def Let_def)
    show ?thesis
      by (rule on_failure_cases [OF row pol rnd, of pow s a m cls reason recorded sh0])
         (rule fails [of recorded _ _ _ _ cls reason], use e Some f r in simp_all)
  qed
qed

lemma attempts_of_push: "graph_get g i = Some row \<Longrightarrow> tk_attempts (f row) = tk_attempts row @ [out] \<Longrightarrow>
    attempts_of i (graph_update i f g) = Suc (attempts_of i g)"
  by (simp add: attempts_of_def graph_get_update attempt_count_def)

lemma react_ok:
  assumes row: "row_ok oc i g0 (es_graph st)" and t0: "graph_get g0 i = Some t0"
    and t: "graph_get (es_graph st) i = Some t"
  shows "phase_ok oc i g0 (fst (react oc s i t a m alternative d st sh)) \<and>
    steps_left oc i (fst (react oc s i t a m alternative d st sh)) \<le> steps_left oc i (Routing st)"
proof -
  note failed = fail_task_settled [OF row t0]
  show ?thesis
  proof (cases d)
    case (Replan reason)
    consider e where "oc_replan oc (es_graph st) t reason = Inl e"
      | revised where "oc_replan oc (es_graph st) t reason = Inr (Some revised)"
      | "oc_replan oc (es_graph st) t reason = Inr None"
      by (metis obj_sumE option.exhaust)
    then show ?thesis
    proof cases
      case 1
      with Replan row show ?thesis by (simp add: react_def phase_ok_def settled_def ends_well_def steps_left_def)
    next
      case (2 revised)
      have "replanned oc i g0 revised"
        using row t 2 only_row_refl [of i revised] unfolding replanned_def row_ok_def by blast
      with 2 Replan show ?thesis by (simp add: react_def phase_ok_def settled_def steps_left_def)
    next
      case 3
      with Replan failed [of s reason sh] show ?thesis
        by (simp add: react_def phase_ok_def steps_left_def case_prod_beta)
    qed
  next
    case (GiveUp reason)
    with failed [of s reason sh] show ?thesis by (simp add: react_def phase_ok_def steps_left_def case_prod_beta)
  qed (use row in \<open>simp_all add: react_def phase_ok_def steps_left_def\<close>)
qed

lemma end_pass_ok:
  assumes ok: "phase_ok oc i g0 (Invoking t a m rq st)" and pt: "proper_task i g0"
    and pol: "policy_ok oc" and snd: "sound_env te"
  shows "\<exists>ph sh'. end_pass pow oc s i te t a m rq st sh = Some (ph, sh') \<and> phase_ok oc i g0 ph \<and>
    steps_left oc i ph < steps_left oc i (Invoking t a m rq st)"
proof -
  have row: "row_ok oc i g0 (es_graph st)" and left: "attempts_of i (es_graph st) < budget oc"
    using ok by (simp_all add: phase_ok_def)
  obtain t0 where t0: "graph_get g0 i = Some t0" using pt by (auto simp: proper_task_def)
  obtain r where r: "graph_get (es_graph st) i = Some r" using row_ok_get [OF row t0] by blast
  have push: "row_ok oc i g0 (graph_update i f (es_graph st)) \<and>
      attempts_of i (graph_update i f (es_graph st)) = Suc (attempts_of i (es_graph st))"
    if "tk_attempts (f r) = tk_attempts r @ [out]" "\<And>t. same_plan t (f t)" for f out
    using row_ok_update [OF row that(2)] attempts_of_push [of "es_graph st" i r f out, OF r that(1)] left by simp
  from r pol snd show ?thesis
  proof (cases rule: end_pass_cases [where pow = pow and s = s and t = t and a = a and m = m and rq = rq and sh = sh])
    case (completes out sh')
    then show ?thesis using push [of "complete_with out" out] r left
      by (simp add: phase_ok_def settled_def ends_well_def same_plan_def status_of_update steps_left_def)
  next
    case (fails cls reason recorded alternative d st1 sh1)
    have st1: "row_ok oc i g0 (es_graph st1)" "attempts_of i (es_graph st1) = Suc (attempts_of i (es_graph st))"
      using push [of "push_attempt recorded" recorded] fails(4) by (simp_all add: same_plan_def)
    have get: "graph_get (es_graph st1) i = Some (push_attempt recorded r)"
      using r fails(4) by (simp add: graph_get_update)
    have "steps_left oc i (Routing st1) < steps_left oc i (Invoking t a m rq st)"
      using st1(2) left by (simp add: steps_left_def)
    with react_ok [OF st1(1) t0 get, of s a m alternative d sh1] fails(1) show ?thesis
      by (cases "react oc s i (push_attempt recorded r) a m alternative d st1 sh1") simp
  qed
qed

lemma replanned_update: "replanned oc i g0 g \<Longrightarrow> (\<And>t. same_plan t (f t)) \<Longrightarrow> replanned oc i g0 (graph_update i f g)"
  unfolding replanned_def using only_row_update [of i _ g f] by blast

lemma settle_isolated_settled:
  assumes "settled oc i g0 r g" "proper_task i g0" "settle_isolated s i te w r g sh = (r', g', sh')"
  shows "settled oc i g0 r' g'"
proof -
  obtain path base where w: "w = (path, base)" by force
  obtain t0 where t0: "graph_get g0 i = Some t0" using assms(2) by (auto simp: proper_task_def)
  let ?arts = "\<lambda>changed t. t\<lparr>tk_artifacts := fold push_new changed (tk_artifacts t)\<rparr>"
  consider (kept) "r' = r" "g' = g"
    | (applied) changed where "r = Inr True" "r' = Inr True" "g' = graph_update i (?arts changed) g"
    | (refused) "r = Inr True" "r' = Inr False" "g' = graph_update i (\<lambda>t. t\<lparr>tk_status := Failed\<rparr>) g"
    using assms(3) unfolding w
    by (auto simp: settle_isolated_def Let_def fail_task_def split: if_splits sum.splits)
  then show ?thesis
  proof cases
    case (applied changed)
    from assms(1) consider "row_ok oc i g0 g" "status_of i g = Some Completed" | "replanned oc i g0 g"
      by (auto simp: settled_def ends_well_def applied)
    then show ?thesis
    proof cases
      case 1
      have "row_ok oc i g0 g'" unfolding applied by (rule row_ok_status [OF 1(1)]) (simp_all add: same_plan_def)
      moreover have "status_of i g' = Some Completed"
        using 1(2) by (auto simp: applied status_of_def graph_get_update)
      ultimately show ?thesis by (simp add: settled_def ends_well_def applied)
    next
      case 2
      then have "replanned oc i g0 g'" unfolding applied by (rule replanned_update) (simp add: same_plan_def)
      then show ?thesis by (simp add: settled_def)
    qed
  next
    case refused
    from assms(1) consider "row_ok oc i g0 g" | "replanned oc i g0 g" by (auto simp: settled_def)
    then show ?thesis
    proof cases
      case 1
      then show ?thesis using fail_task_settled [OF 1 t0, of s "[]" sh] by (simp add: refused fail_task_def)
    next
      case 2
      then have "replanned oc i g0 g'" unfolding refused by (rule replanned_update) (simp add: same_plan_def)
      then show ?thesis by (simp add: settled_def)
    qed
  qed (use assms(1) in simp)
qed

lemma finish_task_ok:
  assumes "phase_ok oc i g0 (Settling r st)" "proper_task i g0"
  shows "phase_ok oc i g0 (fst (finish_task s i te r st sh)) \<and> steps_left oc i (fst (finish_task s i te r st sh)) = 0"
  using assms settle_isolated_settled [OF _ assms(2), of oc r "es_graph st" s te]
  by (auto simp: finish_task_def phase_ok_def steps_left_def split: option.splits prod.splits)

lemma task_step_ok:
  assumes ok: "phase_ok oc i g0 ph" and pt: "proper_task i g0" and pol: "policy_ok oc" and snd: "sound_env te"
    and todo: "\<not> is_finished ph"
  shows "\<exists>ph' sh'. task_step pow oc s i te ph sh = Some (ph', sh') \<and> phase_ok oc i g0 ph' \<and>
    steps_left oc i ph' < steps_left oc i ph"
proof (cases ph)
  case (Starting g)
  then have "attempts_of i g \<le> max (attempts_of i g0) (budget oc)" "g = g0" using ok by (auto simp: phase_ok_def)
  with Starting show ?thesis by (auto simp: start_task_def Let_def phase_ok_def row_ok_def steps_left_def)
next
  case (Routing st)
  with begin_pass_ok [of oc i g0 st s te sh] ok pt show ?thesis by (cases "begin_pass oc s i te st sh") simp
next
  case (Invoking t a m rq st)
  with end_pass_ok [of oc i g0 t a m rq st te pow s sh] ok pt pol snd show ?thesis by simp
next
  case (Settling r st)
  with finish_task_ok [of oc i g0 r st s te sh] ok pt show ?thesis
    by (cases "finish_task s i te r st sh") (simp add: steps_left_def)
next
  case (Finished r g)
  with todo show ?thesis by (simp add: is_finished_def)
qed

section \<open>Every state a task can reach\<close>

text \<open>The shared state a step starts from is arbitrary: it is whatever the other tasks, of this wave or
  of another session, have made of it.\<close>

inductive task_reaches ::
  "(f64 \<Rightarrow> nat \<Rightarrow> f64) \<Rightarrow> orchestrator \<Rightarrow> session_id \<Rightarrow> task_id \<Rightarrow> task_env \<Rightarrow> task_graph \<Rightarrow> phase \<Rightarrow> bool"
  for pow oc s i te g0 where
  reaches_start: "task_reaches pow oc s i te g0 (Starting g0)"
| reaches_step: "task_reaches pow oc s i te g0 ph \<Longrightarrow> task_step pow oc s i te ph sh = Some (ph', sh') \<Longrightarrow>
    task_reaches pow oc s i te g0 ph'"

lemma task_reaches_ok:
  assumes "task_reaches pow oc s i te g0 ph" "proper_task i g0" "policy_ok oc" "sound_env te"
  shows "phase_ok oc i g0 ph"
  using assms(1)
proof induction
  case reaches_start
  then show ?case by (simp add: phase_ok_def)
next
  case (reaches_step ph sh ph' sh')
  show ?case
  proof (cases "is_finished ph")
    case True
    then show ?thesis using reaches_step by (cases ph) (auto simp: is_finished_def)
  next
    case False
    from task_step_ok [OF reaches_step.IH assms(2-4) False, of pow s sh] reaches_step.hyps(2) show ?thesis by simp
  qed
qed

section \<open>Whom a task is handed to\<close>

definition task_request ::
  "orchestrator \<Rightarrow> task \<Rightarrow> (agent_id \<times> model_id option) list \<Rightarrow> shared \<Rightarrow> route_request" where
  "task_request oc t abandoned sh =
     with_budget (spent_usd (sh_usage sh)) (lc_max_cost_usd (oc_limits oc))
       (excluding abandoned (new_request t (registry_snapshot_of (sh_agents sh))))"

lemma task_request_simps [simp]:
  "rq_task (task_request oc t xs sh) = t" "rq_exclude_targets (task_request oc t xs sh) = xs"
  "rq_snapshot (task_request oc t xs sh) = registry_snapshot_of (sh_agents sh)"
  "rq_spent_usd (task_request oc t xs sh) = spent_usd (sh_usage sh)"
  "rq_budget_usd (task_request oc t xs sh) = lc_max_cost_usd (oc_limits oc)"
  by (simp_all add: task_request_def with_budget_def excluding_def new_request_def)

lemma route_task_eq:
  "route_task oc clk t xs sh =
     (case route clk \<lparr>ro_config = oc_router oc, ro_history = sh_history sh\<rparr> (task_request oc t xs sh) (sh_breakers sh) of
        (d, br) \<Rightarrow> (d, sh\<lparr>sh_breakers := br\<rparr>))"
  by (simp add: route_task_def task_request_def Let_def)

lemma begin_pass_target:
  assumes "begin_pass oc s i te st sh = (Invoking t a m rq st', sh')"
  shows "\<exists>agent model. (agent, model) \<in> set (snapshot_targets (registry_snapshot_of (sh_agents sh))) \<and>
    a = ad_id agent \<and> m = map_option md_id model \<and> graph_get (es_graph st) i = Some t \<and>
    eligible (ae_route_clock (te_attempt te (es_pass st))) (oc_router oc) (sh_breakers sh)
      (task_request oc t (es_abandoned st) sh) (agent, model)"
proof -
  let ?clk = "ae_route_clock (te_attempt te (es_pass st))"
  let ?ro = "\<lparr>ro_config = oc_router oc, ro_history = sh_history sh\<rparr>"
  obtain t' where t': "graph_get (es_graph st) i = Some t'"
    using assms by (cases "graph_get (es_graph st) i") (simp_all add: begin_pass_def)
  from t' show ?thesis
  proof (cases rule: begin_pass_cases [where oc = oc and s = s and te = te and sh = sh])
    case (invokes d sh1 rq' st'' sh'')
    then have t: "t' = t" and am: "a = cd_agent_id (rd_selected d)" "m = cd_model_id (rd_selected d)"
      using assms by simp_all
    obtain br where "route ?clk ?ro (task_request oc t (es_abandoned st) sh) (sh_breakers sh) = (Inr d, br)"
      using invokes(2) by (auto simp: route_task_eq t split: prod.splits)
    from route_selected [OF this] show ?thesis using am t t' by clarsimp blast
  qed (use assms in simp)
qed

section \<open>Every attempt is accounted for\<close>

definition attempts_logged :: "shared \<Rightarrow> nat" where
  "attempts_logged sh = length (uk_records (sh_usage sh))"

definition declines_replans :: "orchestrator \<Rightarrow> bool" where
  "declines_replans oc \<longleftrightarrow> (\<forall>g t reason revised. oc_replan oc g t reason \<noteq> Inr (Some revised))"

fun phase_graph :: "phase \<Rightarrow> task_graph" where
  "phase_graph (Starting g) = g"
| "phase_graph (Routing st) = es_graph st"
| "phase_graph (Invoking t a m rq st) = es_graph st"
| "phase_graph (Settling r st) = es_graph st"
| "phase_graph (Finished r g) = g"

lemma record_call_simps [simp]:
  "sh_usage (record_call oc c sh) = sh_usage sh" "sh_agents (record_call oc c sh) = sh_agents sh"
  "sh_breakers (record_call oc c sh) = sh_breakers sh" "sh_models (record_call oc c sh) = sh_models sh"
  "sh_history (record_call oc c sh) = sh_history sh" "sh_events (record_call oc c sh) = sh_events sh"
  by (simp_all add: record_call_def)

lemma sh_usage_publish [simp]: "sh_usage (publish e sh) = sh_usage sh"
  by (simp add: publish_def)

lemma sh_usage_route [simp]: "sh_usage (snd (route_task oc clk t xs sh)) = sh_usage sh"
  by (simp add: route_task_def Let_def case_prod_beta)

lemma fail_task_simps [simp]:
  "sh_usage (snd (fail_task s i reason (g, sh))) = sh_usage sh"
  "attempts_of i (fst (fail_task s i reason (g, sh))) = attempts_of i g"
  by (simp_all add: fail_task_def attempts_of_update)

lemma sh_usage_deliver [simp]: "sh_usage (snd (deliver_handoff oc s i a st sh)) = sh_usage sh"
  by (auto simp: deliver_handoff_def Let_def split: option.splits)

lemma sh_usage_note_failure [simp]: "sh_usage (note_failure oc s i env a m cls reason sh) = sh_usage sh"
  by (auto simp: note_failure_def record_call_def Let_def case_prod_beta split: option.splits)

lemma sh_usage_chunks [simp]: "sh_usage (fold (\<lambda>c. publish (f c)) cs sh) = sh_usage sh"
  by (induction cs arbitrary: sh) simp_all

lemma attempts_logged_chunks [simp]: "attempts_logged (fold (\<lambda>c. publish (f c)) cs sh) = attempts_logged sh"
  by (simp add: attempts_logged_def)

lemma attempts_logged_record [simp]:
  "attempts_logged (record_attempt oc s t env a m tokens cost ok cls n sh) = Suc (attempts_logged sh)"
  by (simp add: attempts_logged_def record_attempt_def Let_def tracker_record_def)

lemma sh_usage_begin_pass [simp]: "sh_usage (snd (begin_pass oc s i te st sh)) = sh_usage sh"
proof (cases "graph_get (es_graph st) i")
  case (Some t)
  obtain r sh1 where "route_task oc (ae_route_clock (te_attempt te (es_pass st))) t (es_abandoned st) sh = (r, sh1)"
    by force
  moreover from this have "sh_usage sh1 = sh_usage sh" by (metis sh_usage_route snd_conv)
  ultimately show ?thesis using Some by (cases r) (simp_all add: begin_pass_def Let_def case_prod_beta)
qed (simp add: begin_pass_def)

lemma sh_usage_react [simp]: "sh_usage (snd (react oc s i t a m alternative d st sh)) = sh_usage sh"
  by (cases d) (simp_all add: react_def case_prod_beta split: option.split sum.split)

lemma attempts_of_react:
  assumes "declines_replans oc"
  shows "attempts_of i (phase_graph (fst (react oc s i t a m alternative d st sh))) = attempts_of i (es_graph st)"
proof (cases d)
  case (Replan reason)
  then show ?thesis
    using assms by (auto simp: react_def declines_replans_def case_prod_beta split: sum.split option.split)
qed (simp_all add: react_def case_prod_beta)

lemma on_failure_reacts:
  assumes "graph_get (es_graph st) i = Some row"
    and "on_failure pow oc s i env a m cls reason recorded st sh = Some (ph', sh')"
  obtains t' alt d sh1 where
    "react oc s i t' a m alt d (st\<lparr>es_graph := graph_update i (push_attempt recorded) (es_graph st),
       es_on_target := es_on_target st + 1, es_pass := Suc (es_pass st)\<rparr>) sh1 = (ph', sh')"
    "sh_usage sh1 = sh_usage sh"
proof -
  let ?t = "push_attempt recorded row"
  obtain probe sh1 where probe: "route_task oc (ae_probe_clock env) ?t (es_abandoned st @ [(a, m)])
      (note_failure oc s i env a m cls reason sh) = (probe, sh1)" by force
  then have "sh_usage sh1 = sh_usage sh" by (metis sh_usage_note_failure sh_usage_route snd_conv)
  then show ?thesis using assms probe that by (auto simp: on_failure_def Let_def graph_get_update)
qed

lemma end_pass_accounts:
  assumes "graph_get (es_graph st) i = Some row" "declines_replans oc"
    and "end_pass pow oc s i te t a m rq st sh = Some (ph', sh')"
  shows "attempts_logged sh' = Suc (attempts_logged sh)"
    "attempts_of i (phase_graph ph') = Suc (attempts_of i (es_graph st))"
proof -
  let ?env = "te_attempt te (es_pass st)"
  obtain chunks r where r: "invoke_adapter oc ?env a rq = (chunks, r)" by force
  have "attempts_logged sh' = Suc (attempts_logged sh) \<and> attempts_of i (phase_graph ph') = Suc (attempts_of i (es_graph st))"
  proof (cases "failure_of r")
    case None
    then show ?thesis using assms(1,3) r attempts_of_push [OF assms(1), of "complete_with (the (outcome_of r))" "the (outcome_of r)"]
      by (auto simp: end_pass_def Let_def on_success_def remember_success_def attempts_logged_def record_attempt_def
          tracker_record_def)
  next
    case (Some f)
    obtain cls reason where f: "f = (cls, reason)" by force
    obtain recorded sh0 where e: "on_failure pow oc s i ?env a m cls reason recorded st sh0 = Some (ph', sh')"
        and sh0: "attempts_logged sh0 = Suc (attempts_logged sh)"
      using Some r f assms(3) by (fastforce simp: end_pass_def Let_def)
    let ?g = "graph_update i (push_attempt recorded) (es_graph st)"
    let ?st = "st\<lparr>es_graph := ?g, es_on_target := es_on_target st + 1, es_pass := Suc (es_pass st)\<rparr>"
    obtain t' alt d sh1 where "react oc s i t' a m alt d ?st sh1 = (ph', sh')" and sh1: "sh_usage sh1 = sh_usage sh0"
      by (rule on_failure_reacts [OF assms(1) e])
    then have "sh_usage sh' = sh_usage sh0" "attempts_of i (phase_graph ph') = attempts_of i ?g"
      using attempts_of_react [OF assms(2), of i s t' a m alt d ?st sh1] sh_usage_react [of oc s i t' a m alt d ?st sh1]
      by (cases "react oc s i t' a m alt d ?st sh1"; simp)+
    then show ?thesis using sh0 attempts_of_push [OF assms(1), of "push_attempt recorded" recorded]
      by (simp add: attempts_logged_def)
  qed
  then show "attempts_logged sh' = Suc (attempts_logged sh)"
    "attempts_of i (phase_graph ph') = Suc (attempts_of i (es_graph st))" by simp_all
qed

lemma finish_task_accounts:
  "attempts_logged (snd (finish_task s i te r st sh)) = attempts_logged sh"
  "attempts_of i (phase_graph (fst (finish_task s i te r st sh))) = attempts_of i (es_graph st)"
  by (auto simp: finish_task_def settle_isolated_def Let_def attempts_logged_def fail_task_def attempts_of_update
      split: option.splits sum.splits prod.splits if_splits)

lemma begin_pass_attempts:
  "attempts_of i (phase_graph (fst (begin_pass oc s i te st sh))) = attempts_of i (es_graph st)"
proof (cases "graph_get (es_graph st) i")
  case (Some t)
  then show ?thesis
    by (cases rule: begin_pass_cases [where oc = oc and s = s and te = te and sh = sh]) (simp_all add: attempts_of_update)
qed (simp add: begin_pass_def)

lemma task_step_accounts:
  assumes "graph_get (phase_graph ph) i = Some row" "declines_replans oc"
    and "task_step pow oc s i te ph sh = Some (ph', sh')"
  shows "attempts_logged sh' + attempts_of i (phase_graph ph) = attempts_logged sh + attempts_of i (phase_graph ph')"
proof (cases ph)
  case (Invoking t a m rq st)
  then show ?thesis using assms end_pass_accounts [of st i row oc pow s te t a m rq sh ph' sh'] by simp
next
  case (Routing st)
  have "attempts_logged (snd (begin_pass oc s i te st sh)) = attempts_logged sh" by (simp add: attempts_logged_def)
  with Routing assms(3) begin_pass_attempts [of i oc s te st sh] show ?thesis by (cases "begin_pass oc s i te st sh") simp
next
  case (Settling r st)
  with assms(3) finish_task_accounts [where s = s and i = i and te = te and r = r and st = st and sh = sh] show ?thesis by (cases "finish_task s i te r st sh") simp
qed (use assms(3) in \<open>auto simp: start_task_def Let_def attempts_logged_def split: option.splits prod.splits\<close>)

end
