(* ===== verification/Guard.thy ===== *)
theory Guard
  imports Cuma_Prelude
begin

text \<open>
  \<open>cuma-workspace/src/guard.rs\<close>: screening of shell commands. The quoting of a string in a
  reason is the standard library's escaping, an argument.
\<close>

datatype command_verdict = Allow | Deny string

definition is_allowed :: "command_verdict \<Rightarrow> bool" where
  "is_allowed v = (v = Allow)"

definition verdict_reason :: "command_verdict \<Rightarrow> string option" where
  "verdict_reason v = (case v of Allow \<Rightarrow> None | Deny r \<Rightarrow> Some r)"

definition destructive :: "(string \<times> string) list" where
  "destructive =
     [(''git reset --hard'', ''discards every uncommitted change''),
      (''git checkout -- .'', ''discards every uncommitted change''),
      (''git checkout --force'', ''discards every uncommitted change''),
      (''git clean -f'', ''deletes untracked files''),
      (''git clean -x'', ''deletes untracked and ignored files''),
      (''git push --force'', ''rewrites published history''),
      (''git push -f'', ''rewrites published history''),
      (''git branch -D'', ''deletes a branch without a merge check''),
      (''git stash drop'', ''discards stashed work''),
      (''git stash clear'', ''discards every stash''),
      (''rm -rf'', ''deletes recursively without confirmation''),
      (''rm -fr'', ''deletes recursively without confirmation''),
      (''mkfs'', ''formats a filesystem''),
      (''dd if='', ''writes raw blocks''),
      (''truncate -s 0'', ''empties a file''),
      ('':(){ :|:& };:'', ''is a fork bomb''),
      (''chmod -r 777'', ''removes every permission boundary''),
      (''shutdown'', ''halts the machine''),
      (''reboot'', ''restarts the machine'')]"

definition protected_roots :: "string list" where
  "protected_roots =
     [''/'', ''/etc'', ''/usr'', ''/bin'', ''/sbin'', ''/boot'', ''/var'', ''/sys'', ''/proc'', ''~'']"

record command_guard =
  cg_allow_destructive :: bool
  cg_allowlist :: "string list"

text \<open>The two fields of \<open>SecurityConfig\<close> the guard reads are its arguments.\<close>

definition new_guard :: "bool \<Rightarrow> string list \<Rightarrow> command_guard" where
  "new_guard allow_destructive_operations command_allowlist =
     \<lparr>cg_allow_destructive = allow_destructive_operations,
      cg_allowlist = filter (\<lambda>c. c \<noteq> []) (map (\<lambda>c. to_ascii_lowercase (trim c)) command_allowlist)\<rparr>"

definition permissive :: command_guard where
  "permissive = \<lparr>cg_allow_destructive = True, cg_allowlist = []\<rparr>"

definition normalize_command :: "string \<Rightarrow> string" where
  "normalize_command c = to_ascii_lowercase (join '' '' (split_whitespace c))"

definition delete_target :: "string \<Rightarrow> string" where
  "delete_target argument =
     (let target = trim_end_matches (CHR ''/'') argument in if target = [] then ''/'' else target)"

definition protected_target :: "(string \<Rightarrow> string) \<Rightarrow> string \<Rightarrow> string option" where
  "protected_target debug_str normalized =
     (if \<not> (prefix ''rm '' normalized \<or> str_contains normalized '' rm '') then None
      else
        map_option (\<lambda>a. debug_str (delete_target a) @ '' is outside any project'')
          (List.find (\<lambda>a. \<not> prefix ''-'' a \<and> delete_target a \<in> set protected_roots)
            (drop 1 (split_whitespace normalized))))"

definition allowlisted :: "command_guard \<Rightarrow> string \<Rightarrow> bool" where
  "allowlisted g normalized =
     (cg_allowlist g = [] \<or>
      (let binary = (case split_whitespace normalized of [] \<Rightarrow> [] | b # _ \<Rightarrow> b) in
       list_ex (\<lambda>allowed. binary = allowed \<or> prefix allowed normalized) (cg_allowlist g)))"

definition screen :: "(string \<Rightarrow> string) \<Rightarrow> command_guard \<Rightarrow> string \<Rightarrow> command_verdict" where
  "screen debug_str g command =
     (let normalized = normalize_command command in
      if normalized = [] then Deny ''the command is empty''
      else if \<not> allowlisted g normalized then
        Deny (debug_str (case split_whitespace normalized of [] \<Rightarrow> [] | b # _ \<Rightarrow> b) @
          '' is not in security.command_allowlist'')
      else if cg_allow_destructive g then Allow
      else case List.find (\<lambda>(pattern, effect). str_contains normalized pattern) destructive of
        Some (pattern, effect) \<Rightarrow>
          Deny (debug_str pattern @ '' '' @ effect @ ''; set security.allow_destructive_operations to permit it'')
      | None \<Rightarrow>
          (case protected_target debug_str normalized of Some reason \<Rightarrow> Deny reason | None \<Rightarrow> Allow))"

section \<open>What an allowed command is\<close>

lemma screen_allow_iff:
  "screen debug_str g command = Allow \<longleftrightarrow>
     (let n = normalize_command command in
      n \<noteq> [] \<and> allowlisted g n \<and>
      (cg_allow_destructive g \<or>
        (\<forall>(p, e) \<in> set destructive. \<not> str_contains n p) \<and> protected_target debug_str n = None))"
proof -
  have "List.find (\<lambda>(p, e). str_contains n p) destructive = None \<longleftrightarrow>
      (\<forall>(p, e) \<in> set destructive. \<not> str_contains n p)" for n
    by (auto simp: find_None_iff)
  note none = this
  show ?thesis
  proof (cases "List.find (\<lambda>(p, e). str_contains (normalize_command command) p) destructive")
    case None
    then show ?thesis using none [of "normalize_command command"]
      by (simp add: screen_def Let_def split: option.split)
  next
    case (Some e)
    then have "\<not> (\<forall>(p, e) \<in> set destructive. \<not> str_contains (normalize_command command) p)"
      using none [of "normalize_command command"] by simp
    with Some show ?thesis by (cases e) (simp add: screen_def Let_def)
  qed
qed

lemma protected_target_None:
  "protected_target debug_str n = None \<longleftrightarrow>
     (prefix ''rm '' n \<or> str_contains n '' rm '' \<longrightarrow>
       (\<forall>a \<in> set (drop 1 (split_whitespace n)). prefix ''-'' a \<or> delete_target a \<notin> set protected_roots))"
  by (auto simp: protected_target_def find_None_iff)

text \<open>The verdict depends on the words of the command and not on how they are spaced or cased.\<close>

lemma screen_cong:
  "normalize_command c = normalize_command d \<Longrightarrow> screen debug_str g c = screen debug_str g d"
  by (simp add: screen_def)

lemma normalize_command_no_upper: "c \<in> set (normalize_command s) \<Longrightarrow> \<not> is_ascii_upper c"
  unfolding normalize_command_def by (rule to_ascii_lowercase_no_upper)

text \<open>A pattern with an upper-case letter never matches a normalized command.\<close>

lemma upper_pattern_never_matches:
  "c \<in> set pattern \<Longrightarrow> is_ascii_upper c \<Longrightarrow> \<not> str_contains (normalize_command s) pattern"
  using not_contains_if_char normalize_command_no_upper by metis

lemma branch_pattern_dead: "\<not> str_contains (normalize_command s) ''git branch -D''"
  by (rule upper_pattern_never_matches [of "CHR ''D''"]) (simp_all add: is_ascii_upper_def)

end
