(* ===== verification/Sandbox_Config.thy ===== *)
theory Sandbox_Config
  imports Config
begin

text \<open>
  \<open>cuma-config/src/sandbox.rs\<close>: the settings of every kind of sandbox, their defaults and
  their validation. A validation is a sequence of checks of which the first that fails decides;
  \<open>checks\<close> is that sequence. \<open>debug_str\<close> is the standard library's quoted rendering
  of a string. The options of a plugin are a TOML table, which this code only carries.
\<close>

section \<open>Checks\<close>

fun checks :: "unit result list \<Rightarrow> unit result" where
  "checks [] = Inr ()"
| "checks (Inl e # _) = Inl e"
| "checks (Inr _ # cs) = checks cs"

lemma checks_ok: "checks cs = Inr () \<longleftrightarrow> (\<forall>c \<in> set cs. c = Inr ())"
  by (induction cs rule: checks.induct) auto

lemma checks_error: "checks cs = Inl e \<longleftrightarrow> (\<exists>as bs. cs = as @ Inl e # bs \<and> checks as = Inr ())"
proof (induction cs rule: checks.induct)
  case (2 e' cs)
  show ?case
  proof
    assume "checks (Inl e' # cs) = Inl e"
    then show "\<exists>as bs. Inl e' # cs = as @ Inl e # bs \<and> checks as = Inr ()" by (auto intro: exI [of _ "[]"])
  next
    assume "\<exists>as bs. Inl e' # cs = as @ Inl e # bs \<and> checks as = Inr ()"
    then obtain as bs where "Inl e' # cs = as @ Inl e # bs" "checks as = Inr ()" by blast
    then show "checks (Inl e' # cs) = Inl e" by (cases as) auto
  qed
next
  case (3 u cs)
  show ?case
  proof
    assume "checks (Inr u # cs) = Inl e"
    then obtain as bs where "cs = as @ Inl e # bs" "checks as = Inr ()" using 3 by auto
    then show "\<exists>as bs. Inr u # cs = as @ Inl e # bs \<and> checks as = Inr ()" by (auto intro: exI [of _ "Inr u # as"])
  next
    assume "\<exists>as bs. Inr u # cs = as @ Inl e # bs \<and> checks as = Inr ()"
    then obtain as bs where "Inr u # cs = as @ Inl e # bs" "checks as = Inr ()" by blast
    then show "checks (Inr u # cs) = Inl e" using 3 by (cases as) auto
  qed
qed simp

definition check :: "bool \<Rightarrow> string \<Rightarrow> unit result" where
  "check ok message = (if ok then Inr () else Inl (EConfiguration message))"

lemma check_ok [simp]: "check ok message = Inr () \<longleftrightarrow> ok"
  by (simp add: check_def)

section \<open>Characters\<close>

definition is_ascii_digit :: "char \<Rightarrow> bool" where
  "is_ascii_digit c = (let n = (of_char c :: nat) in 48 \<le> n \<and> n \<le> 57)"

definition is_ascii_lowercase :: "char \<Rightarrow> bool" where
  "is_ascii_lowercase c = (let n = (of_char c :: nat) in 97 \<le> n \<and> n \<le> 122)"

definition is_ascii_alphabetic :: "char \<Rightarrow> bool" where
  "is_ascii_alphabetic c \<longleftrightarrow> is_ascii_upper c \<or> is_ascii_lowercase c"

definition is_ascii_alphanumeric :: "char \<Rightarrow> bool" where
  "is_ascii_alphanumeric c \<longleftrightarrow> is_ascii_alphabetic c \<or> is_ascii_digit c"

section \<open>Settings\<close>

definition native_runtimes :: "string list" where
  "native_runtimes = [''ai-jail'', ''bubblewrap'', ''sandbox-exec'', ''firejail'']"

definition auto_sandbox :: string where "auto_sandbox = ''auto''"

datatype toml_value =
    TString string | TInteger int | TFloat f64 | TBoolean bool | TDatetime string
  | TArray "toml_value list" | TTable "(string \<times> toml_value) list"

type_synonym u16 = "16 word"

record native_sandbox =
  nsb_runtime :: string

record docker_sandbox =
  dsb_image :: string
  dsb_program :: string
  dsb_context :: "string option"
  dsb_runtime :: "string option"
  dsb_network :: string
  dsb_home :: string
  dsb_user :: "string option"
  dsb_memory :: "string option"
  dsb_cpus :: "string option"
  dsb_entrypoint :: "string option"
  dsb_extra_args :: "string list"

record microsandbox_sandbox =
  msb_image :: string
  msb_program :: string
  msb_cpus :: "u32 option"
  msb_memory :: "string option"
  msb_home :: string
  msb_secrets :: "(string, string list) btree"
  msb_env :: "(string, string) btree"

record arcbox_sandbox =
  asb_image :: "string option"
  asb_template :: "string option"
  asb_dockerfile :: "string option"
  asb_program :: string
  asb_cpus :: "u32 option"
  asb_memory_mib :: "u32 option"
  asb_ttl_secs :: u64
  asb_user :: "string option"

record kubernetes_sandbox =
  ksb_image :: "string option"
  ksb_warm_pool :: "string option"
  ksb_program :: string
  ksb_context :: "string option"
  ksb_kubeconfig :: "string option"
  ksb_namespace :: string
  ksb_container :: string
  ksb_runtime_class :: "string option"
  ksb_service_account :: "string option"
  ksb_ready_timeout_secs :: u64
  ksb_lifetime_secs :: u64

record e2b_sandbox =
  esb_api_url :: string
  esb_domain :: string
  esb_template :: string
  esb_api_key_ref :: "string option"
  esb_envd_scheme :: string
  esb_envd_port :: u16
  esb_timeout_secs :: u64
  esb_user :: string
  esb_internet :: bool

record opensandbox_sandbox =
  osb_server_url :: string
  osb_api_key_ref :: "string option"
  osb_image :: string
  osb_cpu :: string
  osb_memory :: string
  osb_mount_workspace :: bool
  osb_timeout_secs :: u64
  osb_tunnel_port :: u16

record wasmer_sandbox =
  wsb_program :: string
  wsb_extra_args :: "string list"

record command_sandbox =
  csb_prefix :: "string list"
  csb_probe :: "string list"
  csb_setup :: "string list"
  csb_teardown :: "string list"
  csb_isolation :: string

record plugin_sandbox =
  psb_program :: string
  psb_timeout_secs :: u64
  psb_options :: "(string \<times> toml_value) list"

datatype sandbox_settings =
    NativeSandbox native_sandbox
  | DockerSandbox docker_sandbox
  | MicrosandboxSandbox microsandbox_sandbox
  | ArcboxSandbox arcbox_sandbox
  | KubernetesSandbox kubernetes_sandbox
  | E2bSandbox e2b_sandbox
  | OpensandboxSandbox opensandbox_sandbox
  | WasmerSandbox wasmer_sandbox
  | CommandSandbox command_sandbox
  | PluginSandbox plugin_sandbox

fun sandbox_kind :: "sandbox_settings \<Rightarrow> string" where
  "sandbox_kind (NativeSandbox _) = ''native''"
| "sandbox_kind (DockerSandbox _) = ''docker''"
| "sandbox_kind (MicrosandboxSandbox _) = ''microsandbox''"
| "sandbox_kind (ArcboxSandbox _) = ''arcbox''"
| "sandbox_kind (KubernetesSandbox _) = ''kubernetes''"
| "sandbox_kind (E2bSandbox _) = ''e2b''"
| "sandbox_kind (OpensandboxSandbox _) = ''opensandbox''"
| "sandbox_kind (WasmerSandbox _) = ''wasmer''"
| "sandbox_kind (CommandSandbox _) = ''command''"
| "sandbox_kind (PluginSandbox _) = ''plugin''"

section \<open>Defaults\<close>

definition default_native :: native_sandbox where "default_native = \<lparr>nsb_runtime = auto_sandbox\<rparr>"

definition default_docker :: docker_sandbox where
  "default_docker =
     \<lparr>dsb_image = [], dsb_program = ''docker'', dsb_context = None, dsb_runtime = None, dsb_network = ''bridge'',
      dsb_home = ''/root'', dsb_user = None, dsb_memory = None, dsb_cpus = None, dsb_entrypoint = None,
      dsb_extra_args = []\<rparr>"

definition default_microsandbox :: microsandbox_sandbox where
  "default_microsandbox =
     \<lparr>msb_image = [], msb_program = ''msb'', msb_cpus = None, msb_memory = None, msb_home = ''/root'',
      msb_secrets = [], msb_env = []\<rparr>"

definition default_arcbox :: arcbox_sandbox where
  "default_arcbox =
     \<lparr>asb_image = None, asb_template = None, asb_dockerfile = None, asb_program = ''abctl'', asb_cpus = None,
      asb_memory_mib = None, asb_ttl_secs = 3600, asb_user = None\<rparr>"

definition default_kubernetes :: kubernetes_sandbox where
  "default_kubernetes =
     \<lparr>ksb_image = None, ksb_warm_pool = None, ksb_program = ''kubectl'', ksb_context = None, ksb_kubeconfig = None,
      ksb_namespace = ''default'', ksb_container = ''agent'', ksb_runtime_class = None, ksb_service_account = None,
      ksb_ready_timeout_secs = 300, ksb_lifetime_secs = 3600\<rparr>"

definition default_e2b :: e2b_sandbox where
  "default_e2b =
     \<lparr>esb_api_url = ''https://api.e2b.app'', esb_domain = ''e2b.app'', esb_template = [],
      esb_api_key_ref = Some ''E2B_API_KEY'', esb_envd_scheme = ''https'', esb_envd_port = 49983,
      esb_timeout_secs = 3600, esb_user = ''user'', esb_internet = True\<rparr>"

definition default_opensandbox :: opensandbox_sandbox where
  "default_opensandbox =
     \<lparr>osb_server_url = [], osb_api_key_ref = None, osb_image = [], osb_cpu = ''1'', osb_memory = ''2Gi'',
      osb_mount_workspace = False, osb_timeout_secs = 3600, osb_tunnel_port = 7681\<rparr>"

definition default_wasmer :: wasmer_sandbox where
  "default_wasmer = \<lparr>wsb_program = ''wasmer'', wsb_extra_args = []\<rparr>"

definition default_command :: command_sandbox where
  "default_command =
     \<lparr>csb_prefix = [], csb_probe = [], csb_setup = [], csb_teardown = [], csb_isolation = ''process''\<rparr>"

definition default_plugin :: plugin_sandbox where
  "default_plugin = \<lparr>psb_program = [], psb_timeout_secs = 120, psb_options = []\<rparr>"

section \<open>Validation\<close>

definition isolations :: "string list" where
  "isolations = [''process'', ''container'', ''microvm'', ''wasm'', ''remote'']"

definition is_env_name :: "string \<Rightarrow> bool" where
  "is_env_name name =
     (case name of
        [] \<Rightarrow> False
      | c # cs \<Rightarrow> (is_ascii_alphabetic c \<or> c = CHR ''_'') \<and> list_all (\<lambda>c. is_ascii_alphanumeric c \<or> c = CHR ''_'') cs)"

definition is_dns_label :: "string \<Rightarrow> bool" where
  "is_dns_label value \<longleftrightarrow>
     value \<noteq> [] \<and> length value \<le> 63 \<and>
     list_all (\<lambda>c. is_ascii_lowercase c \<or> is_ascii_digit c \<or> c = CHR ''-'') value \<and>
     \<not> prefix ''-'' value \<and> \<not> suffix ''-'' value"

definition plain_name :: "string \<Rightarrow> bool" where
  "plain_name name \<longleftrightarrow>
     name \<noteq> [] \<and> length name \<le> 64 \<and>
     list_all (\<lambda>c. is_ascii_alphanumeric c \<or> c = CHR ''-'' \<or> c = CHR ''_'') name"

definition sandbox_field :: "string \<Rightarrow> string \<Rightarrow> string" where
  "sandbox_field name key = ''sandboxes.'' @ name @ ''.'' @ key"

definition sb_required :: "string \<Rightarrow> string \<Rightarrow> string \<Rightarrow> unit result" where
  "sb_required name key value = check (trim value \<noteq> []) (sandbox_field name key @ '' must be set'')"

definition sb_absolute :: "(string \<Rightarrow> string) \<Rightarrow> string \<Rightarrow> string \<Rightarrow> string \<Rightarrow> unit result" where
  "sb_absolute debug_str name key value =
     check (prefix ''/'' value) (sandbox_field name key @ '' must be an absolute path, got '' @ debug_str value)"

definition sb_url :: "(string \<Rightarrow> string) \<Rightarrow> string \<Rightarrow> string \<Rightarrow> string \<Rightarrow> unit result" where
  "sb_url debug_str name key value =
     check (prefix ''http://'' value \<or> prefix ''https://'' value)
       (sandbox_field name key @ '' must be an http(s) URL, got '' @ debug_str value)"

definition sb_one_of :: "string \<Rightarrow> (string \<times> string option) list \<Rightarrow> unit result" where
  "sb_one_of name options =
     check (length (filter (\<lambda>(key, v). v \<noteq> None) options) = 1)
       (''exactly one of '' @ join '', '' (map (sandbox_field name \<circ> fst) options) @ '' must be set'')"

definition sb_positive :: "string \<Rightarrow> string \<Rightarrow> 'a::len word \<Rightarrow> unit result" where
  "sb_positive name key value = check (0 < value) (sandbox_field name key @ '' must be positive'')"

definition sb_key_ref :: "string \<Rightarrow> string option \<Rightarrow> unit result" where
  "sb_key_ref name ref =
     check (case ref of Some handle \<Rightarrow> is_env_name handle | None \<Rightarrow> True)
       (sandbox_field name ''api_key_ref'' @ '' must name a variable'')"

text \<open>Every secret is checked for its name, then for its hosts; then the first variable with a bad name.\<close>

definition sb_secret :: "string \<Rightarrow> string \<times> string list \<Rightarrow> unit result list" where
  "sb_secret name entry =
     (case entry of (variable, hosts) \<Rightarrow>
        [check (is_env_name variable) (sandbox_field name (''secrets.'' @ variable) @ '' is not a variable name''),
         check (hosts \<noteq> [] \<and> (\<forall>h \<in> set hosts. trim h \<noteq> []))
           (sandbox_field name (''secrets.'' @ variable) @ '' must name the hosts the secret may be sent to'')])"

fun sandbox_checks :: "(string \<Rightarrow> string) \<Rightarrow> string \<Rightarrow> sandbox_settings \<Rightarrow> unit result list" where
  "sandbox_checks dbg name (NativeSandbox n) =
     [check (nsb_runtime n = auto_sandbox \<or> nsb_runtime n \<in> set native_runtimes)
        (sandbox_field name ''runtime'' @ '' must be auto or one of '' @ join '', '' native_runtimes @ '', got '' @ dbg (nsb_runtime n))]"
| "sandbox_checks dbg name (DockerSandbox d) =
     [sb_required name ''image'' (dsb_image d), sb_required name ''program'' (dsb_program d),
      sb_required name ''network'' (dsb_network d), sb_absolute dbg name ''home'' (dsb_home d)]"
| "sandbox_checks dbg name (MicrosandboxSandbox m) =
     [sb_required name ''image'' (msb_image m), sb_required name ''program'' (msb_program m),
      sb_absolute dbg name ''home'' (msb_home m)]
     @ concat (map (sb_secret name) (msb_secrets m))
     @ map (\<lambda>variable. check (is_env_name variable) (sandbox_field name (''env.'' @ variable) @ '' is not a variable name''))
         (bt_keys (msb_env m))"
| "sandbox_checks dbg name (ArcboxSandbox a) =
     [sb_one_of name [(''image'', asb_image a), (''template'', asb_template a), (''dockerfile'', asb_dockerfile a)],
      sb_required name ''program'' (asb_program a), sb_positive name ''ttl_secs'' (asb_ttl_secs a)]"
| "sandbox_checks dbg name (KubernetesSandbox k) =
     [sb_one_of name [(''image'', ksb_image k), (''warm_pool'', ksb_warm_pool k)], sb_required name ''program'' (ksb_program k)]
     @ map (\<lambda>(key, value). check (is_dns_label value)
              (sandbox_field name key @ '' must be a lowercase DNS label, got '' @ dbg value))
         [(''namespace'', ksb_namespace k), (''container'', ksb_container k)]
     @ [sb_positive name ''ready_timeout_secs'' (ksb_ready_timeout_secs k),
        sb_positive name ''lifetime_secs'' (ksb_lifetime_secs k)]"
| "sandbox_checks dbg name (E2bSandbox e) =
     [sb_url dbg name ''api_url'' (esb_api_url e), sb_required name ''domain'' (esb_domain e),
      sb_required name ''template'' (esb_template e), sb_required name ''user'' (esb_user e),
      check (esb_envd_scheme e \<in> {''http'', ''https''}) (sandbox_field name ''envd_scheme'' @ '' must be http or https''),
      sb_positive name ''envd_port'' (esb_envd_port e), sb_positive name ''timeout_secs'' (esb_timeout_secs e),
      sb_key_ref name (esb_api_key_ref e)]"
| "sandbox_checks dbg name (OpensandboxSandbox s) =
     [sb_url dbg name ''server_url'' (osb_server_url s), sb_required name ''image'' (osb_image s),
      sb_required name ''cpu'' (osb_cpu s), sb_required name ''memory'' (osb_memory s),
      sb_positive name ''tunnel_port'' (osb_tunnel_port s),
      check (60 \<le> osb_timeout_secs s) (sandbox_field name ''timeout_secs'' @ '' must be at least 60''),
      sb_key_ref name (osb_api_key_ref s)]"
| "sandbox_checks dbg name (WasmerSandbox w) = [sb_required name ''program'' (wsb_program w)]"
| "sandbox_checks dbg name (CommandSandbox c) =
     [check (case csb_prefix c of word # _ \<Rightarrow> trim word \<noteq> [] | [] \<Rightarrow> False) (sandbox_field name ''prefix'' @ '' must name a program''),
      check (csb_isolation c \<in> set isolations)
        (sandbox_field name ''isolation'' @ '' must be one of '' @ join '', '' isolations)]"
| "sandbox_checks dbg name (PluginSandbox p) =
     [sb_required name ''program'' (psb_program p), sb_positive name ''timeout_secs'' (psb_timeout_secs p)]"

definition sandbox_validate :: "(string \<Rightarrow> string) \<Rightarrow> string \<Rightarrow> sandbox_settings \<Rightarrow> unit result" where
  "sandbox_validate dbg name s = checks (sandbox_checks dbg name s)"

definition is_known_sandbox :: "string \<Rightarrow> (string, sandbox_settings) btree \<Rightarrow> bool" where
  "is_known_sandbox name sandboxes \<longleftrightarrow>
     name = auto_sandbox \<or> name \<in> set native_runtimes \<or> bt_get sandboxes name \<noteq> None"

definition check_sandbox_name :: "(string \<Rightarrow> string) \<Rightarrow> string \<Rightarrow> unit result" where
  "check_sandbox_name dbg name =
     (if \<not> plain_name name then
        Inl (EConfiguration (''sandboxes.'' @ name @ '': names must be letters, digits, '' @ [CHR 0x27] @ ''-'' @ [CHR 0x27]
          @ '' or '' @ [CHR 0x27] @ ''_'' @ [CHR 0x27]))
      else if name = auto_sandbox \<or> name \<in> set native_runtimes then
        Inl (EConfiguration (''sandboxes.'' @ name @ '': '' @ dbg name @ '' is a built-in name; choose another''))
      else Inr ())"

section \<open>What is accepted\<close>

lemma check_sandbox_name_iff:
  "check_sandbox_name dbg name = Inr () \<longleftrightarrow> plain_name name \<and> name \<noteq> auto_sandbox \<and> name \<notin> set native_runtimes"
  by (simp add: check_sandbox_name_def)

text \<open>Names of variables are plain: nothing in them has to be quoted for a shell or a command line.\<close>

lemma env_name_plain: "is_env_name v \<Longrightarrow> length v \<le> 64 \<Longrightarrow> plain_name v"
  by (auto simp: is_env_name_def plain_name_def is_ascii_alphanumeric_def list_all_iff split: list.splits)

lemma sb_required_ok [simp]: "sb_required name key value = Inr () \<longleftrightarrow> trim value \<noteq> []"
  by (simp add: sb_required_def)

lemma sb_positive_ok [simp]: "sb_positive name key value = Inr () \<longleftrightarrow> 0 < value"
  by (simp add: sb_positive_def)

lemma sb_secret_ok:
  "(\<forall>c \<in> set (sb_secret name (v, hosts)). c = Inr ()) \<longleftrightarrow> is_env_name v \<and> hosts \<noteq> [] \<and> (\<forall>h \<in> set hosts. trim h \<noteq> [])"
  by (simp add: sb_secret_def)

text \<open>A secret is only ever given to hosts that are named.\<close>

lemma microsandbox_secrets_bound:
  assumes "sandbox_validate dbg name (MicrosandboxSandbox m) = Inr ()" "(v, hosts) \<in> set (msb_secrets m)"
  shows "is_env_name v \<and> hosts \<noteq> [] \<and> (\<forall>h \<in> set hosts. trim h \<noteq> [])"
proof -
  have "\<forall>c \<in> set (sb_secret name (v, hosts)). c = Inr ()"
    using assms by (auto simp: sandbox_validate_def checks_ok)
  then show ?thesis by (simp add: sb_secret_ok)
qed

text \<open>The image of an accepted ArcBox or Kubernetes sandbox comes from exactly one place.\<close>

lemma arcbox_one_source:
  "sandbox_validate dbg name (ArcboxSandbox a) = Inr () \<Longrightarrow>
   length (filter (\<lambda>v. v \<noteq> None) [asb_image a, asb_template a, asb_dockerfile a]) = 1"
  by (simp add: sandbox_validate_def checks_ok sb_one_of_def split: if_splits)

text \<open>A remote sandbox that is accepted has a lifetime: what is not removed still dies.\<close>

lemma remote_sandboxes_expire:
  "sandbox_validate dbg name (ArcboxSandbox a) = Inr () \<Longrightarrow> 0 < asb_ttl_secs a"
  "sandbox_validate dbg name (KubernetesSandbox k) = Inr () \<Longrightarrow> 0 < ksb_lifetime_secs k"
  "sandbox_validate dbg name (E2bSandbox e) = Inr () \<Longrightarrow> 0 < esb_timeout_secs e"
  "sandbox_validate dbg name (OpensandboxSandbox s) = Inr () \<Longrightarrow> 60 \<le> osb_timeout_secs s"
  by (simp_all add: sandbox_validate_def checks_ok)

text \<open>Naming the native kind is enough.\<close>

lemma native_default_accepted: "sandbox_validate dbg name (NativeSandbox default_native) = Inr ()"
  by (simp add: sandbox_validate_def default_native_def checks_ok)

end
