(* ===== verification/Config_Layers.thy ===== *)
theory Config_Layers
  imports Sandbox_Config Paths
begin

text \<open>
  The whole configuration and how it comes about: the sections of \<open>cuma-config/src/model.rs\<close>
  with their defaults and validation, the merge of a layer over another (\<open>merge.rs\<close>), the
  environment layer (\<open>env.rs\<close>) and the loading of all layers (\<open>lib.rs\<close>).

  A layer is a parsed file: TOML decoding belongs to a library, so \<open>read_layer\<close> gives for a
  path nothing when there is no such file, and otherwise the decoded configuration or an error.
  The environment is a function from names to values. Numbers are parsed from text as the standard
  library does it. A record field holds what the source's struct holds; a layer has the default in
  every field its file does not mention.
\<close>

section \<open>Numbers from text\<close>

definition digit_value :: "char \<Rightarrow> nat" where
  "digit_value c = of_char c - 48"

definition digits_value :: "string \<Rightarrow> nat" where
  "digits_value s = foldl (\<lambda>n c. 10 * n + digit_value c) 0 s"

text \<open>\<open>from_str\<close> of an unsigned type with \<open>bound\<close> values: an optional plus sign and digits.\<close>

definition parse_unsigned :: "nat \<Rightarrow> string \<Rightarrow> nat option" where
  "parse_unsigned bound s =
     (let ds = (case s of c # r \<Rightarrow> if c = CHR ''+'' then r else s | [] \<Rightarrow> [])
      in if ds = [] \<or> \<not> list_all is_ascii_digit ds \<or> bound \<le> digits_value ds then None else Some (digits_value ds))"

text \<open>\<open>f64::from_str\<close>: a sign, then \<open>inf\<close>, \<open>infinity\<close>, \<open>nan\<close> or a decimal number with
  an optional exponent, rounded to the nearest value.\<close>

definition take_sign :: "string \<Rightarrow> bool \<times> string" where
  "take_sign s =
     (case s of c # r \<Rightarrow> if c = CHR ''-'' then (True, r) else if c = CHR ''+'' then (False, r) else (False, s)
      | [] \<Rightarrow> (False, []))"

definition parse_exponent :: "string \<Rightarrow> int option" where
  "parse_exponent s =
     (case s of
        [] \<Rightarrow> Some 0
      | e # r \<Rightarrow>
          if ascii_lower e \<noteq> CHR ''e'' then None
          else case take_sign r of (neg, ds) \<Rightarrow>
            if ds = [] \<or> \<not> list_all is_ascii_digit ds then None
            else Some (if neg then - int (digits_value ds) else int (digits_value ds)))"

definition parse_decimal :: "string \<Rightarrow> rat option" where
  "parse_decimal s =
     (let whole = takeWhile is_ascii_digit s; r = dropWhile is_ascii_digit s;
          dotted = (r \<noteq> [] \<and> hd r = CHR ''.'');
          frac = (if dotted then takeWhile is_ascii_digit (tl r) else []);
          r = (if dotted then dropWhile is_ascii_digit (tl r) else r)
      in if whole = [] \<and> frac = [] then None
         else map_option (\<lambda>e. of_nat (digits_value (whole @ frac)) * 10 powi (e - int (length frac))) (parse_exponent r))"

definition parse_f64 :: "string \<Rightarrow> f64 option" where
  "parse_f64 s =
     (case take_sign s of (neg, r) \<Rightarrow>
        if to_ascii_lowercase r \<in> {''inf'', ''infinity''} then Some (if neg then NInf else PInf)
        else if to_ascii_lowercase r = ''nan'' then Some NaN
        else map_option (\<lambda>q. flit (if neg then - q else q)) (parse_decimal r))"

section \<open>The sections\<close>

record mcp_server_settings =
  mp_enabled :: bool
  mp_command :: string
  mp_args :: "string list"
  mp_env :: "(string, string) btree"
  mp_allowed_tools :: "string list"
  mp_share_with_agents :: bool

definition default_mcp_server :: mcp_server_settings where
  "default_mcp_server =
     \<lparr>mp_enabled = True, mp_command = [], mp_args = [], mp_env = [], mp_allowed_tools = [], mp_share_with_agents = False\<rparr>"

record memory_config =
  mc_enabled :: bool
  mc_backend :: string
  mc_command :: "string option"
  mc_mcp_server :: "string option"
  mc_recall_limit :: nat

definition default_memory_config :: memory_config where
  "default_memory_config =
     \<lparr>mc_enabled = False, mc_backend = ''ai-memory-cli'', mc_command = None, mc_mcp_server = None, mc_recall_limit = 8\<rparr>"

datatype rtk_mode = RtkAuto | RtkAlways | RtkNever

record rtk_config =
  rk_enabled :: rtk_mode
  rk_binary :: "string option"

definition default_rtk_config :: rtk_config where
  "default_rtk_config = \<lparr>rk_enabled = RtkAuto, rk_binary = None\<rparr>"

datatype skill_auto_install = InstallNever | InstallTrustedOnly | InstallVerified

record skills_config =
  sk_enabled :: bool
  sk_auto_install :: skill_auto_install
  sk_registries :: "string list"
  sk_install_dir :: "string option"
  sk_allow_creation :: bool
  sk_trusted_keys :: "(string, string) btree"

definition default_skills_config :: skills_config where
  "default_skills_config =
     \<lparr>sk_enabled = True, sk_auto_install = InstallTrustedOnly, sk_registries = [''builtin'', ''local''],
      sk_install_dir = None, sk_allow_creation = False, sk_trusted_keys = []\<rparr>"

record security_config =
  se_sandbox :: bool
  se_sandbox_command :: "string option"
  se_allow_destructive_operations :: bool
  se_checkpoint_before_write :: bool
  se_command_allowlist :: "string list"
  se_network_allowlist :: "string list"
  se_agent_env :: "string list"
  se_agent_writable_paths :: "string list"
  se_require_agent_sandbox :: bool
  se_agent_sandbox :: string
  se_trusted_workspaces :: "string list"
  se_a2a_server_token_refs :: "string list"

definition default_security_config :: security_config where
  "default_security_config =
     \<lparr>se_sandbox = True, se_sandbox_command = None, se_allow_destructive_operations = False,
      se_checkpoint_before_write = True, se_command_allowlist = [], se_network_allowlist = [], se_agent_env = [],
      se_agent_writable_paths = [], se_require_agent_sandbox = False, se_agent_sandbox = auto_sandbox,
      se_trusted_workspaces = [], se_a2a_server_token_refs = []\<rparr>"

record telemetry_config =
  tc_log_level :: string
  tc_json_logs :: bool
  tc_database_path :: "string option"
  tc_otlp_endpoint :: "string option"

definition default_telemetry_config :: telemetry_config where
  "default_telemetry_config =
     \<lparr>tc_log_level = ''info'', tc_json_logs = False, tc_database_path = None, tc_otlp_endpoint = None\<rparr>"

record config =
  cf_router :: router_config
  cf_agents :: "(string, agent_config) btree"
  cf_mcp :: "(string, mcp_server_settings) btree"
  cf_sandboxes :: "(string, sandbox_settings) btree"
  cf_memory :: memory_config
  cf_rtk :: rtk_config
  cf_skills :: skills_config
  cf_security :: security_config
  cf_limits :: limits_config
  cf_telemetry :: telemetry_config

definition default_config :: config where
  "default_config =
     \<lparr>cf_router = default_router_config, cf_agents = [], cf_mcp = [], cf_sandboxes = [], cf_memory = default_memory_config,
      cf_rtk = default_rtk_config, cf_skills = default_skills_config, cf_security = default_security_config,
      cf_limits = default_limits, cf_telemetry = default_telemetry_config\<rparr>"

section \<open>Validation\<close>

definition mcp_checks :: "string \<times> mcp_server_settings \<Rightarrow> unit result list" where
  "mcp_checks entry =
     (case entry of (name, server) \<Rightarrow>
        [check (plain_name name)
           (''mcp.'' @ name @ '': server names must be letters, digits, '' @ [CHR 0x27] @ ''-'' @ [CHR 0x27]
              @ '' or '' @ [CHR 0x27] @ ''_'' @ [CHR 0x27]),
         check (trim (mp_command server) \<noteq> []) (''mcp.'' @ name @ ''.command must be set'')])"

definition unknown_sandbox :: "(string \<Rightarrow> string) \<Rightarrow> string \<Rightarrow> string \<Rightarrow> string" where
  "unknown_sandbox dbg key name =
     key @ '' = '' @ dbg name @ '' is neither auto, a native runtime (ai-jail, bubblewrap, sandbox-exec, firejail) nor a [sandboxes.''
       @ name @ ''] section''"

definition agent_checks :: "(string \<Rightarrow> string) \<Rightarrow> (string, sandbox_settings) btree \<Rightarrow> string \<times> agent_config \<Rightarrow> unit result list" where
  "agent_checks dbg sandboxes entry =
     (case entry of (i, agent) \<Rightarrow>
        [check (case ac_sandbox agent of Some name \<Rightarrow> is_known_sandbox name sandboxes | None \<Rightarrow> True)
           (unknown_sandbox dbg (''agents.'' @ i @ ''.sandbox'') (case ac_sandbox agent of Some name \<Rightarrow> name | None \<Rightarrow> [])),
         check (\<forall>path \<in> set (ac_state agent). trim path \<noteq> []) (''agents.'' @ i @ ''.state has an empty path''),
         check (list_all is_env_name (ac_env agent))
           (''agents.'' @ i @ ''.env: '' @ dbg (case List.find (\<lambda>n. \<not> is_env_name n) (ac_env agent) of Some n \<Rightarrow> n | None \<Rightarrow> [])
              @ '' is not a variable name; list names, never values'')])"

definition sandboxes_checks :: "(string \<Rightarrow> string) \<Rightarrow> config \<Rightarrow> unit result list" where
  "sandboxes_checks dbg c =
     concat (map (\<lambda>(name, sandbox). [check_sandbox_name dbg name, sandbox_validate dbg name sandbox]) (cf_sandboxes c))
     @ [check (is_known_sandbox (se_agent_sandbox (cf_security c)) (cf_sandboxes c))
          (unknown_sandbox dbg ''security.agent_sandbox'' (se_agent_sandbox (cf_security c)))]
     @ concat (map (agent_checks dbg (cf_sandboxes c)) (cf_agents c))"

definition config_validate :: "(string \<Rightarrow> string) \<Rightarrow> (f64 \<Rightarrow> string) \<Rightarrow> config \<Rightarrow> unit result" where
  "config_validate dbg show_f64 c =
     checks
       ([weights_validate show_f64 (rc_weights (cf_router c)), limits_validate (cf_limits c)]
        @ concat (map mcp_checks (cf_mcp c))
        @ [check (case mc_mcp_server (cf_memory c) of Some server \<Rightarrow> bt_get (cf_mcp c) server \<noteq> None | None \<Rightarrow> True)
             (case mc_mcp_server (cf_memory c) of
                Some server \<Rightarrow> ''memory.mcp_server = '' @ dbg server @ '' names no [mcp.'' @ server @ ''] section''
              | None \<Rightarrow> [])]
        @ sandboxes_checks dbg c)"

section \<open>Merging\<close>

definition merge_field :: "'a \<Rightarrow> 'a \<Rightarrow> 'a \<Rightarrow> 'a" where
  "merge_field target source d = (if source \<noteq> d then source else target)"

definition merge_option :: "'a option \<Rightarrow> 'a option \<Rightarrow> 'a option" where
  "merge_option target source = (if source \<noteq> None then source else target)"

definition merge_collection :: "'a list \<Rightarrow> 'a list \<Rightarrow> 'a list" where
  "merge_collection target source = (if source \<noteq> [] then source else target)"

text \<open>\<open>==\<close> on floating-point numbers and on weights: not a number equals nothing.\<close>

definition feq :: "f64 \<Rightarrow> f64 \<Rightarrow> bool" where
  "feq x y \<longleftrightarrow> fle x y \<and> fle y x"

definition weights_eq :: "router_weights \<Rightarrow> router_weights \<Rightarrow> bool" where
  "weights_eq v w \<longleftrightarrow>
     feq (rw_quality v) (rw_quality w) \<and> feq (rw_cost v) (rw_cost w) \<and> feq (rw_latency v) (rw_latency w) \<and>
     feq (rw_reliability v) (rw_reliability w) \<and> feq (rw_context v) (rw_context w)"

definition merge_router :: "router_config \<Rightarrow> router_config \<Rightarrow> router_config" where
  "merge_router s other =
     (let d = default_router_config in
      \<lparr>rc_strategy = merge_field (rc_strategy s) (rc_strategy other) (rc_strategy d),
       rc_weights =
         (if \<not> weights_eq (rc_weights other) balanced_weights then rc_weights other
          else if rc_strategy other \<noteq> rc_strategy d then default_weights (rc_strategy other)
          else rc_weights s),
       rc_pin_agent = merge_option (rc_pin_agent s) (rc_pin_agent other),
       rc_pin_model = merge_option (rc_pin_model s) (rc_pin_model other),
       rc_exclude_agents = merge_collection (rc_exclude_agents s) (rc_exclude_agents other),
       rc_exclude_models = merge_collection (rc_exclude_models s) (rc_exclude_models other),
       rc_adaptive_weight =
         (if \<not> feq (rc_adaptive_weight other) (rc_adaptive_weight d) then rc_adaptive_weight other else rc_adaptive_weight s),
       rc_adaptive_min_samples =
         merge_field (rc_adaptive_min_samples s) (rc_adaptive_min_samples other) (rc_adaptive_min_samples d)\<rparr>)"

definition merge_map :: "('k::linorder, 'v) btree \<Rightarrow> ('k, 'v) btree \<Rightarrow> ('k, 'v) btree" where
  "merge_map s other = fold (\<lambda>(k, v). bt_insert k v) other s"

definition merge_memory :: "memory_config \<Rightarrow> memory_config \<Rightarrow> memory_config" where
  "merge_memory s other =
     (let d = default_memory_config in
      \<lparr>mc_enabled = merge_field (mc_enabled s) (mc_enabled other) (mc_enabled d),
       mc_backend = merge_field (mc_backend s) (mc_backend other) (mc_backend d),
       mc_command = merge_option (mc_command s) (mc_command other),
       mc_mcp_server = merge_option (mc_mcp_server s) (mc_mcp_server other),
       mc_recall_limit = merge_field (mc_recall_limit s) (mc_recall_limit other) (mc_recall_limit d)\<rparr>)"

definition merge_rtk :: "rtk_config \<Rightarrow> rtk_config \<Rightarrow> rtk_config" where
  "merge_rtk s other =
     \<lparr>rk_enabled = merge_field (rk_enabled s) (rk_enabled other) (rk_enabled default_rtk_config),
      rk_binary = merge_option (rk_binary s) (rk_binary other)\<rparr>"

definition merge_skills :: "skills_config \<Rightarrow> skills_config \<Rightarrow> skills_config" where
  "merge_skills s other =
     (let d = default_skills_config in
      \<lparr>sk_enabled = merge_field (sk_enabled s) (sk_enabled other) (sk_enabled d),
       sk_auto_install = merge_field (sk_auto_install s) (sk_auto_install other) (sk_auto_install d),
       sk_registries = merge_collection (sk_registries s) (sk_registries other),
       sk_install_dir = merge_option (sk_install_dir s) (sk_install_dir other),
       sk_allow_creation = merge_field (sk_allow_creation s) (sk_allow_creation other) (sk_allow_creation d),
       sk_trusted_keys = merge_map (sk_trusted_keys s) (sk_trusted_keys other)\<rparr>)"

definition merge_security :: "security_config \<Rightarrow> security_config \<Rightarrow> security_config" where
  "merge_security s other =
     (let d = default_security_config in
      \<lparr>se_sandbox = merge_field (se_sandbox s) (se_sandbox other) (se_sandbox d),
       se_sandbox_command = merge_option (se_sandbox_command s) (se_sandbox_command other),
       se_allow_destructive_operations =
         merge_field (se_allow_destructive_operations s) (se_allow_destructive_operations other)
           (se_allow_destructive_operations d),
       se_checkpoint_before_write =
         merge_field (se_checkpoint_before_write s) (se_checkpoint_before_write other) (se_checkpoint_before_write d),
       se_command_allowlist = merge_collection (se_command_allowlist s) (se_command_allowlist other),
       se_network_allowlist = merge_collection (se_network_allowlist s) (se_network_allowlist other),
       se_agent_env = merge_collection (se_agent_env s) (se_agent_env other),
       se_agent_writable_paths = merge_collection (se_agent_writable_paths s) (se_agent_writable_paths other),
       se_require_agent_sandbox =
         merge_field (se_require_agent_sandbox s) (se_require_agent_sandbox other) (se_require_agent_sandbox d),
       se_agent_sandbox = merge_field (se_agent_sandbox s) (se_agent_sandbox other) (se_agent_sandbox d),
       se_trusted_workspaces = merge_collection (se_trusted_workspaces s) (se_trusted_workspaces other),
       se_a2a_server_token_refs = merge_collection (se_a2a_server_token_refs s) (se_a2a_server_token_refs other)\<rparr>)"

definition merge_limits :: "limits_config \<Rightarrow> limits_config \<Rightarrow> limits_config" where
  "merge_limits s other =
     (let d = default_limits in
      \<lparr>lc_max_parallel_tasks = merge_field (lc_max_parallel_tasks s) (lc_max_parallel_tasks other) (lc_max_parallel_tasks d),
       lc_max_retries = merge_field (lc_max_retries s) (lc_max_retries other) (lc_max_retries d),
       lc_task_timeout_secs = merge_field (lc_task_timeout_secs s) (lc_task_timeout_secs other) (lc_task_timeout_secs d),
       lc_max_cost_usd = merge_option (lc_max_cost_usd s) (lc_max_cost_usd other),
       lc_max_tokens = merge_option (lc_max_tokens s) (lc_max_tokens other),
       lc_isolation = merge_field (lc_isolation s) (lc_isolation other) (lc_isolation d)\<rparr>)"

definition merge_telemetry :: "telemetry_config \<Rightarrow> telemetry_config \<Rightarrow> telemetry_config" where
  "merge_telemetry s other =
     (let d = default_telemetry_config in
      \<lparr>tc_log_level = merge_field (tc_log_level s) (tc_log_level other) (tc_log_level d),
       tc_json_logs = merge_field (tc_json_logs s) (tc_json_logs other) (tc_json_logs d),
       tc_database_path = merge_option (tc_database_path s) (tc_database_path other),
       tc_otlp_endpoint = merge_option (tc_otlp_endpoint s) (tc_otlp_endpoint other)\<rparr>)"

definition config_merge :: "config \<Rightarrow> config \<Rightarrow> config" where
  "config_merge s other =
     \<lparr>cf_router = merge_router (cf_router s) (cf_router other),
      cf_agents = merge_map (cf_agents s) (cf_agents other),
      cf_mcp = merge_map (cf_mcp s) (cf_mcp other),
      cf_sandboxes = merge_map (cf_sandboxes s) (cf_sandboxes other),
      cf_memory = merge_memory (cf_memory s) (cf_memory other),
      cf_rtk = merge_rtk (cf_rtk s) (cf_rtk other),
      cf_skills = merge_skills (cf_skills s) (cf_skills other),
      cf_security = merge_security (cf_security s) (cf_security other),
      cf_limits = merge_limits (cf_limits s) (cf_limits other),
      cf_telemetry = merge_telemetry (cf_telemetry s) (cf_telemetry other)\<rparr>"

section \<open>The environment\<close>

definition env_var :: "(string \<Rightarrow> string option) \<Rightarrow> string \<Rightarrow> string option" where
  "env_var env key = (case env key of Some v \<Rightarrow> if trim v = [] then None else Some v | None \<Rightarrow> None)"

definition split_list :: "string \<Rightarrow> string list" where
  "split_list raw = filter (\<lambda>s. s \<noteq> []) (map trim (split_char (CHR '','') raw))"

definition parse_strategy :: "(string \<Rightarrow> string) \<Rightarrow> string \<Rightarrow> routing_strategy result" where
  "parse_strategy dbg raw =
     (let name = map (\<lambda>c. if c = CHR ''_'' then CHR ''-'' else c) (to_ascii_lowercase (trim raw))
      in case map_of [(''balanced'', Balanced), (''quality-first'', QualityFirst), (''cost-first'', CostFirst),
            (''latency-first'', LatencyFirst), (''local-first'', LocalFirst), (''privacy-first'', PrivacyFirst),
            (''manual'', Manual)] name of
           Some s \<Rightarrow> Inr s
         | None \<Rightarrow> Inl (EConfiguration (''unknown routing strategy '' @ dbg name)))"

definition parse_num :: "(string \<Rightarrow> string) \<Rightarrow> (string \<Rightarrow> 'a option) \<Rightarrow> string \<Rightarrow> string \<Rightarrow> 'a result" where
  "parse_num dbg from_str raw key =
     (case from_str (trim raw) of
        Some n \<Rightarrow> Inr n
      | None \<Rightarrow> Inl (EConfiguration (key @ '' must be a number, got '' @ dbg raw)))"

definition parse_word :: "string \<Rightarrow> 'a::len word option" where
  "parse_word s = map_option of_nat (parse_unsigned (2 ^ LENGTH('a)) s)"

definition parse_bool :: "(string \<Rightarrow> string) \<Rightarrow> string \<Rightarrow> string \<Rightarrow> bool result" where
  "parse_bool dbg raw key =
     (let name = to_ascii_lowercase (trim raw)
      in if name \<in> {''1'', ''true'', ''yes'', ''on''} then Inr True
         else if name \<in> {''0'', ''false'', ''no'', ''off''} then Inr False
         else Inl (EConfiguration (key @ '' must be a boolean, got '' @ dbg name)))"

definition parse_choice :: "(string \<Rightarrow> string) \<Rightarrow> string \<Rightarrow> (string \<times> 'a) list \<Rightarrow> string \<Rightarrow> 'a result" where
  "parse_choice dbg refusal choices raw =
     (let name = to_ascii_lowercase (trim raw)
      in case map_of choices name of
           Some c \<Rightarrow> Inr c
         | None \<Rightarrow> Inl (EConfiguration (refusal @ '', got '' @ dbg name)))"

definition set_with :: "'a result \<Rightarrow> ('a \<Rightarrow> config \<Rightarrow> config) \<Rightarrow> config \<Rightarrow> config result" where
  "set_with r f c = (case r of Inr v \<Rightarrow> Inr (f v c) | Inl e \<Rightarrow> Inl e)"

definition env_overrides :: "(string \<Rightarrow> string) \<Rightarrow> (string \<times> (string \<Rightarrow> config \<Rightarrow> config result)) list" where
  "env_overrides dbg =
     [(''CUMA_ROUTER_STRATEGY'', \<lambda>raw. set_with (parse_strategy dbg raw)
         (\<lambda>s. cf_router_update (\<lambda>r. r\<lparr>rc_strategy := s, rc_weights := default_weights s\<rparr>))),
      (''CUMA_ROUTER_PIN_AGENT'', \<lambda>raw. set_with (Inr raw) (\<lambda>v. cf_router_update (rc_pin_agent_update (\<lambda>_. Some v)))),
      (''CUMA_ROUTER_PIN_MODEL'', \<lambda>raw. set_with (Inr raw) (\<lambda>v. cf_router_update (rc_pin_model_update (\<lambda>_. Some v)))),
      (''CUMA_ROUTER_EXCLUDE_AGENTS'', \<lambda>raw. set_with (Inr (split_list raw))
         (\<lambda>v. cf_router_update (rc_exclude_agents_update (\<lambda>_. v)))),
      (''CUMA_MAX_PARALLEL_TASKS'', \<lambda>raw. set_with (parse_num dbg (parse_unsigned (2 ^ 64)) raw ''CUMA_MAX_PARALLEL_TASKS'')
         (\<lambda>v. cf_limits_update (lc_max_parallel_tasks_update (\<lambda>_. v)))),
      (''CUMA_MAX_RETRIES'', \<lambda>raw. set_with (parse_num dbg parse_word raw ''CUMA_MAX_RETRIES'')
         (\<lambda>v. cf_limits_update (lc_max_retries_update (\<lambda>_. v)))),
      (''CUMA_TASK_TIMEOUT_SECS'', \<lambda>raw. set_with (parse_num dbg parse_word raw ''CUMA_TASK_TIMEOUT_SECS'')
         (\<lambda>v. cf_limits_update (lc_task_timeout_secs_update (\<lambda>_. v)))),
      (''CUMA_MAX_COST_USD'', \<lambda>raw. set_with (parse_num dbg parse_f64 raw ''CUMA_MAX_COST_USD'')
         (\<lambda>v. cf_limits_update (lc_max_cost_usd_update (\<lambda>_. Some v)))),
      (''CUMA_LOG_LEVEL'', \<lambda>raw. set_with (Inr raw) (\<lambda>v. cf_telemetry_update (tc_log_level_update (\<lambda>_. v)))),
      (''CUMA_JSON_LOGS'', \<lambda>raw. set_with (parse_bool dbg raw ''CUMA_JSON_LOGS'')
         (\<lambda>v. cf_telemetry_update (tc_json_logs_update (\<lambda>_. v)))),
      (''CUMA_DATABASE_PATH'', \<lambda>raw. set_with (Inr raw) (\<lambda>v. cf_telemetry_update (tc_database_path_update (\<lambda>_. Some v)))),
      (''CUMA_MEMORY_ENABLED'', \<lambda>raw. set_with (parse_bool dbg raw ''CUMA_MEMORY_ENABLED'')
         (\<lambda>v. cf_memory_update (mc_enabled_update (\<lambda>_. v)))),
      (''CUMA_RTK'', \<lambda>raw. set_with (parse_choice dbg ''CUMA_RTK must be auto, always or never''
           [(''auto'', RtkAuto), (''always'', RtkAlways), (''true'', RtkAlways), (''1'', RtkAlways),
            (''never'', RtkNever), (''false'', RtkNever), (''0'', RtkNever)] raw)
         (\<lambda>v. cf_rtk_update (rk_enabled_update (\<lambda>_. v)))),
      (''CUMA_SANDBOX'', \<lambda>raw. set_with (parse_bool dbg raw ''CUMA_SANDBOX'')
         (\<lambda>v. cf_security_update (se_sandbox_update (\<lambda>_. v)))),
      (''CUMA_SKILLS_AUTO_INSTALL'', \<lambda>raw. set_with
         (parse_choice dbg ''CUMA_SKILLS_AUTO_INSTALL must be never, trusted-only or verified''
           [(''never'', InstallNever), (''trusted-only'', InstallTrustedOnly), (''trusted_only'', InstallTrustedOnly),
            (''verified'', InstallVerified)] raw)
         (\<lambda>v. cf_skills_update (sk_auto_install_update (\<lambda>_. v))))]"

fun apply_overrides ::
  "(string \<Rightarrow> string option) \<Rightarrow> (string \<times> (string \<Rightarrow> config \<Rightarrow> config result)) list \<Rightarrow> config \<times> bool \<Rightarrow> (config \<times> bool) result" where
  "apply_overrides env [] s = Inr s"
| "apply_overrides env ((key, put) # os) (c, applied) =
     (case env_var env key of
        None \<Rightarrow> apply_overrides env os (c, applied)
      | Some raw \<Rightarrow> (case put raw c of Inl e \<Rightarrow> Inl e | Inr c \<Rightarrow> apply_overrides env os (c, True)))"

definition env_apply :: "(string \<Rightarrow> string) \<Rightarrow> (string \<Rightarrow> string option) \<Rightarrow> config \<Rightarrow> (config \<times> bool) result" where
  "env_apply dbg env c = apply_overrides env (env_overrides dbg) (c, False)"

section \<open>Loading\<close>

datatype config_source = SourceDefault | SourceFile path | SourceEnvironment

record loaded_config =
  ld_config :: config
  ld_sources :: "config_source list"

text \<open>\<open>Path::join\<close>: an absolute path replaces what it is joined to.\<close>

definition path_join :: "path \<Rightarrow> path \<Rightarrow> path" where
  "path_join p q =
     (if prefix ''/'' q then q else if p = [] \<or> suffix ''/'' p then p @ q else p @ ''/'' @ q)"

definition config_home :: "string option \<Rightarrow> path option \<Rightarrow> path option" where
  "config_home xdg home =
     (case xdg of
        Some dir \<Rightarrow> if prefix ''/'' dir then Some dir else map_option (\<lambda>h. path_join h ''.config'') home
      | None \<Rightarrow> map_option (\<lambda>h. path_join h ''.config'') home)"

definition global_config_path :: "string option \<Rightarrow> path option \<Rightarrow> path option" where
  "global_config_path xdg home =
     map_option (\<lambda>dir. path_join (path_join dir ''cuma'') ''config.toml'') (config_home xdg home)"

definition expand_home :: "path option \<Rightarrow> string \<Rightarrow> path" where
  "expand_home home path =
     (case (path, home) of
        (c # rest, Some h) \<Rightarrow>
          if c \<noteq> CHR ''~'' then path
          else if rest = [] then h
          else if prefix ''/'' rest then path_join h (dropWhile (\<lambda>d. d = CHR ''/'') rest)
          else path
      | _ \<Rightarrow> path)"

definition add_layer ::
  "(path \<Rightarrow> config result option) \<Rightarrow> path option \<Rightarrow> (config \<times> config_source list) result \<Rightarrow> (config \<times> config_source list) result" where
  "add_layer read_layer file r =
     (case r of
        Inl e \<Rightarrow> Inl e
      | Inr (c, sources) \<Rightarrow>
          (case Option.bind file read_layer of
             None \<Rightarrow> Inr (c, sources)
           | Some (Inl e) \<Rightarrow> Inl e
           | Some (Inr layer) \<Rightarrow> Inr (config_merge c layer, sources @ [SourceFile (the file)])))"

definition config_load ::
  "(string \<Rightarrow> string) \<Rightarrow> (f64 \<Rightarrow> string) \<Rightarrow> (path \<Rightarrow> config result option) \<Rightarrow> (string \<Rightarrow> string option) \<Rightarrow> path option \<Rightarrow> path \<Rightarrow>
   loaded_config result" where
  "config_load dbg show_f64 read_layer env home project_root =
     (case add_layer read_layer (Some (path_join (path_join project_root ''.cuma'') ''config.toml''))
             (add_layer read_layer (global_config_path (env ''XDG_CONFIG_HOME'') home) (Inr (default_config, [SourceDefault]))) of
        Inl e \<Rightarrow> Inl e
      | Inr (c, sources) \<Rightarrow>
          (case env_apply dbg env c of
             Inl e \<Rightarrow> Inl e
           | Inr (c, applied) \<Rightarrow>
               (case config_validate dbg show_f64 c of
                  Inl e \<Rightarrow> Inl e
                | Inr _ \<Rightarrow> Inr \<lparr>ld_config = c, ld_sources = (if applied then sources @ [SourceEnvironment] else sources)\<rparr>)))"

section \<open>Numbers survive being written down\<close>

lemma digit_char: "n < 10 \<Longrightarrow> is_ascii_digit (char_of (n + 48)) \<and> digit_value (char_of (n + 48)) = n"
  by (simp add: is_ascii_digit_def digit_value_def of_char_of take_bit_eq_mod)

lemma digits_value_snoc: "digits_value (s @ [c]) = 10 * digits_value s + digit_value c"
  by (simp add: digits_value_def)

lemma show_nat_digits: "list_all is_ascii_digit (show_nat n) \<and> digits_value (show_nat n) = n \<and> show_nat n \<noteq> []"
proof (induction n rule: show_nat.induct)
  case (1 n)
  show ?case
  proof (cases "n < 10")
    case True
    then show ?thesis using digit_char [OF True] digits_value_snoc [of "[]"]
      by (simp add: show_nat.simps [of n] digits_value_def)
  next
    case False
    then show ?thesis using "1.IH" [OF False] digit_char [of "n mod 10"]
      by (simp add: show_nat.simps [of n] digits_value_snoc)
  qed
qed

lemma parse_show_nat:
  assumes "n < bound"
  shows "parse_unsigned bound (show_nat n) = Some n"
proof -
  obtain c r where s: "show_nat n = c # r" using show_nat_digits [of n] by (cases "show_nat n") auto
  have "c \<noteq> CHR ''+''" using show_nat_digits [of n] by (auto simp: s is_ascii_digit_def)
  with assms show_nat_digits [of n] show ?thesis by (simp add: parse_unsigned_def s)
qed

lemma parse_unsigned_bound: "parse_unsigned bound s = Some n \<Longrightarrow> n < bound"
  by (auto simp: parse_unsigned_def Let_def split: if_splits)

section \<open>Layers\<close>

text \<open>A field that a layer overrides by departing from the default: the value in force is that of the
  last layer that departs from it.\<close>

locale layered_field =
  fixes get :: "config \<Rightarrow> 'a" and d :: 'a
  assumes get_merge: "get (config_merge c l) = (if get l \<noteq> d then get l else get c)"
begin

lemma last_layer:
  "get (foldl config_merge c ls) = (case List.find (\<lambda>l. get l \<noteq> d) (rev ls) of Some l \<Rightarrow> get l | None \<Rightarrow> get c)"
proof (induction ls rule: rev_induct)
  case (snoc l ls)
  then show ?case by (auto simp: get_merge)
qed simp

text \<open>No layer can take a field back to its default.\<close>

lemma departs: "get c \<noteq> d \<Longrightarrow> get (foldl config_merge c ls) \<noteq> d"
  by (induction ls rule: rev_induct) (auto simp: get_merge)

lemma departs_iff: "get (foldl config_merge c ls) \<noteq> d \<longleftrightarrow> get c \<noteq> d \<or> (\<exists>l \<in> set ls. get l \<noteq> d)"
  by (induction ls rule: rev_induct) (auto simp: get_merge)

end

lemmas merge_defs = config_merge_def merge_router_def merge_memory_def merge_rtk_def merge_skills_def merge_security_def
  merge_limits_def merge_telemetry_def merge_field_def merge_option_def merge_collection_def Let_def
  default_router_config_def default_memory_config_def default_rtk_config_def default_skills_config_def
  default_security_config_def default_limits_def default_telemetry_config_def

interpretation strategy_layers: layered_field "\<lambda>c. rc_strategy (cf_router c)" Balanced
  by unfold_locales (simp add: merge_defs)
interpretation retries_layers: layered_field "\<lambda>c. lc_max_retries (cf_limits c)" 3
  by unfold_locales (simp add: merge_defs)
interpretation parallel_layers: layered_field "\<lambda>c. lc_max_parallel_tasks (cf_limits c)" 4
  by unfold_locales (simp add: merge_defs)
interpretation budget_layers: layered_field "\<lambda>c. lc_max_cost_usd (cf_limits c)" None
  by unfold_locales (simp add: merge_defs)
interpretation allowlist_layers: layered_field "\<lambda>c. se_command_allowlist (cf_security c)" "[]"
  by unfold_locales (simp add: merge_defs)
interpretation destructive_layers: layered_field "\<lambda>c. se_allow_destructive_operations (cf_security c)" False
  by unfold_locales (simp add: merge_defs)
interpretation checkpoint_layers: layered_field "\<lambda>c. se_checkpoint_before_write (cf_security c)" True
  by unfold_locales (simp add: merge_defs)
interpretation confinement_layers: layered_field "\<lambda>c. se_sandbox (cf_security c)" True
  by unfold_locales (simp add: merge_defs)
interpretation creation_layers: layered_field "\<lambda>c. sk_allow_creation (cf_skills c)" False
  by unfold_locales (simp add: merge_defs)

text \<open>The keyed sections are upserts.\<close>

lemma bt_get_Cons: "bt_get ((k', v) # m) k = (if k = k' then Some v else bt_get m k)"
  by (simp add: bt_get_def)

lemma bt_wf_Cons_None: "bt_wf ((k, v) # m) \<Longrightarrow> bt_get m k = None"
  by (force simp: bt_wf_Cons bt_get_def map_of_eq_None_iff)

lemma bt_get_merge_map:
  "bt_wf l \<Longrightarrow> bt_get (merge_map m l) k = (case bt_get l k of Some v \<Rightarrow> Some v | None \<Rightarrow> bt_get m k)"
proof (induction l arbitrary: m)
  case (Cons e l)
  obtain k' v where e: "e = (k', v)" by force
  have wf: "bt_wf l" using Cons.prems by (simp add: bt_wf_Cons)
  have "merge_map m (e # l) = merge_map (bt_insert k' v m) l" by (simp add: merge_map_def e)
  then show ?case
    using Cons.IH [OF wf] bt_wf_Cons_None [of k' v l] Cons.prems
    by (auto simp: e bt_get_Cons bt_get_insert split: option.splits)
qed (simp add: merge_map_def)

lemma feq_flit [simp]: "feq (flit q) (flit q)"
  by (simp add: feq_def flit_def Let_def)

lemma weights_eq_balanced [simp]: "weights_eq balanced_weights balanced_weights"
  by (simp add: weights_eq_def balanced_weights_def mk_weights_def)

text \<open>A layer that says nothing changes nothing, but for the list of skill registries, whose default is not
  empty: it is reset.\<close>

lemma merge_silent_layer:
  "config_merge c default_config = c\<lparr>cf_skills := (cf_skills c)\<lparr>sk_registries := [''builtin'', ''local'']\<rparr>\<rparr>"
  by (simp add: default_config_def merge_defs merge_map_def feq_def)

text \<open>Applying a layer twice is applying it once.\<close>

lemma merge_map_idem: "bt_wf m \<Longrightarrow> bt_wf l \<Longrightarrow> merge_map (merge_map m l) l = merge_map m l"
proof -
  assume wf: "bt_wf m" "bt_wf l"
  have keeps: "bt_wf (merge_map n l)" if "bt_wf n" for n
    using bt_wf_fold_insert [OF that, of fst snd l] by (simp add: merge_map_def case_prod_beta')
  show ?thesis
    by (rule bt_ext) (simp_all add: keeps wf bt_get_merge_map split: option.splits)
qed

section \<open>The environment\<close>

definition overrides_keep :: "(config \<Rightarrow> 'a) \<Rightarrow> (string \<times> (string \<Rightarrow> config \<Rightarrow> config result)) list \<Rightarrow> bool" where
  "overrides_keep f os \<longleftrightarrow> (\<forall>(key, put) \<in> set os. \<forall>raw c c'. put raw c = Inr c' \<longrightarrow> f c' = f c)"

lemma apply_overrides_keep:
  "apply_overrides env os (c, a) = Inr (c', a') \<Longrightarrow> overrides_keep f os \<Longrightarrow> f c' = f c"
  by (induction env os "(c, a)" arbitrary: c a rule: apply_overrides.induct)
    (fastforce simp: overrides_keep_def split: option.splits sum.splits)+

lemma apply_overrides_applied:
  "apply_overrides env os (c, a) = Inr (c', a') \<Longrightarrow>
   (a' \<longleftrightarrow> a \<or> (\<exists>(key, put) \<in> set os. env_var env key \<noteq> None)) \<and> (\<not> a' \<longrightarrow> c' = c)"
proof (induction env os "(c, a)" arbitrary: c a rule: apply_overrides.induct)
  case (2 env key put os c a)
  then show ?case by (cases "env_var env key") (force split: sum.splits)+
qed simp

lemma set_with_Inr: "set_with r f c = Inr c' \<longleftrightarrow> (\<exists>v. r = Inr v \<and> c' = f v c)"
  by (auto simp: set_with_def split: sum.splits)

text \<open>What no variable can change.\<close>

lemma env_keeps:
  "overrides_keep (\<lambda>c. se_allow_destructive_operations (cf_security c)) (env_overrides dbg)"
  "overrides_keep (\<lambda>c. se_command_allowlist (cf_security c)) (env_overrides dbg)"
  "overrides_keep cf_agents (env_overrides dbg)" "overrides_keep cf_sandboxes (env_overrides dbg)"
  "overrides_keep cf_mcp (env_overrides dbg)"
  by (auto simp: overrides_keep_def env_overrides_def set_with_Inr)

section \<open>What loading guarantees\<close>

lemma default_config_valid: "config_validate dbg show_f64 default_config = Inr ()"
  using presets_valid [of show_f64 Balanced]
  by (simp add: config_validate_def checks_ok default_config_def default_router_config_def default_limits_def limits_validate_def
      sandboxes_checks_def default_memory_config_def default_security_config_def is_known_sandbox_def)

lemma mcp_checks_ok: "(\<forall>r \<in> set (mcp_checks (name, server)). r = Inr ()) \<longleftrightarrow> plain_name name \<and> trim (mp_command server) \<noteq> []"
  by (simp add: mcp_checks_def)

lemma agent_checks_ok:
  "(\<forall>r \<in> set (agent_checks dbg sbs (i, agent)). r = Inr ()) \<longleftrightarrow>
   (\<forall>n. ac_sandbox agent = Some n \<longrightarrow> is_known_sandbox n sbs) \<and> (\<forall>p \<in> set (ac_state agent). trim p \<noteq> []) \<and>
   (\<forall>v \<in> set (ac_env agent). is_env_name v)"
  by (simp add: agent_checks_def list_all_iff split: option.split)

lemma sandboxes_checks_ok:
  "(\<forall>r \<in> set (sandboxes_checks dbg c). r = Inr ()) \<longleftrightarrow>
   (\<forall>(n, s) \<in> set (cf_sandboxes c). check_sandbox_name dbg n = Inr () \<and> sandbox_validate dbg n s = Inr ()) \<and>
   is_known_sandbox (se_agent_sandbox (cf_security c)) (cf_sandboxes c) \<and>
   (\<forall>a \<in> set (cf_agents c). \<forall>r \<in> set (agent_checks dbg (cf_sandboxes c) a). r = Inr ())"
  unfolding sandboxes_checks_def set_append set_concat set_map ball_Un by auto

lemma config_validate_iff:
  "config_validate dbg show_f64 c = Inr () \<longleftrightarrow>
   weights_validate show_f64 (rc_weights (cf_router c)) = Inr () \<and> limits_validate (cf_limits c) = Inr () \<and>
   (\<forall>(name, server) \<in> set (cf_mcp c). plain_name name \<and> trim (mp_command server) \<noteq> []) \<and>
   (\<forall>m. mc_mcp_server (cf_memory c) = Some m \<longrightarrow> bt_get (cf_mcp c) m \<noteq> None) \<and>
   (\<forall>(n, s) \<in> set (cf_sandboxes c). check_sandbox_name dbg n = Inr () \<and> sandbox_validate dbg n s = Inr ()) \<and>
   is_known_sandbox (se_agent_sandbox (cf_security c)) (cf_sandboxes c) \<and>
   (\<forall>(i, agent) \<in> set (cf_agents c). (\<forall>n. ac_sandbox agent = Some n \<longrightarrow> is_known_sandbox n (cf_sandboxes c)) \<and>
      (\<forall>p \<in> set (ac_state agent). trim p \<noteq> []) \<and> (\<forall>v \<in> set (ac_env agent). is_env_name v))"
proof -
  have mcp: "(\<forall>e \<in> set (cf_mcp c). \<forall>r \<in> set (mcp_checks e). r = Inr ()) \<longleftrightarrow>
      (\<forall>(name, server) \<in> set (cf_mcp c). plain_name name \<and> trim (mp_command server) \<noteq> [])"
    by (rule ball_cong [OF refl], split prod.split, intro allI impI, simp only: mcp_checks_ok)
  have agents: "(\<forall>a \<in> set (cf_agents c). \<forall>r \<in> set (agent_checks dbg (cf_sandboxes c) a). r = Inr ()) \<longleftrightarrow>
      (\<forall>(i, agent) \<in> set (cf_agents c). (\<forall>n. ac_sandbox agent = Some n \<longrightarrow> is_known_sandbox n (cf_sandboxes c)) \<and>
        (\<forall>p \<in> set (ac_state agent). trim p \<noteq> []) \<and> (\<forall>v \<in> set (ac_env agent). is_env_name v))"
    by (rule ball_cong [OF refl], split prod.split, intro allI impI, simp only: agent_checks_ok)
  show ?thesis
    unfolding config_validate_def checks_ok set_append set_concat set_map ball_Un sandboxes_checks_ok agents mcp [symmetric]
    by (auto split: option.splits)
qed

lemma limits_validate_ok:
  assumes "limits_validate l = Inr ()"
  shows "0 < lc_max_parallel_tasks l" "lc_max_retries l \<le> 10" "lc_max_cost_usd l = Some b \<Longrightarrow> \<not> fle b f0"
  using assms by (auto simp: limits_validate_def split: if_splits option.splits)

definition file_layer :: "(path \<Rightarrow> config result option) \<Rightarrow> path option \<Rightarrow> config list" where
  "file_layer read_layer file = (case Option.bind file read_layer of Some (Inr l) \<Rightarrow> [l] | _ \<Rightarrow> [])"

definition layers_of :: "(path \<Rightarrow> config result option) \<Rightarrow> (string \<Rightarrow> string option) \<Rightarrow> path option \<Rightarrow> path \<Rightarrow> config list" where
  "layers_of read_layer env home project_root =
     file_layer read_layer (global_config_path (env ''XDG_CONFIG_HOME'') home) @
     file_layer read_layer (Some (path_join (path_join project_root ''.cuma'') ''config.toml''))"

lemma add_layer_ok:
  "add_layer read_layer file (Inr (c, ss)) = Inr (c', ss') \<Longrightarrow>
   c' = foldl config_merge c (file_layer read_layer file) \<and> length ss' = length ss + length (file_layer read_layer file)"
  by (auto simp: add_layer_def file_layer_def split: option.splits sum.splits)

text \<open>What is in force is the merge of the files found over the defaults, then the environment, and it is valid.\<close>

lemma config_load_ok:
  assumes "config_load dbg show_f64 read_layer env home proj = Inr lc"
  shows "config_validate dbg show_f64 (ld_config lc) = Inr ()"
    and "\<exists>applied. env_apply dbg env (foldl config_merge default_config (layers_of read_layer env home proj)) =
           Inr (ld_config lc, applied) \<and>
         length (ld_sources lc) = 1 + length (layers_of read_layer env home proj) + (if applied then 1 else 0)"
proof -
  let ?g = "global_config_path (env ''XDG_CONFIG_HOME'') home"
  let ?p = "Some (path_join (path_join proj ''.cuma'') ''config.toml'')"
  obtain c1 s1 where g: "add_layer read_layer ?g (Inr (default_config, [SourceDefault])) = Inr (c1, s1)"
    using assms by (cases "add_layer read_layer ?g (Inr (default_config, [SourceDefault]))")
      (auto simp: config_load_def add_layer_def)
  obtain c2 s2 where p: "add_layer read_layer ?p (Inr (c1, s1)) = Inr (c2, s2)"
    using assms g by (cases "add_layer read_layer ?p (Inr (c1, s1))") (auto simp: config_load_def)
  obtain c3 a where e: "env_apply dbg env c2 = Inr (c3, a)"
    using assms g p by (cases "env_apply dbg env c2") (auto simp: config_load_def)
  have v: "config_validate dbg show_f64 c3 = Inr ()" and lc: "ld_config lc = c3"
    "ld_sources lc = (if a then s2 @ [SourceEnvironment] else s2)"
    using assms by (auto simp: config_load_def g p e split: sum.splits)
  show "config_validate dbg show_f64 (ld_config lc) = Inr ()" using v lc by simp
  have "c2 = foldl config_merge default_config (layers_of read_layer env home proj)"
    "length s2 = 1 + length (layers_of read_layer env home proj)"
    using add_layer_ok [OF g] add_layer_ok [OF p] by (simp_all add: layers_of_def)
  with e lc show "\<exists>applied. env_apply dbg env (foldl config_merge default_config (layers_of read_layer env home proj)) =
      Inr (ld_config lc, applied) \<and>
    length (ld_sources lc) = 1 + length (layers_of read_layer env home proj) + (if applied then 1 else 0)" by auto
qed

text \<open>Destructive operations are permitted exactly when a file says so.\<close>

lemma destructive_from_files:
  assumes "config_load dbg show_f64 read_layer env home proj = Inr lc"
  shows "se_allow_destructive_operations (cf_security (ld_config lc)) \<longleftrightarrow>
    (\<exists>l \<in> set (layers_of read_layer env home proj). se_allow_destructive_operations (cf_security l))"
proof -
  let ?c = "foldl config_merge default_config (layers_of read_layer env home proj)"
  obtain a where "env_apply dbg env ?c = Inr (ld_config lc, a)" using config_load_ok(2) [OF assms] by blast
  then have "se_allow_destructive_operations (cf_security (ld_config lc)) = se_allow_destructive_operations (cf_security ?c)"
    unfolding env_apply_def by (rule apply_overrides_keep) (rule env_keeps)
  then show ?thesis
    using destructive_layers.departs_iff [of default_config] by (simp add: default_config_def default_security_config_def)
qed

text \<open>With no files and no variables the defaults are in force.\<close>

lemma apply_overrides_unset: "(\<And>key. env_var env key = None) \<Longrightarrow> apply_overrides env os s = Inr s"
  by (induction env os s rule: apply_overrides.induct) auto

lemma config_load_nothing:
  "config_load dbg show_f64 (\<lambda>_. None) (\<lambda>_. None) home proj = Inr \<lparr>ld_config = default_config, ld_sources = [SourceDefault]\<rparr>"
proof -
  have "env_apply dbg (\<lambda>_. None) default_config = Inr (default_config, False)"
    unfolding env_apply_def by (rule apply_overrides_unset) (simp add: env_var_def)
  then show ?thesis by (simp add: config_load_def add_layer_def default_config_valid)
qed

end
