(* ===== verification/Wrappers.thy ===== *)
theory Wrappers
  imports Config_Layers
begin

text \<open>
  \<open>cuma-workspace/src/rtk.rs\<close> and \<open>cuma-workspace/src/sandbox.rs\<close>: what is put in
  front of a shell command that CUMA runs itself. Whether a program is on the path, and what
  \<open>rtk gain\<close> answers, are arguments (\<open>which\<close>, \<open>gain\<close>). Both detections yield a status
  that the wrapping follows.
\<close>

section \<open>RTK\<close>

definition wrapped_commands :: "string list" where
  "wrapped_commands =
     [''cargo'', ''go'', ''npm'', ''pnpm'', ''yarn'', ''make'', ''pytest'', ''jest'', ''gradle'', ''mvn'', ''git'', ''grep'',
      ''rg'', ''find'', ''ls'', ''tree'', ''docker'', ''kubectl'']"

datatype rtk_status =
    RtkDisabled
  | RtkActive string
  | RtkMissing string bool
  | RtkUnverified string string

fun rtk_is_active :: "rtk_status \<Rightarrow> bool" where
  "rtk_is_active (RtkActive _) = True"
| "rtk_is_active _ = False"

fun rtk_is_fatal :: "rtk_status \<Rightarrow> bool" where
  "rtk_is_fatal (RtkMissing _ required) = required"
| "rtk_is_fatal _ = False"

fun rtk_describe :: "rtk_status \<Rightarrow> string" where
  "rtk_describe RtkDisabled = ''RTK: disabled''"
| "rtk_describe (RtkActive binary) = ''RTK: detected ('' @ binary @ ''); token optimization enabled''"
| "rtk_describe (RtkMissing binary required) =
     (if required then ''RTK: REQUIRED but '' @ binary @ '' is not on PATH''
      else ''RTK: not found ('' @ binary @ ''); running without token optimization'')"
| "rtk_describe (RtkUnverified binary reason) =
     ''RTK: '' @ binary @ '' is on PATH but is not rtk-ai/rtk ('' @ reason @ ''); not using it''"

definition rtk_detect :: "(string \<Rightarrow> bool) \<Rightarrow> (string \<Rightarrow> string + string) \<Rightarrow> rtk_config \<Rightarrow> rtk_status" where
  "rtk_detect which gain c =
     (let binary = (case rk_binary c of Some b \<Rightarrow> b | None \<Rightarrow> ''rtk'') in
      case rk_enabled c of
        RtkNever \<Rightarrow> RtkDisabled
      | mode \<Rightarrow>
          if which binary then
            (case gain binary of Inr _ \<Rightarrow> RtkActive binary | Inl reason \<Rightarrow> RtkUnverified binary reason)
          else RtkMissing binary (mode = RtkAlways))"

text \<open>\<open>rsplit(['/', '\\']).next()\<close>: what follows the last separator.\<close>

definition after_separator :: "string \<Rightarrow> string" where
  "after_separator s = rev (takeWhile (\<lambda>c. c \<noteq> CHR ''/'' \<and> c \<noteq> CHR 0x5C) (rev s))"

definition should_wrap :: "string \<Rightarrow> bool" where
  "should_wrap command =
     (case split_whitespace command of
        [] \<Rightarrow> False
      | binary # _ \<Rightarrow> after_separator binary \<in> set wrapped_commands)"

definition rtk_wrap :: "rtk_status \<Rightarrow> string \<Rightarrow> string" where
  "rtk_wrap status command =
     (case status of
        RtkActive binary \<Rightarrow> if should_wrap command then binary @ '' '' @ command else command
      | _ \<Rightarrow> command)"

section \<open>Savings\<close>

definition estimate_tokens_of :: "string \<Rightarrow> u64" where
  "estimate_tokens_of text = of_nat (length text div 4)"

record saving =
  sv_raw_tokens :: u64
  sv_filtered_tokens :: u64

definition saving_between :: "string \<Rightarrow> string \<Rightarrow> saving" where
  "saving_between raw filtered =
     \<lparr>sv_raw_tokens = estimate_tokens_of raw, sv_filtered_tokens = estimate_tokens_of filtered\<rparr>"

definition tokens_saved :: "saving \<Rightarrow> u64" where
  "tokens_saved s = saturating_sub (sv_raw_tokens s) (sv_filtered_tokens s)"

definition saving_ratio :: "saving \<Rightarrow> f64 option" where
  "saving_ratio s =
     (if sv_raw_tokens s = 0 then None
      else Some (fdiv (word_to_f64 (tokens_saved s)) (word_to_f64 (sv_raw_tokens s))))"

section \<open>The sandbox of CUMA's own commands\<close>

definition known_runtimes :: "(string \<times> string) list" where
  "known_runtimes =
     [(''ai-jail'', ''ai-jail''), (''bwrap'', ''bubblewrap''), (''firejail'', ''firejail''), (''sandbox-exec'', ''macOS sandbox-exec'')]"

datatype sandbox_status = SbDisabled | SbActive string | SbUnavailable "string list"

fun sandbox_is_active :: "sandbox_status \<Rightarrow> bool" where
  "sandbox_is_active (SbActive _) = True"
| "sandbox_is_active _ = False"

fun sandbox_describe :: "sandbox_status \<Rightarrow> string" where
  "sandbox_describe SbDisabled = ''sandbox: disabled by configuration''"
| "sandbox_describe (SbActive runtime) = ''sandbox: active via '' @ runtime"
| "sandbox_describe (SbUnavailable looked_for) =
     ''sandbox: REQUESTED BUT UNAVAILABLE (looked for '' @ join '', '' looked_for @ ''); commands CUMA runs itself are unconfined''"

definition detect_known :: "(string \<Rightarrow> bool) \<Rightarrow> sandbox_status" where
  "detect_known which =
     (case List.find (\<lambda>(binary, name). which binary) known_runtimes of
        Some (binary, name) \<Rightarrow> SbActive name
      | None \<Rightarrow> SbUnavailable (map fst known_runtimes))"

definition sandbox_detect :: "(string \<Rightarrow> bool) \<Rightarrow> security_config \<Rightarrow> sandbox_status" where
  "sandbox_detect which c =
     (if \<not> se_sandbox c then SbDisabled
      else case se_sandbox_command c of
        Some configured \<Rightarrow>
          if which (case split_whitespace configured of binary # _ \<Rightarrow> binary | [] \<Rightarrow> configured) then SbActive configured
          else detect_known which
      | None \<Rightarrow> detect_known which)"

definition sandbox_wrap :: "sandbox_status \<Rightarrow> string \<Rightarrow> path \<Rightarrow> string" where
  "sandbox_wrap status command workspace =
     (case status of
        SbActive runtime \<Rightarrow>
          if runtime = ''ai-jail'' then ''ai-jail --exec -- '' @ command
          else if runtime = ''bubblewrap'' then
            ''bwrap --ro-bind /usr /usr --ro-bind /lib /lib --ro-bind /lib64 /lib64 --ro-bind /bin /bin --ro-bind /etc /etc --bind ''
            @ workspace @ '' '' @ workspace @ '' --chdir '' @ workspace
            @ '' --proc /proc --dev /dev --unshare-net --unshare-pid --die-with-parent -- '' @ command
          else if runtime = ''firejail'' then
            ''firejail --quiet --private='' @ workspace @ '' --net=none --nosound --no3d --nodvd --notv -- '' @ command
          else if runtime = ''macOS sandbox-exec'' then
            ''sandbox-exec -p '' @ [CHR 0x27] @ ''(version 1)(allow default)(deny network*)'' @ [CHR 0x27] @ '' '' @ command
          else runtime @ '' '' @ command
      | _ \<Rightarrow> command)"

section \<open>Laws\<close>

text \<open>Both wrappers only ever put something in front: the command itself is what runs.\<close>

lemma rtk_wrap_suffix: "suffix command (rtk_wrap status command)"
  by (auto simp: rtk_wrap_def suffix_def split: rtk_status.split)

lemma sandbox_wrap_suffix: "suffix command (sandbox_wrap status command workspace)"
proof (cases status)
  case (SbActive runtime)
  have "\<exists>p. sandbox_wrap status command workspace = p @ command"
    unfolding SbActive sandbox_wrap_def sandbox_status.case by (simp only: append_assoc [symmetric]) auto
  then show ?thesis by (auto simp: suffix_def)
qed (simp_all add: sandbox_wrap_def)

text \<open>An inactive status changes nothing, an active sandbox always does.\<close>

lemma rtk_wrap_inactive: "\<not> rtk_is_active status \<Longrightarrow> rtk_wrap status command = command"
  by (cases status) (simp_all add: rtk_wrap_def)

lemma sandbox_wrap_inactive: "\<not> sandbox_is_active status \<Longrightarrow> sandbox_wrap status command workspace = command"
  by (cases status) (simp_all add: sandbox_wrap_def)

lemma sandbox_wrap_active: "sandbox_is_active status \<Longrightarrow> sandbox_wrap status command workspace \<noteq> command"
  by (cases status) (auto simp: sandbox_wrap_def)

text \<open>Sandboxing that is asked for is either active or reported as missing, with everything that was
  looked for; it is off only when configuration says so.\<close>

lemma sandbox_detect_cases:
  "sandbox_detect which c = SbDisabled \<longleftrightarrow> \<not> se_sandbox c"
  "sandbox_detect which c = SbUnavailable names \<Longrightarrow>
     se_sandbox c \<and> names = map fst known_runtimes \<and> (\<forall>binary \<in> set names. \<not> which binary)"
  by (auto simp: sandbox_detect_def detect_known_def known_runtimes_def split: option.splits if_splits list.splits)

text \<open>RTK is used only when it was found and has proved to be RTK, and it is fatal only when required.\<close>

lemma rtk_detect_active:
  "rtk_detect which gain c = RtkActive binary \<longleftrightarrow>
     rk_enabled c \<noteq> RtkNever \<and> binary = (case rk_binary c of Some b \<Rightarrow> b | None \<Rightarrow> ''rtk'') \<and> which binary \<and>
     (\<exists>out. gain binary = Inr out)"
  by (auto simp: rtk_detect_def Let_def split: rtk_mode.splits sum.splits)

lemma rtk_detect_fatal:
  "rtk_is_fatal (rtk_detect which gain c) \<longleftrightarrow>
     rk_enabled c = RtkAlways \<and> \<not> which (case rk_binary c of Some b \<Rightarrow> b | None \<Rightarrow> ''rtk'')"
  by (auto simp: rtk_detect_def Let_def split: rtk_mode.splits sum.splits)

lemma tokens_saved_le: "tokens_saved s \<le> sv_raw_tokens s"
  by (simp add: tokens_saved_def word_le_nat_alt unat_saturating_sub)

end
