(* ===== verification/Session.thy ===== *)
theory Session
  imports Executor Guard Wrappers
begin

text \<open>
  \<open>cuma-orchestrator/src/executor.rs\<close>, above one task: which ready tasks may run
  together, the waves that drive a plan to completion, and a session from goal to result.

  The tasks of a wave advance one step at a time in an arbitrary interleaving: \<open>sched k\<close>
  says which of the unfinished tasks takes the \<open>k\<close>-th step of the wave. The wave is given
  the steps it can need at most, \<open>2 * max_attempts + 3\<close> for each of its tasks; it gives
  \<open>None\<close> when a step does or the steps run out, which \<open>run_wave_returns\<close>
  excludes. The workspace index and the Unicode class of alphanumeric characters are arguments.
\<close>

section \<open>Admission\<close>

definition dependency_artifacts :: "task_graph \<Rightarrow> task \<Rightarrow> string list" where
  "dependency_artifacts g t = concat (map tk_artifacts (List.map_filter (graph_get g) (deps t)))"

definition task_writes :: "(string \<Rightarrow> bool) \<Rightarrow> workspace_index option \<Rightarrow> task_graph \<Rightarrow> task \<Rightarrow> path list" where
  "task_writes alnum index g t =
     predict_writes alnum (ts_description (tk_spec t)) index (dependency_artifacts g t)"

definition admit ::
  "(string \<Rightarrow> bool) \<Rightarrow> workspace_index option \<Rightarrow> task_graph \<Rightarrow> task_id \<Rightarrow> task_id list \<times> ledger \<Rightarrow> task_id list \<times> ledger" where
  "admit alnum index g i s =
     (case s of (admitted, l) \<Rightarrow>
        (case graph_get g i of
           None \<Rightarrow> (admitted, l)
         | Some t \<Rightarrow>
             if ts_risk (tk_spec t) = ReadOnly then (admitted @ [i], l)
             else case claim i (task_writes alnum index g t) l of
                    (Inr _, l') \<Rightarrow> (admitted @ [i], l')
                  | (Inl _, l') \<Rightarrow> (admitted, l')))"

definition admit_concurrently ::
  "(string \<Rightarrow> bool) \<Rightarrow> workspace_index option \<Rightarrow> task_graph \<Rightarrow> task_id list \<Rightarrow> ledger \<Rightarrow> task_id list \<times> ledger" where
  "admit_concurrently alnum index g ready l = fold (admit alnum index g) ready ([], l)"

section \<open>A wave\<close>

type_synonym wave = "(task_id \<times> phase) list"

definition unfinished :: "wave \<Rightarrow> nat list" where
  "unfinished ws = filter (\<lambda>k. \<not> is_finished (snd (ws ! k))) [0..<length ws]"

fun run_wave ::
  "nat \<Rightarrow> (f64 \<Rightarrow> nat \<Rightarrow> f64) \<Rightarrow> orchestrator \<Rightarrow> session_id \<Rightarrow> (task_id \<Rightarrow> task_env) \<Rightarrow> (nat \<Rightarrow> nat) \<Rightarrow> nat \<Rightarrow>
   wave \<Rightarrow> shared \<Rightarrow> (wave \<times> shared) option" where
  "run_wave fuel pow oc s env sched k ws sh =
     (if unfinished ws = [] then Some (ws, sh)
      else case fuel of
             0 \<Rightarrow> None
           | Suc fuel' \<Rightarrow>
               let n = unfinished ws ! (sched k mod length (unfinished ws)); i = fst (ws ! n) in
               (case task_step pow oc s i (env i) (snd (ws ! n)) sh of
                  None \<Rightarrow> None
                | Some (ph, sh') \<Rightarrow> run_wave fuel' pow oc s env sched (Suc k) (ws[n := (i, ph)]) sh'))"

declare run_wave.simps [simp del]

definition wave_fuel :: "orchestrator \<Rightarrow> nat \<Rightarrow> nat" where
  "wave_fuel oc n = n * (2 * unat (rp_max_attempts (oc_retry_policy oc)) + 3)"

text \<open>Folding one task's result back into the session's graph.\<close>

definition fold_result ::
  "session_id \<Rightarrow> bool \<Rightarrow> task_id \<times> phase \<Rightarrow> task_graph \<times> ledger \<times> shared \<Rightarrow> (task_graph \<times> ledger \<times> shared) option" where
  "fold_result s ran_alone res st =
     (case (res, st) of
        ((i, Finished outcome tg), (g, l, sh)) \<Rightarrow>
          let l = release i l;
              g = (case graph_get tg i of Some executed \<Rightarrow> graph_update i (\<lambda>_. executed) g | None \<Rightarrow> g)
          in if graph_len tg \<noteq> graph_len g \<and> ran_alone then Some (tg, l, sh)
             else if outcome = Inr True then Some (g, l, sh)
             else
               (case cascade_skip i (graph_update i (\<lambda>t. t\<lparr>tk_status := Failed\<rparr>) g) of
                  None \<Rightarrow> None
                | Some (g, skipped) \<Rightarrow>
                    Some (g, l, fold (\<lambda>j. publish (task_event s j (TaskSkippedEv i))) skipped sh))
      | _ \<Rightarrow> None)"

fun fold_results ::
  "session_id \<Rightarrow> bool \<Rightarrow> wave \<Rightarrow> task_graph \<times> ledger \<times> shared \<Rightarrow> (task_graph \<times> ledger \<times> shared) option" where
  "fold_results s ran_alone [] st = Some st"
| "fold_results s ran_alone (res # rest) st =
     Option.bind (fold_result s ran_alone res st) (fold_results s ran_alone rest)"

definition ready_ids :: "orchestrator \<Rightarrow> task_graph \<Rightarrow> task_id list" where
  "ready_ids oc g = map tk_id (take (lc_max_parallel_tasks (oc_limits oc)) (ready_tasks g))"

text \<open>One pass of the loop over the graph; the guard that releases the claims is dropped at its end.\<close>

definition graph_pass ::
  "(f64 \<Rightarrow> nat \<Rightarrow> f64) \<Rightarrow> (string \<Rightarrow> bool) \<Rightarrow> orchestrator \<Rightarrow> session_id \<Rightarrow> workspace_index option \<Rightarrow>
   (task_id \<Rightarrow> task_env) \<Rightarrow> (nat \<Rightarrow> nat) \<Rightarrow> task_graph \<times> ledger \<times> shared \<Rightarrow> (task_graph \<times> ledger \<times> shared) option" where
  "graph_pass pow alnum oc s index env sched st =
     (case st of (g, l, sh) \<Rightarrow>
        case admit_concurrently alnum index g (ready_ids oc g) l of (admitted, l) \<Rightarrow>
          (case run_wave (wave_fuel oc (length admitted)) pow oc s env sched 0 (map (\<lambda>i. (i, Starting g)) admitted) sh of
             None \<Rightarrow> None
           | Some (ws, sh) \<Rightarrow>
               map_option (\<lambda>(g, l, sh). (g, fold release admitted l, sh))
                 (fold_results s (length ws = 1) ws (g, l, sh))))"

fun graph_passes ::
  "nat \<Rightarrow> (f64 \<Rightarrow> nat \<Rightarrow> f64) \<Rightarrow> (string \<Rightarrow> bool) \<Rightarrow> orchestrator \<Rightarrow> session_id \<Rightarrow> workspace_index option \<Rightarrow>
   (nat \<Rightarrow> task_id \<Rightarrow> task_env) \<Rightarrow> (nat \<Rightarrow> nat \<Rightarrow> nat) \<Rightarrow> nat \<Rightarrow> task_graph \<times> ledger \<times> shared \<Rightarrow>
   (task_graph \<times> ledger \<times> shared) option" where
  "graph_passes 0 pow alnum oc s index env sched k st = Some st"
| "graph_passes (Suc n) pow alnum oc s index env sched k st =
     (if graph_is_complete (fst st) \<or> ready_ids oc (fst st) = [] then Some st
      else Option.bind (graph_pass pow alnum oc s index (env k) (sched k) st)
             (graph_passes n pow alnum oc s index env sched (Suc k)))"

definition max_passes :: "task_graph \<Rightarrow> nat" where
  "max_passes g = graph_len g * 2 + 4"

definition execute_graph ::
  "(f64 \<Rightarrow> nat \<Rightarrow> f64) \<Rightarrow> (string \<Rightarrow> bool) \<Rightarrow> orchestrator \<Rightarrow> session_id \<Rightarrow> workspace_index option \<Rightarrow>
   (nat \<Rightarrow> task_id \<Rightarrow> task_env) \<Rightarrow> (nat \<Rightarrow> nat \<Rightarrow> nat) \<Rightarrow> task_graph \<times> ledger \<times> shared \<Rightarrow>
   (task_graph \<times> ledger \<times> shared) option" where
  "execute_graph pow alnum oc s index env sched st =
     graph_passes (max_passes (fst st)) pow alnum oc s index env sched 0 st"

section \<open>A session\<close>

definition count_status :: "task_status \<Rightarrow> task_graph \<Rightarrow> nat" where
  "count_status st g = length (filter (\<lambda>t. tk_status t = st) (graph_iter g))"

definition completed_tasks :: "session_result \<Rightarrow> nat" where
  "completed_tasks r = count_status Completed (sr_graph r)"

definition failed_tasks :: "session_result \<Rightarrow> nat" where
  "failed_tasks r = count_status Failed (sr_graph r)"

definition skipped_tasks :: "session_result \<Rightarrow> nat" where
  "skipped_tasks r = count_status Skipped (sr_graph r)"

definition summarize :: "task_graph \<Rightarrow> usage_totals \<Rightarrow> string" where
  "summarize g totals =
     show_nat (count_status Completed g) @ ''/'' @ show_nat (graph_len g) @ '' tasks completed''
     @ (if 0 < count_status Failed g then '', '' @ show_nat (count_status Failed g) @ '' failed'' else [])
     @ (if 0 < count_status Skipped g then '', '' @ show_nat (count_status Skipped g) @ '' skipped'' else [])
     @ '' '' @ [CHR 0xE2, CHR 0x80, CHR 0x94] @ '' '' @ show_word (totals_total_tokens totals) @ '' tokens, '' @ render_cost totals"

text \<open>\<open>memories\<close> is what an attached and available memory store recalls for the goal, empty
  when the recall fails.\<close>

definition plan_goal :: "orchestrator \<Rightarrow> string list \<Rightarrow> string \<Rightarrow> shared \<Rightarrow> task_graph result" where
  "plan_goal oc memories goal sh =
     (case oc_plan oc goal (available_capabilities (registry_snapshot_of (sh_agents sh)))
             (if oc_memory oc = None then [] else memories) of
        Inl e \<Rightarrow> Inl e
      | Inr g \<Rightarrow> (case graph_validate g of Inl e \<Rightarrow> Inl e | Inr _ \<Rightarrow> Inr g))"

text \<open>\<open>oc_git\<close> is what detecting the repository finds. A checkpoint that fails is only logged.\<close>

definition prepare_workspace :: "orchestrator \<Rightarrow> session_id \<Rightarrow> shared \<Rightarrow> shared" where
  "prepare_workspace oc s sh =
     (if oc_git oc \<and> oc_checkpoint oc
      then sh\<lparr>sh_git := sh_git sh @ [Checkpoint (''cuma-'' @ session_str s)]\<rparr> else sh)"

definition run_session ::
  "(f64 \<Rightarrow> nat \<Rightarrow> f64) \<Rightarrow> (string \<Rightarrow> bool) \<Rightarrow> orchestrator \<Rightarrow> string list \<Rightarrow> workspace_index option \<Rightarrow>
   (nat \<Rightarrow> task_id \<Rightarrow> task_env) \<Rightarrow> (nat \<Rightarrow> nat \<Rightarrow> nat) \<Rightarrow> session_id \<Rightarrow> string \<Rightarrow> ledger \<times> shared \<Rightarrow>
   (session_result result \<times> ledger \<times> shared) option" where
  "run_session pow alnum oc memories index env sched s goal st =
     (case st of (l, sh) \<Rightarrow>
        let sh = publish (session_event s (SessionStarted goal)) (record_call oc (SessionStartedRec s goal) sh);
            sh = prepare_workspace oc s sh in
        case plan_goal oc memories goal sh of
          Inl e \<Rightarrow> Some (Inl e, l, sh)
        | Inr g \<Rightarrow>
            let sh = publish (session_event s (TaskPlanned (graph_len g))) sh in
            map_option (\<lambda>(g, l, sh).
              let totals = tracker_totals (sh_usage sh);
                  success = list_all (\<lambda>t. tk_status t = Completed) (graph_iter g);
                  sh = publish (session_event s (SessionCompleted success)) sh;
                  res = \<lparr>sr_session_id = s, sr_graph = g, sr_success = success, sr_usage = totals,
                         sr_spent_usd = spent_usd (sh_usage sh), sr_summary = summarize g totals\<rparr>
              in (Inr res, l, record_call oc (SessionFinishedRec res) sh))
              (execute_graph pow alnum oc s index env sched (g, l, sh)))"

definition prepare_command ::
  "(string \<Rightarrow> string) \<Rightarrow> command_guard \<Rightarrow> rtk_status \<Rightarrow> sandbox_status \<Rightarrow> path \<Rightarrow> string \<Rightarrow> string + string" where
  "prepare_command debug_str guard rtk sandbox workspace command =
     (case screen debug_str guard command of
        Deny reason \<Rightarrow> Inl reason
      | Allow \<Rightarrow> Inr (sandbox_wrap sandbox (rtk_wrap rtk command) workspace))"

definition note_rtk_saving :: "saving \<Rightarrow> shared \<Rightarrow> shared" where
  "note_rtk_saving saving sh =
     (if 0 < tokens_saved saving then sh\<lparr>sh_usage := record_rtk_saving (tokens_saved saving) (sh_usage sh)\<rparr> else sh)"

definition explain_routing :: "orchestrator \<Rightarrow> clock \<Rightarrow> task \<Rightarrow> shared \<Rightarrow> routing_decision result \<times> shared" where
  "explain_routing oc clk t sh = route_task oc clk t [] sh"

end
