(* ===== verification/Progress.thy ===== *)
theory Progress
  imports Task_Run Session
begin

text \<open>
  What a wave and a whole run guarantee. The writers admitted together claim disjoint parts of the
  workspace; a wave ends under every interleaving of its tasks, in states each task accounts for;
  and when the planner declines to replan, every pass settles at least one task, so that the passes
  the executor allows itself settle them all.
\<close>

section \<open>Admission\<close>

abbreviation writes_of :: "(string \<Rightarrow> bool) \<Rightarrow> workspace_index option \<Rightarrow> task_graph \<Rightarrow> task_id \<Rightarrow> path list" where
  "writes_of alnum index g i \<equiv>
     (case graph_get g i of
        Some t \<Rightarrow> if ts_risk (tk_spec t) = ReadOnly then [] else task_writes alnum index g t
      | None \<Rightarrow> [])"

definition admitted_ok ::
  "(string \<Rightarrow> bool) \<Rightarrow> workspace_index option \<Rightarrow> task_graph \<Rightarrow> task_id list \<times> ledger \<Rightarrow> bool" where
  "admitted_ok alnum index g s \<longleftrightarrow>
     (case s of (admitted, l) \<Rightarrow> ledger_ok l \<and>
        (\<forall>i \<in> set admitted. \<forall>p \<in> set (writes_of alnum index g i). holds l i (claim_key p)))"

lemma admit_ok:
  assumes "admitted_ok alnum index g s"
  shows "admitted_ok alnum index g (admit alnum index g i s)"
proof -
  obtain admitted l where s: "s = (admitted, l)" by force
  have l: "ledger_ok l" using assms by (simp add: s admitted_ok_def)
  show ?thesis
  proof (cases "graph_get g i")
    case (Some t)
    show ?thesis
    proof (cases "ts_risk (tk_spec t) = ReadOnly")
      case False
      obtain r l' where c: "claim i (task_writes alnum index g t) l = (r, l')" by force
      show ?thesis
      proof (cases r)
        case (Inr u)
        then have "claim i (task_writes alnum index g t) l = (Inr (), l')" using c by simp
        from ownership.claim_ok [OF l this] show ?thesis
          using assms Some False c Inr by (auto simp: s admitted_ok_def admit_def)
      next
        case (Inl e)
        with ownership.claim_err [of i "task_writes alnum index g t" l e l'] c assms Some False show ?thesis
          by (simp add: s admitted_ok_def admit_def)
      qed
    qed (use assms Some in \<open>auto simp: s admitted_ok_def admit_def\<close>)
  qed (use assms in \<open>simp add: s admit_def\<close>)
qed

lemma admit_all_ok: "admitted_ok alnum index g s \<Longrightarrow> admitted_ok alnum index g (fold (admit alnum index g) ready s)"
  by (induction ready arbitrary: s) (simp_all add: admit_ok)

lemma admit_shape: "fst (admit alnum index g i s) \<in> {fst s, fst s @ [i]}"
  by (auto simp: admit_def split: prod.splits option.splits sum.splits)

lemma admit_all_subseq: "\<exists>new. fst (fold (admit alnum index g) ready s) = fst s @ new \<and> subseq new ready"
proof (induction ready arbitrary: s)
  case (Cons i ready)
  obtain new where new: "fst (fold (admit alnum index g) ready (admit alnum index g i s)) = fst (admit alnum index g i s) @ new"
      "subseq new ready" using Cons.IH by blast
  from admit_shape [of alnum index g i s] new show ?case
    by (auto intro: exI [of _ new] exI [of _ "i # new"])
qed simp

lemma admitted_subseq: "subseq (fst (admit_concurrently alnum index g ready l)) ready"
  using admit_all_subseq [of alnum index g ready "([], l)"] by (auto simp: admit_concurrently_def)

lemma admitted_in_graph:
  "i \<in> set (fst (fold (admit alnum index g) ready s)) \<Longrightarrow> i \<notin> set (fst s) \<Longrightarrow> graph_get g i \<noteq> None"
proof (induction ready arbitrary: s)
  case (Cons j ready)
  show ?case
  proof (cases "i \<in> set (fst (admit alnum index g j s))")
    case True
    with Cons.prems(2) show ?thesis by (auto simp: admit_def split: prod.splits option.splits sum.splits if_splits)
  qed (use Cons in auto)
qed simp

text \<open>Two writers of one wave never overlap.\<close>

lemma admitted_apart:
  assumes "ledger_ok l" "i \<in> set (fst (admit_concurrently alnum index g ready l))"
    "j \<in> set (fst (admit_concurrently alnum index g ready l))" "i \<noteq> j"
    "p \<in> set (writes_of alnum index g i)" "q \<in> set (writes_of alnum index g j)"
  shows "\<not> key_overlaps (claim_key p) (claim_key q)"
proof
  assume overlap: "key_overlaps (claim_key p) (claim_key q)"
  obtain admitted l' where s: "admit_concurrently alnum index g ready l = (admitted, l')" by force
  have "admitted_ok alnum index g (admitted, l')"
    unfolding s [symmetric] admit_concurrently_def
    by (rule admit_all_ok) (simp add: admitted_ok_def assms(1))
  then have "ledger_ok l'" "holds l' i (claim_key p)" "holds l' j (claim_key q)"
    using assms(2,3,5,6) by (auto simp: s admitted_ok_def)
  with overlap assms(4) ownership.exclusive show False by metis
qed

text \<open>With nothing claimed the first ready task is admitted.\<close>

definition unclaimed :: "ledger \<Rightarrow> bool" where
  "unclaimed l \<longleftrightarrow> ledger_ok l \<and> (\<forall>t k. \<not> holds l t k)"

lemma first_admitted:
  assumes "unclaimed l" "ready = i # rest" "graph_get g i \<noteq> None"
  shows "fst (admit_concurrently alnum index g ready l) \<noteq> []"
proof -
  obtain t where t: "graph_get g i = Some t" using assms(3) by blast
  have "fst (claim i (task_writes alnum index g t) l) = Inr ()"
    using assms(1) claim_succeeds_iff [of l i "task_writes alnum index g t"] by (auto simp: unclaimed_def ledger_ok_def)
  then have "fst (admit alnum index g i ([], l)) = [i]"
    using t by (auto simp: admit_def split: prod.splits)
  then show ?thesis
    using admit_all_subseq [of alnum index g rest "admit alnum index g i ([], l)"]
    by (auto simp: admit_concurrently_def assms(2))
qed

section \<open>A wave ends\<close>

definition wave_ok :: "orchestrator \<Rightarrow> task_graph \<Rightarrow> wave \<Rightarrow> bool" where
  "wave_ok oc g0 ws \<longleftrightarrow> (\<forall>(i, ph) \<in> set ws. proper_task i g0 \<and> phase_ok oc i g0 ph)"

definition wave_steps :: "orchestrator \<Rightarrow> wave \<Rightarrow> nat" where
  "wave_steps oc ws = sum_list (map (\<lambda>(i, ph). steps_left oc i ph) ws)"

lemma sum_list_update_less:
  "n < length xs \<Longrightarrow> f y < (f (xs ! n) :: nat) \<Longrightarrow> sum_list (map f (xs[n := y])) < sum_list (map f xs)"
proof (induction xs arbitrary: n)
  case (Cons x xs)
  then show ?case by (cases n) auto
qed simp

lemma unfinished_pick:
  assumes "unfinished ws \<noteq> []"
  shows "unfinished ws ! (k mod length (unfinished ws)) < length ws"
    "\<not> is_finished (snd (ws ! (unfinished ws ! (k mod length (unfinished ws)))))"
proof -
  have "unfinished ws ! (k mod length (unfinished ws)) \<in> set (unfinished ws)" using assms by simp
  then show "unfinished ws ! (k mod length (unfinished ws)) < length ws"
    "\<not> is_finished (snd (ws ! (unfinished ws ! (k mod length (unfinished ws)))))"
    by (auto simp: unfinished_def)
qed

lemma unfinished_Nil: "unfinished ws = [] \<longleftrightarrow> (\<forall>(i, ph) \<in> set ws. is_finished ph)"
  unfolding unfinished_def filter_empty_conv by (auto simp: all_set_conv_all_nth case_prod_beta)

lemma run_wave_ok:
  assumes "wave_ok oc g0 ws" "policy_ok oc" "\<forall>i. sound_env (env i)" "wave_steps oc ws \<le> fuel"
  shows "\<exists>ws' sh'. run_wave fuel pow oc s env sched k ws sh = Some (ws', sh') \<and> map fst ws' = map fst ws \<and>
    unfinished ws' = [] \<and> wave_ok oc g0 ws'"
  using assms(1,4)
proof (induction fuel arbitrary: k ws sh)
  case 0
  have "unfinished ws = []"
  proof (rule ccontr)
    assume u: "unfinished ws \<noteq> []"
    let ?n = "unfinished ws ! (0 mod length (unfinished ws))"
    have "ws ! ?n \<in> set ws" using unfinished_pick [OF u, of 0] by simp
    then have "(\<lambda>(i, ph). steps_left oc i ph) (ws ! ?n) = 0"
      using 0 unfolding wave_steps_def by (metis (no_types, lifting) image_eqI le_zero_eq list.set_map sum_list_eq_0_iff)
    with unfinished_pick [OF u, of 0] show False
      by (cases "ws ! ?n"; cases "snd (ws ! ?n)") (simp_all add: steps_left_def is_finished_def)
  qed
  with 0 show ?case by (simp add: run_wave.simps)
next
  case (Suc fuel)
  show ?case
  proof (cases "unfinished ws = []")
    case False
    let ?n = "unfinished ws ! (sched k mod length (unfinished ws))"
    obtain i ph where ip: "ws ! ?n = (i, ph)" by force
    note pick = unfinished_pick [OF False, of "sched k"]
    have mem: "(i, ph) \<in> set ws" using pick(1) ip by (metis nth_mem)
    have "proper_task i g0" "phase_ok oc i g0 ph" "\<not> is_finished ph"
      using Suc.prems(1) mem pick(2) ip by (auto simp: wave_ok_def)
    then obtain ph' sh' where step: "task_step pow oc s i (env i) ph sh = Some (ph', sh')" "phase_ok oc i g0 ph'"
        "steps_left oc i ph' < steps_left oc i ph"
      using task_step_ok [of oc i g0 ph "env i" pow s sh] assms(2,3) by blast
    let ?ws = "ws[?n := (i, ph')]"
    have "wave_ok oc g0 ?ws"
      using Suc.prems(1) step(2) \<open>proper_task i g0\<close> set_update_subset_insert [of ws ?n "(i, ph')"]
      unfolding wave_ok_def by blast
    moreover have "wave_steps oc ?ws < wave_steps oc ws"
      unfolding wave_steps_def by (rule sum_list_update_less) (use pick(1) ip step(3) in simp_all)
    ultimately obtain ws' sh'' where "run_wave fuel pow oc s env sched (Suc k) ?ws sh' = Some (ws', sh'')"
        "map fst ws' = map fst ?ws" "unfinished ws' = []" "wave_ok oc g0 ws'"
      using Suc.IH [of ?ws "Suc k" sh'] Suc.prems(2) by auto
    moreover have "map fst ?ws = map fst ws" using ip by (simp add: map_update) (metis fst_conv list_update_id map_update)
    ultimately show ?thesis using False ip step(1) by (simp add: run_wave.simps [of "Suc fuel"] Let_def)
  qed (use Suc.prems in \<open>simp add: run_wave.simps\<close>)
qed

section \<open>A wave's attempts are in the usage ledger\<close>

definition wave_attempts :: "wave \<Rightarrow> nat" where
  "wave_attempts ws = sum_list (map (\<lambda>(i, ph). attempts_of i (phase_graph ph)) ws)"

lemma not_replanned: "declines_replans oc \<Longrightarrow> \<not> replanned oc i g0 g"
  by (auto simp: declines_replans_def replanned_def)

lemma settled_row: "declines_replans oc \<Longrightarrow> settled oc i g0 r g \<Longrightarrow> row_ok oc i g0 g \<and> ends_well i r g"
  using not_replanned by (auto simp: settled_def)

lemma phase_row:
  assumes "declines_replans oc" "proper_task i g0" "phase_ok oc i g0 ph"
  obtains row where "graph_get (phase_graph ph) i = Some row"
proof -
  have "only_row i g0 (phase_graph ph)"
    using assms(3) settled_row [OF assms(1)] by (cases ph) (auto simp: phase_ok_def row_ok_def)
  with assms(2) only_row_get_own that show ?thesis unfolding proper_task_def by blast
qed

lemma sum_list_update:
  "n < length xs \<Longrightarrow> sum_list (map f (xs[n := y])) + f (xs ! n) = sum_list (map f xs) + (f y :: nat)"
proof (induction xs arbitrary: n)
  case (Cons x xs)
  then show ?case by (cases n) (auto simp: algebra_simps)
qed simp

lemma run_wave_accounts:
  assumes "wave_ok oc g0 ws" "policy_ok oc" "\<forall>i. sound_env (env i)" "declines_replans oc"
    and "run_wave fuel pow oc s env sched k ws sh = Some (ws', sh')"
  shows "attempts_logged sh' + wave_attempts ws = attempts_logged sh + wave_attempts ws'"
  using assms(1,5)
proof (induction fuel arbitrary: k ws sh)
  case (Suc fuel)
  show ?case
  proof (cases "unfinished ws = []")
    case False
    let ?n = "unfinished ws ! (sched k mod length (unfinished ws))"
    obtain i ph where ip: "ws ! ?n = (i, ph)" by force
    note pick = unfinished_pick [OF False, of "sched k"]
    have mem: "(i, ph) \<in> set ws" using pick(1) ip by (metis nth_mem)
    have i: "proper_task i g0" "phase_ok oc i g0 ph" "\<not> is_finished ph"
      using Suc.prems(1) mem pick(2) ip by (auto simp: wave_ok_def)
    then obtain ph' sh1 where step: "task_step pow oc s i (env i) ph sh = Some (ph', sh1)" "phase_ok oc i g0 ph'"
      using task_step_ok [of oc i g0 ph "env i" pow s sh] assms(2,3) by blast
    let ?ws = "ws[?n := (i, ph')]"
    have "wave_ok oc g0 ?ws"
      using Suc.prems(1) step(2) i(1) set_update_subset_insert [of ws ?n "(i, ph')"]
      unfolding wave_ok_def by blast
    moreover have "run_wave fuel pow oc s env sched (Suc k) ?ws sh1 = Some (ws', sh')"
      using Suc.prems(2) False ip step(1) by (simp add: run_wave.simps [of "Suc fuel"] Let_def)
    ultimately have "attempts_logged sh' + wave_attempts ?ws = attempts_logged sh1 + wave_attempts ws'" by (rule Suc.IH)
    moreover obtain row where "graph_get (phase_graph ph) i = Some row" by (rule phase_row [OF assms(4) i(1,2)])
    then have "attempts_logged sh1 + attempts_of i (phase_graph ph) = attempts_logged sh + attempts_of i (phase_graph ph')"
      using task_step_accounts assms(4) step(1) by blast
    moreover have "wave_attempts ?ws + attempts_of i (phase_graph ph) = wave_attempts ws + attempts_of i (phase_graph ph')"
      using sum_list_update [OF pick(1), of "\<lambda>(i, ph). attempts_of i (phase_graph ph)" "(i, ph')"] ip
      by (simp add: wave_attempts_def)
    ultimately show ?thesis by linarith
  qed (use Suc.prems in \<open>simp add: run_wave.simps\<close>)
qed (simp add: run_wave.simps split: if_splits)

section \<open>Folding the results back\<close>

text \<open>Two graphs with the same tasks, up to what execution writes into a row.\<close>

definition same_shape :: "task_graph \<Rightarrow> task_graph \<Rightarrow> bool" where
  "same_shape g0 g \<longleftrightarrow> (\<forall>j. rel_option same_plan (graph_get g0 j) (graph_get g j))"

lemma same_plan_refl [simp]: "same_plan t t"
  by (simp add: same_plan_def)

lemma same_plan_trans: "same_plan s t \<Longrightarrow> same_plan t u \<Longrightarrow> same_plan s u"
  by (simp add: same_plan_def)

lemma same_shape_refl [simp]: "same_shape g g"
  by (simp add: same_shape_def option.rel_refl)

lemma same_shape_trans: "same_shape g h \<Longrightarrow> same_shape h k \<Longrightarrow> same_shape g k"
  unfolding same_shape_def using option.rel_transp [of same_plan] same_plan_trans by (blast intro: transpI dest: transpD)

lemma same_shape_update:
  assumes "\<And>t. graph_get g i = Some t \<Longrightarrow> same_plan t (f t)"
  shows "same_shape g (graph_update i f g)"
  unfolding same_shape_def
proof
  fix j
  show "rel_option same_plan (graph_get g j) (graph_get (graph_update i f g) j)"
    using assms by (cases "graph_get g j") (auto simp: graph_get_update)
qed

lemma same_shape_mark_skipped: "same_shape g (mark_skipped ids g)"
  unfolding same_shape_def graph_get_mark_skipped
  by (simp add: option.rel_map same_plan_def option.rel_refl_strong)

lemma same_shape_gdeps: "same_shape g h \<Longrightarrow> gdeps h = gdeps g"
  by (rule ext) (auto simp: same_shape_def gdeps_def same_plan_def option.rel_sel split: option.splits)

lemma same_shape_nodes: "same_shape g h \<Longrightarrow> nodes h = nodes g"
  by (auto simp: same_shape_def nodes_def option.rel_sel)

lemma same_shape_valid: "same_shape g h \<Longrightarrow> graph_wf h \<Longrightarrow> valid_graph g \<Longrightarrow> valid_graph h"
  by (simp add: valid_graph_def closed_deps_def dep_edges_def same_shape_gdeps same_shape_nodes)

lemma same_shape_len: "same_shape g h \<Longrightarrow> graph_wf g \<Longrightarrow> graph_wf h \<Longrightarrow> graph_len h = graph_len g"
  using same_shape_nodes [of g h] by (simp add: graph_len_card nodes_def)

text \<open>A task that is not settled and whose dependencies are all completed.\<close>

definition can_run :: "task_graph \<Rightarrow> task_id \<Rightarrow> bool" where
  "can_run g j \<longleftrightarrow> (\<exists>t. graph_get g j = Some t \<and> \<not> is_terminal (tk_status t) \<and>
     (\<forall>d \<in> set (deps t). \<exists>t'. graph_get g d = Some t' \<and> tk_status t' = Completed))"

lemma can_run_update:
  assumes "can_run g j" "can_run g i" "i \<noteq> j"
  shows "can_run (graph_update i f g) j"
proof -
  obtain t where t: "graph_get g j = Some t" "\<not> is_terminal (tk_status t)"
      "\<forall>d \<in> set (deps t). \<exists>t'. graph_get g d = Some t' \<and> tk_status t' = Completed"
    using assms(1) by (auto simp: can_run_def)
  have "i \<notin> set (deps t)" using t(3) assms(2) by (auto simp: can_run_def)
  then have "\<forall>d \<in> set (deps t). graph_get (graph_update i f g) d = graph_get g d" by (auto simp: graph_get_update)
  with t assms(3) show ?thesis by (auto simp: can_run_def graph_get_update)
qed

lemma blocked_open: "blocked g f i \<Longrightarrow> \<exists>t. graph_get g i = Some t \<and> \<not> is_terminal (tk_status t)"
  by (auto elim: blockedE)

lemma can_run_not_blocked:
  assumes "can_run g j" "status_of f g \<noteq> Some Completed"
  shows "\<not> blocked g f j"
proof
  assume "blocked g f j"
  then obtain t d where t: "graph_get g j = Some t" "d \<in> set (deps t)" "d = f \<or> blocked g f d"
    by (auto elim: blockedE)
  with assms(1) have "status_of d g = Some Completed" by (auto simp: can_run_def status_of_def)
  with t(3) assms(2) blocked_open [of g f d] show False by (auto simp: status_of_def)
qed

lemma can_run_mark_skipped:
  assumes "can_run g j" "\<forall>i \<in> set ids. blocked g f i" "status_of f g = Some Failed"
  shows "can_run (mark_skipped ids g) j"
proof -
  have j: "j \<notin> set ids" using assms can_run_not_blocked [of g j f] by auto
  obtain t where t: "graph_get g j = Some t" "\<not> is_terminal (tk_status t)"
      "\<forall>d \<in> set (deps t). \<exists>t'. graph_get g d = Some t' \<and> tk_status t' = Completed"
    using assms(1) by (auto simp: can_run_def)
  have "d \<notin> set ids" if "d \<in> set (deps t)" for d
    using that t(3) assms(2) blocked_open [of g f d] by auto
  with j t show ?thesis by (auto simp: can_run_def graph_get_mark_skipped)
qed

text \<open>Writing a row that keeps the plan and is either completed or still running leaves nothing blocked.\<close>

lemma unblocked_row:
  assumes "unblocked g" "graph_get g i = Some t" "\<not> is_terminal (tk_status t)" "same_plan t row"
    "tk_status row = Completed \<or> \<not> is_terminal (tk_status row)"
  shows "unblocked (graph_update i (\<lambda>_. row) g)"
  unfolding unblocked_def
proof (intro allI impI)
  fix j u d u'
  assume u: "graph_get (graph_update i (\<lambda>_. row) g) j = Some u" "\<not> is_terminal (tk_status u)" "d \<in> set (deps u)"
    and u': "graph_get (graph_update i (\<lambda>_. row) g) d = Some u'" "is_terminal (tk_status u')"
  show "tk_status u' = Completed"
  proof (cases "d = i")
    case True
    with u' assms(2,5) show ?thesis by (auto simp: graph_get_update)
  next
    case False
    obtain v where "graph_get g j = Some v" "\<not> is_terminal (tk_status v)" "d \<in> set (deps v)"
      using u assms(2-4) by (auto simp: graph_get_update same_plan_def split: if_splits)
    moreover have "graph_get g d = Some u'" using u' False by (simp add: graph_get_update)
    ultimately show ?thesis using assms(1) u'(2) unfolding unblocked_def by blast
  qed
qed

definition small_attempts :: "task_graph \<Rightarrow> bool" where
  "small_attempts g \<longleftrightarrow> (\<forall>i. attempts_of i g < 2 ^ 32)"

text \<open>No task is completed before what it depends on.\<close>

definition in_order :: "task_graph \<Rightarrow> bool" where
  "in_order g \<longleftrightarrow> (\<forall>i t d. graph_get g i = Some t \<longrightarrow> tk_status t = Completed \<longrightarrow> d \<in> set (deps t) \<longrightarrow>
     status_of d g = Some Completed)"

lemma in_order_row:
  assumes "in_order g" "graph_get g i = Some t" "can_run g i" "same_plan t row"
  shows "in_order (graph_update i (\<lambda>_. row) g)"
  unfolding in_order_def
proof (intro allI impI)
  fix j u d
  assume u: "graph_get (graph_update i (\<lambda>_. row) g) j = Some u" "tk_status u = Completed" "d \<in> set (deps u)"
  have "status_of d g = Some Completed"
  proof (cases "j = i")
    case True
    then have "d \<in> set (deps t)" using u(1,3) assms(2,4) by (simp add: graph_get_update same_plan_def)
    then show ?thesis using assms(2,3) by (auto simp: can_run_def status_of_def)
  next
    case False
    then show ?thesis using u assms(1) by (auto simp: graph_get_update in_order_def)
  qed
  moreover from this have "d \<noteq> i" using assms(3) by (auto simp: can_run_def status_of_def)
  ultimately show "status_of d (graph_update i (\<lambda>_. row) g) = Some Completed" by (simp add: status_of_def graph_get_update)
qed

lemma in_order_mark_skipped:
  assumes "in_order g" "\<forall>i \<in> set ids. i \<in> open_ids g"
  shows "in_order (mark_skipped ids g)"
  unfolding in_order_def
proof (intro allI impI)
  fix j u d
  assume "graph_get (mark_skipped ids g) j = Some u" "tk_status u = Completed" "d \<in> set (deps u)"
  then have "status_of d g = Some Completed"
    using assms(1) by (auto simp: in_order_def graph_get_mark_skipped split: if_splits)
  moreover from this have "d \<notin> set ids" using assms(2) by (auto simp: open_ids_def status_of_def)
  ultimately show "status_of d (mark_skipped ids g) = Some Completed"
    by (auto simp: status_of_def graph_get_mark_skipped)
qed

text \<open>The session's graph between passes: valid, idle, completed in order, with nothing blocked.\<close>

definition idle_graph :: "task_graph \<Rightarrow> bool" where
  "idle_graph g \<longleftrightarrow> valid_graph g \<and> unblocked g \<and> none_running g \<and> small_attempts g \<and> in_order g"

lemma graph_wf_row: "graph_wf g \<Longrightarrow> tk_id row = i \<Longrightarrow> graph_wf (graph_update i (\<lambda>_. row) g)"
  unfolding graph_wf_def graph_get_update by (auto simp: graph_update_def wf_intros split: if_splits)

lemma open_ids_update: "graph_get g i = Some t \<Longrightarrow> is_terminal (tk_status (f t)) \<Longrightarrow> open_ids (graph_update i f g) = open_ids g - {i}"
  by (auto simp: open_ids_def graph_get_update)

lemma none_running_update: "none_running g \<Longrightarrow> (\<And>t. tk_status (f t) \<noteq> Running) \<Longrightarrow> none_running (graph_update i f g)"
  by (auto simp: none_running_def graph_get_update split: if_splits)

lemma none_running_mark_skipped: "none_running g \<Longrightarrow> none_running (mark_skipped ids g)"
  by (auto simp: none_running_def graph_get_mark_skipped)

lemma small_attempts_update:
  "small_attempts g \<Longrightarrow> attempts_of i (graph_update i f g) < 2 ^ 32 \<Longrightarrow> small_attempts (graph_update i f g)"
  by (auto simp: small_attempts_def attempts_of_def graph_get_update)

lemma small_attempts_mark_skipped: "small_attempts g \<Longrightarrow> small_attempts (mark_skipped ids g)"
  by (auto simp: small_attempts_def attempts_of_def graph_get_mark_skipped attempt_count_def split: option.splits)

text \<open>What folding the result of task \<open>i\<close> may do to the session's graph.\<close>

definition settles :: "task_id \<Rightarrow> task_graph \<Rightarrow> task_graph \<Rightarrow> bool" where
  "settles i g g' \<longleftrightarrow> idle_graph g' \<and> same_shape g g' \<and> open_ids g' \<subseteq> open_ids g - {i} \<and>
     (\<forall>j. j \<noteq> i \<longrightarrow> can_run g j \<longrightarrow> can_run g' j)"

lemma complete_settles:
  assumes idle: "idle_graph g" and run: "can_run g i" and t: "graph_get g i = Some t" and row: "same_plan t row"
    and small: "attempt_count row < 2 ^ 32" and completed: "tk_status row = Completed"
  shows "settles i g (graph_update i (\<lambda>_. row) g)"
proof -
  let ?g = "graph_update i (\<lambda>_. row) g"
  have wf: "graph_wf g" using idle by (simp add: idle_graph_def valid_graph_def)
  have open_t: "\<not> is_terminal (tk_status t)" using run t by (auto simp: can_run_def)
  have "tk_id row = i" using wf t row by (simp add: graph_wf_def same_plan_def)
  then have wf': "graph_wf ?g" by (rule graph_wf_row [OF wf])
  have shape: "same_shape g ?g" by (rule same_shape_update) (use t row in simp)
  have "valid_graph ?g" using same_shape_valid [OF shape wf'] idle by (simp add: idle_graph_def)
  moreover have "unblocked ?g" by (rule unblocked_row) (use idle t row completed open_t in \<open>simp_all add: idle_graph_def\<close>)
  moreover have "none_running ?g" by (rule none_running_update) (use idle completed in \<open>simp_all add: idle_graph_def\<close>)
  moreover have "small_attempts ?g"
    by (rule small_attempts_update) (use idle small t in \<open>simp_all add: idle_graph_def attempts_of_def graph_get_update\<close>)
  moreover have "in_order ?g" by (rule in_order_row) (use idle t run row in \<open>simp_all add: idle_graph_def\<close>)
  moreover have "open_ids ?g = open_ids g - {i}" by (rule open_ids_update) (use t completed in simp_all)
  ultimately show ?thesis using shape run can_run_update unfolding settles_def idle_graph_def by blast
qed

lemma fail_settles:
  assumes idle: "idle_graph g" and run: "can_run g i" and t: "graph_get g i = Some t" and row: "same_plan t row"
    and small: "attempt_count row < 2 ^ 32"
  shows "\<exists>g' ids. cascade_skip i (graph_update i (\<lambda>t. t\<lparr>tk_status := Failed\<rparr>) (graph_update i (\<lambda>_. row) g)) =
    Some (g', ids) \<and> settles i g g' \<and> status_of i g' = Some Failed"
proof -
  let ?failed = "row\<lparr>tk_status := Failed\<rparr>" and ?fail = "\<lambda>t. t\<lparr>tk_status := Failed\<rparr>"
  let ?g = "graph_update i (\<lambda>_. ?failed) g" and ?r = "graph_update i (\<lambda>_. row\<lparr>tk_status := Running\<rparr>) g"
  have wf: "graph_wf g" using idle by (simp add: idle_graph_def valid_graph_def)
  have open_t: "\<not> is_terminal (tk_status t)" using run t by (auto simp: can_run_def)
  have id: "tk_id row = i" using wf t row by (simp add: graph_wf_def same_plan_def)
  have eq: "graph_update i ?fail (graph_update i (\<lambda>_. row) g) = ?g" "graph_update i ?fail ?r = ?g"
    by (simp_all add: graph_update_update)
  have wfg: "graph_wf ?g" and wfr: "graph_wf ?r" using id by (simp_all add: graph_wf_row wf)
  obtain ids where casc: "cascade_skip i ?g = Some (mark_skipped ids ?g, ids)" and ids: "set ids = {j. blocked ?g i j}"
    using cascade_skip_correct [OF wfg] by blast
  have st: "status_of i ?g = Some Failed" using t by (simp add: status_of_def graph_get_update)
  have shape: "same_shape g (mark_skipped ids ?g)"
    by (rule same_shape_trans [OF same_shape_update same_shape_mark_skipped]) (use t row in \<open>simp add: same_plan_def\<close>)
  have "valid_graph (mark_skipped ids ?g)"
    using same_shape_valid [OF shape graph_wf_mark_skipped [OF wfg]] idle by (simp add: idle_graph_def)
  moreover have "unblocked ?r"
    by (rule unblocked_row) (use idle t row open_t in \<open>simp_all add: idle_graph_def same_plan_def\<close>)
  then have "unblocked (mark_skipped ids ?g)" by (rule unblocked_after_cascade [OF wfr, of i _ ids, unfolded eq(2)]) (rule casc)
  moreover have "none_running (mark_skipped ids ?g)"
    by (intro none_running_mark_skipped none_running_update) (use idle in \<open>simp_all add: idle_graph_def\<close>)
  moreover have "small_attempts (mark_skipped ids ?g)"
    by (intro small_attempts_mark_skipped small_attempts_update)
       (use idle small t in \<open>simp_all add: idle_graph_def attempts_of_def graph_get_update attempt_count_def\<close>)
  moreover have "in_order ?g"
    by (rule in_order_row) (use idle t run row in \<open>simp_all add: idle_graph_def same_plan_def\<close>)
  then have "in_order (mark_skipped ids ?g)"
    by (rule in_order_mark_skipped) (use ids blocked_open [of ?g i] in \<open>auto simp: open_ids_def\<close>)
  moreover have "open_ids (mark_skipped ids ?g) \<subseteq> open_ids g - {i}"
    using open_ids_update [OF t, of "\<lambda>_. ?failed"] by (auto simp: open_ids_mark_skipped)
  moreover have "can_run (mark_skipped ids ?g) j" if "j \<noteq> i" "can_run g j" for j
    by (rule can_run_mark_skipped [OF can_run_update [OF that(2) run]]) (use that(1) ids st in auto)
  moreover have "\<not> blocked ?g i i" using blocked_open [of ?g i i] t by (auto simp: graph_get_update)
  then have "status_of i (mark_skipped ids ?g) = Some Failed"
    using st ids by (simp add: status_of_def graph_get_mark_skipped)
  ultimately show ?thesis using casc shape unfolding eq(1) settles_def idle_graph_def by blast
qed

lemma same_plan_sym: "same_plan s t \<Longrightarrow> same_plan t s"
  by (simp add: same_plan_def)

lemma fold_result_settles:
  assumes idle: "idle_graph g" and shape: "same_shape g0 g" and idle0: "idle_graph g0" and run: "can_run g i"
    and row: "row_ok oc i g0 tg" and ends: "ends_well i r tg"
  shows "\<exists>g' sh'. fold_result s alone (i, Finished r tg) (g, l, sh) = Some (g', release i l, sh') \<and>
    settles i g g' \<and> sh_usage sh' = sh_usage sh \<and> status_of i g' = Some (if r = Inr True then Completed else Failed)"
proof -
  obtain t where t: "graph_get g i = Some t" using run by (auto simp: can_run_def)
  with shape obtain t0 where t0: "graph_get g0 i = Some t0" "same_plan t0 t"
    unfolding same_shape_def by (metis option.rel_cases option.distinct(1) option.sel)
  obtain u where u: "graph_get tg i = Some u" "same_plan t0 u"
    using only_row_get_own [of i g0 tg t0] row t0(1) by (auto simp: row_ok_def)
  have plan: "same_plan t u" using t0(2) u(2) same_plan_sym same_plan_trans by blast
  have wf: "graph_wf g" "graph_wf g0" using idle idle0 by (simp_all add: idle_graph_def valid_graph_def)
  have "attempts_of i tg < 2 ^ 32"
    using row idle0 budget_lt [of oc] by (auto simp: row_ok_def idle_graph_def small_attempts_def intro: order_le_less_trans)
  then have small: "attempt_count u < 2 ^ 32" using u(1) by (simp add: attempts_of_def)
  let ?g = "graph_update i (\<lambda>_. u) g"
  have "tk_id u = i" using wf(1) t plan by (simp add: graph_wf_def same_plan_def)
  then have "graph_len ?g = graph_len g"
    using same_shape_len [of g ?g] same_shape_update [of g i "\<lambda>_. u"] t plan wf(1) graph_wf_row by simp
  then have len: "graph_len tg = graph_len ?g"
    using only_row_len [of i g0 tg] row same_shape_len [OF shape wf(2,1)] by (simp add: row_ok_def)
  show ?thesis
  proof (cases "r = Inr True")
    case True
    then have "tk_status u = Completed" using ends u(1) by (simp add: ends_well_def status_of_def)
    then show ?thesis using True u(1) len t complete_settles [OF idle run t plan small]
      by (simp add: fold_result_def Let_def status_of_def graph_get_update)
  next
    case False
    have usage: "sh_usage (fold (\<lambda>j. publish (task_event s j (TaskSkippedEv i))) ids sh) = sh_usage sh" for ids
      by (rule sh_usage_chunks)
    from False u(1) len usage fail_settles [OF idle run t plan small] show ?thesis
      by (auto simp: fold_result_def Let_def)
  qed
qed

lemma settles_trans_shape: "same_shape g0 g \<Longrightarrow> settles i g g' \<Longrightarrow> same_shape g0 g'"
  unfolding settles_def using same_shape_trans by blast

lemma fold_results_settle:
  assumes "idle_graph g" "same_shape g0 g" "idle_graph g0" "distinct (map fst ws)" "declines_replans oc"
    "wave_ok oc g0 ws" "unfinished ws = []" "\<forall>i \<in> fst ` set ws. can_run g i"
  shows "\<exists>g' sh'. fold_results s alone ws (g, l, sh) = Some (g', fold release (map fst ws) l, sh') \<and>
    idle_graph g' \<and> same_shape g g' \<and> open_ids g' \<subseteq> open_ids g - fst ` set ws \<and> sh_usage sh' = sh_usage sh"
  using assms(1,2,4,6-8)
proof (induction ws arbitrary: g l sh)
  case (Cons w ws)
  obtain i r tg where w: "w = (i, Finished r tg)"
    using Cons.prems(5) by (cases w; cases "snd w") (auto simp: unfinished_Nil is_finished_def)
  have "row_ok oc i g0 tg \<and> ends_well i r tg"
    using Cons.prems(4) settled_row [OF assms(5), of i g0 r tg] by (simp add: wave_ok_def w phase_ok_def)
  then obtain g1 sh1 where step: "fold_result s alone w (g, l, sh) = Some (g1, release i l, sh1)" "settles i g g1"
      "sh_usage sh1 = sh_usage sh"
    using fold_result_settles [OF Cons.prems(1,2) assms(3), of i oc tg r s alone l sh] Cons.prems(6) by (auto simp: w)
  have "idle_graph g1" "same_shape g0 g1" using step(2) settles_trans_shape [OF Cons.prems(2)] by (auto simp: settles_def)
  moreover have "\<forall>j \<in> fst ` set ws. can_run g1 j"
    using step(2) Cons.prems(3,6) by (auto simp: settles_def w)
  ultimately obtain g' sh' where rest: "fold_results s alone ws (g1, release i l, sh1) =
        Some (g', fold release (map fst ws) (release i l), sh')"
      "idle_graph g'" "same_shape g1 g'" "open_ids g' \<subseteq> open_ids g1 - fst ` set ws" "sh_usage sh' = sh_usage sh1"
    using Cons.IH [of g1 "release i l" sh1] Cons.prems(3-5) by (auto simp: wave_ok_def unfinished_Nil)
  moreover have "same_shape g g'" using step(2) rest(3) same_shape_trans by (auto simp: settles_def)
  moreover have "open_ids g' \<subseteq> open_ids g - fst ` set (w # ws)" using step(2) rest(4) by (auto simp: settles_def w)
  ultimately show ?case using step(1,3) by (simp add: w)
qed simp

section \<open>A pass settles at least one task\<close>

lemma distinct_ready_ids: "graph_wf g \<Longrightarrow> distinct (ready_ids oc g)"
proof -
  assume wf: "graph_wf g"
  have "distinct (graph_iter g)" "inj_on tk_id (set (graph_iter g))"
    using distinct_graph_iter [OF wf] by (simp_all add: distinct_map)
  then have "distinct (map tk_id (ready_tasks g))"
    unfolding distinct_map ready_tasks_def by (auto intro: inj_on_subset)
  then show ?thesis by (simp add: ready_ids_def distinct_take flip: take_map)
qed

lemma ready_ids_can_run: "graph_wf g \<Longrightarrow> i \<in> set (ready_ids oc g) \<Longrightarrow> can_run g i"
proof -
  assume wf: "graph_wf g" and i: "i \<in> set (ready_ids oc g)"
  then obtain t where "t \<in> set (ready_tasks g)" "i = tk_id t" by (auto simp: ready_ids_def dest: in_set_takeD)
  then show ?thesis unfolding can_run_def set_ready_tasks [OF wf] by auto
qed

lemma ready_ids_exist:
  "idle_graph g \<Longrightarrow> \<not> graph_is_complete g \<Longrightarrow> 0 < lc_max_parallel_tasks (oc_limits oc) \<Longrightarrow> ready_ids oc g \<noteq> []"
  using ready_exists [of g] by (auto simp: idle_graph_def valid_graph_def ready_ids_def)

lemma admit_holds:
  "ledger_ok (snd s) \<Longrightarrow> \<forall>t k. holds (snd s) t k \<longrightarrow> t \<in> set (fst s) \<Longrightarrow>
   ledger_ok (snd (admit alnum index g i s)) \<and>
   (\<forall>t k. holds (snd (admit alnum index g i s)) t k \<longrightarrow> t \<in> set (fst (admit alnum index g i s)))"
  using ownership.claim_ok [of "snd s" i] ownership.claim_err [of i _ "snd s"]
  by (fastforce simp: admit_def split: prod.splits option.splits sum.splits if_splits)

lemma admit_all_holds:
  "ledger_ok (snd s) \<Longrightarrow> \<forall>t k. holds (snd s) t k \<longrightarrow> t \<in> set (fst s) \<Longrightarrow>
   ledger_ok (snd (fold (admit alnum index g) ready s)) \<and>
   (\<forall>t k. holds (snd (fold (admit alnum index g) ready s)) t k \<longrightarrow> t \<in> set (fst (fold (admit alnum index g) ready s)))"
proof (induction ready arbitrary: s)
  case (Cons i ready)
  show ?case
    using admit_holds [OF Cons.prems, of alnum index g i] Cons.IH [of "admit alnum index g i s"] by simp
qed simp

lemma release_all: "ledger_ok l \<Longrightarrow> ledger_ok (fold release is l) \<and> (\<forall>t k. holds (fold release is l) t k \<longleftrightarrow> holds l t k \<and> t \<notin> set is)"
proof (induction "is" arbitrary: l)
  case (Cons i "is")
  then show ?case using ownership.released [of l i] by auto
qed simp

lemma wave_steps_start: "wave_steps oc (map (\<lambda>i. (i, Starting g)) is) = wave_fuel oc (length is)"
  by (induction "is") (simp_all add: wave_steps_def wave_fuel_def steps_left_def budget_def)

text \<open>What the executor is configured with when its waves make progress.\<close>

definition steady :: "orchestrator \<Rightarrow> bool" where
  "steady oc \<longleftrightarrow> declines_replans oc \<and> policy_ok oc \<and> 0 < lc_max_parallel_tasks (oc_limits oc)"

lemma subseq_distinct: "subseq xs ys \<Longrightarrow> set xs \<subseteq> set ys \<and> (distinct ys \<longrightarrow> distinct xs)"
  by (induction rule: list_emb.induct) auto

lemma graph_pass_progress:
  assumes idle: "idle_graph g" and free: "unclaimed l" and todo: "\<not> graph_is_complete g"
    and oc: "steady oc" and env: "\<forall>i. sound_env (env i)"
  shows "\<exists>g' l' sh'. graph_pass pow alnum oc s index env sched (g, l, sh) = Some (g', l', sh') \<and>
    idle_graph g' \<and> same_shape g g' \<and> open_ids g' \<subset> open_ids g \<and> unclaimed l'"
proof -
  let ?ready = "ready_ids oc g"
  have wf: "graph_wf g" using idle by (simp add: idle_graph_def valid_graph_def)
  obtain admitted l1 where adm: "admit_concurrently alnum index g ?ready l = (admitted, l1)" by force
  have sub: "set admitted \<subseteq> set ?ready" "distinct admitted"
    using subseq_distinct [OF admitted_subseq [of alnum index g ?ready l]] distinct_ready_ids [OF wf, of oc] adm by auto
  have run: "\<forall>i \<in> set admitted. can_run g i" using sub(1) ready_ids_can_run [OF wf] by blast
  obtain i rest where "?ready = i # rest"
    using ready_ids_exist [OF idle todo, of oc] oc by (cases ?ready) (auto simp: steady_def)
  moreover from this have "can_run g i" using ready_ids_can_run [OF wf, of i oc] by simp
  ultimately have some: "admitted \<noteq> []"
    using first_admitted [OF free, of ?ready i rest g alnum index] adm by (auto simp: can_run_def)
  have proper: "proper_task i g" if "i \<in> set admitted" for i
    using that run idle by (auto simp: proper_task_def can_run_def idle_graph_def small_attempts_def)
  let ?ws = "map (\<lambda>i. (i, Starting g)) admitted"
  have "wave_ok oc g ?ws" using proper by (auto simp: wave_ok_def phase_ok_def)
  then obtain ws sh1 where ws: "run_wave (wave_fuel oc (length admitted)) pow oc s env sched 0 ?ws sh = Some (ws, sh1)"
      "map fst ws = admitted" "unfinished ws = []" "wave_ok oc g ws"
    using run_wave_ok [of oc g ?ws env "wave_fuel oc (length admitted)" pow s sched 0 sh] oc env
    by (auto simp: wave_steps_start steady_def o_def)
  have fst_ws: "fst ` set ws = set admitted" using ws(2) by (metis list.set_map)
  obtain g' sh' where fold: "fold_results s (length ws = 1) ws (g, l1, sh1) = Some (g', fold release admitted l1, sh')"
      "idle_graph g'" "same_shape g g'" "open_ids g' \<subseteq> open_ids g - set admitted"
    using fold_results_settle [OF idle same_shape_refl idle, of ws oc s "length ws = 1" l1 sh1] ws(2-4) sub(2) run fst_ws oc
    by (auto simp: steady_def)
  have "set admitted \<subseteq> open_ids g" using run by (auto simp: can_run_def open_ids_def)
  with fold(4) some have "open_ids g' \<subset> open_ids g" using hd_in_set [OF some] by blast
  moreover have "ledger_ok l1 \<and> (\<forall>t k. holds l1 t k \<longrightarrow> t \<in> set admitted)"
    using admit_all_holds [of "([], l)" alnum index g ?ready] free adm by (simp add: unclaimed_def admit_concurrently_def)
  then have "unclaimed (fold release admitted (fold release admitted l1))"
    using release_all [of l1 admitted] release_all [of "fold release admitted l1" admitted] by (auto simp: unclaimed_def)
  ultimately show ?thesis using adm ws(1) fold by (auto simp: graph_pass_def)
qed

lemma graph_passes_complete:
  assumes "idle_graph g" "unclaimed l" "steady oc" "\<forall>k i. sound_env (env k i)" "card (open_ids g) \<le> n"
  shows "\<exists>g' l' sh'. graph_passes n pow alnum oc s index env sched k (g, l, sh) = Some (g', l', sh') \<and>
    idle_graph g' \<and> same_shape g g' \<and> graph_is_complete g' \<and> unclaimed l'"
  using assms(1,2,5)
proof (induction n arbitrary: k g l sh)
  case 0
  have "graph_wf g" using "0.prems"(1) by (simp add: idle_graph_def valid_graph_def)
  with 0 show ?case by (auto simp: graph_is_complete_iff finite_open_ids)
next
  case (Suc n)
  have wf: "graph_wf g" using Suc.prems(1) by (simp add: idle_graph_def valid_graph_def)
  show ?case
  proof (cases "graph_is_complete g")
    case False
    have ready: "ready_ids oc g \<noteq> []" using ready_ids_exist [OF Suc.prems(1) False] assms(3) by (simp add: steady_def)
    obtain g1 l1 sh1 where pass: "graph_pass pow alnum oc s index (env k) (sched k) (g, l, sh) = Some (g1, l1, sh1)"
        "idle_graph g1" "same_shape g g1" "open_ids g1 \<subset> open_ids g" "unclaimed l1"
      using graph_pass_progress [OF Suc.prems(1,2) False assms(3), of "env k"] assms(4) by blast
    have "card (open_ids g1) < card (open_ids g)" using pass(4) finite_open_ids [OF wf] by (simp add: psubset_card_mono)
    then obtain g' l' sh' where "graph_passes n pow alnum oc s index env sched (Suc k) (g1, l1, sh1) = Some (g', l', sh')"
        "idle_graph g'" "same_shape g1 g'" "graph_is_complete g'" "unclaimed l'"
      using Suc.IH [OF pass(2,5), of "Suc k" sh1] Suc.prems(3) by auto
    moreover from this have "same_shape g g'" using same_shape_trans [OF pass(3)] by blast
    ultimately show ?thesis using False ready pass(1) by (intro exI [of _ g'] exI [of _ l'] exI [of _ sh']) simp
  qed (use Suc.prems in simp)
qed

lemma execute_graph_completes:
  assumes "idle_graph g" "unclaimed l" "steady oc" "\<forall>k i. sound_env (env k i)"
  shows "\<exists>g' l' sh'. execute_graph pow alnum oc s index env sched (g, l, sh) = Some (g', l', sh') \<and>
    idle_graph g' \<and> same_shape g g' \<and> graph_is_complete g' \<and> unclaimed l'"
proof -
  have wf: "graph_wf g" using assms(1) by (simp add: idle_graph_def valid_graph_def)
  have "card (open_ids g) \<le> card (nodes g)" by (rule card_mono [OF finite_nodes [OF wf] open_ids_nodes])
  then have "card (open_ids g) \<le> max_passes g" by (simp add: max_passes_def graph_len_card [OF wf] nodes_def)
  from graph_passes_complete [OF assms this] show ?thesis by (simp add: execute_graph_def)
qed

section \<open>A session ends with every task settled\<close>

lemma sh_agents_before_planning [simp]:
  "sh_agents (prepare_workspace oc s sh) = sh_agents sh" "sh_agents (publish e sh) = sh_agents sh"
  by (simp_all add: prepare_workspace_def publish_def)

lemma plan_goal_cong: "sh_agents sh' = sh_agents sh \<Longrightarrow> plan_goal oc memories goal sh' = plan_goal oc memories goal sh"
  by (simp add: plan_goal_def)

text \<open>What a session relies on from its planner: a proposed plan is a proper graph of tasks nobody has
  worked on. That its edges make sense is checked by the session itself.\<close>

locale session_planner =
  fixes planner :: "string \<Rightarrow> capability_set \<Rightarrow> string list \<Rightarrow> task_graph result"
  assumes planned: "planner goal caps memories = Inr g \<Longrightarrow> untried_graph g"
begin

lemma planned_idle:
  assumes "planner goal caps memories = Inr g" "graph_validate g = Inr ()"
  shows "idle_graph g"
proof -
  have g: "graph_wf g" "\<And>i t. graph_get g i = Some t \<Longrightarrow> tk_status t = Pending \<and> tk_attempts t = []"
    using planned [OF assms(1)] by (auto simp: untried_graph_def all_tasks_def)
  have "valid_graph g" using graph_validate_iff [OF g(1)] assms(2) g(1) by (simp add: valid_graph_def)
  moreover have "unblocked g" unfolding unblocked_def using g(2) by (metis is_terminal_simps(5))
  moreover have "none_running g" unfolding none_running_def using g(2) by (metis task_status.distinct(3))
  moreover have "small_attempts g"
    using g(2) by (auto simp: small_attempts_def attempts_of_def attempt_count_def split: option.splits)
  moreover have "in_order g" unfolding in_order_def using g(2) by (metis task_status.distinct(5))
  ultimately show ?thesis by (simp add: idle_graph_def)
qed

lemma session_settles:
  assumes oc: "oc_plan oc = planner" "steady oc" and l: "unclaimed l" and env: "\<forall>k i. sound_env (env k i)"
  shows "\<exists>r l' sh'. run_session pow alnum oc memories index env sched s goal (l, sh) = Some (r, l', sh') \<and> unclaimed l' \<and>
    (case r of
       Inl e \<Rightarrow> plan_goal oc memories goal sh = Inl e
     | Inr res \<Rightarrow> graph_is_complete (sr_graph res))"
proof -
  let ?sh = "prepare_workspace oc s (publish (session_event s (SessionStarted goal)) (record_call oc (SessionStartedRec s goal) sh))"
  have eq: "plan_goal oc memories goal ?sh = plan_goal oc memories goal sh" by (rule plan_goal_cong) simp
  show ?thesis
  proof (cases "plan_goal oc memories goal sh")
    case (Inl e)
    then show ?thesis using l eq by (simp add: run_session_def Let_def)
  next
    case (Inr g)
    then have "graph_validate g = Inr ()" "\<exists>caps ms. planner goal caps ms = Inr g"
      by (auto simp: plan_goal_def oc(1) split: sum.splits)
    then have "idle_graph g" using planned_idle by blast
    from execute_graph_completes [OF this l oc(2) env] Inr eq show ?thesis
      by (fastforce simp: run_session_def Let_def)
  qed
qed

end

interpretation heuristic: session_planner "\<lambda>goal caps memories. plan to_lowercase fresh always_validate goal"
  for to_lowercase fresh always_validate
  by unfold_locales (auto simp: plan_def Let_def plan_untried split: if_splits sum.splits)

end
