(* ===== verification/Confine.thy ===== *)
theory Confine
  imports Config_Layers
begin

text \<open>
  \<open>cuma-workspace/src/confine.rs\<close>: how coding agents are confined. A profile says what an agent
  may see and write; it is rendered as the command prefix of ai-jail, bubblewrap, firejail or
  sandbox-exec.

  What the code asks of the operating system is the record \<open>os_view\<close>: canonical paths, kinds of
  files, the entries of the home directory, the text of a file, the running executable, the working
  directory and the names of the environment's variables. Which runtimes work is a predicate.
\<close>

section \<open>The operating system\<close>

record os_view =
  os_canonicalize :: "path \<Rightarrow> path option"
  os_home :: "path option"
  os_entries :: "path \<Rightarrow> string list option"
  os_exists :: "path \<Rightarrow> bool"
  os_is_dir :: "path \<Rightarrow> bool"
  os_is_file :: "path \<Rightarrow> bool"
  os_is_symlink :: "path \<Rightarrow> bool"
  os_is_special_file :: "path \<Rightarrow> bool"
  os_read :: "path \<Rightarrow> string option"
  os_current_exe :: "path option"
  os_current_dir :: "path option"
  os_environment :: "string list"

definition canonical :: "os_view \<Rightarrow> path \<Rightarrow> path" where
  "canonical os p = (case os_canonicalize os p of Some q \<Rightarrow> q | None \<Rightarrow> p)"

text \<open>\<open>Path::parent\<close>: the text before the last component, without trailing separators.\<close>

fun drop_tail :: "string \<Rightarrow> string" where
  "drop_tail [] = []"
| "drop_tail [c] = [c]"
| "drop_tail (c # d # r) =
     (if c = CHR ''/'' then drop_tail (d # r)
      else if c = CHR ''.'' \<and> d = CHR ''/'' then drop_tail (d # r)
      else c # d # r)"

definition path_parent :: "path \<Rightarrow> path option" where
  "path_parent p =
     (case rev (components p) of
        [] \<Rightarrow> None
      | RootDir # _ \<Rightarrow> None
      | _ \<Rightarrow> Some (rev (drop_tail (dropWhile (\<lambda>c. c \<noteq> CHR ''/'') (drop_tail (rev p))))))"

fun component_str :: "component \<Rightarrow> string" where
  "component_str RootDir = ''/''"
| "component_str CurDir = ''.''"
| "component_str ParentDir = ''..''"
| "component_str (Normal s) = s"

section \<open>Tables\<close>

definition hidden_in_home :: "string list" where
  "hidden_in_home =
     [''.gnupg'', ''.aws'', ''.ssh'', ''.mozilla'', ''.thunderbird'', ''.basilisk-dev'', ''.sparrow'', ''.docker'', ''.kube'',
      ''.azure'', ''.password-store'', ''.netrc'', ''.pgpass'', ''.git-credentials'']"

definition writable_in_home :: "string list" where
  "writable_in_home =
     [''.gemini'', ''.claude'', ''.claude.json'', ''.jcode'', ''.crush'', ''.codex'', ''.aider'', ''.kiro'', ''.grok'',
      ''.agents'', ''.config'', ''.cargo'', ''.cache'', ''.bundle'', ''.gem'', ''.rustup'', ''.npm'', ''.bun'', ''.deno'',
      ''.yarn'', ''.pnpm'', ''.m2'', ''.gradle'', ''.dotnet'', ''.nuget'', ''.pub-cache'', ''.mix'', ''.hex'']"

definition kept_env :: "string list" where
  "kept_env =
     [''PATH'', ''HOME'', ''USER'', ''LOGNAME'', ''SHELL'', ''TERM'', ''COLORTERM'', ''LANG'', ''LANGUAGE'', ''TZ'', ''TMPDIR'',
      ''HTTP_PROXY'', ''HTTPS_PROXY'', ''NO_PROXY'', ''ALL_PROXY'', ''http_proxy'', ''https_proxy'', ''no_proxy'', ''all_proxy'',
      ''SSL_CERT_FILE'', ''SSL_CERT_DIR'', ''NODE_EXTRA_CA_CERTS'', ''REQUESTS_CA_BUNDLE'', ''CURL_CA_BUNDLE'', ''CARGO_HOME'',
      ''RUSTUP_HOME'', ''GOPATH'', ''GOROOT'', ''GOMODCACHE'', ''JAVA_HOME'', ''NVM_DIR'', ''VOLTA_HOME'', ''PNPM_HOME'',
      ''BUN_INSTALL'', ''DENO_DIR'', ''PYENV_ROOT'', ''GOOGLE_API_KEY'', ''OPENROUTER_API_KEY'']"

definition kept_env_prefixes :: "string list" where
  "kept_env_prefixes =
     [''LC_'', ''XDG_'', ''ANTHROPIC_'', ''CLAUDE_'', ''OPENAI_'', ''CODEX_'', ''GEMINI_'', ''GOOGLE_GENAI_'']"

text \<open>\<open>str::to_ascii_uppercase\<close>.\<close>

definition ascii_upper :: "char \<Rightarrow> char" where
  "ascii_upper c = (if is_ascii_lowercase c then char_of ((of_char c :: nat) - 32) else c)"

definition is_network_setup :: "string \<Rightarrow> bool" where
  "is_network_setup name =
     (let upper = map ascii_upper name in
      suffix ''PROXY'' upper \<or>
      list_ex (\<lambda>marker. str_contains upper marker)
        [''CA_BUNDLE'', ''CAINFO'', ''CACERT'', ''CA_CERTS'', ''CA_STORE'', ''SSL_CERT'', ''SSL_ROOTS''] \<or>
      suffix ''_CERT'' upper \<or>
      name \<in> {''NODE_OPTIONS'', ''JAVA_TOOL_OPTIONS'', ''LD_LIBRARY_PATH''})"

definition is_kept :: "string \<Rightarrow> string list \<Rightarrow> bool" where
  "is_kept name extra \<longleftrightarrow>
     name \<in> set kept_env \<or> list_ex (\<lambda>p. prefix p name) kept_env_prefixes \<or> is_network_setup name \<or> name \<in> set extra"

definition is_portable_agent_env :: "string \<Rightarrow> bool" where
  "is_portable_agent_env name \<longleftrightarrow>
     list_ex (\<lambda>p. prefix p name) (filter (\<lambda>p. p \<noteq> ''LC_'' \<and> p \<noteq> ''XDG_'') kept_env_prefixes) \<or>
     name \<in> {''GOOGLE_API_KEY'', ''OPENROUTER_API_KEY''} \<or> suffix ''PROXY'' (map ascii_upper name)"

section \<open>Runtimes\<close>

datatype agent_runtime = AiJail | Bubblewrap | SandboxExec | Firejail

definition all_runtimes :: "agent_runtime list" where
  "all_runtimes = [AiJail, Bubblewrap, SandboxExec, Firejail]"

definition from_config_name :: "string \<Rightarrow> agent_runtime option" where
  "from_config_name name =
     map_of [(''ai-jail'', AiJail), (''bubblewrap'', Bubblewrap), (''sandbox-exec'', SandboxExec), (''firejail'', Firejail)] name"

fun runtime_program :: "agent_runtime \<Rightarrow> string" where
  "runtime_program AiJail = ''ai-jail''"
| "runtime_program Bubblewrap = ''bwrap''"
| "runtime_program SandboxExec = ''sandbox-exec''"
| "runtime_program Firejail = ''firejail''"

fun runtime_name :: "agent_runtime \<Rightarrow> string" where
  "runtime_name AiJail = ''ai-jail''"
| "runtime_name Bubblewrap = ''bubblewrap''"
| "runtime_name SandboxExec = ''macOS sandbox-exec''"
| "runtime_name Firejail = ''firejail''"

record agent_sandbox =
  sx_runtime :: "agent_runtime option"
  sx_enabled :: bool
  sx_allowed_hosts :: "string list"
  sx_forwarded_env :: "string list"
  sx_writable :: "path list"
  sx_required :: bool

datatype confinement_level = Confined string | NetworkUnfiltered string | ConfineDisabled | ConfineUnavailable

fun is_shortfall :: "confinement_level \<Rightarrow> bool" where
  "is_shortfall (NetworkUnfiltered _) = True"
| "is_shortfall ConfineUnavailable = True"
| "is_shortfall _ = False"

definition with_runtime :: "path option \<Rightarrow> security_config \<Rightarrow> agent_runtime option \<Rightarrow> agent_sandbox" where
  "with_runtime home c runtime =
     \<lparr>sx_runtime = (if se_sandbox c then runtime else None), sx_enabled = se_sandbox c,
      sx_allowed_hosts = se_network_allowlist c, sx_forwarded_env = se_agent_env c,
      sx_writable = map (expand_home home) (se_agent_writable_paths c), sx_required = se_require_agent_sandbox c\<rparr>"

definition detect_confinement :: "path option \<Rightarrow> (agent_runtime \<Rightarrow> bool) \<Rightarrow> security_config \<Rightarrow> agent_sandbox" where
  "detect_confinement home works c =
     with_runtime home c (if se_sandbox c then List.find works all_runtimes else None)"

definition detect_only :: "path option \<Rightarrow> (agent_runtime \<Rightarrow> bool) \<Rightarrow> security_config \<Rightarrow> agent_runtime \<Rightarrow> agent_sandbox" where
  "detect_only home works c runtime = with_runtime home c (if se_sandbox c \<and> works runtime then Some runtime else None)"

definition with_state :: "path list \<Rightarrow> agent_sandbox \<Rightarrow> agent_sandbox" where
  "with_state paths sx = sx\<lparr>sx_writable := sx_writable sx @ paths\<rparr>"

definition filters_network :: "agent_sandbox \<Rightarrow> bool" where
  "filters_network sx \<longleftrightarrow> sx_runtime sx = Some AiJail"

definition confinement :: "agent_sandbox \<Rightarrow> confinement_level" where
  "confinement sx =
     (case sx_runtime sx of
        None \<Rightarrow> if sx_enabled sx then ConfineUnavailable else ConfineDisabled
      | Some runtime \<Rightarrow>
          if runtime \<noteq> AiJail \<and> sx_allowed_hosts sx \<noteq> [] then NetworkUnfiltered (runtime_name runtime)
          else Confined (runtime_name runtime))"

definition refuses_agents :: "agent_sandbox \<Rightarrow> bool" where
  "refuses_agents sx \<longleftrightarrow> sx_required sx \<and> is_shortfall (confinement sx)"

definition confine_describe :: "agent_sandbox \<Rightarrow> string" where
  "confine_describe sx =
     (let dash = [CHR 0xE2, CHR 0x80, CHR 0x94] in
      case confinement sx of
        Confined runtime \<Rightarrow> ''agents: confined by '' @ runtime
      | NetworkUnfiltered runtime \<Rightarrow>
          ''agents: filesystem confined by '' @ runtime @ '', but security.network_allowlist is NOT enforced '' @ dash
          @ '' only ai-jail filters by host; the network is open''
      | ConfineDisabled \<Rightarrow> ''agents: unconfined (sandbox disabled)''
      | ConfineUnavailable \<Rightarrow>
          ''agents: UNCONFINED '' @ dash @ '' none of ai-jail, bubblewrap, sandbox-exec or firejail works here'')"

section \<open>The profile\<close>

record profile =
  pf_workspace :: path
  pf_git_common_dir :: "path option"
  pf_home :: "path option"
  pf_home_writable :: "path list"
  pf_home_readable :: "path list"
  pf_home_hidden :: "path list"
  pf_extra_writable :: "path list"
  pf_cuma_executable :: "path option"
  pf_command_paths :: "path list"
  pf_network :: bool
  pf_strip_env :: "string list"
  pf_forward_env :: "string list"

definition strip_prefix :: "string \<Rightarrow> string \<Rightarrow> string option" where
  "strip_prefix p s = (if prefix p s then Some (drop (length p) s) else None)"

definition git_common_dir :: "os_view \<Rightarrow> path \<Rightarrow> path option" where
  "git_common_dir os workspace =
     (let marker = path_join workspace ''.git'' in
      if \<not> os_is_file os marker then None
      else
        Option.bind (os_read os marker) (\<lambda>text.
        Option.bind (strip_prefix ''gitdir:'' (trim text)) (\<lambda>rest.
          let gitdir = trim rest;
              gitdir = (if prefix ''/'' gitdir then gitdir else path_join workspace gitdir);
              common =
                (case path_parent gitdir of
                   Some parent \<Rightarrow>
                     if file_name parent = Some ''worktrees'' then path_parent parent else Some gitdir
                 | None \<Rightarrow> Some gitdir)
          in Option.bind common (os_canonicalize os))))"

definition dot_entries :: "os_view \<Rightarrow> path option \<Rightarrow> string list" where
  "dot_entries os home =
     (case Option.bind home (os_entries os) of
        None \<Rightarrow> []
      | Some names \<Rightarrow> sort (filter (prefix ''.'') names))"

definition home_paths :: "path option \<Rightarrow> string list \<Rightarrow> path list" where
  "home_paths home names = (case home of None \<Rightarrow> [] | Some h \<Rightarrow> map (path_join h) names)"

definition hidden_executable :: "os_view \<Rightarrow> path option \<Rightarrow> path \<Rightarrow> path option" where
  "hidden_executable os home workspace =
     (case os_current_exe os of
        None \<Rightarrow> None
      | Some p \<Rightarrow>
          let exe = canonical os p in
          if (case home of
                None \<Rightarrow> False
              | Some h \<Rightarrow> path_starts_with exe h \<and>
                  (case drop (length (components h)) (components exe) of
                     [] \<Rightarrow> True
                   | c # _ \<Rightarrow> \<not> prefix ''.'' (component_str c))) \<and>
             \<not> path_starts_with exe workspace
          then Some exe else None)"

definition for_workspace :: "os_view \<Rightarrow> agent_sandbox \<Rightarrow> path \<Rightarrow> string list \<Rightarrow> profile" where
  "for_workspace os sx workspace0 keep_env =
     (let workspace = canonical os workspace0;
          home = map_option (canonical os) (os_home os);
          names = dot_entries os home;
          keep = sx_forwarded_env sx @ keep_env
      in \<lparr>pf_workspace = workspace, pf_git_common_dir = git_common_dir os workspace, pf_home = home,
          pf_home_writable =
            home_paths home (filter (\<lambda>n. n \<notin> set hidden_in_home \<and> n \<in> set writable_in_home) names),
          pf_home_readable =
            filter (\<lambda>p. \<not> os_is_special_file os p)
              (home_paths home (filter (\<lambda>n. n \<notin> set hidden_in_home \<and> n \<notin> set writable_in_home) names)),
          pf_home_hidden = home_paths home (filter (\<lambda>n. n \<in> set hidden_in_home) names),
          pf_extra_writable = map (canonical os) (filter (os_exists os) (sx_writable sx)),
          pf_cuma_executable = hidden_executable os home workspace,
          pf_command_paths = [], pf_network = True,
          pf_strip_env = filter (\<lambda>n. \<not> is_kept n keep) (os_environment os), pf_forward_env = keep\<rparr>)"

definition option_list :: "'a option \<Rightarrow> 'a list" where
  "option_list x = (case x of Some v \<Rightarrow> [v] | None \<Rightarrow> [])"

definition writable :: "profile \<Rightarrow> path list" where
  "writable pf = pf_workspace pf # option_list (pf_git_common_dir pf) @ pf_home_writable pf @ pf_extra_writable pf"

section \<open>Rendering\<close>

definition ai_jail :: "os_view \<Rightarrow> profile \<Rightarrow> string list \<Rightarrow> string list" where
  "ai_jail os pf allowed_hosts =
     [''ai-jail'', ''--exec'', ''--clean'', ''--no-save-config'', ''--agent-state'']
     @ (if allowed_hosts = [] then [''--network''] else concat (map (\<lambda>h. [''--allow-host'', h]) allowed_hosts))
     @ concat (map (\<lambda>n. [''--env'', n]) (pf_forward_env pf))
     @ concat (map (\<lambda>p. [''--rw-map'', p])
         (filter (\<lambda>p. case os_current_dir os of Some here \<Rightarrow> \<not> path_eq here p | None \<Rightarrow> True)
           (pf_workspace pf # option_list (pf_git_common_dir pf) @ pf_extra_writable pf)))
     @ concat (map (\<lambda>p. [''--map'', p]) (pf_command_paths pf))
     @ [''--'']"

definition bwrap_system_dir :: "os_view \<Rightarrow> string \<times> string \<Rightarrow> string list" where
  "bwrap_system_dir os entry =
     (case entry of (dir, target) \<Rightarrow>
        if os_is_symlink os dir then [''--symlink'', target, dir]
        else if os_is_dir os dir then [''--ro-bind'', dir, dir] else [])"

definition bwrap_system :: "os_view \<Rightarrow> string list" where
  "bwrap_system os =
     [''--ro-bind'', ''/usr'', ''/usr'']
     @ concat (map (bwrap_system_dir os)
         [(''/bin'', ''usr/bin''), (''/sbin'', ''usr/sbin''), (''/lib'', ''usr/lib''), (''/lib32'', ''usr/lib32''), (''/lib64'', ''usr/lib64'')])
     @ concat (map (\<lambda>dir. [''--ro-bind-try'', dir, dir]) [''/etc'', ''/opt'', ''/nix'', ''/sys''])
     @ [''--dev'', ''/dev'', ''--proc'', ''/proc'', ''--tmpfs'', ''/tmp'', ''--tmpfs'', ''/run'']
     @ (case os_canonicalize os ''/etc/resolv.conf'' of
          Some resolv \<Rightarrow>
            if path_starts_with resolv ''/run'' \<or> path_starts_with resolv ''/tmp'' then [''--ro-bind'', resolv, resolv] else []
        | None \<Rightarrow> [])"

definition bwrap_shows :: "profile \<Rightarrow> path \<Rightarrow> bool" where
  "bwrap_shows pf p \<longleftrightarrow>
     list_ex (path_starts_with p)
       [''/usr'', ''/bin'', ''/sbin'', ''/lib'', ''/lib32'', ''/lib64'', ''/etc'', ''/opt'', ''/nix'', ''/sys''] \<or>
     list_ex (path_starts_with p) (pf_home_readable pf @ writable pf)"

definition bwrap_home :: "os_view \<Rightarrow> profile \<Rightarrow> string list" where
  "bwrap_home os pf =
     (case pf_home pf of Some h \<Rightarrow> if path_eq h ''/'' then [] else [''--tmpfs'', h] | None \<Rightarrow> [])
     @ concat (map (\<lambda>p. [''--ro-bind-try'', p, p]) (pf_home_readable pf))
     @ concat (map (\<lambda>p. [''--bind-try'', p, p])
         (pf_home_writable pf @ pf_extra_writable pf @ option_list (pf_git_common_dir pf)))
     @ concat (map (\<lambda>p. [''--ro-bind-try'', p, p]) (option_list (pf_cuma_executable pf)))
     @ concat (map (\<lambda>p. [''--ro-bind-try'', canonical os p, p]) (filter (\<lambda>p. \<not> bwrap_shows pf p) (pf_command_paths pf)))"

definition bwrap_workspace :: "os_view \<Rightarrow> profile \<Rightarrow> string list" where
  "bwrap_workspace os pf =
     [''--bind'', pf_workspace pf, pf_workspace pf]
     @ concat (map (\<lambda>h. if os_is_dir os h then [''--tmpfs'', h] else [''--ro-bind'', ''/dev/null'', h])
         (filter (\<lambda>h. path_starts_with h (pf_workspace pf)) (pf_home_hidden pf)))
     @ [''--chdir'', pf_workspace pf]"

definition bubblewrap :: "os_view \<Rightarrow> profile \<Rightarrow> string list" where
  "bubblewrap os pf =
     [''bwrap'', ''--die-with-parent'', ''--new-session'', ''--unshare-pid'', ''--unshare-uts'', ''--unshare-ipc'']
     @ (if pf_network pf then [] else [''--unshare-net''])
     @ bwrap_system os @ bwrap_home os pf @ bwrap_workspace os pf
     @ concat (map (\<lambda>n. [''--unsetenv'', n]) (pf_strip_env pf)) @ [''--'']"

definition firejail :: "os_view \<Rightarrow> profile \<Rightarrow> string list" where
  "firejail os pf =
     [''firejail'', ''--quiet'', ''--noprofile'', ''--nonewprivs'', ''--caps.drop=all'', ''--read-only=/'']
     @ (if pf_network pf then [] else [''--net=none''])
     @ map (\<lambda>tmp. ''--read-write='' @ tmp) (filter (os_exists os) [''/tmp'', ''/var/tmp'', ''/dev/shm''])
     @ map (\<lambda>p. ''--read-write='' @ p) (filter (os_exists os) (writable pf))
     @ map (\<lambda>h. ''--blacklist='' @ h) (pf_home_hidden pf)
     @ map (\<lambda>n. ''--rmenv='' @ n) (pf_strip_env pf) @ [''--'']"

definition seatbelt_quote :: "path \<Rightarrow> string" where
  "seatbelt_quote p =
     [CHR 0x22] @ concat (map (\<lambda>c. if c = CHR 0x5C \<or> c = CHR 0x22 then [CHR 0x5C, c] else [c]) p) @ [CHR 0x22]"

definition seatbelt_profile :: "os_view \<Rightarrow> profile \<Rightarrow> string" where
  "seatbelt_profile os pf =
     (let nl = [CHR 0x0A] in
      ''(version 1)'' @ nl @ ''(allow default)'' @ nl @ ''(deny file-write*)'' @ nl @ ''(allow file-write*'' @ nl
      @ concat (map (\<lambda>p. ''  ('' @ (if os_is_file os p then ''literal'' else ''subpath'') @ '' '' @ seatbelt_quote p @ '')'' @ nl) (writable pf))
      @ concat (map (\<lambda>tmp. ''  (subpath '' @ [CHR 0x22] @ tmp @ [CHR 0x22] @ '')'' @ nl) [''/private/tmp'', ''/private/var/folders'', ''/dev/fd''])
      @ concat (map (\<lambda>d. ''  (literal '' @ [CHR 0x22] @ d @ [CHR 0x22] @ '')'' @ nl)
          [''/dev/null'', ''/dev/zero'', ''/dev/tty'', ''/dev/ptmx'', ''/dev/dtracehelper''])
      @ ''  (regex #'' @ [CHR 0x22] @ ''^/dev/ttys[0-9]+$'' @ [CHR 0x22] @ ''))'' @ nl
      @ (if pf_home_hidden pf = [] then []
         else ''(deny file-read* file-write*'' @ nl
           @ concat (map (\<lambda>h. ''  (subpath '' @ seatbelt_quote h @ '')'' @ nl) (pf_home_hidden pf)) @ '')'' @ nl)
      @ (if pf_network pf then [] else ''(deny network*)'' @ nl))"

definition sandbox_exec :: "os_view \<Rightarrow> profile \<Rightarrow> string list" where
  "sandbox_exec os pf =
     [''sandbox-exec'', ''-p'', seatbelt_profile os pf, ''/usr/bin/env''] @ concat (map (\<lambda>n. [''-u'', n]) (pf_strip_env pf))"

definition agent_profile :: "os_view \<Rightarrow> agent_sandbox \<Rightarrow> path \<Rightarrow> string list \<Rightarrow> path list \<Rightarrow> profile" where
  "agent_profile os sx workspace keep_env readable =
     (for_workspace os sx workspace keep_env)\<lparr>pf_command_paths := readable\<rparr>"

definition launch_prefix :: "os_view \<Rightarrow> agent_sandbox \<Rightarrow> path \<Rightarrow> string list \<Rightarrow> path list \<Rightarrow> string list option" where
  "launch_prefix os sx workspace keep_env readable =
     (case sx_runtime sx of
        None \<Rightarrow> None
      | Some runtime \<Rightarrow>
          let pf = agent_profile os sx workspace keep_env readable
          in Some (case runtime of
               AiJail \<Rightarrow> ai_jail os pf (sx_allowed_hosts sx)
             | Bubblewrap \<Rightarrow> bubblewrap os pf
             | SandboxExec \<Rightarrow> sandbox_exec os pf
             | Firejail \<Rightarrow> firejail os pf))"

section \<open>Paths of entries\<close>

lemma split_char_not_Nil [simp]: "split_char sep s \<noteq> []"
  by (cases s) (auto split: list.split)

lemma split_char_append: "split_char sep (a @ sep # b) = split_char sep a @ split_char sep b"
proof (induction a)
  case (Cons c a)
  then show ?case by (cases "split_char sep a") auto
qed simp

lemma split_char_single: "sep \<notin> set s \<Longrightarrow> split_char sep s = [s]"
  by (induction s) auto

definition entry_name :: "string \<Rightarrow> bool" where
  "entry_name n \<longleftrightarrow> n \<noteq> [] \<and> n \<noteq> ''.'' \<and> n \<noteq> ''..'' \<and> CHR ''/'' \<notin> set n"

lemma components_entry:
  assumes "entry_name n"
  shows "components (path_join h n) = components h @ [Normal n]"
proof -
  have n: "\<not> prefix ''/'' n" "split_char (CHR ''/'') n = [n]" "component_of n = Normal n" "n \<noteq> []" "n \<noteq> ''.''"
    using assms by (auto simp: entry_name_def split_char_single component_of_def prefix_def)
  show ?thesis
  proof (cases "h = []")
    case True
    then show ?thesis using n by (simp add: path_join_def components_def)
  next
    case False
    obtain g where j: "path_join h n = g @ CHR ''/'' # n" and g: "h = g \<or> h = g @ ''/''"
    proof (cases "suffix ''/'' h")
      case True
      then obtain g where "h = g @ ''/''" by (auto simp: suffix_def)
      with that [of g] n True show ?thesis by (simp add: path_join_def)
    next
      case False
      with that [of h] n \<open>h \<noteq> []\<close> show ?thesis by (simp add: path_join_def)
    qed
    have "split_char (CHR ''/'') (path_join h n) = split_char (CHR ''/'') g @ [n]"
      using n by (simp add: j split_char_append)
    moreover have "filter (\<lambda>s. s \<noteq> [] \<and> s \<noteq> ''.'') (split_char (CHR ''/'') h) =
        filter (\<lambda>s. s \<noteq> [] \<and> s \<noteq> ''.'') (split_char (CHR ''/'') g)"
      "hd (split_char (CHR ''/'') h) = hd (split_char (CHR ''/'') g)"
      using g by (auto simp: split_char_append)
    moreover have "prefix ''/'' (path_join h n) \<longleftrightarrow> prefix ''/'' h"
      using g False j by (cases g) auto
    ultimately show ?thesis using n by (simp add: components_def Let_def)
  qed
qed

lemma path_under_entry:
  assumes "entry_name n" "path_starts_with p (path_join h n)"
  shows "path_starts_with p h" and "entry_name m \<Longrightarrow> path_starts_with p (path_join h m) \<Longrightarrow> m = n"
  using assms by (auto simp: path_starts_with_def components_entry prefix_def)

lemma path_starts_with_trans: "path_starts_with p q \<Longrightarrow> path_starts_with q r \<Longrightarrow> path_starts_with p r"
  unfolding path_starts_with_def by (rule prefix_order.order_trans)

lemma path_starts_with_linear:
  "path_starts_with p q \<Longrightarrow> path_starts_with p r \<Longrightarrow> path_starts_with q r \<or> path_starts_with r q"
  unfolding path_starts_with_def using prefix_same_cases by blast

section \<open>What bubblewrap makes of its arguments\<close>

definition bwrap_arity :: "string \<Rightarrow> nat" where
  "bwrap_arity flag =
     (if flag \<in> {''--ro-bind'', ''--ro-bind-try'', ''--bind'', ''--bind-try'', ''--symlink''} then 2
      else if flag \<in> {''--dev'', ''--proc'', ''--tmpfs'', ''--chdir'', ''--unsetenv''} then 1 else 0)"

function bwrap_ops :: "string list \<Rightarrow> (string \<times> string list) list" where
  "bwrap_ops [] = []"
| "bwrap_ops (flag # args) =
     (if flag = ''--'' then [] else (flag, take (bwrap_arity flag) args) # bwrap_ops (drop (bwrap_arity flag) args))"
  by pat_completeness auto
termination
  by (relation "measure length") auto

datatype mount_view = Fresh | RoMount path | RwMount path | Special

definition mount_of :: "string \<times> string list \<Rightarrow> (path \<times> mount_view) option" where
  "mount_of opn =
     (case opn of
        (flag, [src, dst]) \<Rightarrow>
          if flag \<in> {''--ro-bind'', ''--ro-bind-try''} then Some (dst, RoMount src)
          else if flag \<in> {''--bind'', ''--bind-try''} then Some (dst, RwMount src)
          else None
      | (flag, [dst]) \<Rightarrow>
          if flag = ''--tmpfs'' then Some (dst, Fresh)
          else if flag \<in> {''--dev'', ''--proc''} then Some (dst, Special) else None
      | _ \<Rightarrow> None)"

definition bwrap_mounts :: "string list \<Rightarrow> (path \<times> mount_view) list" where
  "bwrap_mounts args = List.map_filter mount_of (bwrap_ops args)"

definition covering :: "path \<Rightarrow> (path \<times> mount_view) list \<Rightarrow> mount_view list" where
  "covering p ms = map snd (filter (\<lambda>(dst, v). path_starts_with p dst) ms)"

definition bwrap_view :: "string list \<Rightarrow> path \<Rightarrow> mount_view option" where
  "bwrap_view args p =
     (let vs = covering p (bwrap_mounts args) in if vs = [] then None else Some (last vs))"

lemma bwrap_ops_1: "flag \<noteq> ''--'' \<Longrightarrow> bwrap_arity flag = 1 \<Longrightarrow> bwrap_ops (flag # x # rest) = (flag, [x]) # bwrap_ops rest"
  and bwrap_ops_2: "flag \<noteq> ''--'' \<Longrightarrow> bwrap_arity flag = 2 \<Longrightarrow> bwrap_ops (flag # x # y # rest) = (flag, [x, y]) # bwrap_ops rest"
  and bwrap_ops_0: "flag \<noteq> ''--'' \<Longrightarrow> bwrap_arity flag = 0 \<Longrightarrow> bwrap_ops (flag # rest) = (flag, []) # bwrap_ops rest"
  by (simp_all add: numeral_2_eq_2)

lemma map_filter_Cons: "List.map_filter f (x # xs) = (case f x of Some y \<Rightarrow> y # List.map_filter f xs | None \<Rightarrow> List.map_filter f xs)"
  by (simp add: List.map_filter_simps)

text \<open>The mounts of each flag.\<close>

lemma bwrap_mounts_simps [simp]:
  "bwrap_mounts [] = []" "bwrap_mounts [''--''] = []"
  "bwrap_mounts (''--ro-bind'' # s # d # rest) = (d, RoMount s) # bwrap_mounts rest"
  "bwrap_mounts (''--ro-bind-try'' # s # d # rest) = (d, RoMount s) # bwrap_mounts rest"
  "bwrap_mounts (''--bind'' # s # d # rest) = (d, RwMount s) # bwrap_mounts rest"
  "bwrap_mounts (''--bind-try'' # s # d # rest) = (d, RwMount s) # bwrap_mounts rest"
  "bwrap_mounts (''--symlink'' # s # d # rest) = bwrap_mounts rest"
  "bwrap_mounts (''--tmpfs'' # d # rest) = (d, Fresh) # bwrap_mounts rest"
  "bwrap_mounts (''--dev'' # d # rest) = (d, Special) # bwrap_mounts rest"
  "bwrap_mounts (''--proc'' # d # rest) = (d, Special) # bwrap_mounts rest"
  "bwrap_mounts (''--chdir'' # d # rest) = bwrap_mounts rest"
  "bwrap_mounts (''--unsetenv'' # d # rest) = bwrap_mounts rest"
  "bwrap_mounts (''bwrap'' # rest) = bwrap_mounts rest"
  "bwrap_mounts (''--die-with-parent'' # rest) = bwrap_mounts rest"
  "bwrap_mounts (''--new-session'' # rest) = bwrap_mounts rest"
  "bwrap_mounts (''--unshare-pid'' # rest) = bwrap_mounts rest"
  "bwrap_mounts (''--unshare-uts'' # rest) = bwrap_mounts rest"
  "bwrap_mounts (''--unshare-ipc'' # rest) = bwrap_mounts rest"
  "bwrap_mounts (''--unshare-net'' # rest) = bwrap_mounts rest"
  by (simp_all add: bwrap_mounts_def map_filter_Cons bwrap_arity_def mount_of_def numeral_2_eq_2 List.map_filter_simps)

declare bwrap_ops.simps [simp del]

lemma bwrap_mounts_each:
  "bwrap_mounts (concat (map (\<lambda>p. [''--ro-bind-try'', f p, p]) ps) @ rest) = map (\<lambda>p. (p, RoMount (f p))) ps @ bwrap_mounts rest"
  "bwrap_mounts (concat (map (\<lambda>p. [''--bind-try'', p, p]) ps) @ rest) = map (\<lambda>p. (p, RwMount p)) ps @ bwrap_mounts rest"
  "bwrap_mounts (concat (map (\<lambda>n. [''--unsetenv'', n]) ns) @ rest) = bwrap_mounts rest"
  by (induction ps, simp_all) (induction ns, simp_all)


definition bwrap_mask :: "os_view \<Rightarrow> path \<Rightarrow> mount_view" where
  "bwrap_mask os h = (if os_is_dir os h then Fresh else RoMount ''/dev/null'')"

lemma bwrap_mounts_masks:
  "bwrap_mounts (concat (map (\<lambda>h. if os_is_dir os h then [''--tmpfs'', h] else [''--ro-bind'', ''/dev/null'', h]) hs) @ rest) =
     map (\<lambda>h. (h, bwrap_mask os h)) hs @ bwrap_mounts rest"
  by (induction hs) (simp_all add: bwrap_mask_def)

lemma bwrap_mounts_system_dirs:
  "\<exists>ms. (\<forall>rest. bwrap_mounts (concat (map (bwrap_system_dir os) ds) @ rest) = ms @ bwrap_mounts rest) \<and>
     (\<forall>(d, v) \<in> set ms. \<exists>s. v = RoMount s)"
proof (induction ds)
  case (Cons e ds)
  then obtain ms where ms: "\<forall>rest. bwrap_mounts (concat (map (bwrap_system_dir os) ds) @ rest) = ms @ bwrap_mounts rest"
      "\<forall>(d, v) \<in> set ms. \<exists>s. v = RoMount s" by blast
  obtain dir target where e: "e = (dir, target)" by force
  let ?m = "if os_is_symlink os dir then [] else if os_is_dir os dir then [(dir, RoMount dir)] else []"
  have "\<forall>rest. bwrap_mounts (concat (map (bwrap_system_dir os) (e # ds)) @ rest) = (?m @ ms) @ bwrap_mounts rest"
    using ms(1) by (simp add: bwrap_system_dir_def e)
  moreover have "\<forall>(d, v) \<in> set (?m @ ms). \<exists>s. v = RoMount s" using ms(2) by auto
  ultimately show ?case by blast
qed (auto intro: exI [of _ "[]"])

text \<open>The system is shown, never writable.\<close>

lemma bwrap_mounts_system:
  "\<exists>ms. (\<forall>rest. bwrap_mounts (bwrap_system os @ rest) = ms @ bwrap_mounts rest) \<and> (\<forall>(d, v) \<in> set ms. \<forall>s. v \<noteq> RwMount s)"
proof -
  let ?ds = "[(''/bin'', ''usr/bin''), (''/sbin'', ''usr/sbin''), (''/lib'', ''usr/lib''), (''/lib32'', ''usr/lib32''), (''/lib64'', ''usr/lib64'')]"
  obtain ms where ms: "\<forall>rest. bwrap_mounts (concat (map (bwrap_system_dir os) ?ds) @ rest) = ms @ bwrap_mounts rest"
      "\<forall>(d, v) \<in> set ms. \<exists>s. v = RoMount s"
    using bwrap_mounts_system_dirs by blast
  define tries where "tries = map (\<lambda>d. (d, RoMount d)) [''/etc'', ''/opt'', ''/nix'', ''/sys'']"
  define resolv where "resolv = (case os_canonicalize os ''/etc/resolv.conf'' of
          Some resolv \<Rightarrow>
            if path_starts_with resolv ''/run'' \<or> path_starts_with resolv ''/tmp'' then [(resolv, RoMount resolv)] else []
        | None \<Rightarrow> [])"
  let ?all = "(''/usr'', RoMount ''/usr'') # ms @ tries @
      [(''/dev'', Special), (''/proc'', Special), (''/tmp'', Fresh), (''/run'', Fresh)] @ resolv"
  have "bwrap_mounts (bwrap_system os @ rest) = ?all @ bwrap_mounts rest" for rest
    unfolding bwrap_system_def append_assoc
    by (simp only: append_Cons append_Nil bwrap_mounts_simps ms(1) [rule_format] bwrap_mounts_each(1) tries_def resolv_def
        append_assoc split: option.split if_split) auto
  moreover have "\<forall>(d, v) \<in> set ?all. \<forall>s. v \<noteq> RwMount s"
    using ms(2) by (auto simp: tries_def resolv_def split: option.splits if_splits)
  ultimately show ?thesis by blast
qed

definition bwrap_home_mounts :: "os_view \<Rightarrow> profile \<Rightarrow> (path \<times> mount_view) list" where
  "bwrap_home_mounts os pf =
     (case pf_home pf of Some h \<Rightarrow> if path_eq h ''/'' then [] else [(h, Fresh)] | None \<Rightarrow> [])
     @ map (\<lambda>p. (p, RoMount p)) (pf_home_readable pf)
     @ map (\<lambda>p. (p, RwMount p)) (pf_home_writable pf @ pf_extra_writable pf @ option_list (pf_git_common_dir pf))
     @ map (\<lambda>p. (p, RoMount p)) (option_list (pf_cuma_executable pf))
     @ map (\<lambda>p. (p, RoMount (canonical os p))) (filter (\<lambda>p. \<not> bwrap_shows pf p) (pf_command_paths pf))"

definition bwrap_workspace_mounts :: "os_view \<Rightarrow> profile \<Rightarrow> (path \<times> mount_view) list" where
  "bwrap_workspace_mounts os pf =
     (pf_workspace pf, RwMount (pf_workspace pf)) #
     map (\<lambda>h. (h, bwrap_mask os h)) (filter (\<lambda>h. path_starts_with h (pf_workspace pf)) (pf_home_hidden pf))"

lemma bwrap_mounts_home: "bwrap_mounts (bwrap_home os pf @ rest) = bwrap_home_mounts os pf @ bwrap_mounts rest"
  unfolding bwrap_home_def bwrap_home_mounts_def append_assoc
  by (auto simp only: bwrap_mounts_each bwrap_mounts_simps append_assoc append_Cons append_Nil split: option.split if_split)

lemma bwrap_mounts_workspace: "bwrap_mounts (bwrap_workspace os pf @ rest) = bwrap_workspace_mounts os pf @ bwrap_mounts rest"
  unfolding bwrap_workspace_def bwrap_workspace_mounts_def append_assoc
  by (simp only: bwrap_mounts_masks bwrap_mounts_simps append_Cons append_Nil)

lemma bwrap_mounts_all:
  "\<exists>ms. bwrap_mounts (bubblewrap os pf) = ms @ bwrap_home_mounts os pf @ bwrap_workspace_mounts os pf \<and>
     (\<forall>(d, v) \<in> set ms. \<forall>s. v \<noteq> RwMount s)"
proof -
  obtain ms where ms: "\<forall>rest. bwrap_mounts (bwrap_system os @ rest) = ms @ bwrap_mounts rest"
      "\<forall>(d, v) \<in> set ms. \<forall>s. v \<noteq> RwMount s"
    using bwrap_mounts_system by blast
  have "bwrap_mounts (bubblewrap os pf) = ms @ bwrap_home_mounts os pf @ bwrap_workspace_mounts os pf"
    unfolding bubblewrap_def
    by (simp only: append_assoc append_Cons append_Nil bwrap_mounts_simps bwrap_mounts_each(3) ms(1) [rule_format]
        bwrap_mounts_home bwrap_mounts_workspace append_Nil2 split: if_split) simp
  with ms(2) show ?thesis by blast
qed

lemma covering_append: "covering p (ms @ ns) = covering p ms @ covering p ns"
  by (simp add: covering_def)

lemma covering_empty: "covering p ms = [] \<longleftrightarrow> (\<forall>(d, v) \<in> set ms. \<not> path_starts_with p d)"
  by (auto simp: covering_def filter_empty_conv)


section \<open>What an agent can reach\<close>

lemma bwrap_view_last: "covering p (bwrap_mounts args) = vs @ [v] \<Longrightarrow> bwrap_view args p = Some v"
  by (simp add: bwrap_view_def)

text \<open>Nothing is writable but the places the profile names, and they are what they seem.\<close>

lemma bwrap_writable:
  assumes "bwrap_view (bubblewrap os pf) p = Some (RwMount s)"
  shows "s \<in> set (writable pf) \<and> path_starts_with p s"
proof -
  let ?ms = "bwrap_mounts (bubblewrap os pf)"
  have "RwMount s \<in> set (covering p ?ms)"
    using assms by (metis bwrap_view_def last_in_set option.distinct(1) option.inject)
  then obtain d where d: "(d, RwMount s) \<in> set ?ms" "path_starts_with p d" by (auto simp: covering_def)
  then have "(d, RwMount s) \<in> set (bwrap_home_mounts os pf @ bwrap_workspace_mounts os pf)"
    using bwrap_mounts_all [of os pf] by fastforce
  then have "d = s \<and> s \<in> set (writable pf)"
    by (auto simp: bwrap_home_mounts_def bwrap_workspace_mounts_def writable_def bwrap_mask_def split: option.splits if_splits)
  with d show ?thesis by simp
qed

text \<open>The names a directory listing gives are names of entries.\<close>

definition lists_entries :: "os_view \<Rightarrow> path \<Rightarrow> bool" where
  "lists_entries os h \<longleftrightarrow> (case os_entries os h of Some ns \<Rightarrow> list_all entry_name ns | None \<Rightarrow> True)"

text \<open>What is mounted where a configured path, the repository, the executable or the agent's command points.\<close>

definition uncovers :: "profile \<Rightarrow> path \<Rightarrow> bool" where
  "uncovers pf p \<longleftrightarrow>
     list_ex (path_starts_with p)
       (pf_extra_writable pf @ option_list (pf_git_common_dir pf) @ option_list (pf_cuma_executable pf) @ pf_command_paths pf)"

lemma agent_profile_home:
  assumes "map_option (canonical os) (os_home os) = Some h"
  shows "pf_home (agent_profile os sx w keep rd) = Some h"
    "set (pf_home_hidden (agent_profile os sx w keep rd)) =
       path_join h ` {n \<in> set (dot_entries os (Some h)). n \<in> set hidden_in_home}"
  using assms by (auto simp: agent_profile_def for_workspace_def Let_def home_paths_def)

lemma dot_entries_names: "lists_entries os h \<Longrightarrow> n \<in> set (dot_entries os (Some h)) \<Longrightarrow> entry_name n"
  by (auto simp: dot_entries_def lists_entries_def list_all_iff split: option.splits)

lemma home_shown:
  assumes "map_option (canonical os) (os_home os) = Some h" "lists_entries os h"
    "r \<in> set (pf_home_readable (agent_profile os sx w keep rd) @ pf_home_writable (agent_profile os sx w keep rd))"
  shows "\<exists>m. r = path_join h m \<and> entry_name m \<and> m \<notin> set hidden_in_home"
  using assms(1,3) dot_entries_names [OF assms(2)] by (auto simp: agent_profile_def for_workspace_def Let_def home_paths_def)

lemma hidden_in_home_mounts:
  assumes home: "map_option (canonical os) (os_home os) = Some h" "lists_entries os h" "\<not> path_eq h ''/''"
    and n: "n \<in> set hidden_in_home" "entry_name n" and p: "path_starts_with p (path_join h n)"
    and pf: "pf = agent_profile os sx w keep rd" and clear: "\<not> uncovers pf p"
  shows "covering p (bwrap_home_mounts os pf) = [Fresh]"
proof -
  have "\<not> path_starts_with p r" if "r \<in> set (pf_home_readable pf @ pf_home_writable pf)" for r
    using home_shown [OF home(1,2) that [unfolded pf]] path_under_entry(2) [OF n(2) p] n(1) by auto
  moreover have "\<not> path_starts_with p r"
    if "r \<in> set (pf_extra_writable pf @ option_list (pf_git_common_dir pf) @ option_list (pf_cuma_executable pf) @ pf_command_paths pf)" for r
    using clear that by (auto simp: uncovers_def list_ex_iff)
  moreover have "path_starts_with p h" by (rule path_under_entry(1) [OF n(2) p])
  moreover have "pf_home pf = Some h" unfolding pf by (rule agent_profile_home(1) [OF home(1)])
  ultimately show ?thesis
    using home(3) by (auto simp: covering_def bwrap_home_mounts_def filter_empty_conv)
qed

text \<open>Credentials are absent: whatever lies under a hidden entry of the home directory is replaced by an empty
  directory or by nothing, also when the workspace contains the home directory.\<close>

lemma credentials_absent:
  assumes home: "map_option (canonical os) (os_home os) = Some h" "lists_entries os h" "\<not> path_eq h ''/''"
    and n: "n \<in> set hidden_in_home" "n \<in> set (dot_entries os (Some h))" and p: "path_starts_with p (path_join h n)"
    and pf: "pf = agent_profile os sx w keep rd" and clear: "\<not> uncovers pf p"
    and ws: "\<not> path_starts_with (pf_workspace pf) (path_join h n)"
  shows "bwrap_view (bubblewrap os pf) p \<in> {Some Fresh, Some (RoMount ''/dev/null'')}"
proof -
  obtain ms where all: "bwrap_mounts (bubblewrap os pf) = ms @ bwrap_home_mounts os pf @ bwrap_workspace_mounts os pf"
    using bwrap_mounts_all by blast
  have home_cov: "covering p (bwrap_home_mounts os pf) = [Fresh]"
    by (rule hidden_in_home_mounts [OF home n(1) dot_entries_names [OF home(2) n(2)] p pf clear])
  show ?thesis
  proof (cases "path_starts_with p (pf_workspace pf)")
    case False
    then have "covering p (bwrap_workspace_mounts os pf) = []"
      unfolding covering_empty bwrap_workspace_mounts_def using path_starts_with_trans by auto
    then have "bwrap_view (bubblewrap os pf) p = Some Fresh"
      by (intro bwrap_view_last [of _ _ "covering p ms"]) (simp add: all covering_append home_cov)
    then show ?thesis by simp
  next
    case True
    let ?hs = "filter (\<lambda>h. path_starts_with h (pf_workspace pf)) (pf_home_hidden pf)"
    let ?ms = "map (\<lambda>h. (h, bwrap_mask os h)) ?hs"
    have "path_starts_with (path_join h n) (pf_workspace pf)" using path_starts_with_linear [OF True p] ws by blast
    moreover have "path_join h n \<in> set (pf_home_hidden pf)" using n agent_profile_home(2) [OF home(1)] by (auto simp: pf)
    ultimately have "covering p ?ms \<noteq> []" using p by (auto simp: covering_def filter_empty_conv)
    moreover have "v \<in> {Fresh, RoMount ''/dev/null''}" if "v \<in> set (covering p ?ms)" for v
    proof -
      obtain h where "v = bwrap_mask os h" using \<open>v \<in> set (covering p ?ms)\<close> by (auto simp: covering_def)
      then show ?thesis by (simp add: bwrap_mask_def)
    qed
    ultimately obtain vs v where v: "covering p ?ms = vs @ [v]" "v \<in> {Fresh, RoMount ''/dev/null''}"
    proof -
      assume ne: "covering p ?ms \<noteq> []" and in_set: "\<And>v. v \<in> set (covering p ?ms) \<Longrightarrow> v \<in> {Fresh, RoMount ''/dev/null''}"
      show ?thesis
        by (rule that [of "butlast (covering p ?ms)" "last (covering p ?ms)"])
          (simp add: ne, rule in_set, rule last_in_set [OF ne])
    qed
    have "covering p (bwrap_mounts (bubblewrap os pf)) =
        (covering p ms @ [Fresh, RwMount (pf_workspace pf)] @ vs) @ [v]"
      using True by (simp add: all covering_append home_cov bwrap_workspace_mounts_def v(1))
         (simp add: covering_def v(1) [unfolded covering_def])
    from bwrap_view_last [OF this] v(2) show ?thesis by simp
  qed
qed

section \<open>What an agent is told\<close>

lemma stripped_iff:
  "n \<in> set (pf_strip_env (agent_profile os sx w keep rd)) \<longleftrightarrow>
     n \<in> set (os_environment os) \<and> \<not> is_kept n (sx_forwarded_env sx @ keep)"
  by (simp add: agent_profile_def for_workspace_def Let_def)

lemma sublist_concat_map: "x \<in> set xs \<Longrightarrow> sublist (f x) (concat (map f xs))"
  by (induction xs) (auto intro: sublist_appendI sublist_order.order_trans)

lemma sublist_skip: "sublist x z \<Longrightarrow> sublist x (a @ z)" and sublist_keep: "sublist x y \<Longrightarrow> sublist x (y @ b)"
  by (meson sublist_append_leftI sublist_append_rightI sublist_order.order_trans)+

text \<open>A variable that is not kept is removed by name, whatever the runtime; ai-jail, which starts from an empty
  environment, is not told to forward it.\<close>

lemma stripped_variables_removed:
  assumes "n \<in> set (os_environment os)" "\<not> is_kept n (sx_forwarded_env sx @ keep)"
    "launch_prefix os sx w keep rd = Some args" "sx_runtime sx = Some runtime"
  shows "case runtime of
      AiJail \<Rightarrow> n \<notin> set (pf_forward_env (agent_profile os sx w keep rd))
    | Bubblewrap \<Rightarrow> sublist [''--unsetenv'', n] args
    | SandboxExec \<Rightarrow> sublist [''-u'', n] args
    | Firejail \<Rightarrow> ''--rmenv='' @ n \<in> set args"
proof -
  let ?pf = "agent_profile os sx w keep rd"
  have n: "n \<in> set (pf_strip_env ?pf)" using assms(1,2) by (simp add: stripped_iff)
  have un: "sublist [''--unsetenv'', n] (concat (map (\<lambda>n. [''--unsetenv'', n]) (pf_strip_env ?pf)))"
    "sublist [''-u'', n] (concat (map (\<lambda>n. [''-u'', n]) (pf_strip_env ?pf)))"
    using sublist_concat_map [OF n, of "\<lambda>n. [''--unsetenv'', n]"] sublist_concat_map [OF n, of "\<lambda>n. [''-u'', n]"] by simp_all
  have "n \<notin> set (pf_forward_env ?pf)" using assms(2) by (auto simp: agent_profile_def for_workspace_def Let_def is_kept_def)
  moreover have "sublist [''--unsetenv'', n] (bubblewrap os ?pf)"
    unfolding bubblewrap_def
    by (rule sublist_skip, rule sublist_skip, rule sublist_skip, rule sublist_skip, rule sublist_skip, rule sublist_keep, rule un(1))
  moreover have "sublist [''-u'', n] (sandbox_exec os ?pf)"
    unfolding sandbox_exec_def by (rule sublist_skip, rule un(2))
  moreover have "''--rmenv='' @ n \<in> set (firejail os ?pf)" using n by (simp add: firejail_def)
  ultimately show ?thesis using assms(3,4) by (cases runtime) (auto simp: launch_prefix_def Let_def)
qed

section \<open>Shortfalls\<close>

lemma refuses_agents_iff:
  "refuses_agents (with_runtime home c runtime) \<longleftrightarrow>
     se_require_agent_sandbox c \<and> se_sandbox c \<and>
     (runtime = None \<or> runtime \<noteq> Some AiJail \<and> se_network_allowlist c \<noteq> [])"
  by (cases runtime) (auto simp: refuses_agents_def confinement_def with_runtime_def)

text \<open>Agents are confined exactly when a prefix is put in front of them, and one that is required but switched off
  does not keep them from running unconfined.\<close>

lemma launch_prefix_iff: "launch_prefix os sx w keep rd = None \<longleftrightarrow> sx_runtime sx = None"
  by (auto simp: launch_prefix_def Let_def split: option.split)

lemma disabled_beats_required:
  assumes "\<not> se_sandbox c"
  shows "\<not> refuses_agents (detect_confinement home works c)" "launch_prefix os (detect_confinement home works c) w keep rd = None"
  using assms by (simp_all add: detect_confinement_def refuses_agents_iff launch_prefix_iff) (simp add: with_runtime_def)

lemma detect_prefers:
  assumes "sx_runtime (detect_confinement home works c) = Some r"
  shows "works r \<and> se_sandbox c \<and> (works AiJail \<longrightarrow> r = AiJail)"
  using assms by (auto simp: detect_confinement_def with_runtime_def all_runtimes_def split: if_splits)


end
