(* ===== verification/A2A_Wire.thy ===== *)
theory A2A_Wire
  imports Capability Config_Layers
begin

text \<open>
  \<open>cuma-protocol-a2a/src/wire.rs\<close> and \<open>card.rs\<close>: the A2A vocabulary in its two dialects,
  and what an Agent Card is taken to say.

  A JSON value is what the JSON library holds: objects are read by key, so an association list
  stands for one; text is decoded and encoded by that library. Generated message ids are arguments.
\<close>

section \<open>JSON values\<close>

datatype json =
    JNull | JBool bool | JInt int | JFloat f64 | JString string | JArray "json list" | JObject "(string \<times> json) list"

fun json_get :: "string \<Rightarrow> json \<Rightarrow> json option" where
  "json_get key (JObject fs) = map_of fs key"
| "json_get _ _ = None"

fun as_str :: "json \<Rightarrow> string option" where
  "as_str (JString s) = Some s"
| "as_str _ = None"

fun as_array :: "json \<Rightarrow> json list option" where
  "as_array (JArray vs) = Some vs"
| "as_array _ = None"

fun as_bool :: "json \<Rightarrow> bool option" where
  "as_bool (JBool b) = Some b"
| "as_bool _ = None"

fun as_u64 :: "json \<Rightarrow> nat option" where
  "as_u64 (JInt n) = (if 0 \<le> n \<and> n < 2 ^ 64 then Some (nat n) else None)"
| "as_u64 _ = None"

text \<open>\<open>Value::pointer\<close> along keys.\<close>

definition json_pointer :: "string list \<Rightarrow> json \<Rightarrow> json option" where
  "json_pointer keys v = fold (\<lambda>k acc. Option.bind acc (json_get k)) keys (Some v)"

section \<open>Methods\<close>

definition send_message_m :: string where "send_message_m = ''SendMessage''"
definition send_streaming_message_m :: string where "send_streaming_message_m = ''SendStreamingMessage''"
definition get_task_m :: string where "get_task_m = ''GetTask''"
definition list_tasks_m :: string where "list_tasks_m = ''ListTasks''"
definition cancel_task_m :: string where "cancel_task_m = ''CancelTask''"
definition subscribe_to_task_m :: string where "subscribe_to_task_m = ''SubscribeToTask''"
definition get_extended_agent_card_m :: string where "get_extended_agent_card_m = ''GetExtendedAgentCard''"

lemmas method_defs = send_message_m_def send_streaming_message_m_def get_task_m_def list_tasks_m_def cancel_task_m_def
  subscribe_to_task_m_def get_extended_agent_card_m_def

definition legacy_methods :: "(string \<times> string) list" where
  "legacy_methods =
     [(send_message_m, ''message/send''), (send_streaming_message_m, ''message/stream''), (get_task_m, ''tasks/get''),
      (cancel_task_m, ''tasks/cancel''), (subscribe_to_task_m, ''tasks/resubscribe'')]"

definition legacy_name :: "string \<Rightarrow> string option" where
  "legacy_name m = map_of legacy_methods m"

definition canonical_method :: "string \<Rightarrow> string" where
  "canonical_method m =
     (case map_of (map (\<lambda>(new, old). (old, new)) legacy_methods) m of Some new \<Rightarrow> new | None \<Rightarrow> m)"

definition is_legacy :: "string \<Rightarrow> bool" where
  "is_legacy m \<longleftrightarrow> str_contains m ''/''"

definition parse_error_code :: int where "parse_error_code = - 32700"
definition method_not_found_code :: int where "method_not_found_code = - 32601"
definition invalid_params_code :: int where "invalid_params_code = - 32602"
definition internal_error_code :: int where "internal_error_code = - 32603"
definition task_not_found_code :: int where "task_not_found_code = - 32001"
definition task_not_cancelable_code :: int where "task_not_cancelable_code = - 32002"
definition push_not_supported_code :: int where "push_not_supported_code = - 32003"
definition unsupported_operation_code :: int where "unsupported_operation_code = - 32004"
definition extended_card_code :: int where "extended_card_code = - 32007"

datatype dialect = V1 | Legacy

section \<open>Task states\<close>

datatype task_state =
  Submitted | Working | StCompleted | StFailed | Canceled | InputRequired | Rejected | AuthRequired | StUnknown

definition state_names :: "(string \<times> task_state) list" where
  "state_names =
     [(''submitted'', Submitted), (''working'', Working), (''completed'', StCompleted), (''failed'', StFailed),
      (''canceled'', Canceled), (''cancelled'', Canceled), (''input-required'', InputRequired), (''rejected'', Rejected),
      (''auth-required'', AuthRequired)]"

definition parse_state :: "string \<Rightarrow> task_state" where
  "parse_state raw =
     (case map_of state_names
             (map (\<lambda>c. if c = CHR ''_'' then CHR ''-'' else c)
               (to_ascii_lowercase (trim_start_matches ''TASK_STATE_'' (trim raw)))) of
        Some s \<Rightarrow> s
      | None \<Rightarrow> StUnknown)"

fun render_state :: "task_state \<Rightarrow> dialect \<Rightarrow> string" where
  "render_state Submitted V1 = ''TASK_STATE_SUBMITTED''"
| "render_state Working V1 = ''TASK_STATE_WORKING''"
| "render_state StCompleted V1 = ''TASK_STATE_COMPLETED''"
| "render_state StFailed V1 = ''TASK_STATE_FAILED''"
| "render_state Canceled V1 = ''TASK_STATE_CANCELED''"
| "render_state InputRequired V1 = ''TASK_STATE_INPUT_REQUIRED''"
| "render_state Rejected V1 = ''TASK_STATE_REJECTED''"
| "render_state AuthRequired V1 = ''TASK_STATE_AUTH_REQUIRED''"
| "render_state StUnknown V1 = ''TASK_STATE_UNSPECIFIED''"
| "render_state Submitted Legacy = ''submitted''"
| "render_state Working Legacy = ''working''"
| "render_state StCompleted Legacy = ''completed''"
| "render_state StFailed Legacy = ''failed''"
| "render_state Canceled Legacy = ''canceled''"
| "render_state InputRequired Legacy = ''input-required''"
| "render_state Rejected Legacy = ''rejected''"
| "render_state AuthRequired Legacy = ''auth-required''"
| "render_state StUnknown Legacy = ''unknown''"

definition state_is_terminal :: "task_state \<Rightarrow> bool" where
  "state_is_terminal s \<longleftrightarrow> s \<in> {StCompleted, StFailed, Canceled, Rejected}"

definition state_is_interrupted :: "task_state \<Rightarrow> bool" where
  "state_is_interrupted s \<longleftrightarrow> s \<in> {InputRequired, AuthRequired}"

section \<open>Tasks on the wire\<close>

record wire_task =
  wt_id :: string
  wt_context_id :: string
  wt_state :: task_state
  wt_status_text :: "string option"
  wt_timestamp :: "string option"
  wt_artifacts :: "(string \<times> string) list"

definition wire_text :: "wire_task \<Rightarrow> string" where
  "wire_text t =
     join [CHR 0x0A, CHR 0x0A] (filter (\<lambda>s. s \<noteq> [])
       (map trim (map snd (wt_artifacts t) @ (case wt_status_text t of Some s \<Rightarrow> [s] | None \<Rightarrow> []))))"

definition text_part :: "dialect \<Rightarrow> string \<Rightarrow> json" where
  "text_part d text =
     (case d of
        V1 \<Rightarrow> JObject [(''text'', JString text)]
      | Legacy \<Rightarrow> JObject [(''kind'', JString ''text''), (''text'', JString text)])"

definition message_json :: "string \<Rightarrow> string \<Rightarrow> string \<Rightarrow> dialect \<Rightarrow> json" where
  "message_json mid text role d =
     (case d of
        V1 \<Rightarrow>
          JObject [(''messageId'', JString mid), (''role'', JString (if role = ''user'' then ''ROLE_USER'' else ''ROLE_AGENT'')),
                   (''parts'', JArray [text_part d text])]
      | Legacy \<Rightarrow>
          JObject [(''kind'', JString ''message''), (''messageId'', JString mid), (''role'', JString role),
                   (''parts'', JArray [text_part d text])])"

definition artifact_json :: "dialect \<Rightarrow> string \<times> string \<Rightarrow> json" where
  "artifact_json d a =
     (case a of (i, text) \<Rightarrow>
        JObject [(''artifactId'', JString i), (''name'', JString ''result''), (''parts'', JArray [text_part d text])])"

definition status_json :: "string \<Rightarrow> dialect \<Rightarrow> wire_task \<Rightarrow> json" where
  "status_json mid d t =
     JObject ([(''state'', JString (render_state (wt_state t) d))]
       @ (case wt_status_text t of Some text \<Rightarrow> [(''message'', message_json mid text ''agent'' d)] | None \<Rightarrow> [])
       @ (case wt_timestamp t of Some ts \<Rightarrow> [(''timestamp'', JString ts)] | None \<Rightarrow> []))"

definition task_json :: "string \<Rightarrow> dialect \<Rightarrow> wire_task \<Rightarrow> json" where
  "task_json mid d t =
     JObject ([(''id'', JString (wt_id t)), (''contextId'', JString (wt_context_id t)), (''status'', status_json mid d t),
               (''artifacts'', JArray (map (artifact_json d) (wt_artifacts t)))]
       @ (if d = Legacy then [(''kind'', JString ''task'')] else []))"

definition parts_text :: "json option \<Rightarrow> string" where
  "parts_text parts =
     (case Option.bind parts as_array of
        None \<Rightarrow> []
      | Some ps \<Rightarrow>
          join [CHR 0x0A] (filter (\<lambda>s. s \<noteq> [])
            (map trim (List.map_filter (\<lambda>p. Option.bind (json_get ''text'' p) as_str) ps))))"

definition non_empty :: "string \<Rightarrow> string option" where
  "non_empty s = (if s = [] then None else Some s)"

definition parse_artifact :: "json \<Rightarrow> string \<times> string" where
  "parse_artifact a =
     (case Option.bind (json_get ''artifactId'' a) as_str of Some i \<Rightarrow> i | None \<Rightarrow> ''artifact'', parts_text (json_get ''parts'' a))"

definition state_of_status :: "json option \<Rightarrow> task_state" where
  "state_of_status status =
     (case Option.bind (Option.bind status (json_get ''state'')) as_str of Some s \<Rightarrow> parse_state s | None \<Rightarrow> StUnknown)"

definition text_of_status :: "json option \<Rightarrow> string option" where
  "text_of_status status =
     Option.bind (Option.bind status (json_get ''message'')) (\<lambda>m. non_empty (parts_text (json_get ''parts'' m)))"

definition parse_task :: "json \<Rightarrow> wire_task option" where
  "parse_task v =
     Option.bind (Option.bind (json_get ''id'' v) as_str) (\<lambda>i.
       let status = json_get ''status'' v in
       Some \<lparr>wt_id = i,
             wt_context_id = (case Option.bind (json_get ''contextId'' v) as_str of Some c \<Rightarrow> c | None \<Rightarrow> []),
             wt_state = state_of_status status,
             wt_status_text = text_of_status status,
             wt_timestamp = Option.bind (Option.bind status (json_get ''timestamp'')) as_str,
             wt_artifacts =
               (case Option.bind (json_get ''artifacts'' v) as_array of
                  Some vs \<Rightarrow> filter (\<lambda>a. snd a \<noteq> []) (map parse_artifact vs)
                | None \<Rightarrow> [])\<rparr>)"

datatype send_result = SentTask wire_task | SentMessage string

definition parse_send_result :: "json \<Rightarrow> send_result option" where
  "parse_send_result r =
     (case json_get ''task'' r of
        Some t \<Rightarrow> map_option SentTask (parse_task t)
      | None \<Rightarrow>
          case json_get ''message'' r of
            Some m \<Rightarrow> Some (SentMessage (parts_text (json_get ''parts'' m)))
          | None \<Rightarrow>
              let kind = Option.bind (json_get ''kind'' r) as_str in
              if kind = Some ''message'' then Some (SentMessage (parts_text (json_get ''parts'' r)))
              else if kind = Some ''task'' then map_option SentTask (parse_task r)
              else if json_get ''status'' r \<noteq> None then map_option SentTask (parse_task r)
              else if json_get ''parts'' r \<noteq> None then Some (SentMessage (parts_text (json_get ''parts'' r)))
              else None)"

datatype stream_event =
  StreamTask wire_task | StreamMessage string | StreamStatus task_state "string option" | StreamArtifact string

definition parse_status_event :: "json \<Rightarrow> stream_event option" where
  "parse_status_event e =
     map_option (\<lambda>status. StreamStatus (state_of_status (Some status)) (text_of_status (Some status))) (json_get ''status'' e)"

definition parse_artifact_event :: "json \<Rightarrow> stream_event option" where
  "parse_artifact_event e = map_option (\<lambda>a. StreamArtifact (parts_text (json_get ''parts'' a))) (json_get ''artifact'' e)"

definition parse_stream_event :: "json \<Rightarrow> stream_event option" where
  "parse_stream_event r =
     (case json_get ''statusUpdate'' r of
        Some e \<Rightarrow> parse_status_event e
      | None \<Rightarrow>
          case json_get ''artifactUpdate'' r of
            Some e \<Rightarrow> parse_artifact_event e
          | None \<Rightarrow>
              let kind = Option.bind (json_get ''kind'' r) as_str in
              if kind = Some ''status-update'' then parse_status_event r
              else if kind = Some ''artifact-update'' then parse_artifact_event r
              else map_option (\<lambda>s. case s of SentTask t \<Rightarrow> StreamTask t | SentMessage text \<Rightarrow> StreamMessage text)
                     (parse_send_result r))"

definition status_event_json :: "string \<Rightarrow> wire_task \<Rightarrow> dialect \<Rightarrow> json" where
  "status_event_json mid t d =
     (let fs = [(''taskId'', JString (wt_id t)), (''contextId'', JString (wt_context_id t)), (''status'', status_json mid d t)] in
      case d of
        V1 \<Rightarrow> JObject [(''statusUpdate'', JObject fs)]
      | Legacy \<Rightarrow>
          JObject ([(''kind'', JString ''status-update'')] @ fs
            @ [(''final'', JBool (state_is_terminal (wt_state t) \<or> state_is_interrupted (wt_state t)))]))"

definition artifact_event_json :: "wire_task \<Rightarrow> string \<Rightarrow> string \<Rightarrow> dialect \<Rightarrow> json" where
  "artifact_event_json t artifact_id text d =
     (let fs = [(''taskId'', JString (wt_id t)), (''contextId'', JString (wt_context_id t)),
                    (''artifact'', JObject [(''artifactId'', JString artifact_id), (''parts'', JArray [text_part d text])]),
                    (''append'', JBool True)] in
      case d of
        V1 \<Rightarrow> JObject [(''artifactUpdate'', JObject fs)]
      | Legacy \<Rightarrow> JObject ([(''kind'', JString ''artifact-update'')] @ fs))"

definition send_result_json :: "string \<Rightarrow> wire_task \<Rightarrow> dialect \<Rightarrow> json" where
  "send_result_json mid t d = (case d of V1 \<Rightarrow> JObject [(''task'', task_json mid d t)] | Legacy \<Rightarrow> task_json mid d t)"

section \<open>Agent Cards\<close>

record agent_skill =
  sl_id :: string
  sl_name :: string
  sl_description :: string
  sl_tags :: "string list"
  sl_examples :: "string list"

record agent_interface =
  ai_url :: string
  ai_protocol_binding :: string
  ai_protocol_version :: string

record legacy_interface =
  li_url :: string
  li_transport :: string

record agent_card =
  kd_name :: string
  kd_description :: string
  kd_supported_interfaces :: "agent_interface list"
  kd_version :: string
  kd_streaming :: bool
  kd_push_notifications :: bool
  kd_extended_agent_card :: bool
  kd_skills :: "agent_skill list"
  kd_default_input_modes :: "string list"
  kd_default_output_modes :: "string list"
  kd_security_schemes :: "(string \<times> json) list"
  kd_security_requirements :: "json list"
  kd_url :: "string option"
  kd_protocol_version :: "string option"
  kd_preferred_transport :: "string option"
  kd_additional_interfaces :: "legacy_interface list"

definition new_card :: "string \<Rightarrow> string \<Rightarrow> agent_card" where
  "new_card name url =
     \<lparr>kd_name = name, kd_description = [],
      kd_supported_interfaces = [\<lparr>ai_url = url, ai_protocol_binding = ''JSONRPC'', ai_protocol_version = ''1.0''\<rparr>],
      kd_version = [], kd_streaming = False, kd_push_notifications = False, kd_extended_agent_card = False, kd_skills = [],
      kd_default_input_modes = [], kd_default_output_modes = [], kd_security_schemes = [], kd_security_requirements = [],
      kd_url = None, kd_protocol_version = None, kd_preferred_transport = None, kd_additional_interfaces = []\<rparr>"

definition dialect_of :: "string \<Rightarrow> dialect" where
  "dialect_of version = (if prefix ''0.'' (trim version) then Legacy else V1)"

definition jsonrpc_endpoint :: "agent_card \<Rightarrow> (string \<times> dialect) option" where
  "jsonrpc_endpoint c =
     (case List.find (\<lambda>i. eq_ignore_ascii_case (ai_protocol_binding i) ''JSONRPC'') (kd_supported_interfaces c) of
        Some i \<Rightarrow> Some (ai_url i, dialect_of (ai_protocol_version i))
      | None \<Rightarrow>
          let d = (case kd_protocol_version c of Some v \<Rightarrow> dialect_of v | None \<Rightarrow> Legacy);
              primary = (case kd_preferred_transport c of Some t \<Rightarrow> eq_ignore_ascii_case t ''JSONRPC'' | None \<Rightarrow> True)
          in case (primary, kd_url c) of
               (True, Some url) \<Rightarrow> Some (url, d)
             | _ \<Rightarrow> map_option (\<lambda>i. (li_url i, d))
                      (List.find (\<lambda>i. eq_ignore_ascii_case (li_transport i) ''JSONRPC'') (kd_additional_interfaces c)))"

definition card_protocol_version :: "agent_card \<Rightarrow> string option" where
  "card_protocol_version c =
     (case List.find (\<lambda>i. eq_ignore_ascii_case (ai_protocol_binding i) ''JSONRPC'') (kd_supported_interfaces c) of
        Some i \<Rightarrow> Some (ai_protocol_version i)
      | None \<Rightarrow> kd_protocol_version c)"

definition tag_char :: "char \<Rightarrow> bool" where
  "tag_char c \<longleftrightarrow> is_ascii_alphanumeric c \<or> c = CHR ''_'' \<or> c = CHR ''-'' \<or> c = CHR ''.''"

definition sanitize_tag :: "string \<Rightarrow> string option" where
  "sanitize_tag raw =
     (let trimmed = trim raw in
      if trimmed = [] \<or> 64 < length trimmed \<or> \<not> list_all tag_char trimmed \<or> prefix ''.'' trimmed \<or> str_contains trimmed ''..''
      then None else Some trimmed)"

definition capabilities_from_card :: "agent_card \<Rightarrow> capability_set" where
  "capabilities_from_card c =
     (let tokens = concat (map (\<lambda>s. sl_tags s @ [sl_id s]) (kd_skills c));
          found = fold bs_insert (map parse_capability (List.map_filter sanitize_tag tokens)) []
      in if found = [] then bs_insert CResearch [] else found)"

section \<open>Both dialects say the same\<close>

lemma parse_render_state [simp]: "parse_state (render_state s d) = s"
proof -
  have "list_all (\<lambda>s. list_all (\<lambda>d. parse_state (render_state s d) = s) [V1, Legacy])
    [Submitted, Working, StCompleted, StFailed, Canceled, InputRequired, Rejected, AuthRequired, StUnknown]" by code_simp
  then show ?thesis by (cases s; cases d) simp_all
qed

lemma canonical_legacy: "legacy_name m = Some l \<Longrightarrow> canonical_method l = m \<and> is_legacy l"
  by (auto simp: legacy_name_def legacy_methods_def canonical_method_def method_defs is_legacy_def sublist_code split: if_splits)

lemma canonical_idem: "canonical_method (canonical_method m) = canonical_method m"
  by (auto simp: canonical_method_def legacy_methods_def method_defs split: option.splits if_splits)

text \<open>Text that is neither empty nor padded.\<close>

definition clean_text :: "string \<Rightarrow> bool" where
  "clean_text s \<longleftrightarrow> s \<noteq> [] \<and> trim s = s"

definition clean_task :: "wire_task \<Rightarrow> bool" where
  "clean_task t \<longleftrightarrow>
     (case wt_status_text t of Some s \<Rightarrow> clean_text s | None \<Rightarrow> True) \<and> list_all (\<lambda>a. clean_text (snd a)) (wt_artifacts t)"

lemma parts_text_part: "clean_text s \<Longrightarrow> parts_text (Some (JArray [text_part d s])) = s"
  by (cases d) (simp_all add: parts_text_def text_part_def List.map_filter_simps clean_text_def)

lemma parse_artifact_json: "clean_text (snd a) \<Longrightarrow> parse_artifact (artifact_json d a) = a"
  by (cases a) (simp add: parse_artifact_def artifact_json_def parts_text_part)

lemma state_of_status_json: "state_of_status (Some (status_json mid d t)) = wt_state t"
  by (simp add: state_of_status_def status_json_def)

lemma text_of_status_json:
  assumes "clean_task t"
  shows "text_of_status (Some (status_json mid d t)) = wt_status_text t"
proof (cases "wt_status_text t")
  case (Some s)
  then have "clean_text s" using assms by (simp add: clean_task_def)
  then show ?thesis using Some
    by (cases d) (simp_all add: text_of_status_def status_json_def message_json_def parts_text_part non_empty_def, simp_all add: clean_text_def)
next
  case None
  then show ?thesis by (simp add: text_of_status_def status_json_def split: option.split)
qed

lemma parse_task_json:
  assumes "clean_task t"
  shows "parse_task (task_json mid d t) = Some t"
proof -
  have "filter (\<lambda>a. snd a \<noteq> []) (map (parse_artifact \<circ> artifact_json d) as) = as" if "list_all (\<lambda>a. clean_text (snd a)) as" for as
    using that by (induction as) (auto simp: parse_artifact_json clean_text_def)
  moreover have "Option.bind (json_get ''timestamp'' (status_json mid d t)) as_str = wt_timestamp t"
    by (cases "wt_timestamp t"; cases "wt_status_text t") (simp_all add: status_json_def)
  ultimately show ?thesis
    using assms state_of_status_json [of mid d t] text_of_status_json [OF assms, of mid d]
    by (simp add: parse_task_def task_json_def clean_task_def)
qed

lemma parse_sent_task:
  assumes "clean_task t"
  shows "parse_send_result (send_result_json mid t d) = Some (SentTask t)"
proof (cases d)
  case V1
  then show ?thesis using parse_task_json [OF assms, of mid V1] by (simp add: parse_send_result_def send_result_json_def)
next
  case Legacy
  then show ?thesis using parse_task_json [OF assms, of mid Legacy]
    by (simp add: parse_send_result_def send_result_json_def task_json_def Let_def)
qed

lemma parse_status_update:
  assumes "clean_task t"
  shows "parse_stream_event (status_event_json mid t d) = Some (StreamStatus (wt_state t) (wt_status_text t))"
  using text_of_status_json [OF assms, of mid d] state_of_status_json [of mid d t]
  by (cases d) (simp_all add: parse_stream_event_def status_event_json_def parse_status_event_def Let_def)

lemma parse_artifact_update:
  assumes "clean_text text"
  shows "parse_stream_event (artifact_event_json t i text d) = Some (StreamArtifact text)"
  using parts_text_part [OF assms]
  by (cases d) (simp_all add: parse_stream_event_def artifact_event_json_def parse_artifact_event_def Let_def)

text \<open>What a card can make a capability of: the name of one, or a plain identifier.\<close>

lemma sanitize_tag_plain:
  assumes "sanitize_tag raw = Some tag"
  shows "tag \<noteq> [] \<and> length tag \<le> 64 \<and> (\<forall>c \<in> set tag. tag_char c) \<and> \<not> str_contains tag ''..'' \<and> hd tag \<noteq> CHR ''.''"
proof -
  have "tag = trim raw" "tag \<noteq> []" "length tag \<le> 64" "list_all tag_char tag" "\<not> prefix ''.'' tag" "\<not> str_contains tag ''..''"
    using assms by (auto simp: sanitize_tag_def Let_def split: if_splits)
  moreover have "prefix ''.'' s \<longleftrightarrow> s \<noteq> [] \<and> hd s = CHR ''.''" for s :: string
    by (cases s) auto
  ultimately show ?thesis by (simp add: list_all_iff)
qed

lemma card_offers_something: "capabilities_from_card c \<noteq> []"
  by (simp add: capabilities_from_card_def Let_def)

lemma card_capabilities:
  "set (capabilities_from_card c) \<subseteq>
     insert CResearch {parse_capability tag |tag s raw. s \<in> set (kd_skills c) \<and> raw \<in> set (sl_tags s @ [sl_id s]) \<and> sanitize_tag raw = Some tag}"
proof -
  let ?tokens = "concat (map (\<lambda>s. sl_tags s @ [sl_id s]) (kd_skills c))"
  have "set (fold bs_insert (map parse_capability (List.map_filter sanitize_tag ?tokens)) []) =
      parse_capability ` set (List.map_filter sanitize_tag ?tokens)"
    by (simp add: set_fold_bs_insert)
  also have "\<dots> \<subseteq> {parse_capability tag |tag s raw. s \<in> set (kd_skills c) \<and> raw \<in> set (sl_tags s @ [sl_id s]) \<and> sanitize_tag raw = Some tag}"
    by (fastforce simp: in_map_filter)
  finally show ?thesis by (auto simp: capabilities_from_card_def Let_def)
qed

end
