(* ===== verification/A2A_Server.thy ===== *)
theory A2A_Server
  imports A2A_Wire Registry Executor Step_System "HOL-Library.AList" "HOL-Library.Word"
begin

text \<open>
  \<open>cuma-protocol-a2a/src/server.rs\<close>: CUMA as an A2A agent.

  A task's snapshot and its update stream are shared by its record and by the run that drives
  it, and outlive the record when it is evicted: they live in a store of channels, and a record
  and a run hold an index into it. A run advances in steps that begin where the runtime polls
  it; an aborted run is dropped at the next such point, which is what \<open>AbortHandle::abort\<close>
  promises, so that a call may arrive between the start of a poll and the write it ends with.
  Each locked section and each write to a channel is one step. Generated ids, the clock, the
  rendering of \<open>{:?}\<close> and the text of a parse error are arguments, and what the task store
  is told is kept in order.
\<close>

section \<open>The Agent Card that is published\<close>

definition server_card :: "string \<Rightarrow> registry_snapshot \<Rightarrow> string \<Rightarrow> agent_card" where
  "server_card pkg_version snap base_url =
     (let caps = available_capabilities snap in
      (new_card ''CUMA'' base_url)
        \<lparr>kd_description := ''A universal control plane for coding agents'', kd_version := pkg_version, kd_streaming := True,
         kd_push_notifications := False, kd_extended_agent_card := False,
         kd_skills :=
           (if caps = [] then []
            else [\<lparr>sl_id = ''software-engineering'', sl_name = ''Software engineering'',
                   sl_description = ''Plans a coding goal, routes each task to the best available agent, and recovers from failures'',
                   sl_tags = map display_capability caps,
                   sl_examples = [''implement OAuth authentication and fix the tests'', ''why is the build slow'']\<rparr>]),
         kd_default_input_modes := [''text/plain''], kd_default_output_modes := [''text/plain'']\<rparr>)"

definition goal_from_params :: "json \<Rightarrow> string" where
  "goal_from_params params = parts_text (json_pointer [''message'', ''parts''] params)"

definition rpc_error :: "json \<Rightarrow> int \<Rightarrow> string \<Rightarrow> json" where
  "rpc_error i code message =
     JObject [(''jsonrpc'', JString ''2.0''), (''id'', i), (''error'', JObject [(''code'', JInt code), (''message'', JString message)])]"

definition rpc_result :: "json \<Rightarrow> json \<Rightarrow> json" where
  "rpc_result i v = JObject [(''jsonrpc'', JString ''2.0''), (''id'', i), (''result'', v)]"

section \<open>The task store\<close>

definition max_retained_tasks :: nat where "max_retained_tasks = 512"
definition max_active_tasks :: nat where "max_active_tasks = 32"
definition max_page_size :: nat where "max_page_size = 100"

datatype task_update = UpdStatus wire_task | UpdChunk string

record channel =
  ch_snapshot :: wire_task
  ch_updates :: "task_update list"

record task_entry =
  te_channel :: nat
  te_run :: "nat option"

datatype run_phase = RunSpawned string | RunBegun string | RunRunning string | RunFinishing "session_result result" | RunEnded | RunDropped

record run =
  rn_channel :: nat
  rn_phase :: run_phase
  rn_aborted :: bool

datatype store_call = StoreSave string string string json | StoreRemove string

record a2a_server =
  sv_card :: agent_card
  sv_entries :: "(string \<times> task_entry) list"
  sv_order :: "string list"
  sv_channels :: "channel list"
  sv_runs :: "run list"
  sv_store :: "store_call list option"
  sv_tokens :: "string list"

definition new_server :: "agent_card \<Rightarrow> a2a_server" where
  "new_server ac =
     \<lparr>sv_card = ac, sv_entries = [], sv_order = [], sv_channels = [], sv_runs = [], sv_store = None, sv_tokens = []\<rparr>"

definition wire_settled :: "task_state \<Rightarrow> bool" where
  "wire_settled s \<longleftrightarrow> state_is_terminal s \<or> state_is_interrupted s"

definition chan_task :: "a2a_server \<Rightarrow> nat \<Rightarrow> wire_task" where
  "chan_task sv c = ch_snapshot (sv_channels sv ! c)"

definition entry_current :: "a2a_server \<Rightarrow> task_entry \<Rightarrow> wire_task" where
  "entry_current sv e = chan_task sv (te_channel e)"

definition active_tasks :: "a2a_server \<Rightarrow> nat" where
  "active_tasks sv = length (filter (\<lambda>e. \<not> wire_settled (wt_state (entry_current sv (snd e)))) (sv_entries sv))"

text \<open>Whether \<open>make_room\<close> may drop a task.\<close>

definition evictable :: "a2a_server \<Rightarrow> string \<Rightarrow> bool" where
  "evictable sv i =
     (case map_of (sv_entries sv) i of None \<Rightarrow> True | Some e \<Rightarrow> wire_settled (wt_state (entry_current sv e)))"

function make_room :: "a2a_server \<Rightarrow> string list \<times> a2a_server" where
  "make_room sv =
     (if length (sv_entries sv) < max_retained_tasks then ([], sv)
      else case List.extract (evictable sv) (sv_order sv) of
             None \<Rightarrow> ([], sv)
           | Some (before, i, after) \<Rightarrow>
               (case make_room (sv\<lparr>sv_order := before @ after, sv_entries := AList.delete i (sv_entries sv)\<rparr>) of
                  (evicted, sv') \<Rightarrow> (i # evicted, sv')))"
  by pat_completeness auto
termination
  by (relation "measure (\<lambda>sv. length (sv_order sv))") (auto simp: extract_Some_iff)

declare make_room.simps [simp del]

definition persist :: "string \<Rightarrow> wire_task \<Rightarrow> a2a_server \<Rightarrow> a2a_server" where
  "persist mid t sv =
     sv\<lparr>sv_store := map_option (\<lambda>calls. calls @ [StoreSave (wt_id t) (wt_context_id t) (render_state (wt_state t) V1) (task_json mid V1 t)])
                     (sv_store sv)\<rparr>"

definition forget :: "string \<Rightarrow> a2a_server \<Rightarrow> a2a_server" where
  "forget i sv = sv\<lparr>sv_store := map_option (\<lambda>calls. calls @ [StoreRemove i]) (sv_store sv)\<rparr>"

text \<open>A record on a new channel.\<close>

definition insert_entry :: "wire_task \<Rightarrow> a2a_server \<Rightarrow> a2a_server" where
  "insert_entry t sv =
     sv\<lparr>sv_channels := sv_channels sv @ [\<lparr>ch_snapshot = t, ch_updates = []\<rparr>],
        sv_entries := AList.update (wt_id t) \<lparr>te_channel = length (sv_channels sv), te_run = None\<rparr> (sv_entries sv),
        sv_order := sv_order sv @ [wt_id t]\<rparr>"

definition interrupted_by_restart :: string where
  "interrupted_by_restart =
     ''CUMA restarted while this task was running, and it was not resumed: part of it may already have been carried out, so running it again unasked could repeat work. Send the message again to retry.''"

text \<open>One body of \<open>with_store\<close>: \<open>parsed\<close> is the JSON value of the text, when it is one.\<close>

definition restore_task :: "string \<Rightarrow> string \<Rightarrow> json option \<Rightarrow> a2a_server \<Rightarrow> a2a_server" where
  "restore_task mid now parsed sv =
     (case Option.bind parsed parse_task of
        None \<Rightarrow> sv
      | Some t \<Rightarrow>
          if wire_settled (wt_state t) then insert_entry t sv
          else let t = t\<lparr>wt_state := StFailed, wt_status_text := Some interrupted_by_restart, wt_timestamp := Some now\<rparr>
               in insert_entry t (persist mid t sv))"

definition with_store :: "string \<Rightarrow> string \<Rightarrow> (nat \<Rightarrow> json option list result) \<Rightarrow> a2a_server \<Rightarrow> a2a_server" where
  "with_store mid now load sv =
     fold (restore_task mid now) (case load max_retained_tasks of Inr bodies \<Rightarrow> bodies | Inl _ \<Rightarrow> []) (sv\<lparr>sv_store := Some []\<rparr>)"

section \<open>Who may call\<close>

text \<open>\<open>same_secret\<close>, on the bytes of both.\<close>

definition same_secret :: "string \<Rightarrow> string \<Rightarrow> bool" where
  "same_secret a b \<longleftrightarrow>
     length a = length b \<and> fold (\<lambda>(x, y) diff. or diff (xor (of_char x) (of_char y))) (zip a b) (0 :: 8 word) = 0"

definition bearer_token :: "string option \<Rightarrow> string option" where
  "bearer_token authorization =
     Option.bind authorization (\<lambda>v. Option.bind (split_once (CHR '' '') v) (\<lambda>(scheme, token).
       if eq_ignore_ascii_case scheme ''bearer'' then Some (trim token) else None))"

definition with_bearer_tokens :: "string list \<Rightarrow> a2a_server \<Rightarrow> a2a_server" where
  "with_bearer_tokens tokens sv =
     (let tokens = filter (\<lambda>t. t \<noteq> []) tokens; ac = sv_card sv in
      sv\<lparr>sv_tokens := tokens,
         sv_card :=
           (if tokens = [] then ac\<lparr>kd_security_schemes := [], kd_security_requirements := []\<rparr>
            else ac
              \<lparr>kd_security_schemes :=
                 AList.update ''bearer''
                   (JObject [(''httpAuthSecurityScheme'',
                      JObject [(''scheme'', JString ''Bearer''),
                               (''description'', JString ''A token issued by whoever runs this CUMA.'')])])
                   (kd_security_schemes ac),
               kd_security_requirements :=
                 [JObject [(''schemes'', JObject [(''bearer'', JObject [(''list'', JArray [])])])]]\<rparr>)\<rparr>)"

definition is_authorized :: "a2a_server \<Rightarrow> string option \<Rightarrow> bool" where
  "is_authorized sv authorization =
     (if sv_tokens sv = [] then True
      else case bearer_token authorization of
             None \<Rightarrow> False
           | Some presented \<Rightarrow> fold (\<lambda>token ok. ok \<or> same_secret presented token) (sv_tokens sv) False)"

section \<open>Runs\<close>

definition update_channel :: "nat \<Rightarrow> (channel \<Rightarrow> channel) \<Rightarrow> a2a_server \<Rightarrow> a2a_server" where
  "update_channel c f sv = sv\<lparr>sv_channels := (sv_channels sv)[c := f (sv_channels sv ! c)]\<rparr>"

definition update_run :: "nat \<Rightarrow> (run \<Rightarrow> run) \<Rightarrow> a2a_server \<Rightarrow> a2a_server" where
  "update_run r f sv = sv\<lparr>sv_runs := (sv_runs sv)[r := f (sv_runs sv ! r)]\<rparr>"

text \<open>\<open>set\<close> in \<open>drive\<close>: whatever the task's state is.\<close>

definition set_task :: "string \<Rightarrow> string \<Rightarrow> nat \<Rightarrow> (wire_task \<Rightarrow> wire_task) \<Rightarrow> a2a_server \<Rightarrow> a2a_server" where
  "set_task mid now c change sv =
     (let t = (change (chan_task sv c))\<lparr>wt_timestamp := Some now\<rparr> in
      persist mid t (update_channel c (\<lambda>ch. \<lparr>ch_snapshot = t, ch_updates = ch_updates ch @ [UpdStatus t]\<rparr>) sv))"

definition transcript :: "session_result \<Rightarrow> string" where
  "transcript r =
     join [CHR 0x0A, CHR 0x0A]
       (List.map_filter (\<lambda>t. map_option (\<lambda>out. ''## '' @ ts_description (tk_spec t) @ [CHR 0x0A] @ eo_output out) (successful_outcome t))
         (graph_iter (sr_graph r)))"

definition conclude :: "session_result result \<Rightarrow> wire_task \<Rightarrow> wire_task" where
  "conclude res t =
     (case res of
        Inr r \<Rightarrow>
          t\<lparr>wt_state := (if sr_success r then StCompleted else StFailed), wt_status_text := Some (sr_summary r),
            wt_artifacts := (if transcript r = [] then [] else [(''result'', transcript r)])\<rparr>
      | Inl e \<Rightarrow> t\<lparr>wt_state := StFailed, wt_status_text := Some (display_error e)\<rparr>)"

text \<open>What the orchestrator gives a run when it is polled: output of its session, or the result.\<close>

datatype poll = PollOutput string | PollResult "session_result result"

definition drive_step :: "string \<Rightarrow> string \<Rightarrow> nat \<Rightarrow> poll \<Rightarrow> a2a_server \<Rightarrow> a2a_server" where
  "drive_step mid now r p sv =
     (let rn = sv_runs sv ! r; c = rn_channel rn; goto = (\<lambda>ph. update_run r (\<lambda>x. x\<lparr>rn_phase := ph\<rparr>)) in
      case rn_phase rn of
        RunSpawned goal \<Rightarrow> goto (if rn_aborted rn then RunDropped else RunBegun goal) sv
      | RunBegun goal \<Rightarrow> goto (RunRunning goal) (set_task mid now c (\<lambda>t. t\<lparr>wt_state := Working\<rparr>) sv)
      | RunRunning goal \<Rightarrow>
          if rn_aborted rn then goto RunDropped sv
          else (case p of
                  PollOutput chunk \<Rightarrow> update_channel c (\<lambda>ch. ch\<lparr>ch_updates := ch_updates ch @ [UpdChunk chunk]\<rparr>) sv
                | PollResult res \<Rightarrow> goto (RunFinishing res) sv)
      | RunFinishing res \<Rightarrow> goto RunEnded (set_task mid now c (conclude res) sv)
      | RunEnded \<Rightarrow> sv
      | RunDropped \<Rightarrow> sv)"

section \<open>Calls\<close>

text \<open>Two fresh ids, the clock, and the ids of the messages a reply is rendered with.\<close>

record fresh =
  fr_context :: string
  fr_task :: string
  fr_now :: string
  fr_message :: "nat \<Rightarrow> string"

text \<open>\<open>start\<close> up to the spawn, and what it does with the handle after.\<close>

definition initial_task :: "fresh \<Rightarrow> json \<Rightarrow> wire_task" where
  "initial_task fr params =
     \<lparr>wt_id = fr_task fr,
      wt_context_id =
        (case Option.bind (json_pointer [''message'', ''contextId''] params) as_str of
           Some c \<Rightarrow> if c \<noteq> [] \<and> length c \<le> 128 then c else fr_context fr
         | None \<Rightarrow> fr_context fr),
      wt_state = Submitted, wt_status_text = None, wt_timestamp = Some (fr_now fr), wt_artifacts = []\<rparr>"

definition spawn_run :: "nat \<Rightarrow> string \<Rightarrow> a2a_server \<Rightarrow> a2a_server" where
  "spawn_run c goal sv = sv\<lparr>sv_runs := sv_runs sv @ [\<lparr>rn_channel = c, rn_phase = RunSpawned goal, rn_aborted = False\<rparr>]\<rparr>"

definition start_run :: "fresh \<Rightarrow> json \<Rightarrow> a2a_server \<Rightarrow> ((int \<times> string) + (string \<times> nat \<times> nat)) \<times> a2a_server" where
  "start_run fr params sv =
     (let goal = goal_from_params params in
      if goal = [] then (Inl (invalid_params_code, ''the message contained no text''), sv)
      else if (case Option.bind (json_pointer [''message'', ''taskId''] params) as_str of Some t \<Rightarrow> t \<noteq> [] | None \<Rightarrow> False)
      then (Inl (unsupported_operation_code,
              ''CUMA tasks do not take follow-up messages; send a new message, reusing contextId to group related work''), sv)
      else if max_active_tasks \<le> active_tasks sv
      then (Inl (internal_error_code, ''CUMA is already running 32 tasks; try again later''), sv)
      else
        case make_room sv of
          (evicted, sv) \<Rightarrow>
            let c = length (sv_channels sv); t = initial_task fr params in
            (Inr (fr_task fr, c, length (sv_runs sv)),
             spawn_run c goal (persist (fr_message fr 0) t (insert_entry t (fold forget evicted sv)))))"

definition attach_handle :: "string \<Rightarrow> nat \<Rightarrow> a2a_server \<Rightarrow> a2a_server" where
  "attach_handle i r sv =
     (case map_of (sv_entries sv) i of
        None \<Rightarrow> sv
      | Some e \<Rightarrow> sv\<lparr>sv_entries := AList.update i (e\<lparr>te_run := Some r\<rparr>) (sv_entries sv)\<rparr>)"

definition a2a_start :: "fresh \<Rightarrow> json \<Rightarrow> a2a_server \<Rightarrow> ((int \<times> string) + (string \<times> nat)) \<times> a2a_server" where
  "a2a_start fr params sv =
     (case start_run fr params sv of
        (Inl e, sv) \<Rightarrow> (Inl e, sv)
      | (Inr (i, c, r), sv) \<Rightarrow> (Inr (i, c), attach_handle i r sv))"

record task_stream =
  sm_request_id :: json
  sm_dialect :: dialect
  sm_first :: "wire_task option"
  sm_channel :: nat
  sm_done :: bool

text \<open>What \<open>recv\<close> gave: an update, that some were missed, or that every sender is gone.\<close>

datatype received = GotUpdate task_update | GotLagged | GotClosed

definition stream_next :: "string \<Rightarrow> a2a_server \<Rightarrow> received \<Rightarrow> task_stream \<Rightarrow> json option \<times> task_stream" where
  "stream_next mid sv got sm =
     (let d = sm_dialect sm; envelope = rpc_result (sm_request_id sm); task = chan_task sv (sm_channel sm) in
      if sm_done sm then (None, sm)
      else case sm_first sm of
        Some t \<Rightarrow> (Some (envelope (send_result_json mid t d)), sm\<lparr>sm_first := None, sm_done := wire_settled (wt_state t)\<rparr>)
      | None \<Rightarrow>
          (case got of
             GotUpdate (UpdChunk text) \<Rightarrow> (Some (envelope (artifact_event_json task ''stream'' text d)), sm)
           | GotUpdate (UpdStatus t) \<Rightarrow> (Some (envelope (status_event_json mid t d)), sm\<lparr>sm_done := wire_settled (wt_state t)\<rparr>)
           | GotLagged \<Rightarrow> (Some (envelope (send_result_json mid task d)), sm\<lparr>sm_done := wire_settled (wt_state task)\<rparr>)
           | GotClosed \<Rightarrow> (Some (envelope (send_result_json mid task d)), sm\<lparr>sm_done := True\<rparr>)))"

text \<open>A reply: one response, a stream, or one that waits for a channel's task to settle.\<close>

datatype reply = ReplyJson json | ReplyStream task_stream | ReplyWhenSettled json dialect nat

definition settled_reply :: "string \<Rightarrow> a2a_server \<Rightarrow> reply \<Rightarrow> json option" where
  "settled_reply mid sv r =
     (case r of
        ReplyWhenSettled i d c \<Rightarrow>
          if wire_settled (wt_state (chan_task sv c)) then Some (rpc_result i (send_result_json mid (chan_task sv c) d)) else None
      | ReplyJson v \<Rightarrow> Some v
      | ReplyStream _ \<Rightarrow> None)"

definition json_bool :: "string list \<Rightarrow> json \<Rightarrow> bool option" where
  "json_bool keys v = Option.bind (json_pointer keys v) as_bool"

definition return_immediately :: "dialect \<Rightarrow> json \<Rightarrow> bool" where
  "return_immediately d params =
     (case d of
        V1 \<Rightarrow> (case json_bool [''configuration'', ''returnImmediately''] params of Some b \<Rightarrow> b | None \<Rightarrow> False)
      | Legacy \<Rightarrow> (case json_bool [''configuration'', ''blocking''] params of Some b \<Rightarrow> \<not> b | None \<Rightarrow> False))"

definition send_message :: "fresh \<Rightarrow> json \<Rightarrow> json \<Rightarrow> dialect \<Rightarrow> a2a_server \<Rightarrow> reply \<times> a2a_server" where
  "send_message fr i params d sv =
     (case a2a_start fr params sv of
        (Inl (code, message), sv) \<Rightarrow> (ReplyJson (rpc_error i code message), sv)
      | (Inr (_, c), sv) \<Rightarrow>
          (if return_immediately d params then ReplyJson (rpc_result i (send_result_json (fr_message fr 1) (chan_task sv c) d))
           else ReplyWhenSettled i d c, sv))"

definition task_id_param :: "json \<Rightarrow> string" where
  "task_id_param params = (case Option.bind (json_get ''id'' params) as_str of Some i \<Rightarrow> i | None \<Rightarrow> [])"

definition no_task :: "(string \<Rightarrow> string) \<Rightarrow> json \<Rightarrow> string \<Rightarrow> json" where
  "no_task dbg i task_id = rpc_error i task_not_found_code (''no task '' @ dbg task_id)"

definition subscribe :: "(string \<Rightarrow> string) \<Rightarrow> json \<Rightarrow> string \<Rightarrow> dialect \<Rightarrow> bool \<Rightarrow> a2a_server \<Rightarrow> reply" where
  "subscribe dbg i task_id d is_fresh sv =
     (case map_of (sv_entries sv) task_id of
        None \<Rightarrow> ReplyJson (no_task dbg i task_id)
      | Some e \<Rightarrow>
          let current = entry_current sv e in
          if \<not> is_fresh \<and> state_is_terminal (wt_state current)
          then ReplyJson (rpc_error i unsupported_operation_code ''the task has finished; use GetTask to read its result'')
          else ReplyStream \<lparr>sm_request_id = i, sm_dialect = d, sm_first = Some current, sm_channel = te_channel e, sm_done = False\<rparr>)"

definition get_task :: "(string \<Rightarrow> string) \<Rightarrow> fresh \<Rightarrow> json \<Rightarrow> json \<Rightarrow> dialect \<Rightarrow> a2a_server \<Rightarrow> json" where
  "get_task dbg fr i params d sv =
     (case map_of (sv_entries sv) (task_id_param params) of
        Some e \<Rightarrow> rpc_result i (task_json (fr_message fr 0) d (entry_current sv e))
      | None \<Rightarrow> no_task dbg i (task_id_param params))"

definition matching_tasks :: "json \<Rightarrow> a2a_server \<Rightarrow> wire_task list" where
  "matching_tasks params sv =
     (let context = Option.bind (Option.bind (json_get ''contextId'' params) as_str) non_empty;
          status = Option.bind (map_option parse_state (Option.bind (json_get ''status'' params) as_str))
                     (\<lambda>s. if s \<noteq> StUnknown then Some s else None)
      in filter (\<lambda>t. case status of Some s \<Rightarrow> wt_state t = s | None \<Rightarrow> True)
           (filter (\<lambda>t. case context of Some c \<Rightarrow> wt_context_id t = c | None \<Rightarrow> True)
             (map (entry_current sv) (List.map_filter (map_of (sv_entries sv)) (rev (sv_order sv))))))"

definition page_size :: "json \<Rightarrow> nat" where
  "page_size params =
     (let n = (case Option.bind (json_get ''pageSize'' params) as_u64 of Some n \<Rightarrow> n | None \<Rightarrow> 50) in max 1 (min n max_page_size))"

definition page_offset :: "json \<Rightarrow> nat" where
  "page_offset params =
     (case Option.bind (Option.bind (json_get ''pageToken'' params) as_str) (parse_unsigned (2 ^ 64)) of Some n \<Rightarrow> n | None \<Rightarrow> 0)"

definition list_tasks :: "fresh \<Rightarrow> json \<Rightarrow> json \<Rightarrow> dialect \<Rightarrow> a2a_server \<Rightarrow> json" where
  "list_tasks fr i params d sv =
     (let matching = matching_tasks params sv; total = length matching; off = page_offset params; size = page_size params;
          page = take size (drop off matching); continue = off + length page in
      rpc_result i (JObject
        [(''tasks'', JArray (map (\<lambda>(k, t). task_json (fr_message fr k) d t) (enumerate 0 page))),
         (''nextPageToken'', JString (if continue < total then show_nat continue else [])),
         (''pageSize'', JInt (int size)), (''totalSize'', JInt (int total))]))"

definition cancel_task :: "(string \<Rightarrow> string) \<Rightarrow> fresh \<Rightarrow> json \<Rightarrow> json \<Rightarrow> dialect \<Rightarrow> a2a_server \<Rightarrow> json \<times> a2a_server" where
  "cancel_task dbg fr i params d sv =
     (case map_of (sv_entries sv) (task_id_param params) of
        None \<Rightarrow> (no_task dbg i (task_id_param params), sv)
      | Some e \<Rightarrow>
          let current = entry_current sv e in
          if wire_settled (wt_state current)
          then (rpc_error i task_not_cancelable_code (''the task is already '' @ render_state (wt_state current) d), sv)
          else
            let sv = (case te_run e of Some r \<Rightarrow> update_run r (\<lambda>rn. rn\<lparr>rn_aborted := True\<rparr>) sv | None \<Rightarrow> sv);
                cancelled = current\<lparr>wt_state := Canceled, wt_status_text := Some ''cancelled at the caller's request'',
                                    wt_timestamp := Some (fr_now fr)\<rparr>;
                sv = update_channel (te_channel e) (\<lambda>ch. \<lparr>ch_snapshot = cancelled, ch_updates = ch_updates ch @ [UpdStatus cancelled]\<rparr>) sv
            in (rpc_result i (task_json (fr_message fr 1) d cancelled), persist (fr_message fr 0) cancelled sv))"

text \<open>A request is what the body parses to: \<open>(id, method, params)\<close>, or the text of the error.\<close>

type_synonym request = "string + json \<times> string \<times> json"

definition handle :: "(string \<Rightarrow> string) \<Rightarrow> fresh \<Rightarrow> request \<Rightarrow> a2a_server \<Rightarrow> reply \<times> a2a_server" where
  "handle dbg fr request sv =
     (case request of
        Inl err \<Rightarrow> (ReplyJson (rpc_error JNull parse_error_code (''parse error: '' @ err)), sv)
      | Inr (i, m, params) \<Rightarrow>
          let d = (if is_legacy m then Legacy else V1); m = canonical_method m in
          if m = send_message_m then send_message fr i params d sv
          else if m = send_streaming_message_m then
            (case a2a_start fr params sv of
               (Inr (task_id, _), sv) \<Rightarrow> (subscribe dbg i task_id d True sv, sv)
             | (Inl (code, message), sv) \<Rightarrow> (ReplyJson (rpc_error i code message), sv))
          else if m = get_task_m then (ReplyJson (get_task dbg fr i params d sv), sv)
          else if m = list_tasks_m then (ReplyJson (list_tasks fr i params d sv), sv)
          else if m = cancel_task_m then (case cancel_task dbg fr i params d sv of (v, sv) \<Rightarrow> (ReplyJson v, sv))
          else if m = subscribe_to_task_m then (subscribe dbg i (task_id_param params) d False sv, sv)
          else if m = get_extended_agent_card_m \<or> m = ''agent/getAuthenticatedExtendedCard'' then
            (ReplyJson (rpc_error i extended_card_code ''CUMA publishes no extended Agent Card''), sv)
          else if str_contains m ''PushNotification'' \<or> str_contains m ''pushNotification'' then
            (ReplyJson (rpc_error i push_not_supported_code
               ''push notifications are not supported; poll GetTask or stream instead''), sv)
          else (ReplyJson (rpc_error i method_not_found_code (''unknown method '' @ dbg m)), sv))"

text \<open>The route: \<open>None\<close> is the 401, and the body is not looked at.\<close>

definition serve_rpc :: "(string \<Rightarrow> string) \<Rightarrow> fresh \<Rightarrow> string option \<Rightarrow> request \<Rightarrow> a2a_server \<Rightarrow> reply option \<times> a2a_server" where
  "serve_rpc dbg fr authorization request sv =
     (if is_authorized sv authorization then (case handle dbg fr request sv of (r, sv) \<Rightarrow> (Some r, sv)) else (None, sv))"

section \<open>Credentials\<close>

lemma of_char_byte_eq [simp]: "(of_char x :: 8 word) = of_char y \<longleftrightarrow> x = y"
proof -
  have "unat (of_char c :: 8 word) = of_char c" for c
    using unat_of_nat [where x = "of_char c" and 'a = 8] by (simp add: of_nat_of_char)
  then show ?thesis by (metis of_char_eq_iff)
qed

lemma xor_eq_0 [simp]: "xor x y = 0 \<longleftrightarrow> x = y" for x y :: "'a::len word"
  by (metis xor.assoc xor.left_neutral xor_self_eq)

lemma fold_diff_zero:
  "fold (\<lambda>(x, y) diff. or diff (xor (of_char x) (of_char y))) ps (acc :: 8 word) = 0 \<longleftrightarrow>
   acc = 0 \<and> (\<forall>(x, y) \<in> set ps. x = y)"
  by (induction ps arbitrary: acc) (auto simp: or_eq_0_iff)

lemma same_secret_iff: "same_secret a b \<longleftrightarrow> a = b"
proof -
  have "length a = length b \<Longrightarrow> (\<forall>(x, y) \<in> set (zip a b). x = y) \<longleftrightarrow> a = b"
    by (induction a b rule: list_induct2) auto
  then show ?thesis by (auto simp: same_secret_def fold_diff_zero)
qed

lemma fold_or_iff: "fold (\<lambda>x ok. ok \<or> P x) xs b \<longleftrightarrow> b \<or> (\<exists>x \<in> set xs. P x)"
  by (induction xs arbitrary: b) auto

lemma is_authorized_iff:
  "is_authorized sv authorization \<longleftrightarrow>
     sv_tokens sv = [] \<or> (\<exists>t \<in> set (sv_tokens sv). bearer_token authorization = Some t)"
  by (cases "bearer_token authorization") (auto simp: is_authorized_def fold_or_iff same_secret_iff)

section \<open>Making room\<close>

lemma make_room_spec:
  assumes "make_room sv = (ev, sv')" "distinct (sv_order sv)"
  shows "sv' = sv\<lparr>sv_order := filter (\<lambda>i. i \<notin> set ev) (sv_order sv), sv_entries := filter (\<lambda>(i, _). i \<notin> set ev) (sv_entries sv)\<rparr> \<and>
    (\<forall>i \<in> set ev. evictable sv i)"
  using assms
proof (induction sv arbitrary: ev sv' rule: make_room.induct)
  case (1 sv)
  show ?case
  proof (cases "length (sv_entries sv) < max_retained_tasks \<or> List.extract (evictable sv) (sv_order sv) = None")
    case True
    then have "ev = []" "sv' = sv" using "1.prems"(1) by (auto simp: make_room.simps [of sv] split: if_splits option.splits)
    then show ?thesis by (cases sv) simp
  next
    case False
    then obtain before i after where x: "List.extract (evictable sv) (sv_order sv) = Some (before, i, after)" by auto
    let ?sv = "sv\<lparr>sv_order := before @ after, sv_entries := AList.delete i (sv_entries sv)\<rparr>"
    obtain ev' where r: "make_room ?sv = (ev', sv')" and ev: "ev = i # ev'"
      using "1.prems"(1) False x by (auto simp: make_room.simps [of sv] split: prod.splits)
    have o: "sv_order sv = before @ i # after" "evictable sv i" using x by (auto simp: extract_Some_iff)
    have "distinct (sv_order ?sv)" "i \<notin> set before" "i \<notin> set after" using "1.prems"(2) o by auto
    with "1.IH" [OF _ x refl refl r] False
    have "sv' = ?sv\<lparr>sv_order := filter (\<lambda>i. i \<notin> set ev') (before @ after),
        sv_entries := filter (\<lambda>(i, _). i \<notin> set ev') (AList.delete i (sv_entries sv))\<rparr>"
      and "\<forall>i \<in> set ev'. evictable ?sv i" by auto
    moreover have "filter (\<lambda>j. j \<notin> set ev') xs = filter (\<lambda>j. j \<noteq> i \<and> j \<notin> set ev') xs" if "i \<notin> set xs" for xs
      using that by (intro filter_cong) auto
    moreover have "evictable sv j" if "evictable ?sv j" "j \<noteq> i" for j
      using that by (simp add: evictable_def entry_current_def chan_task_def AList.delete_conv' split: option.splits)
    ultimately show ?thesis
      using o \<open>i \<notin> set before\<close> \<open>i \<notin> set after\<close>
      by (auto simp: ev AList.delete_eq case_prod_beta conj_commute eq_commute [of i])
  qed
qed


text \<open>Every record has its place in the order, once.\<close>

definition records_ok :: "a2a_server \<Rightarrow> bool" where
  "records_ok sv \<longleftrightarrow> distinct (map fst (sv_entries sv)) \<and> distinct (sv_order sv) \<and> set (sv_order sv) = fst ` set (sv_entries sv)"

lemma active_filter:
  "active_tasks (sv\<lparr>sv_order := ord, sv_entries := filter P (sv_entries sv)\<rparr>) \<le> active_tasks sv"
proof -
  have "length (filter Q (filter P xs)) \<le> length (filter Q xs)" for Q and xs :: "(string \<times> task_entry) list"
    by (induction xs) auto
  then show ?thesis by (simp add: active_tasks_def entry_current_def chan_task_def)
qed

lemma some_evictable:
  assumes "records_ok sv" "active_tasks sv < length (sv_entries sv)"
  shows "\<exists>i \<in> set (sv_order sv). evictable sv i"
proof -
  have "\<exists>e \<in> set (sv_entries sv). wire_settled (wt_state (entry_current sv (snd e)))"
  proof (rule ccontr)
    assume "\<not> ?thesis"
    then have "filter (\<lambda>e. \<not> wire_settled (wt_state (entry_current sv (snd e)))) (sv_entries sv) = sv_entries sv"
      by (auto simp: filter_id_conv)
    then show False using assms(2) by (simp add: active_tasks_def)
  qed
  then obtain i e where "(i, e) \<in> set (sv_entries sv)" "wire_settled (wt_state (entry_current sv e))" by auto
  then show ?thesis
    using assms(1) by (intro bexI [of _ i]) (auto simp: records_ok_def evictable_def intro: rev_image_eqI)
qed

lemma records_ok_evict:
  assumes "records_ok sv"
  shows "records_ok (sv\<lparr>sv_order := filter (\<lambda>i. i \<notin> S) (sv_order sv), sv_entries := filter (\<lambda>(i, _). i \<notin> S) (sv_entries sv)\<rparr>)"
  using assms by (auto simp: records_ok_def distinct_map inj_on_def case_prod_beta image_iff)

lemma records_ok_make_room: "records_ok sv \<Longrightarrow> records_ok (snd (make_room sv))"
  using make_room_spec [of sv "fst (make_room sv)" "snd (make_room sv)"] records_ok_evict [of sv "set (fst (make_room sv))"]
  by (simp add: records_ok_def)

lemma make_room_frees:
  assumes "records_ok sv" "active_tasks sv < max_retained_tasks"
  shows "length (sv_entries (snd (make_room sv))) < max_retained_tasks"
  using assms
proof (induction sv rule: make_room.induct)
  case (1 sv)
  show ?case
  proof (cases "length (sv_entries sv) < max_retained_tasks")
    case False
    then obtain before i after where x: "List.extract (evictable sv) (sv_order sv) = Some (before, i, after)"
      using some_evictable [OF "1.prems"(1)] "1.prems"(2) extract_None_iff [of "evictable sv" "sv_order sv"]
      by (cases "List.extract (evictable sv) (sv_order sv)") auto
    let ?sv = "sv\<lparr>sv_order := before @ after, sv_entries := AList.delete i (sv_entries sv)\<rparr>"
    have o: "sv_order sv = before @ i # after" using x by (simp add: extract_Some_iff)
    have "before @ after = filter (\<lambda>j. j \<notin> {i}) (sv_order sv)"
      using "1.prems"(1) o by (auto simp: records_ok_def intro!: arg_cong2 [where f = "(@)"] filter_True [symmetric])
    then have sv: "?sv = sv\<lparr>sv_order := filter (\<lambda>j. j \<notin> {i}) (sv_order sv), sv_entries := filter (\<lambda>(j, _). j \<notin> {i}) (sv_entries sv)\<rparr>"
      by (simp add: AList.delete_eq case_prod_beta eq_commute [of i])
    have "records_ok ?sv" unfolding sv by (rule records_ok_evict) (rule "1.prems"(1))
    moreover have "active_tasks ?sv < max_retained_tasks"
      unfolding sv using active_filter "1.prems"(2) by (rule le_less_trans)
    ultimately have "length (sv_entries (snd (make_room ?sv))) < max_retained_tasks"
      using "1.IH" [OF False x refl refl] by blast
    then show ?thesis using False x by (auto simp: make_room.simps [of sv] split: prod.splits)
  qed (simp add: make_room.simps [of sv])
qed

end
