(* ===== verification/A2A_Runs.thy ===== *)
theory A2A_Runs
  imports A2A_Server
begin

text \<open>
  The A2A server as a state machine: calls, the moment between a spawn and the handle it leaves,
  and the steps of the runs, in any order. Its invariant, what a cancellation guarantees and where
  it does not, and that a caller who follows the page tokens reads every task once.
\<close>

section \<open>The server as a whole\<close>

text \<open>
  A run and the record its handle was attached to share a channel, no two runs do, and a handle
  that is not attached yet is the one of its record, if that is still there.
\<close>

definition linked :: "a2a_server \<Rightarrow> nat \<Rightarrow> task_entry \<Rightarrow> bool" where
  "linked sv r e \<longleftrightarrow> r < length (sv_runs sv) \<and> rn_channel (sv_runs sv ! r) = te_channel e"

definition runs_ok :: "a2a_server \<Rightarrow> (string \<times> nat) list \<Rightarrow> bool" where
  "runs_ok sv pend \<longleftrightarrow>
     (\<forall>i e. map_of (sv_entries sv) i = Some e \<longrightarrow> te_channel e < length (sv_channels sv) \<and> (\<forall>r. te_run e = Some r \<longrightarrow> linked sv r e)) \<and>
     (\<forall>rn \<in> set (sv_runs sv). rn_channel rn < length (sv_channels sv)) \<and> distinct (map rn_channel (sv_runs sv)) \<and>
     (\<forall>i r e. (i, r) \<in> set pend \<longrightarrow> map_of (sv_entries sv) i = Some e \<longrightarrow> linked sv r e)"

definition server_ok :: "a2a_server \<Rightarrow> (string \<times> nat) list \<Rightarrow> bool" where
  "server_ok sv pend \<longleftrightarrow> records_ok sv \<and> length (sv_entries sv) \<le> max_retained_tasks \<and> runs_ok sv pend"

text \<open>
  What can happen next. A call runs to its reply, a call that starts a task may be overtaken
  between the spawn and the moment it stores the handle, and a run makes a step.
  A generated task id is one no record and no pending handle has.
\<close>

type_synonym a2a_state = "a2a_server \<times> (string \<times> nat) list"

definition unused_id :: "string \<Rightarrow> a2a_state \<Rightarrow> bool" where
  "unused_id i s \<longleftrightarrow> i \<notin> fst ` set (sv_entries (fst s)) \<and> i \<notin> fst ` set (snd s)"

inductive a2a_next :: "(string \<Rightarrow> string) \<Rightarrow> a2a_state \<Rightarrow> a2a_state \<Rightarrow> bool" for dbg where
  call: "unused_id (fr_task fr) (sv, pend) \<Longrightarrow> a2a_next dbg (sv, pend) (snd (handle dbg fr request sv), pend)"
| start: "unused_id (fr_task fr) (sv, pend) \<Longrightarrow> start_run fr params sv = (Inr (i, c, r), sv') \<Longrightarrow>
    a2a_next dbg (sv, pend) (sv', (i, r) # pend)"
| attach: "a2a_next dbg (sv, before @ (i, r) # after) (attach_handle i r sv, before @ after)"
| drive: "r < length (sv_runs sv) \<Longrightarrow> a2a_next dbg (sv, pend) (drive_step mid now r p sv, pend)"

text \<open>The store gives no more tasks than it is asked for, each of them once.\<close>

definition store_loads :: "(nat \<Rightarrow> json option list result) \<Rightarrow> bool" where
  "store_loads load \<longleftrightarrow>
     (\<forall>n bodies. load n = Inr bodies \<longrightarrow>
        length bodies \<le> n \<and> distinct (map wt_id (List.map_filter (\<lambda>b. Option.bind b parse_task) bodies)))"

inductive a2a_reachable :: "(string \<Rightarrow> string) \<Rightarrow> a2a_state \<Rightarrow> bool" for dbg where
  forgetful: "a2a_reachable dbg (with_bearer_tokens tokens (new_server c), [])"
| restored: "store_loads load \<Longrightarrow> a2a_reachable dbg (with_bearer_tokens tokens (with_store mid now load (new_server c)), [])"
| step: "a2a_reachable dbg s \<Longrightarrow> a2a_next dbg s s' \<Longrightarrow> a2a_reachable dbg s'"

inductive_cases a2a_nextE: "a2a_next dbg (sv, pend) s'"

subsection \<open>What each operation leaves alone\<close>

definition same_frame :: "a2a_server \<Rightarrow> a2a_server \<Rightarrow> bool" where
  "same_frame sv sv' \<longleftrightarrow>
     sv_entries sv' = sv_entries sv \<and> sv_order sv' = sv_order sv \<and> length (sv_channels sv') = length (sv_channels sv) \<and>
     map rn_channel (sv_runs sv') = map rn_channel (sv_runs sv)"

lemma persist_simps [simp]:
  "sv_entries (persist mid t sv) = sv_entries sv" "sv_order (persist mid t sv) = sv_order sv"
  "sv_channels (persist mid t sv) = sv_channels sv" "sv_runs (persist mid t sv) = sv_runs sv"
  "sv_tokens (persist mid t sv) = sv_tokens sv"
  by (simp_all add: persist_def)

lemma forget_simps [simp]:
  "sv_entries (fold forget is sv) = sv_entries sv" "sv_order (fold forget is sv) = sv_order sv"
  "sv_channels (fold forget is sv) = sv_channels sv" "sv_runs (fold forget is sv) = sv_runs sv"
  by (induction "is" arbitrary: sv) (simp_all add: forget_def)

lemma insert_entry_simps [simp]:
  "sv_entries (insert_entry t sv) = AList.update (wt_id t) \<lparr>te_channel = length (sv_channels sv), te_run = None\<rparr> (sv_entries sv)"
  "sv_order (insert_entry t sv) = sv_order sv @ [wt_id t]"
  "sv_channels (insert_entry t sv) = sv_channels sv @ [\<lparr>ch_snapshot = t, ch_updates = []\<rparr>]"
  "sv_runs (insert_entry t sv) = sv_runs sv"
  by (simp_all add: insert_entry_def)

lemma linked_frame:
  assumes "map rn_channel (sv_runs sv') = map rn_channel (sv_runs sv)"
  shows "linked sv' r e \<longleftrightarrow> linked sv r e"
proof -
  have "length (sv_runs sv') = length (sv_runs sv)" using assms by (rule map_eq_imp_length_eq)
  then show ?thesis using assms by (auto simp: linked_def list_eq_iff_nth_eq)
qed

lemma server_ok_frame:
  assumes "same_frame sv sv'" "server_ok sv pend"
  shows "server_ok sv' pend"
proof -
  have runs: "map rn_channel (sv_runs sv') = map rn_channel (sv_runs sv)" using assms(1) by (simp add: same_frame_def)
  then have "rn_channel ` set (sv_runs sv') = rn_channel ` set (sv_runs sv)" by (metis set_map)
  then have "(\<forall>rn \<in> set (sv_runs sv'). rn_channel rn < n) \<longleftrightarrow> (\<forall>rn \<in> set (sv_runs sv). rn_channel rn < n)" for n
    by (metis (no_types, lifting) image_iff)
  then show ?thesis
    using assms linked_frame [OF runs] by (auto simp: server_ok_def runs_ok_def records_ok_def same_frame_def)
qed

lemma same_frame_refl [simp]: "same_frame sv sv"
  by (simp add: same_frame_def)

lemma same_frame_trans: "same_frame a b \<Longrightarrow> same_frame b c \<Longrightarrow> same_frame a c"
  by (simp add: same_frame_def)

lemma same_frame_persist [simp]: "same_frame sv (persist mid t sv') \<longleftrightarrow> same_frame sv sv'"
  by (simp add: same_frame_def)

lemma same_frame_channel [simp]: "same_frame sv (update_channel c f sv') \<longleftrightarrow> same_frame sv sv'"
  by (simp add: same_frame_def update_channel_def)

lemma same_frame_run:
  assumes "\<And>rn. rn_channel (f rn) = rn_channel rn"
  shows "same_frame sv (update_run r f sv') \<longleftrightarrow> same_frame sv sv'"
proof -
  have "map rn_channel ((sv_runs sv')[r := f (sv_runs sv' ! r)]) = map rn_channel (sv_runs sv')"
    by (simp add: map_update assms) (metis list_update_beyond list_update_id map_update not_le)
  then show ?thesis by (simp add: same_frame_def update_run_def)
qed

lemma drive_step_frame: "same_frame sv (drive_step mid now r p sv)"
  by (simp add: drive_step_def set_task_def Let_def same_frame_run split: run_phase.split poll.split)

lemma cancel_task_frame: "same_frame sv (snd (cancel_task dbg fr i params d sv))"
  by (simp add: cancel_task_def Let_def same_frame_run split: option.split)

subsection \<open>Starting a task\<close>

lemma start_run_cases:
  assumes "start_run fr params sv = (res, sv')"
  obtains e where "res = Inl e" "sv' = sv"
  | ev sv1 where "make_room sv = (ev, sv1)" "active_tasks sv < max_active_tasks"
      "res = Inr (fr_task fr, length (sv_channels sv1), length (sv_runs sv1))"
      "sv' = spawn_run (length (sv_channels sv1)) (goal_from_params params)
         (persist (fr_message fr 0) (initial_task fr params) (insert_entry (initial_task fr params) (fold forget ev sv1)))"
  using assms by (auto simp: start_run_def Let_def not_le split: if_splits prod.splits)

lemma wt_id_initial [simp]: "wt_id (initial_task fr params) = fr_task fr"
  by (simp add: initial_task_def)

lemma make_room_frame:
  assumes "make_room sv = (ev, sv')" "server_ok sv pend" "active_tasks sv < max_active_tasks"
  shows "server_ok sv' pend \<and> length (sv_entries sv') < max_retained_tasks \<and> sv_channels sv' = sv_channels sv \<and>
    sv_runs sv' = sv_runs sv \<and> set (sv_entries sv') \<subseteq> set (sv_entries sv)"
proof -
  have ok: "records_ok sv" "runs_ok sv pend" using assms(2) by (simp_all add: server_ok_def)
  have sv': "sv' = sv\<lparr>sv_order := filter (\<lambda>i. i \<notin> set ev) (sv_order sv), sv_entries := filter (\<lambda>(i, _). i \<notin> set ev) (sv_entries sv)\<rparr>"
    using make_room_spec [OF assms(1)] ok by (simp add: records_ok_def)
  have "records_ok sv'" unfolding sv' by (rule records_ok_evict) (rule ok)
  have sub: "map_of (sv_entries sv') i = Some e \<Longrightarrow> map_of (sv_entries sv) i = Some e" for i e
    using ok(1) by (auto simp: sv' records_ok_def dest!: map_of_SomeD intro: map_of_is_SomeI)
  have "runs_ok sv' pend" using ok(2) sub by (fastforce simp: runs_ok_def linked_def sv')
  moreover have "length (sv_entries sv') < max_retained_tasks"
    using make_room_frees [OF ok(1)] assms(1,3) by (simp add: max_retained_tasks_def max_active_tasks_def)
  ultimately show ?thesis using \<open>records_ok sv'\<close> by (auto simp: server_ok_def sv')
qed

lemma insert_entry_ok:
  assumes "server_ok sv pend" "length (sv_entries sv) < max_retained_tasks" "unused_id (wt_id t) (sv, pend)"
  shows "server_ok (insert_entry t sv) pend"
proof -
  have new: "wt_id t \<notin> fst ` set (sv_entries sv)" "wt_id t \<notin> fst ` set pend" using assms(3) by (simp_all add: unused_id_def)
  have "records_ok (insert_entry t sv)"
    using assms(1) new by (auto simp: server_ok_def records_ok_def AList.update_keys AList.dom_update)
  moreover have "length (sv_entries (insert_entry t sv)) = Suc (length (sv_entries sv))"
    using new by (metis AList.update_keys insert_entry_simps(1) length_append_singleton length_map set_map)
  moreover have "linked (insert_entry t sv) r e \<longleftrightarrow> linked sv r e" for r e by (simp add: linked_def)
  then have "runs_ok (insert_entry t sv) pend"
    using assms(1) new by (fastforce simp: server_ok_def runs_ok_def AList.update_conv' less_Suc_eq image_iff split: if_splits)
  ultimately show ?thesis using assms(2) by (simp add: server_ok_def)
qed

lemma spawn_run_simps [simp]:
  "sv_entries (spawn_run c goal sv) = sv_entries sv" "sv_order (spawn_run c goal sv) = sv_order sv"
  "sv_channels (spawn_run c goal sv) = sv_channels sv"
  "sv_runs (spawn_run c goal sv) = sv_runs sv @ [\<lparr>rn_channel = c, rn_phase = RunSpawned goal, rn_aborted = False\<rparr>]"
  by (simp_all add: spawn_run_def)

lemma spawn_run_ok:
  assumes "server_ok sv pend" "map_of (sv_entries sv) i = Some e" "c = te_channel e"
    and "\<forall>rn \<in> set (sv_runs sv). rn_channel rn \<noteq> c"
  shows "server_ok (spawn_run c goal sv) ((i, length (sv_runs sv)) # pend)"
proof -
  let ?sv = "spawn_run c goal sv"
  have ok: "runs_ok sv pend" using assms(1) by (simp add: server_ok_def)
  have keep: "linked sv r e' \<Longrightarrow> linked ?sv r e'" for r e' by (auto simp: linked_def nth_append)
  have c: "c < length (sv_channels sv)" using ok assms(2,3) by (simp add: runs_ok_def)
  have entries: "\<forall>i e. map_of (sv_entries sv) i = Some e \<longrightarrow> te_channel e < length (sv_channels sv) \<and> (\<forall>r. te_run e = Some r \<longrightarrow> linked ?sv r e)"
    using ok keep unfolding runs_ok_def by blast
  have runs: "\<forall>rn \<in> set (sv_runs ?sv). rn_channel rn < length (sv_channels sv)" using ok c by (simp add: runs_ok_def)
  have apart: "distinct (map rn_channel (sv_runs ?sv))" using ok assms(4) by (auto simp: runs_ok_def)
  have "linked ?sv (length (sv_runs sv)) e" using assms(3) by (simp add: linked_def)
  then have "\<forall>j r e. (j, r) \<in> set ((i, length (sv_runs sv)) # pend) \<longrightarrow> map_of (sv_entries sv) j = Some e \<longrightarrow> linked ?sv r e"
    using ok keep assms(2) unfolding runs_ok_def by auto
  with entries runs apart have "runs_ok ?sv ((i, length (sv_runs sv)) # pend)" unfolding runs_ok_def spawn_run_simps by blast
  then show ?thesis using assms(1) by (simp add: server_ok_def records_ok_def)
qed

lemma start_run_ok:
  assumes "start_run fr params sv = (Inr (i, c, r), sv')" "server_ok sv pend" "unused_id (fr_task fr) (sv, pend)"
  shows "server_ok sv' ((i, r) # pend) \<and> map_of (sv_entries sv') i = Some \<lparr>te_channel = c, te_run = None\<rparr>"
  using assms(1)
proof (cases rule: start_run_cases)
  case (2 ev sv1)
  note room = make_room_frame [OF 2(1) assms(2) 2(2)]
  let ?t = "initial_task fr params"
  have "server_ok (fold forget ev sv1) pend" using server_ok_frame [of sv1 "fold forget ev sv1"] room by (simp add: same_frame_def)
  then have "server_ok (insert_entry ?t (fold forget ev sv1)) pend"
    using room assms(3) by (intro insert_entry_ok) (auto simp: unused_id_def image_iff)
  then have "server_ok (persist (fr_message fr 0) ?t (insert_entry ?t (fold forget ev sv1))) pend"
    using server_ok_frame same_frame_persist same_frame_refl by blast
  moreover have "\<forall>rn \<in> set (sv_runs sv1). rn_channel rn \<noteq> length (sv_channels sv1)"
    using room unfolding server_ok_def runs_ok_def by (metis less_irrefl)
  ultimately show ?thesis
    using 2 spawn_run_ok [of "persist (fr_message fr 0) ?t (insert_entry ?t (fold forget ev sv1))" pend "fr_task fr"
        "\<lparr>te_channel = c, te_run = None\<rparr>" c "goal_from_params params"]
    by (auto simp: AList.update_conv')
qed simp

lemma attach_handle_ok:
  assumes "server_ok sv (before @ (i, r) # after)"
  shows "server_ok (attach_handle i r sv) (before @ after)"
proof (cases "map_of (sv_entries sv) i")
  case None
  then show ?thesis using assms by (auto simp: attach_handle_def server_ok_def runs_ok_def)
next
  case (Some e)
  let ?sv = "attach_handle i r sv"
  have sv: "sv_order ?sv = sv_order sv" "sv_channels ?sv = sv_channels sv" "sv_runs ?sv = sv_runs sv"
    and entries: "sv_entries ?sv = AList.update i (e\<lparr>te_run := Some r\<rparr>) (sv_entries sv)"
    using Some by (simp_all add: attach_handle_def)
  have keys: "map fst (sv_entries ?sv) = map fst (sv_entries sv)"
    using map_of_SomeD [OF Some] by (force simp: entries AList.update_keys)
  have link: "linked ?sv r' e' \<longleftrightarrow> linked sv r' e'" for r' e' by (simp add: linked_def sv)
  have "linked sv r e" using assms Some by (auto simp: server_ok_def runs_ok_def)
  then have "linked sv r (e\<lparr>te_run := Some r\<rparr>)" by (simp add: linked_def)
  moreover have "linked sv r' (e\<lparr>te_run := x\<rparr>) \<longleftrightarrow> linked sv r' e" for r' x by (simp add: linked_def)
  ultimately have "runs_ok ?sv (before @ after)"
    using assms Some unfolding server_ok_def runs_ok_def link sv entries AList.update_conv' by (auto split: if_splits)
  moreover have "records_ok ?sv"
    using assms unfolding server_ok_def records_ok_def set_map [symmetric] keys sv by blast
  moreover have "length (sv_entries ?sv) \<le> max_retained_tasks"
    using assms map_eq_imp_length_eq [OF keys] by (simp add: server_ok_def)
  ultimately show ?thesis by (simp add: server_ok_def)
qed

lemma a2a_start_ok:
  assumes "server_ok sv pend" "unused_id (fr_task fr) (sv, pend)"
  shows "server_ok (snd (a2a_start fr params sv)) pend"
proof (cases "start_run fr params sv")
  case (Pair res sv')
  show ?thesis
  proof (cases res)
    case (Inl e)
    have "sv' = sv" using Pair [unfolded Inl] by (cases rule: start_run_cases) auto
    then show ?thesis using Pair Inl assms(1) by (simp add: a2a_start_def)
  next
    case (Inr x)
    obtain i c r where x: "x = (i, c, r)" by (cases x)
    have "server_ok sv' ([] @ (i, r) # pend)" using start_run_ok [OF _ assms] Pair Inr x by simp
    from attach_handle_ok [OF this] show ?thesis using Pair Inr x by (simp add: a2a_start_def)
  qed
qed

lemma send_message_state: "snd (send_message fr i params d sv) = snd (a2a_start fr params sv)"
  by (auto simp: send_message_def split: prod.split sum.split)

lemma snd_reply: "snd (case p of (v, sv) \<Rightarrow> (f v sv, sv)) = snd p"
  by (cases p) simp

lemma streaming_state:
  "snd (case r of (Inr (i, _), sv) \<Rightarrow> (f i sv, sv) | (Inl (code, message), sv) \<Rightarrow> (g code message, sv)) = snd r"
  by (auto split: prod.split sum.split)

text \<open>The effect of a call: only the two that send a message and the one that cancels have one.\<close>

lemma handle_state:
  "snd (handle dbg fr (Inr (i, m, params)) sv) =
     (let cm = canonical_method m in
      if cm = send_message_m \<or> cm = send_streaming_message_m then snd (a2a_start fr params sv)
      else if cm = cancel_task_m then snd (cancel_task dbg fr i params (if is_legacy m then Legacy else V1) sv)
      else sv)"
proof -
  have arms: "(if A then S else if B then S else if G then x else if L then x else if C then X else if Q then x else if E then x else if P then x else x) =
      (if A \<or> B then S else if C then X else x)" if "\<not> (G \<and> C)" "\<not> (L \<and> C)" for A B G L C Q E P and S X x :: a2a_server
    using that by auto
  have "\<not> (canonical_method m = get_task_m \<and> canonical_method m = cancel_task_m)"
    "\<not> (canonical_method m = list_tasks_m \<and> canonical_method m = cancel_task_m)" by (simp_all add: method_defs)
  then show ?thesis
    unfolding handle_def sum.case prod.case Let_def if_distrib [of snd] snd_conv snd_reply streaming_state send_message_state
    by (rule arms)
qed

lemma a2a_next_ok: "a2a_next dbg (sv, pend) (sv', pend') \<Longrightarrow> server_ok sv pend \<Longrightarrow> server_ok sv' pend'"
proof (induction "(sv, pend)" "(sv', pend')" rule: a2a_next.induct)
  case (call fr request)
  then show ?case
    using a2a_start_ok [of sv pend fr] server_ok_frame [OF cancel_task_frame]
    by (cases request) (auto simp: handle_state Let_def, simp add: handle_def)
next
  case (start fr params i c r)
  then show ?case using start_run_ok by blast
next
  case (attach before i r after)
  then show ?case using attach_handle_ok by blast
next
  case (drive r mid now p)
  then show ?case using server_ok_frame [OF drive_step_frame] by blast
qed

lemma restore_task_insert:
  assumes "Option.bind parsed parse_task = Some t"
  obtains t' sv1 where "restore_task mid now parsed sv = insert_entry t' sv1" "wt_id t' = wt_id t" "same_frame sv sv1"
proof (cases "wire_settled (wt_state t)")
  case True
  then show ?thesis using assms by (intro that [of t sv]) (simp_all add: restore_task_def)
next
  case False
  let ?t = "t\<lparr>wt_state := StFailed, wt_status_text := Some interrupted_by_restart, wt_timestamp := Some now\<rparr>"
  show ?thesis using assms False by (intro that [of ?t "persist mid ?t sv"]) (simp_all add: restore_task_def Let_def)
qed

lemma restore_ok:
  assumes "server_ok sv []" "length (sv_entries sv) + length bodies \<le> max_retained_tasks"
    and "distinct (map wt_id (List.map_filter (\<lambda>b. Option.bind b parse_task) bodies))"
    and "\<forall>t \<in> set (List.map_filter (\<lambda>b. Option.bind b parse_task) bodies). wt_id t \<notin> fst ` set (sv_entries sv)"
  shows "server_ok (fold (restore_task mid now) bodies sv) []"
  using assms
proof (induction bodies arbitrary: sv)
  case (Cons b bodies)
  show ?case
  proof (cases "Option.bind b parse_task")
    case None
    then show ?thesis using Cons by (simp add: restore_task_def List.map_filter_simps)
  next
    case (Some t)
    then obtain t' sv1 where sv1: "restore_task mid now b sv = insert_entry t' sv1" "wt_id t' = wt_id t" "same_frame sv sv1"
      by (rule restore_task_insert)
    then have entries: "sv_entries sv1 = sv_entries sv" by (simp add: same_frame_def)
    have new: "wt_id t \<notin> fst ` set (sv_entries sv)" using Cons.prems(4) Some by (simp add: List.map_filter_simps)
    have "length (sv_entries (insert_entry t' sv1)) = Suc (length (sv_entries sv))"
      using new sv1(2) entries by (metis AList.update_keys insert_entry_simps(1) length_append_singleton length_map set_map)
    moreover have "server_ok (insert_entry t' sv1) []"
      using sv1(2) entries new Cons.prems(1,2) server_ok_frame [OF sv1(3)] by (intro insert_entry_ok) (auto simp: unused_id_def)
    moreover have "fst ` set (sv_entries (insert_entry t' sv1)) = insert (wt_id t) (fst ` set (sv_entries sv))"
      using sv1(2) entries by (simp add: AList.dom_update)
    moreover have "\<forall>u \<in> set (List.map_filter (\<lambda>b. Option.bind b parse_task) bodies). wt_id u \<noteq> wt_id t \<and> wt_id u \<notin> fst ` set (sv_entries sv)"
      using Cons.prems(3,4) Some by (auto simp: List.map_filter_simps) (metis image_eqI)
    ultimately have "server_ok (fold (restore_task mid now) bodies (insert_entry t' sv1)) []"
      using Cons.prems(2,3) Some by (intro Cons.IH) (auto simp: List.map_filter_simps simp del: insert_entry_simps)
    then show ?thesis by (simp add: sv1(1))
  qed
qed simp

lemma reachable_ok: "a2a_reachable dbg s \<Longrightarrow> server_ok (fst s) (snd s)"
proof (induction rule: a2a_reachable.induct)
  case (forgetful tokens c)
  then show ?case by (simp add: with_bearer_tokens_def new_server_def server_ok_def records_ok_def runs_ok_def Let_def)
next
  case (restored load tokens mid now c)
  let ?sv = "(new_server c)\<lparr>sv_store := Some []\<rparr>"
  have "server_ok ?sv []" by (simp add: new_server_def server_ok_def records_ok_def runs_ok_def)
  moreover have "load max_retained_tasks = Inr bodies \<Longrightarrow> server_ok (fold (restore_task mid now) bodies ?sv) []" for bodies
    using restored calculation by (intro restore_ok) (auto simp: store_loads_def new_server_def)
  ultimately have "server_ok (with_store mid now load (new_server c)) []" by (simp add: with_store_def split: sum.split)
  moreover have "same_frame sv (with_bearer_tokens tokens sv)" for sv by (simp add: same_frame_def with_bearer_tokens_def Let_def)
  ultimately show ?case using server_ok_frame by auto
next
  case (step s s')
  then show ?case using a2a_next_ok by (cases s; cases s') auto
qed

subsection \<open>Settled tasks\<close>

text \<open>No run will write to the channel again: each is over, or was aborted where it waits.\<close>

definition at_rest :: "run \<Rightarrow> bool" where
  "at_rest rn \<longleftrightarrow>
     (case rn_phase rn of RunEnded \<Rightarrow> True | RunDropped \<Rightarrow> True | RunSpawned _ \<Rightarrow> rn_aborted rn | RunRunning _ \<Rightarrow> rn_aborted rn
      | RunBegun _ \<Rightarrow> False | RunFinishing _ \<Rightarrow> False)"

definition frozen :: "nat \<Rightarrow> a2a_server \<Rightarrow> bool" where
  "frozen c sv \<longleftrightarrow>
     c < length (sv_channels sv) \<and> wire_settled (wt_state (chan_task sv c)) \<and> (\<forall>rn \<in> set (sv_runs sv). rn_channel rn = c \<longrightarrow> at_rest rn)"

lemma frozen_cong:
  assumes "frozen c sv" "c < length (sv_channels sv')" "chan_task sv' c = chan_task sv c"
    and "\<And>rn. rn \<in> set (sv_runs sv') \<Longrightarrow> rn_channel rn = c \<Longrightarrow> rn \<in> set (sv_runs sv) \<or> at_rest rn"
  shows "frozen c sv'"
  using assms by (fastforce simp: frozen_def)

lemma update_channel_task: "c \<noteq> c' \<Longrightarrow> chan_task (update_channel c' f sv) c = chan_task sv c"
  by (simp add: update_channel_def chan_task_def)

lemma frozen_drive:
  assumes "frozen c sv" "r < length (sv_runs sv)"
  shows "frozen c (drive_step mid now r p sv) \<and> chan_task (drive_step mid now r p sv) c = chan_task sv c"
proof -
  let ?rn = "sv_runs sv ! r" and ?sv = "drive_step mid now r p sv"
  have len: "length (sv_channels ?sv) = length (sv_channels sv)" using drive_step_frame [of sv] by (simp add: same_frame_def)
  have runs: "rn \<in> set (sv_runs sv) \<or> (rn_channel rn = rn_channel ?rn \<and> (rn_channel ?rn = c \<longrightarrow> at_rest rn))"
    if "rn \<in> set (sv_runs ?sv)" for rn
    using that assms
    by (auto simp: drive_step_def Let_def frozen_def at_rest_def update_run_def update_channel_def set_task_def nth_mem
        split: run_phase.splits poll.splits if_splits dest!: set_update_subset_insert [THEN subsetD])
  have task: "chan_task ?sv c = chan_task sv c"
  proof (cases "rn_channel ?rn = c")
    case True
    then have "at_rest ?rn" using assms by (simp add: frozen_def)
    then show ?thesis
      by (auto simp: drive_step_def at_rest_def Let_def update_run_def chan_task_def split: run_phase.splits)
  next
    case False
    then show ?thesis
      by (auto simp: drive_step_def Let_def set_task_def update_run_def chan_task_def update_channel_def persist_def
          split: run_phase.split poll.split)
  qed
  have "frozen c ?sv"
  proof (rule frozen_cong [OF assms(1) _ task])
    show "c < length (sv_channels ?sv)" using assms(1) len by (simp add: frozen_def)
    show "rn \<in> set (sv_runs sv) \<or> at_rest rn" if "rn \<in> set (sv_runs ?sv)" "rn_channel rn = c" for rn
      using runs [OF that(1)] that(2) by auto
  qed
  then show ?thesis using task by blast
qed

lemma update_run_cases: "x \<in> set (xs[r := f (xs ! r)]) \<Longrightarrow> x \<in> set xs \<or> (r < length xs \<and> x = f (xs ! r))"
  by (cases "r < length xs") (auto simp: not_less list_update_beyond dest: set_update_subset_insert [THEN subsetD])

lemma frozen_cancel:
  assumes "frozen c sv"
  shows "frozen c (snd (cancel_task dbg fr i params d sv)) \<and> chan_task (snd (cancel_task dbg fr i params d sv)) c = chan_task sv c"
proof (cases "map_of (sv_entries sv) (task_id_param params)")
  case (Some e)
  let ?sv = "snd (cancel_task dbg fr i params d sv)"
  show ?thesis
  proof (cases "wire_settled (wt_state (entry_current sv e))")
    case False
    then have c: "c \<noteq> te_channel e" using assms by (auto simp: frozen_def entry_current_def)
    have runs: "sv_runs ?sv = (case te_run e of Some r \<Rightarrow> (sv_runs sv)[r := (sv_runs sv ! r)\<lparr>rn_aborted := True\<rparr>] | None \<Rightarrow> sv_runs sv)"
      using Some False by (simp add: cancel_task_def Let_def update_run_def update_channel_def split: option.split)
    have task: "chan_task ?sv c = chan_task sv c"
      using Some False c by (simp add: cancel_task_def Let_def update_run_def update_channel_def chan_task_def split: option.split)
    have "frozen c ?sv"
    proof (rule frozen_cong [OF assms _ task])
      show "c < length (sv_channels ?sv)"
        using assms cancel_task_frame [of sv dbg fr i params d] by (simp add: frozen_def same_frame_def)
      fix rn assume rn: "rn \<in> set (sv_runs ?sv)" "rn_channel rn = c"
      show "rn \<in> set (sv_runs sv) \<or> at_rest rn"
      proof (cases "rn \<in> set (sv_runs sv)")
        case new: False
        then obtain r where r: "rn = (sv_runs sv ! r)\<lparr>rn_aborted := True\<rparr>" "r < length (sv_runs sv)"
          using rn(1) update_run_cases [of rn "sv_runs sv" _ "rn_aborted_update (\<lambda>_. True)"]
            by (cases "te_run e") (auto simp: runs)
        then have "at_rest (sv_runs sv ! r)" using assms rn(2) by (simp add: frozen_def)
        then show ?thesis by (auto simp: r(1) at_rest_def split: run_phase.splits)
      qed simp
    qed
    then show ?thesis using task by blast
  qed (use assms Some in \<open>simp add: cancel_task_def\<close>)
qed (use assms in \<open>simp add: cancel_task_def\<close>)

lemma frozen_start:
  assumes "start_run fr params sv = (res, sv')" "frozen c sv" "server_ok sv pend"
  shows "frozen c sv' \<and> chan_task sv' c = chan_task sv c"
  using assms(1)
proof (cases rule: start_run_cases)
  case (2 ev sv1)
  have sv1: "sv_channels sv1 = sv_channels sv" "sv_runs sv1 = sv_runs sv"
    using make_room_frame [OF 2(1) assms(3) 2(2)] by simp_all
  have c: "c < length (sv_channels sv)" using assms(2) by (simp add: frozen_def)
  have task: "chan_task sv' c = chan_task sv c" using c by (simp add: chan_task_def 2(4) nth_append sv1)
  have "frozen c sv'"
    using assms(2) _ task by (rule frozen_cong) (use c in \<open>auto simp: 2(4) sv1\<close>)
  then show ?thesis using task by blast
qed (use assms(2) in simp)

lemma frozen_attach: "frozen c (attach_handle i r sv) \<longleftrightarrow> frozen c sv" "chan_task (attach_handle i r sv) c = chan_task sv c"
  by (simp_all add: attach_handle_def frozen_def chan_task_def split: option.split)

lemma frozen_call:
  assumes "frozen c sv" "server_ok sv pend"
  shows "frozen c (snd (handle dbg fr request sv)) \<and> chan_task (snd (handle dbg fr request sv)) c = chan_task sv c"
proof (cases request)
  case (Inr q)
  have "frozen c (snd (a2a_start fr params sv)) \<and> chan_task (snd (a2a_start fr params sv)) c = chan_task sv c" for params
    using frozen_start [of fr params sv _ _ c pend] assms
    by (cases "start_run fr params sv") (auto simp: a2a_start_def frozen_attach split: sum.split)
  then show ?thesis using frozen_cancel [OF assms(1)] assms(1) by (cases q) (simp add: Inr handle_state Let_def)
qed (use assms in \<open>simp add: handle_def\<close>)

text \<open>A settled task with no run left to write to it is never changed again.\<close>

lemma frozen_next:
  assumes "a2a_next dbg (sv, pend) (sv', pend')" "frozen c sv" "server_ok sv pend"
  shows "frozen c sv' \<and> chan_task sv' c = chan_task sv c"
  using assms
proof (induction "(sv, pend)" "(sv', pend')" rule: a2a_next.induct)
  case (call fr request)
  then show ?case using frozen_call by blast
next
  case (start fr params i c r)
  then show ?case using frozen_start by blast
next
  case (attach before i r after)
  then show ?case using frozen_attach by blast
next
  case (drive r mid now p)
  then show ?case using frozen_drive by blast
qed

lemma frozen_forever:
  assumes "(a2a_next dbg)\<^sup>*\<^sup>* s s'" "frozen c (fst s)" "server_ok (fst s) (snd s)"
  shows "chan_task (fst s') c = chan_task (fst s) c"
proof -
  have "frozen c (fst s') \<and> server_ok (fst s') (snd s') \<and> chan_task (fst s') c = chan_task (fst s) c"
    using assms
  proof (induction rule: rtranclp_induct)
    case (step s' s'')
    then show ?case using frozen_next [of dbg "fst s'" "snd s'" "fst s''" "snd s''" c] a2a_next_ok [of dbg "fst s'" "snd s'" "fst s''" "snd s''"]
      by simp
  qed simp
  then show ?thesis by blast
qed

text \<open>Where a cancelled run is waiting, the cancellation is final.\<close>

definition in_flight :: "run \<Rightarrow> bool" where
  "in_flight rn \<longleftrightarrow> (case rn_phase rn of RunBegun _ \<Rightarrow> True | RunFinishing _ \<Rightarrow> True | _ \<Rightarrow> False)"

lemma cancel_freezes:
  assumes "server_ok sv pend" "map_of (sv_entries sv) (task_id_param params) = Some e" "te_run e = Some r"
    and "\<not> wire_settled (wt_state (entry_current sv e))" "\<not> in_flight (sv_runs sv ! r)"
  shows "frozen (te_channel e) (snd (cancel_task dbg fr i params d sv)) \<and>
    wt_state (chan_task (snd (cancel_task dbg fr i params d sv)) (te_channel e)) = Canceled"
proof -
  let ?sv = "snd (cancel_task dbg fr i params d sv)" and ?c = "te_channel e"
  have c: "?c < length (sv_channels sv)" and link: "linked sv r e" and apart: "distinct (map rn_channel (sv_runs sv))"
    using assms(1-3) by (auto simp: server_ok_def runs_ok_def)
  have runs: "sv_runs ?sv = (sv_runs sv)[r := (sv_runs sv ! r)\<lparr>rn_aborted := True\<rparr>]"
    using assms(2-4) by (simp add: cancel_task_def Let_def update_run_def update_channel_def)
  have state: "wt_state (chan_task ?sv ?c) = Canceled"
    using assms(2-4) c by (simp add: cancel_task_def Let_def update_run_def update_channel_def chan_task_def)
  have "at_rest rn" if "rn \<in> set (sv_runs ?sv)" "rn_channel rn = ?c" for rn
  proof -
    have len: "length (sv_runs ?sv) = length (sv_runs sv)" by (simp only: runs length_list_update)
    from that(1) obtain k where k: "k < length (sv_runs sv)" "rn = sv_runs ?sv ! k" by (auto simp only: in_set_conv_nth len)
    have "rn_channel (sv_runs ?sv ! k) = rn_channel (sv_runs sv ! k)" using k(1) by (cases "k = r") (simp_all add: runs)
    then have "map rn_channel (sv_runs sv) ! k = map rn_channel (sv_runs sv) ! r" and "r < length (sv_runs sv)"
      using that(2) k link by (simp_all add: linked_def)
    then have "k = r" using apart k(1) by (simp add: distinct_conv_nth) blast
    then have "rn = (sv_runs sv ! r)\<lparr>rn_aborted := True\<rparr>" using k by (simp add: runs)
    then show ?thesis using assms(5) by (auto simp: at_rest_def in_flight_def split: run_phase.splits)
  qed
  moreover have "?c < length (sv_channels ?sv)" using c cancel_task_frame [of sv dbg fr i params d] by (simp add: same_frame_def)
  ultimately show ?thesis using state by (simp add: frozen_def wire_settled_def state_is_terminal_def)
qed

subsection \<open>Pages\<close>

text \<open>A caller that follows \<open>nextPageToken\<close> until it is empty, and what it has read.\<close>

definition page_params :: "(string \<times> json) list \<Rightarrow> string \<Rightarrow> json" where
  "page_params fs token = JObject ((''pageToken'', JString token) # fs)"

fun all_pages :: "nat \<Rightarrow> fresh \<Rightarrow> json \<Rightarrow> (string \<times> json) list \<Rightarrow> dialect \<Rightarrow> a2a_server \<Rightarrow> string \<Rightarrow> json list option" where
  "all_pages 0 fr i fs d sv token = None"
| "all_pages (Suc n) fr i fs d sv token =
     (let v = list_tasks fr i (page_params fs token) d sv in
      case (Option.bind (json_pointer [''result'', ''tasks''] v) as_array, Option.bind (json_pointer [''result'', ''nextPageToken''] v) as_str) of
        (Some page, Some token') \<Rightarrow>
          if token' = [] then Some page else map_option (\<lambda>rest. page @ rest) (all_pages n fr i fs d sv token')
      | _ \<Rightarrow> None)"

lemma page_params_same:
  "matching_tasks (page_params fs token) sv = matching_tasks (JObject fs) sv"
  "page_size (page_params fs token) = page_size (JObject fs)"
  by (simp_all add: page_params_def matching_tasks_def page_size_def)

lemma page_offset_token: "page_offset (page_params fs token) = (case parse_unsigned (2 ^ 64) token of Some n \<Rightarrow> n | None \<Rightarrow> 0)"
  by (simp add: page_params_def page_offset_def)

lemma page_size_pos: "0 < page_size params"
  by (simp add: page_size_def Let_def)

definition page_json :: "fresh \<Rightarrow> dialect \<Rightarrow> wire_task list \<Rightarrow> json list" where
  "page_json fr d ts = map (\<lambda>(k, t). task_json (fr_message fr k) d t) (enumerate 0 ts)"

lemma page_json_ids: "map (json_get ''id'') (page_json fr d ts) = map (\<lambda>t. Some (JString (wt_id t))) ts"
proof -
  have "map (\<lambda>x. Some (JString (wt_id (snd x)))) (enumerate n ts) = map (\<lambda>t. Some (JString (wt_id t))) ts" for n
    by (induction ts arbitrary: n) auto
  then show ?thesis by (simp add: page_json_def task_json_def case_prod_beta comp_def)
qed

lemma list_tasks_page:
  fixes fr d sv fs token
  defines "ts \<equiv> matching_tasks (JObject fs) sv"
  defines "off \<equiv> page_offset (page_params fs token)"
  defines "page \<equiv> take (page_size (JObject fs)) (drop off ts)"
  shows "Option.bind (json_pointer [''result'', ''tasks''] (list_tasks fr i (page_params fs token) d sv)) as_array = Some (page_json fr d page)"
    and "Option.bind (json_pointer [''result'', ''nextPageToken''] (list_tasks fr i (page_params fs token) d sv)) as_str =
      Some (if off + length page < length ts then show_nat (off + length page) else [])"
  by (simp_all add: list_tasks_def page_params_same rpc_result_def json_pointer_def Let_def page_json_def
      page_def off_def [symmetric] ts_def [symmetric]) arith

lemma all_pages_from:
  assumes "length (matching_tasks (JObject fs) sv) < 2 ^ 64" "length (matching_tasks (JObject fs) sv) - page_offset (page_params fs token) < n"
  shows "\<exists>vs. all_pages n fr i fs d sv token = Some vs \<and>
    map (json_get ''id'') vs =
      map (\<lambda>t. Some (JString (wt_id t))) (drop (page_offset (page_params fs token)) (matching_tasks (JObject fs) sv))"
  using assms(2)
proof (induction n arbitrary: token)
  case (Suc n)
  let ?ts = "matching_tasks (JObject fs) sv" and ?off = "page_offset (page_params fs token)" and ?size = "page_size (JObject fs)"
  let ?page = "take ?size (drop ?off ?ts)"
  define k where "k = ?off + length ?page"
  note page = list_tasks_page [of fr i fs token d sv]
  show ?case
  proof (cases "k < length ?ts")
    case True
    have off: "page_offset (page_params fs (show_nat k)) = k"
      using True assms(1) by (simp add: page_offset_token parse_show_nat)
    have "length ?page = ?size" using True by (auto simp: k_def)
    then have k: "k = ?off + ?size" by (simp add: k_def)
    have "length ?ts - k < n" using Suc.prems page_size_pos [of "JObject fs"] True by (simp add: k)
    then obtain vs where vs: "all_pages n fr i fs d sv (show_nat k) = Some vs"
        "map (json_get ''id'') vs = map (\<lambda>t. Some (JString (wt_id t))) (drop k ?ts)"
      using Suc.IH [of "show_nat k"] off by auto
    have "?page @ drop k ?ts = drop ?off ?ts" by (simp add: k) (metis append_take_drop_id drop_drop add.commute)
    then have "map (\<lambda>t. Some (JString (wt_id t))) ?page @ map (\<lambda>t. Some (JString (wt_id t))) (drop k ?ts) =
        map (\<lambda>t. Some (JString (wt_id t))) (drop ?off ?ts)"
      by (metis map_append)
    moreover have "all_pages (Suc n) fr i fs d sv token = Some (page_json fr d ?page @ vs)"
      using page [folded k_def] True vs(1) show_nat_digits [of k] by (simp only: all_pages.simps Let_def prod.case option.case if_True if_False option.map)
    ultimately show ?thesis using vs(2) page_json_ids [of fr d ?page] by simp
  next
    case False
    then have "drop ?off ?ts = ?page" by (auto simp: k_def)
    moreover have "all_pages (Suc n) fr i fs d sv token = Some (page_json fr d ?page)"
      using page [folded k_def] False by (simp only: all_pages.simps Let_def prod.case option.case if_True if_False simp_thms)
    ultimately show ?thesis using page_json_ids [of fr d ?page] by simp
  qed
qed simp

lemma matching_bound: "records_ok sv \<Longrightarrow> length (matching_tasks params sv) \<le> length (sv_entries sv)"
proof -
  assume ok: "records_ok sv"
  have "length (sv_order sv) = card (fst ` set (sv_entries sv))"
    using ok by (metis distinct_card records_ok_def)
  also have "\<dots> \<le> length (sv_entries sv)" by (metis card_length length_map list.set_map)
  finally have "length (sv_order sv) \<le> length (sv_entries sv)" .
  moreover have "length (List.map_filter f xs) \<le> length xs" for f :: "string \<Rightarrow> task_entry option" and xs
    by (induction xs) (auto simp: List.map_filter_simps split: option.split)
  then have "length (List.map_filter (map_of (sv_entries sv)) (rev (sv_order sv))) \<le> length (sv_order sv)"
    by (metis length_rev)
  ultimately show ?thesis
    unfolding matching_tasks_def Let_def
    by (intro order_trans [OF length_filter_le] order_trans [OF length_filter_le]) simp
qed

subsection \<open>Runs reach a result\<close>

lemma drive_to_result:
  assumes "r < length (sv_runs sv)" "rn_channel (sv_runs sv ! r) = c" "c < length (sv_channels sv)"
    and "rn_phase (sv_runs sv ! r) = RunRunning goal" "\<not> rn_aborted (sv_runs sv ! r)"
  shows "wt_state (chan_task (drive_step mid now r p (drive_step mid' now' r (PollResult res) sv)) c) =
      (case res of Inr x \<Rightarrow> if sr_success x then StCompleted else StFailed | Inl _ \<Rightarrow> StFailed) \<and>
    rn_phase (sv_runs (drive_step mid now r p (drive_step mid' now' r (PollResult res) sv)) ! r) = RunEnded"
  using assms
  by (simp add: drive_step_def Let_def update_run_def set_task_def update_channel_def chan_task_def conclude_def split: sum.split)

subsection \<open>A cancellation that is overtaken\<close>

text \<open>A task whose run is between the start of its first poll and the write that poll ends with.\<close>

definition race_fresh :: fresh where
  "race_fresh = \<lparr>fr_context = ''ctx'', fr_task = ''t1'', fr_now = ''now'', fr_message = (\<lambda>_. ''m'')\<rparr>"

definition race_params :: json where
  "race_params = JObject [(''message'', JObject [(''parts'', JArray [JObject [(''text'', JString ''go'')]])])]"

definition race_start :: "agent_card \<Rightarrow> a2a_server" where
  "race_start c = snd (handle (\<lambda>s. s) race_fresh (Inr (JNull, ''SendMessage'', race_params)) (with_bearer_tokens [] (new_server c)))"

definition race_begun :: "agent_card \<Rightarrow> a2a_server" where
  "race_begun c = drive_step ''m'' ''now'' 0 (PollOutput []) (race_start c)"

definition race_cancel :: "agent_card \<Rightarrow> reply \<times> a2a_server" where
  "race_cancel c =
     handle (\<lambda>s. s) (race_fresh\<lparr>fr_task := ''t2''\<rparr>) (Inr (JNull, ''CancelTask'', JObject [(''id'', JString ''t1'')])) (race_begun c)"

definition race_end :: "agent_card \<Rightarrow> a2a_server" where
  "race_end c = drive_step ''m'' ''now'' 0 (PollOutput []) (drive_step ''m'' ''now'' 0 (PollOutput []) (snd (race_cancel c)))"

lemma race_outcome:
  "(case race_cancel c of
      (ReplyJson v, sv) \<Rightarrow>
        json_pointer [''result'', ''status'', ''state''] v = Some (JString ''TASK_STATE_CANCELED'') \<and> wt_state (chan_task sv 0) = Canceled
    | _ \<Rightarrow> False)"
  "wt_state (chan_task (race_end c) 0) = Working \<and> map rn_phase (sv_runs (race_end c)) = [RunDropped] \<and> active_tasks (race_end c) = 1"
  by code_simp+

lemma race_lengths:
  "0 < length (sv_runs (race_start c)) \<and> 0 < length (sv_runs (snd (race_cancel c))) \<and>
   0 < length (sv_runs (drive_step ''m'' ''now'' 0 (PollOutput []) (snd (race_cancel c))))"
  by code_simp

lemma race_cancel_call:
  "race_cancel c =
     (case cancel_task (\<lambda>s. s) (race_fresh\<lparr>fr_task := ''t2''\<rparr>) JNull (JObject [(''id'', JString ''t1'')]) V1 (race_begun c) of
        (v, sv) \<Rightarrow> (ReplyJson v, sv))"
proof -
  have m: "canonical_method ''CancelTask'' = cancel_task_m" "\<not> is_legacy ''CancelTask''"
    "cancel_task_m \<noteq> send_message_m" "cancel_task_m \<noteq> send_streaming_message_m" "cancel_task_m \<noteq> get_task_m" "cancel_task_m \<noteq> list_tasks_m"
    by code_simp+
  show ?thesis by (simp add: race_cancel_def handle_def m)
qed

lemma race_started: "a2a_reachable (\<lambda>s. s) (race_start c, [])"
  unfolding race_start_def
  by (rule a2a_reachable.step [OF a2a_reachable.forgetful a2a_next.call])
    (simp add: unused_id_def with_bearer_tokens_def new_server_def Let_def)

lemma race_reachable: "a2a_reachable (\<lambda>s. s) (race_begun c, [])"
proof -
  show ?thesis unfolding race_begun_def using race_started race_lengths [of c] by (blast intro: a2a_reachable.step a2a_next.drive)
qed

lemma race_overtakes: "(a2a_next (\<lambda>s. s))\<^sup>*\<^sup>* (snd (race_cancel c), []) (race_end c, [])"
proof -
  show ?thesis unfolding race_end_def using race_lengths [of c] by (meson a2a_next.drive r_into_rtranclp rtranclp.rtrancl_into_rtrancl)
qed

end
