(* ===== verification/Skill_Files.thy ===== *)
theory Skill_Files
  imports Executor Confine "HOL-Library.Multiset"
begin

text \<open>
  The files of a skill: \<open>cuma-skills/src/package.rs\<close> and the first half of \<open>integrity.rs\<close>.

  A directory is a tree whose entries are in the order the system lists them, a link is not
  followed when a package is read, and a file holds its
  bytes. TOML decoding, the hash function and the replacement of bytes that are not UTF-8
  (\<open>to_string_lossy\<close>) are arguments. A path inside a package is the list of its components.
\<close>

section \<open>Packages on disk\<close>

datatype fs_node = FsFile string | FsDir "(string \<times> fs_node) list" | FsLink

type_synonym fs_dir = "(string \<times> fs_node) list"
type_synonym rel_path = "string list"

definition manifest_file :: string where "manifest_file = ''skill.toml''"
definition instructions_file :: string where "instructions_file = ''SKILL.md''"
definition signature_file :: string where "signature_file = ''skill.sig''"
definition skill_max_files :: nat where "skill_max_files = 1000"
definition skill_max_bytes :: nat where "skill_max_bytes = 10 * 1024 * 1024"

definition dir_file :: "string \<Rightarrow> fs_dir \<Rightarrow> string option" where
  "dir_file name d = (case map_of d name of Some (FsFile bytes) \<Rightarrow> Some bytes | _ \<Rightarrow> None)"

text \<open>The files found, their bytes in all, and the directories still to read, the next one first.\<close>

record file_scan =
  fc_files :: "(rel_path \<times> string) list"
  fc_total :: nat
  fc_pending :: "(rel_path \<times> fs_dir) list"

fun scan_entries :: "rel_path \<Rightarrow> fs_dir \<Rightarrow> file_scan \<Rightarrow> file_scan result" where
  "scan_entries rel [] s = Inr s"
| "scan_entries rel ((name, FsLink) # es) s =
     Inl (ESecurity (''skill contains a symbolic link at '' @ join ''/'' (rel @ [name])))"
| "scan_entries rel ((name, FsDir sub) # es) s =
     scan_entries rel es (if name = ''.git'' then s else s\<lparr>fc_pending := (rel @ [name], sub) # fc_pending s\<rparr>)"
| "scan_entries rel ((name, FsFile bytes) # es) s =
     (if rel @ [name] = [signature_file] then scan_entries rel es s
      else
        let s = s\<lparr>fc_total := min (fc_total s + length bytes) (2 ^ 64 - 1), fc_files := fc_files s @ [(rel @ [name], bytes)]\<rparr> in
        if skill_max_files < length (fc_files s) \<or> skill_max_bytes < fc_total s
        then Inl (ESecurity (''skill exceeds 1000 files or 10485760 bytes''))
        else scan_entries rel es s)"

fun node_size :: "fs_node \<Rightarrow> nat" where
  "node_size (FsDir es) = Suc (sum_list (map (\<lambda>e. node_size (snd e)) es))"
| "node_size _ = 1"

definition pending_size :: "(rel_path \<times> fs_dir) list \<Rightarrow> nat" where
  "pending_size ps = sum_list (map (\<lambda>p. node_size (FsDir (snd p))) ps)"

lemma scan_entries_pending:
  "scan_entries rel es s = Inr s' \<Longrightarrow>
   pending_size (fc_pending s') \<le> pending_size (fc_pending s) + sum_list (map (\<lambda>e. node_size (snd e)) es)"
  by (induction rel es s rule: scan_entries.induct) (auto simp: pending_size_def Let_def split: if_splits)

function scan_loop :: "file_scan \<Rightarrow> file_scan result" where
  "scan_loop s =
     (case fc_pending s of
        [] \<Rightarrow> Inr s
      | (rel, es) # rest \<Rightarrow>
          (case scan_entries rel es (s\<lparr>fc_pending := rest\<rparr>) of
             Inl e \<Rightarrow> Inl e
           | Inr s' \<Rightarrow> scan_loop s'))"
  by pat_completeness auto
termination
  by (relation "measure (\<lambda>s. pending_size (fc_pending s))")
    (auto dest!: scan_entries_pending simp: pending_size_def)

declare scan_loop.simps [simp del]

definition skill_files :: "fs_dir \<Rightarrow> (rel_path \<times> string) list result" where
  "skill_files base =
     (case scan_loop \<lparr>fc_files = [], fc_total = 0, fc_pending = [([], base)]\<rparr> of
        Inl e \<Rightarrow> Inl e
      | Inr s \<Rightarrow> Inr (sort_key fst (fc_files s)))"

section \<open>Digests\<close>

definition le_bytes :: "nat \<Rightarrow> string" where
  "le_bytes n = map (\<lambda>k. char_of (n div 256 ^ k mod 256)) [0..<8]"

definition file_record :: "(string \<Rightarrow> string) \<Rightarrow> rel_path \<times> string \<Rightarrow> string" where
  "file_record lossy f =
     (case f of (p, bytes) \<Rightarrow> join ''/'' (map lossy p) @ [CHR 0x00] @ le_bytes (length bytes) @ bytes)"

definition digest_input :: "(string \<Rightarrow> string) \<Rightarrow> (rel_path \<times> string) list \<Rightarrow> string" where
  "digest_input lossy fs = concat (map (file_record lossy) fs)"

definition content_digest :: "(string \<Rightarrow> string) \<Rightarrow> (string \<Rightarrow> string) \<Rightarrow> fs_dir \<Rightarrow> string result" where
  "content_digest sha256_hex lossy base =
     (case skill_files base of
        Inl e \<Rightarrow> Inl e
      | Inr fs \<Rightarrow> Inr (''sha256:'' @ sha256_hex (digest_input lossy fs)))"

section \<open>Manifests\<close>

instantiation trust_level :: linorder
begin

definition trust_rank :: "trust_level \<Rightarrow> nat" where
  "trust_rank t = (case t of Trusted \<Rightarrow> 0 | Verified \<Rightarrow> 1 | Community \<Rightarrow> 2 | Untrusted \<Rightarrow> 3)"

definition less_eq_trust_level :: "trust_level \<Rightarrow> trust_level \<Rightarrow> bool" where
  "a \<le> b \<longleftrightarrow> trust_rank a \<le> trust_rank b"

definition less_trust_level :: "trust_level \<Rightarrow> trust_level \<Rightarrow> bool" where
  "a < b \<longleftrightarrow> trust_rank a < trust_rank b"

instance
proof
  fix x y :: trust_level
  show "x \<le> y \<Longrightarrow> y \<le> x \<Longrightarrow> x = y"
    by (cases x; cases y) (simp_all add: less_eq_trust_level_def trust_rank_def)
qed (auto simp: less_eq_trust_level_def less_trust_level_def)

end

record skill_manifest =
  mf_id :: string
  mf_name :: string
  mf_description :: string
  mf_version :: string
  mf_source :: string
  mf_capabilities :: capability_set
  mf_requested_permissions :: "string list"
  mf_checksum :: "string option"
  mf_signature :: "string option"
  mf_trust :: trust_level

text \<open>What TOML decoding gives of a \<open>skill.toml\<close>.\<close>

record raw_manifest =
  rm_id :: string
  rm_name :: string
  rm_description :: string
  rm_version :: string
  rm_capabilities :: "string list"
  rm_permissions :: "string list"
  rm_checksum :: "string option"
  rm_signature :: "string option"

definition id_char :: "char \<Rightarrow> bool" where
  "id_char c \<longleftrightarrow> is_ascii_alphanumeric c \<or> c = CHR ''-'' \<or> c = CHR ''_'' \<or> c = CHR ''.''"

definition check_id :: "(string \<Rightarrow> string) \<Rightarrow> string \<Rightarrow> unit result" where
  "check_id dbg i =
     (if i \<noteq> [] \<and> length i \<le> 64 \<and> \<not> prefix ''.'' i \<and> list_all id_char i \<and> \<not> str_contains i ''..''
      then Inr () else Inl (ESecurity (''skill id '' @ dbg i @ '' is not a plain identifier'')))"

definition parse_manifest :: "(string \<Rightarrow> string) \<Rightarrow> (string \<Rightarrow> string + raw_manifest) \<Rightarrow> string \<Rightarrow> skill_manifest result" where
  "parse_manifest dbg toml text =
     (case toml text of
        Inl err \<Rightarrow> Inl (ESkill (''invalid skill manifest: '' @ err))
      | Inr raw \<Rightarrow>
          (case check_id dbg (rm_id raw) of
             Inl e \<Rightarrow> Inl e
           | Inr _ \<Rightarrow>
               Inr \<lparr>mf_id = rm_id raw, mf_name = rm_name raw, mf_description = rm_description raw, mf_version = rm_version raw,
                    mf_source = [], mf_capabilities = capability_set_of (map parse_capability (rm_capabilities raw)),
                    mf_requested_permissions = rm_permissions raw, mf_checksum = rm_checksum raw, mf_signature = rm_signature raw,
                    mf_trust = Community\<rparr>))"

fun front_fields :: "string list \<Rightarrow> string option \<times> string option \<Rightarrow> string option \<times> string option" where
  "front_fields [] acc = acc"
| "front_fields (l # ls) (name, description) =
     (let line = trim l in
      if line = ''---'' then (name, description)
      else
        case split_once (CHR '':'') line of
          None \<Rightarrow> front_fields ls (name, description)
        | Some (key, value) \<Rightarrow>
            let value = trim_matches (\<lambda>c. c = [CHR 0x22] \<or> c = [CHR 0x27]) (trim value) in
            if trim key = ''name'' then front_fields ls (Some value, description)
            else if trim key = ''description'' then front_fields ls (name, Some value)
            else front_fields ls (name, description))"

definition front_matter :: "string \<Rightarrow> (string \<times> string) option" where
  "front_matter text =
     (case str_lines text of
        [] \<Rightarrow> None
      | l # ls \<Rightarrow>
          if trim l \<noteq> ''---'' then None
          else case front_fields ls (None, None) of
                 (Some name, description) \<Rightarrow> Some (name, case description of Some d \<Rightarrow> d | None \<Rightarrow> [])
               | (None, _) \<Rightarrow> None)"

definition read_package :: "(string \<Rightarrow> string) \<Rightarrow> (string \<Rightarrow> string + raw_manifest) \<Rightarrow> string \<Rightarrow> fs_dir \<Rightarrow> skill_manifest result" where
  "read_package dbg toml dir_name d =
     (case dir_file manifest_file d of
        Some text \<Rightarrow> parse_manifest dbg toml text
      | None \<Rightarrow>
          (case dir_file instructions_file d of
             None \<Rightarrow> Inl (ESkill (dir_name @ '' has neither skill.toml nor SKILL.md''))
           | Some text \<Rightarrow>
               (case front_matter text of
                  None \<Rightarrow> Inl (ESkill (''SKILL.md in '' @ dir_name @ '' has no front matter naming it''))
                | Some (name, description) \<Rightarrow>
                    (case check_id dbg name of
                       Inl e \<Rightarrow> Inl e
                     | Inr _ \<Rightarrow>
                         Inr \<lparr>mf_id = name, mf_name = name, mf_description = description, mf_version = [], mf_source = [],
                              mf_capabilities = [], mf_requested_permissions = [], mf_checksum = None, mf_signature = None,
                              mf_trust = Community\<rparr>))))"

text \<open>\<open>scan\<close>: the packages at most \<open>depth\<close> directories down, those that do not parse left out.\<close>

definition is_package :: "fs_dir \<Rightarrow> bool" where
  "is_package d \<longleftrightarrow> dir_file manifest_file d \<noteq> None \<or> dir_file instructions_file d \<noteq> None"

definition sub_dirs :: "rel_path \<Rightarrow> nat \<Rightarrow> fs_dir \<Rightarrow> (rel_path \<times> fs_dir \<times> nat) list" where
  "sub_dirs rel level d =
     List.map_filter (\<lambda>(name, n). case n of FsDir sub \<Rightarrow> if prefix ''.'' name then None else Some (rel @ [name], sub, level) | _ \<Rightarrow> None) d"

definition scan_size :: "(rel_path \<times> fs_dir \<times> nat) list \<Rightarrow> nat" where
  "scan_size ps = sum_list (map (\<lambda>p. node_size (FsDir (fst (snd p)))) ps)"

lemma scan_size_sub_dirs: "scan_size (sub_dirs rel level d) \<le> sum_list (map (\<lambda>e. node_size (snd e)) d)"
  by (induction d) (auto simp: sub_dirs_def scan_size_def List.map_filter_simps split: fs_node.splits)

function scan_packages ::
  "(string \<Rightarrow> string) \<Rightarrow> (string \<Rightarrow> string + raw_manifest) \<Rightarrow> nat \<Rightarrow> (rel_path \<times> fs_dir \<times> nat) list \<Rightarrow> (rel_path \<times> fs_dir \<times> skill_manifest) list" where
  "scan_packages dbg toml depth pending =
     (case pending of
        [] \<Rightarrow> []
      | (rel, d, level) # rest \<Rightarrow>
          if is_package d then
            (case read_package dbg toml (join ''/'' rel) d of
               Inr m \<Rightarrow> (rel, d, m) # scan_packages dbg toml depth rest
             | Inl _ \<Rightarrow> scan_packages dbg toml depth rest)
          else if depth \<le> level then scan_packages dbg toml depth rest
          else scan_packages dbg toml depth (rev (sub_dirs rel (Suc level) d) @ rest))"
  by pat_completeness auto
termination
proof (relation "measure (\<lambda>(dbg, toml, depth, ps). scan_size ps)", goal_cases)
  case (5 dbg toml depth pending x rest rel y d level)
  then show ?case using scan_size_sub_dirs [of rel "Suc level" d] by (auto simp: scan_size_def rev_map [symmetric])
qed (auto simp: scan_size_def)

declare scan_packages.simps [simp del]

definition scan_skills :: "(string \<Rightarrow> string) \<Rightarrow> (string \<Rightarrow> string + raw_manifest) \<Rightarrow> fs_dir \<Rightarrow> nat \<Rightarrow> (rel_path \<times> fs_dir \<times> skill_manifest) list" where
  "scan_skills dbg toml base depth = sort_key (\<lambda>f. mf_id (snd (snd f))) (scan_packages dbg toml depth [([], base, 0)])"

text \<open>The files a copy of a package has: what \<open>skill_files\<close> lists, and the signature.\<close>

definition copy_package :: "fs_dir \<Rightarrow> (rel_path \<times> string) list result" where
  "copy_package from =
     (case skill_files from of
        Inl e \<Rightarrow> Inl e
      | Inr fs \<Rightarrow> Inr (fs @ (case dir_file signature_file from of Some s \<Rightarrow> [([signature_file], s)] | None \<Rightarrow> [])))"

section \<open>What is listed\<close>

text \<open>The reference: the files of a tree, in the order of a recursive walk.\<close>

fun node_files :: "rel_path \<Rightarrow> fs_node \<Rightarrow> (rel_path \<times> string) list" where
  "node_files p (FsDir es) =
     concat (map (\<lambda>(name, n). if n = FsLink \<or> (name = ''.git'' \<and> (\<exists>sub. n = FsDir sub)) then [] else node_files (p @ [name]) n) es)"
| "node_files p (FsFile bytes) = (if p = [signature_file] then [] else [(p, bytes)])"
| "node_files p FsLink = []"

lemma node_files_dir [simp]:
  "node_files p (FsDir []) = []"
  "node_files p (FsDir ((name, n) # es)) =
     (if n = FsLink \<or> (name = ''.git'' \<and> (\<exists>sub. n = FsDir sub)) then [] else node_files (p @ [name]) n) @ node_files p (FsDir es)"
  by simp_all

declare node_files.simps(1) [simp del]

definition pending_files :: "(rel_path \<times> fs_dir) list \<Rightarrow> (rel_path \<times> string) multiset" where
  "pending_files ps = (\<Sum>p \<leftarrow> ps. mset (node_files (fst p) (FsDir (snd p))))"

lemma scan_entries_files:
  "scan_entries rel es s = Inr s' \<Longrightarrow>
   mset (fc_files s') + pending_files (fc_pending s') =
     mset (fc_files s) + pending_files (fc_pending s) + mset (node_files rel (FsDir es))"
  by (induction rel es s rule: scan_entries.induct) (auto simp: pending_files_def Let_def split: if_splits)

lemma scan_entries_bounds:
  "scan_entries rel es s = Inr s' \<Longrightarrow> length (fc_files s) \<le> skill_max_files \<and> fc_total s \<le> skill_max_bytes \<Longrightarrow>
   length (fc_files s') \<le> skill_max_files \<and> fc_total s' \<le> skill_max_bytes"
  by (induction rel es s rule: scan_entries.induct) (auto simp: Let_def split: if_splits)

lemma scan_loop_files:
  "scan_loop s = Inr s' \<Longrightarrow>
   mset (fc_files s') = mset (fc_files s) + pending_files (fc_pending s) \<and>
   (length (fc_files s) \<le> skill_max_files \<and> fc_total s \<le> skill_max_bytes \<longrightarrow>
    length (fc_files s') \<le> skill_max_files \<and> fc_total s' \<le> skill_max_bytes)"
proof (induction s arbitrary: s' rule: scan_loop.induct)
  case (1 s)
  show ?case
  proof (cases "fc_pending s")
    case Nil
    then show ?thesis using "1.prems" by (simp add: scan_loop.simps [of s] pending_files_def)
  next
    case (Cons p rest)
    obtain rel es where p: "p = (rel, es)" by (cases p)
    obtain s1 where s1: "scan_entries rel es (s\<lparr>fc_pending := rest\<rparr>) = Inr s1" "scan_loop s1 = Inr s'"
      using "1.prems" Cons p by (auto simp: scan_loop.simps [of s] split: sum.splits)
    from "1.IH" [OF Cons [unfolded p] refl s1(1) s1(2)] scan_entries_files [OF s1(1)] scan_entries_bounds [OF s1(1)]
    show ?thesis by (simp add: Cons p pending_files_def ac_simps)
  qed
qed

text \<open>What is listed is every file of the tree but the signature and what is under \<open>.git\<close>, in the order of the
  paths, and it is bounded.\<close>

lemma skill_files_exact:
  assumes "skill_files base = Inr fs"
  shows "mset fs = mset (node_files [] (FsDir base))" "sorted (map fst fs)" "length fs \<le> 1000"
proof -
  obtain s where s: "scan_loop \<lparr>fc_files = [], fc_total = 0, fc_pending = [([], base)]\<rparr> = Inr s" and fs: "fs = sort_key fst (fc_files s)"
    using assms by (auto simp: skill_files_def split: sum.splits)
  from scan_loop_files [OF s] show "mset fs = mset (node_files [] (FsDir base))" "length fs \<le> 1000"
    by (simp_all add: fs pending_files_def skill_max_files_def)
  show "sorted (map fst fs)" by (simp add: fs)
qed

text \<open>A package with a link anywhere outside \<open>.git\<close> is refused.\<close>

fun has_link :: "fs_node \<Rightarrow> bool" where
  "has_link FsLink = True"
| "has_link (FsFile _) = False"
| "has_link (FsDir es) = list_ex (\<lambda>(name, n). has_link n \<and> \<not> (name = ''.git'' \<and> (\<exists>sub. n = FsDir sub))) es"

lemma scan_entries_links:
  "scan_entries rel es s = Inr s' \<Longrightarrow> has_link (FsDir es) \<or> (\<exists>p \<in> set (fc_pending s). has_link (FsDir (snd p))) \<Longrightarrow>
   \<exists>p \<in> set (fc_pending s'). has_link (FsDir (snd p))"
  by (induction rel es s rule: scan_entries.induct) (auto simp: Let_def split: if_splits)

lemma scan_loop_links: "(\<exists>p \<in> set (fc_pending s). has_link (FsDir (snd p))) \<Longrightarrow> scan_loop s \<noteq> Inr s'"
proof (induction s rule: scan_loop.induct)
  case (1 s)
  obtain rel es rest where p: "fc_pending s = (rel, es) # rest" using "1.prems" by (cases "fc_pending s") auto
  show ?case
  proof (cases "scan_entries rel es (s\<lparr>fc_pending := rest\<rparr>)")
    case (Inr s1)
    have "\<exists>p \<in> set (fc_pending s1). has_link (FsDir (snd p))" using scan_entries_links [OF Inr] "1.prems" by (simp add: p)
    then show ?thesis using "1.IH" [OF p refl Inr] by (simp add: scan_loop.simps [of s] p Inr)
  qed (simp add: scan_loop.simps [of s] p)
qed

lemma links_refused: "has_link (FsDir base) \<Longrightarrow> skill_files base \<noteq> Inr fs"
  using scan_loop_links [of "\<lparr>fc_files = [], fc_total = 0, fc_pending = [([], base)]\<rparr>"]
  by (auto simp: skill_files_def split: sum.splits)

section \<open>What is digested\<close>

lemma le_bytes_length [simp]: "length (le_bytes n) = 8"
  by (simp add: le_bytes_def)

lemma base_256_unique:
  "(\<forall>k < j. m div 256 ^ k mod 256 = n div 256 ^ k mod 256) \<Longrightarrow> m mod 256 ^ j = n mod (256 ^ j :: nat)"
proof (induction j)
  case (Suc j)
  then have "m mod 256 ^ j = n mod 256 ^ j" "m div 256 ^ j mod 256 = n div 256 ^ j mod 256" by auto
  then show ?case by (simp add: mod_mult2_eq mult.commute [of 256])
qed simp

lemma le_bytes_inj: "le_bytes m = le_bytes n \<Longrightarrow> m < 2 ^ 64 \<Longrightarrow> n < 2 ^ 64 \<Longrightarrow> m = n"
proof -
  assume eq: "le_bytes m = le_bytes n" and bounds: "m < 2 ^ 64" "n < 2 ^ 64"
  have "m div 256 ^ k mod 256 = n div 256 ^ k mod 256" if "k < 8" for k
  proof -
    have "le_bytes m ! k = le_bytes n ! k" using eq by simp
    then have "(of_char (char_of (m div 256 ^ k mod 256)) :: nat) = of_char (char_of (n div 256 ^ k mod 256))"
      using that by (simp add: le_bytes_def)
    then show ?thesis by (simp add: of_char_of take_bit_eq_mod)
  qed
  then have "m mod 256 ^ 8 = n mod 256 ^ 8" by (intro base_256_unique) auto
  then show "m = n" using bounds by simp
qed

lemma append_nul:
  "u @ CHR 0x00 # v = u' @ CHR 0x00 # v' \<Longrightarrow> CHR 0x00 \<notin> set u \<Longrightarrow> CHR 0x00 \<notin> set u' \<Longrightarrow> u = u' \<and> v = v'"
proof (induction u arbitrary: u')
  case (Cons c u)
  then show ?case by (cases u') auto
qed (case_tac u', auto)

text \<open>A name that is a name, and a file short enough to be counted.\<close>

definition plain_file :: "(string \<Rightarrow> string) \<Rightarrow> rel_path \<times> string \<Rightarrow> bool" where
  "plain_file lossy f \<longleftrightarrow> fst f \<noteq> [] \<and> map lossy (fst f) = fst f \<and> list_all (\<lambda>c. c \<noteq> [] \<and> CHR ''/'' \<notin> set c \<and> CHR 0x00 \<notin> set c) (fst f) \<and> length (snd f) < 2 ^ 64"

lemma split_join: "cs \<noteq> [] \<Longrightarrow> list_all (\<lambda>c. CHR ''/'' \<notin> set c) cs \<Longrightarrow> split_char (CHR ''/'') (join ''/'' cs) = cs"
  by (induction "''/''" cs rule: join.induct) (simp_all add: split_char_single split_char_append)

lemma join_nul: "list_all (\<lambda>c. CHR 0x00 \<notin> set c) cs \<Longrightarrow> CHR 0x00 \<notin> set (join ''/'' cs)"
  by (induction "''/''" cs rule: join.induct) simp_all

lemma plain_fileD:
  assumes "plain_file lossy (p, b)"
  shows "map lossy p = p" "CHR 0x00 \<notin> set (join ''/'' p)" "split_char (CHR ''/'') (join ''/'' p) = p" "length b < 2 ^ 64"
proof -
  have "p \<noteq> []" "list_all (\<lambda>c. CHR ''/'' \<notin> set c) p" "list_all (\<lambda>c. CHR 0x00 \<notin> set c) p"
    using assms unfolding plain_file_def list_all_iff fst_conv by blast+
  then show "CHR 0x00 \<notin> set (join ''/'' p)" "split_char (CHR ''/'') (join ''/'' p) = p" by (simp_all add: join_nul split_join)
  show "map lossy p = p" "length b < 2 ^ 64" using assms unfolding plain_file_def fst_conv snd_conv by blast+
qed

lemma digest_input_Cons:
  "plain_file lossy (p, b) \<Longrightarrow>
   digest_input lossy ((p, b) # fs) = join ''/'' p @ CHR 0x00 # (le_bytes (length b) @ b @ digest_input lossy fs)"
  by (simp add: digest_input_def file_record_def plain_fileD(1))

lemma digest_input_inj:
  assumes "digest_input lossy fs = digest_input lossy gs" "list_all (plain_file lossy) fs" "list_all (plain_file lossy) gs"
  shows "fs = gs"
  using assms
proof (induction fs arbitrary: gs)
  case Nil
  then show ?case by (cases gs) (auto simp: digest_input_def file_record_def)
next
  case (Cons f fs)
  obtain p b where f: "f = (p, b)" by (cases f)
  obtain g gs' where gs: "gs = g # gs'" using Cons.prems(1) by (cases gs) (auto simp: digest_input_def file_record_def f)
  obtain q c where g: "g = (q, c)" by (cases g)
  have plain: "plain_file lossy (p, b)" "plain_file lossy (q, c)" "list_all (plain_file lossy) fs" "list_all (plain_file lossy) gs'"
    using Cons.prems(2,3) by (simp_all add: f gs g)
  note facts = plain_fileD [OF plain(1)] plain_fileD [OF plain(2)]
  from Cons.prems(1) have eq: "join ''/'' p @ CHR 0x00 # (le_bytes (length b) @ b @ digest_input lossy fs) =
      join ''/'' q @ CHR 0x00 # (le_bytes (length c) @ c @ digest_input lossy gs')"
    unfolding f gs g digest_input_Cons [OF plain(1)] digest_input_Cons [OF plain(2)] .
  from append_nul [OF eq facts(2) facts(6)] have "join ''/'' p = join ''/'' q"
    and rest: "le_bytes (length b) @ b @ digest_input lossy fs = le_bytes (length c) @ c @ digest_input lossy gs'" by blast+
  then have "p = q" using facts(3) facts(7) by metis
  have "le_bytes (length b) = le_bytes (length c)" and tail: "b @ digest_input lossy fs = c @ digest_input lossy gs'"
    using rest by (simp_all add: append_eq_append_conv)
  then have "length b = length c" using facts(4) facts(8) by (blast intro: le_bytes_inj)
  with tail have "b = c" "digest_input lossy fs = digest_input lossy gs'" by simp_all
  then show ?case using Cons.IH [OF _ plain(3,4)] \<open>p = q\<close> by (simp add: f g gs)
qed

end
