(* ===== verification/Skill_Policy.thy ===== *)
theory Skill_Policy
  imports Skill_Files Config_Layers
begin

text \<open>
  What a skill may do: the second half of \<open>cuma-skills/src/integrity.rs\<close>, \<open>validation.rs\<close> and
  \<open>creation.rs\<close>. Base64, the parsing of Ed25519 keys, the verification of a signature, the
  language model and the date are arguments.
\<close>

section \<open>Signatures\<close>

text \<open>A key is what \<open>VerifyingKey::from_bytes\<close> makes of its 32 bytes.\<close>

type_synonym 'key trusted_keys = "(string, 'key) btree"

fun keys_from_config ::
  "(string \<Rightarrow> string + string) \<Rightarrow> (string \<Rightarrow> string + 'key) \<Rightarrow> (string \<times> string) list \<Rightarrow> 'key trusted_keys \<Rightarrow> 'key trusted_keys result" where
  "keys_from_config base64 parse_key [] keys = Inr keys"
| "keys_from_config base64 parse_key ((name, encoded) # rest) keys =
     (case base64 (trim encoded) of
        Inl err \<Rightarrow> Inl (EConfiguration (''skills.trusted_keys.'' @ name @ '': not base64: '' @ err))
      | Inr bytes \<Rightarrow>
          if length bytes \<noteq> 32
          then Inl (EConfiguration (''skills.trusted_keys.'' @ name @ '': an Ed25519 public key is 32 bytes''))
          else
            (case parse_key bytes of
               Inl err \<Rightarrow> Inl (EConfiguration (''skills.trusted_keys.'' @ name @ '': '' @ err))
             | Inr key \<Rightarrow> keys_from_config base64 parse_key rest (bt_insert name key keys)))"

datatype signature_check = SigAbsent | SigValid string | SigUnknownKey string | SigInvalid string

definition check_signature ::
  "(string \<Rightarrow> string) \<Rightarrow> (string \<Rightarrow> string + string) \<Rightarrow> ('key \<Rightarrow> string \<Rightarrow> string \<Rightarrow> bool) \<Rightarrow> string \<Rightarrow> string \<Rightarrow> 'key trusted_keys \<Rightarrow>
   signature_check" where
  "check_signature dbg base64 verify_strict digest signature_line keys =
     (let line = trim signature_line in
      if line = [] then SigAbsent
      else
        case split_once (CHR '':'') line of
          Some (scheme, rest) \<Rightarrow>
            (case (scheme = ''ed25519'', split_once (CHR '':'') rest) of
               (True, Some (key_id, encoded)) \<Rightarrow>
                 (case bt_get keys key_id of
                    None \<Rightarrow> SigUnknownKey key_id
                  | Some key \<Rightarrow>
                      (case base64 (trim encoded) of
                         Inl _ \<Rightarrow> SigInvalid ''the signature is not base64''
                       | Inr bytes \<Rightarrow>
                           if length bytes \<noteq> 64 then SigInvalid ''an Ed25519 signature is 64 bytes''
                           else if verify_strict key digest bytes then SigValid key_id
                           else SigInvalid (''the signature by '' @ dbg key_id @ '' does not match the skill's contents'')))
             | _ \<Rightarrow> SigInvalid ''skill.sig is not `ed25519:<key-id>:<base64>`'')
        | None \<Rightarrow> SigInvalid ''skill.sig is not `ed25519:<key-id>:<base64>`'')"

record evidence =
  ev_digest :: "string option"
  ev_published_digest :: "string option"
  ev_signature :: "signature_check option"

definition no_evidence :: evidence where
  "no_evidence = \<lparr>ev_digest = None, ev_published_digest = None, ev_signature = None\<rparr>"

text \<open>What the checks of a skill's files are made with.\<close>

record 'key crypto =
  cy_base64 :: "string \<Rightarrow> string + string"
  cy_verify :: "'key \<Rightarrow> string \<Rightarrow> string \<Rightarrow> bool"
  cy_sha256 :: "string \<Rightarrow> string"
  cy_lossy :: "string \<Rightarrow> string"

definition gather_evidence ::
  "(string \<Rightarrow> string) \<Rightarrow> 'key crypto \<Rightarrow> fs_dir \<Rightarrow> string option \<Rightarrow> 'key trusted_keys \<Rightarrow> evidence result" where
  "gather_evidence dbg cy base published keys =
     (case content_digest (cy_sha256 cy) (cy_lossy cy) base of
        Inl e \<Rightarrow> Inl e
      | Inr digest \<Rightarrow>
          let line = (case dir_file signature_file base of Some s \<Rightarrow> s | None \<Rightarrow> []) in
          Inr \<lparr>ev_digest = Some digest, ev_published_digest = published,
               ev_signature = Some (check_signature dbg (cy_base64 cy) (cy_verify cy) digest line keys)\<rparr>)"

definition digest_matches :: "evidence \<Rightarrow> bool option" where
  "digest_matches ev = Option.bind (ev_digest ev) (\<lambda>d. map_option (\<lambda>p. d = p) (ev_published_digest ev))"

section \<open>Validation\<close>

definition dangerous_permissions :: "string list" where
  "dangerous_permissions =
     [''shell:unrestricted'', ''filesystem:write:/'', ''filesystem:write:~'', ''network:unrestricted'', ''env:read:*'',
      ''process:spawn:*'', ''credentials'', ''keychain'']"

definition escape_patterns :: "string list" where
  "escape_patterns = [''..'', ''$('', ''`'', [CHR 0x0A], [CHR 0x0D], [CHR 0x00]]"

record validation_report =
  vr_permitted :: bool
  vr_trust :: trust_level
  vr_blockers :: "string list"
  vr_warnings :: "string list"

fun debug_trust :: "trust_level \<Rightarrow> string" where
  "debug_trust Trusted = ''Trusted''"
| "debug_trust Verified = ''Verified''"
| "debug_trust Community = ''Community''"
| "debug_trust Untrusted = ''Untrusted''"

definition render_report :: "validation_report \<Rightarrow> string" where
  "render_report r =
     (let nl = [CHR 0x0A]; items = (\<lambda>xs. concat (map (\<lambda>x. ''  - '' @ x @ nl) xs)) in
      ''Verdict: '' @ (if vr_permitted r then ''may install'' else ''REFUSED'') @ '' (trust: '' @ debug_trust (vr_trust r) @ '')'' @ nl
      @ (if vr_blockers r = [] then [] else ''Blockers:'' @ nl @ items (vr_blockers r))
      @ (if vr_warnings r = [] then [] else ''Warnings:'' @ nl @ items (vr_warnings r)))"

definition permission_blockers :: "(string \<Rightarrow> string) \<Rightarrow> string \<Rightarrow> string list" where
  "permission_blockers dbg permission =
     (let normalized = to_ascii_lowercase (trim permission) in
      (if list_ex (\<lambda>d. prefix d normalized) dangerous_permissions
       then [''requests the unrestricted permission '' @ dbg permission] else [])
      @ (if list_ex (\<lambda>p. str_contains permission p) escape_patterns
         then [''permission '' @ dbg permission @ '' contains a scope-escape pattern''] else []))"

definition or_unknown :: "string option \<Rightarrow> string" where
  "or_unknown s = (case s of Some d \<Rightarrow> d | None \<Rightarrow> ''?'')"

definition signed_by_trusted_key :: "evidence \<Rightarrow> bool" where
  "signed_by_trusted_key ev = (case ev_signature ev of Some (SigValid _) \<Rightarrow> True | _ \<Rightarrow> False)"

definition source_of :: "skill_manifest \<Rightarrow> string" where
  "source_of m = to_ascii_lowercase (trim (mf_source m))"

definition origin_is_generated :: "string \<Rightarrow> bool" where
  "origin_is_generated source \<longleftrightarrow> prefix ''generated:'' source"

definition origin_is_local :: "string \<Rightarrow> bool" where
  "origin_is_local source \<longleftrightarrow> prefix ''builtin:'' source \<or> prefix ''file:'' source \<or> origin_is_generated source"

definition origin_is_secure :: "string \<Rightarrow> bool" where
  "origin_is_secure source \<longleftrightarrow> origin_is_local source \<or> prefix ''https://'' source \<or> prefix ''git+https://'' source"

definition blockers_of :: "(string \<Rightarrow> string) \<Rightarrow> skill_manifest \<Rightarrow> evidence \<Rightarrow> string list" where
  "blockers_of dbg m ev =
     (if trim (mf_name m) = [] then [''the manifest has no name''] else [])
     @ (if trim (mf_source m) = [] then [''the manifest declares no source''] else [])
     @ concat (map (permission_blockers dbg) (mf_requested_permissions m))
     @ (if digest_matches ev = Some False
        then [''its contents ('' @ or_unknown (ev_digest ev) @ '') do not match the digest the registry published ('' @
              or_unknown (ev_published_digest ev) @ '')''] else [])
     @ (case ev_signature ev of Some (SigInvalid reason) \<Rightarrow> [''its signature is invalid: '' @ reason] | _ \<Rightarrow> [])
     @ (if origin_is_secure (source_of m) then []
        else [''source '' @ dbg (mf_source m) @ '' is neither local nor fetched over TLS''])"

definition warnings_of :: "(string \<Rightarrow> string) \<Rightarrow> skill_manifest \<Rightarrow> evidence \<Rightarrow> string list" where
  "warnings_of dbg m ev =
     (if trim (mf_version m) = [] then [''the manifest declares no version''] else [])
     @ (if 12 < length (mf_requested_permissions m)
        then [''requests '' @ show_nat (length (mf_requested_permissions m)) @ '' permissions, which is a lot for one skill''] else [])
     @ (case ev_signature ev of
          Some (SigValid _) \<Rightarrow> []
        | Some (SigInvalid _) \<Rightarrow> []
        | Some (SigUnknownKey key) \<Rightarrow>
            [''signed by '' @ dbg key @ '', which is not in skills.trusted_keys, so the signature proves nothing'']
        | _ \<Rightarrow> [''no signature, so its origin cannot be verified''])
     @ (if ev_published_digest ev = None then [''no digest is published for it, so its integrity cannot be verified''] else [])"

definition derived_trust :: "skill_manifest \<Rightarrow> evidence \<Rightarrow> trust_level" where
  "derived_trust m ev =
     (let source = source_of m in
      if origin_is_generated source then Untrusted
      else if prefix ''builtin:'' source \<or> signed_by_trusted_key ev then Trusted
      else if digest_matches ev = Some True \<and> \<not> origin_is_local source then Verified
      else if origin_is_secure source then Community
      else Untrusted)"

definition validate_with :: "(string \<Rightarrow> string) \<Rightarrow> skill_manifest \<Rightarrow> evidence \<Rightarrow> validation_report" where
  "validate_with dbg m ev =
     \<lparr>vr_permitted = (blockers_of dbg m ev = []), vr_trust = max (derived_trust m ev) (mf_trust m),
      vr_blockers = blockers_of dbg m ev, vr_warnings = warnings_of dbg m ev\<rparr>"

definition validate_manifest :: "(string \<Rightarrow> string) \<Rightarrow> skill_manifest \<Rightarrow> validation_report" where
  "validate_manifest dbg m = validate_with dbg m no_evidence"

definition assess_fetched :: "(string \<Rightarrow> string) \<Rightarrow> skill_manifest \<Rightarrow> evidence \<Rightarrow> validation_report" where
  "assess_fetched dbg m ev = validate_with dbg (m\<lparr>mf_trust := Trusted\<rparr>) ev"

definition may_auto_install :: "trust_level \<Rightarrow> skill_auto_install \<Rightarrow> bool" where
  "may_auto_install t policy =
     (case policy of
        InstallNever \<Rightarrow> False
      | InstallTrustedOnly \<Rightarrow> t = Trusted
      | InstallVerified \<Rightarrow> t \<in> {Trusted, Verified})"

section \<open>Skills the harness writes itself\<close>

record generated_skill =
  gk_manifest :: skill_manifest
  gk_capability :: capability
  gk_generated_by :: string
  gk_generated_at :: string

datatype creation_refusal =
  NotPermitted | NoProvider | Unparseable string | FailedValidation "string list" | WrongCapability string

fun explain_refusal :: "creation_refusal \<Rightarrow> string" where
  "explain_refusal NotPermitted = ''skill creation is off; set skills.allow_creation to enable it''"
| "explain_refusal NoProvider = ''skill creation needs a configured LLM provider to generate with''"
| "explain_refusal (Unparseable detail) = ''the generated manifest was unusable: '' @ detail"
| "explain_refusal (FailedValidation blockers) = ''the generated skill failed validation: '' @ join ''; '' blockers"
| "explain_refusal (WrongCapability wanted) = ''the generated skill did not provide '' @ wanted"

record reply_fields =
  rf_id :: "string option"
  rf_name :: "string option"
  rf_description :: "string option"
  rf_permissions :: "string list"

definition reply_line :: "string \<Rightarrow> reply_fields \<Rightarrow> reply_fields" where
  "reply_line l f =
     (let line = trim (dropWhile (\<lambda>c. c = CHR ''-'' \<or> c = CHR ''*'') (trim l)) in
      if line = [] \<or> prefix ''```'' line then f
      else
        case split_once (CHR '':'') line of
          None \<Rightarrow> f
        | Some (key, value) \<Rightarrow>
            let value = trim value; key = to_ascii_lowercase (trim key) in
            if key = ''id'' then f\<lparr>rf_id := Some value\<rparr>
            else if key = ''name'' then f\<lparr>rf_name := Some value\<rparr>
            else if key = ''description'' then f\<lparr>rf_description := Some value\<rparr>
            else if key = ''permissions'' \<and> \<not> eq_ignore_ascii_case value ''none'' then f\<lparr>rf_permissions := split_list value\<rparr>
            else f)"

definition generated_id_char :: "char \<Rightarrow> bool" where
  "generated_id_char c \<longleftrightarrow> is_ascii_lowercase c \<or> is_ascii_digit c \<or> c = CHR ''-''"

definition parse_reply :: "(string \<Rightarrow> string) \<Rightarrow> string \<Rightarrow> string \<Rightarrow> capability \<Rightarrow> string + skill_manifest" where
  "parse_reply dbg today reply capability =
     (let f = fold reply_line (str_lines reply) \<lparr>rf_id = None, rf_name = None, rf_description = None, rf_permissions = []\<rparr> in
      case (rf_id f, rf_name f) of
        (None, _) \<Rightarrow> Inl ''no id''
      | (Some _, None) \<Rightarrow> Inl ''no name''
      | (Some i, Some name) \<Rightarrow>
          if i = [] \<or> 64 < length i \<or> \<not> list_all generated_id_char i
          then Inl (dbg i @ '' is not a plain lowercase identifier'')
          else Inr \<lparr>mf_id = i, mf_name = name, mf_description = (case rf_description f of Some d \<Rightarrow> d | None \<Rightarrow> []),
                    mf_version = ''0.1.0+generated.'' @ today, mf_source = [], mf_capabilities = capability_set_of [capability],
                    mf_requested_permissions = rf_permissions f, mf_checksum = None, mf_signature = None, mf_trust = Untrusted\<rparr>)"

text \<open>A provider is its name and what it answers to the prompt.\<close>

record skill_factory =
  ff_provider :: "(string \<times> (string \<Rightarrow> string result)) option"
  ff_allowed :: bool

definition disabled_factory :: skill_factory where
  "disabled_factory = \<lparr>ff_provider = None, ff_allowed = False\<rparr>"

definition creation_prompt :: "capability \<Rightarrow> string" where
  "creation_prompt capability =
     ''Write a skill manifest for a skill that provides the capability '' @ display_capability capability @ ''.'' @ [CHR 0x0A] @
     ''It will run inside a software project directory.''"

definition create_skill ::
  "(string \<Rightarrow> string) \<Rightarrow> string \<Rightarrow> string \<Rightarrow> skill_factory \<Rightarrow> capability \<Rightarrow> (creation_refusal + generated_skill) result" where
  "create_skill dbg today now ff capability =
     (if \<not> ff_allowed ff then Inr (Inl NotPermitted)
      else
        case ff_provider ff of
          None \<Rightarrow> Inr (Inl NoProvider)
        | Some (name, answer) \<Rightarrow>
            (case answer (creation_prompt capability) of
               Inl e \<Rightarrow> Inl e
             | Inr reply \<Rightarrow>
                 (case parse_reply dbg today reply capability of
                    Inl detail \<Rightarrow> Inr (Inl (Unparseable detail))
                  | Inr m \<Rightarrow>
                      let m = m\<lparr>mf_trust := Untrusted, mf_source := ''generated:'' @ name\<rparr> in
                      if capability \<notin> set (mf_capabilities m) then Inr (Inl (WrongCapability (display_capability capability)))
                      else
                        let report = validate_manifest dbg m in
                        if \<not> vr_permitted report then Inr (Inl (FailedValidation (vr_blockers report)))
                        else Inr (Inr \<lparr>gk_manifest = m, gk_capability = capability, gk_generated_by = name, gk_generated_at = now\<rparr>))))"

section \<open>Trust is earned\<close>

lemma trust_order [simp]:
  "t \<le> Trusted \<longleftrightarrow> t = Trusted" "t \<le> Verified \<longleftrightarrow> t \<in> {Trusted, Verified}" "Untrusted \<le> t \<longleftrightarrow> t = Untrusted" "Trusted \<le> t"
  by (cases t; simp add: less_eq_trust_level_def trust_rank_def)+

text \<open>A claim never raises trust: what is concluded is no better than what the evidence shows, and no better than
  what is claimed.\<close>

lemma validate_trust: "derived_trust m ev \<le> vr_trust (validate_with dbg m ev)" "mf_trust m \<le> vr_trust (validate_with dbg m ev)"
  by (simp_all add: validate_with_def)

lemma assess_trust [simp]: "vr_trust (assess_fetched dbg m ev) = derived_trust m ev"
  by (simp add: assess_fetched_def validate_with_def derived_trust_def source_of_def max_def)

lemma derived_trusted:
  "derived_trust m ev = Trusted \<longleftrightarrow>
     \<not> origin_is_generated (source_of m) \<and> (prefix ''builtin:'' (source_of m) \<or> (\<exists>key. ev_signature ev = Some (SigValid key)))"
  by (auto simp: derived_trust_def Let_def signed_by_trusted_key_def split: option.splits signature_check.splits)

lemma derived_verified:
  "derived_trust m ev = Verified \<Longrightarrow>
     (\<exists>d. ev_digest ev = Some d \<and> ev_published_digest ev = Some d) \<and> \<not> origin_is_local (source_of m)"
  by (auto simp: derived_trust_def Let_def digest_matches_def bind_eq_Some_conv split: if_splits)

text \<open>A signature counts when a configured key verifies it over the digest.\<close>

lemma check_signature_valid:
  assumes "check_signature dbg base64 verify_strict digest line keys = SigValid key_id"
  shows "\<exists>key bytes. bt_get keys key_id = Some key \<and> length bytes = 64 \<and> verify_strict key digest bytes"
  using assms by (auto simp: check_signature_def Let_def split: if_splits option.splits sum.splits prod.splits bool.splits)

lemma permitted_iff: "vr_permitted (validate_with dbg m ev) \<longleftrightarrow> blockers_of dbg m ev = []"
  by (simp add: validate_with_def)

lemma permitted_facts:
  assumes "blockers_of dbg m ev = []"
  shows "origin_is_secure (source_of m)" "digest_matches ev \<noteq> Some False"
    "p \<in> set (mf_requested_permissions m) \<Longrightarrow> d \<in> set dangerous_permissions \<Longrightarrow> \<not> prefix d (to_ascii_lowercase (trim p))"
    "p \<in> set (mf_requested_permissions m) \<Longrightarrow> e \<in> set escape_patterns \<Longrightarrow> \<not> str_contains p e"
  using assms
  by (auto simp: blockers_of_def permission_blockers_def Let_def list_ex_iff split: if_splits)

text \<open>Trimming leaves a prefix alone that neither begins nor ends with whitespace.\<close>

lemma strip_front_keeps_suffix:
  assumes "q \<noteq> []" "\<forall>w \<in> set ws. hd q \<notin> set w"
  shows "suffix q (strip_front ws (s @ q))"
proof (induction "length s" arbitrary: s rule: less_induct)
  case less
  show ?case
  proof (cases "match_len ws (s @ q) = 0")
    case False
    then obtain w where w: "w \<in> set ws" "prefix w (s @ q)" "match_len ws (s @ q) = length w"
      by (auto simp: match_len_def find_Some_iff split: option.splits) (metis nth_mem)
    have "length w \<le> length s"
    proof (rule ccontr)
      assume "\<not> length w \<le> length s"
      then have "hd q = w ! length s" using w(2) assms(1) by (auto simp: prefix_def nth_append hd_conv_nth) (metis append_eq_append_conv_if hd_conv_nth nth_append_length_plus not_le_imp_less nth_append add.right_neutral)
      then show False using assms(2) w(1) \<open>\<not> length w \<le> length s\<close> by (metis not_le nth_mem)
    qed
    moreover have "0 < length w" using False w(3) by simp
    ultimately have "suffix q (strip_front ws (drop (length w) s @ q))"
      by (intro less) (cases w; cases s; simp)
    then show ?thesis using False w(3) \<open>length w \<le> length s\<close> by (simp add: strip_front.simps [of ws "s @ q"])
  qed (simp add: strip_front_id suffix_def)
qed

lemma trim_keeps_prefix:
  assumes "q \<noteq> []" "hd q \<notin> whitespace_bytes" "last q \<notin> whitespace_bytes"
  shows "prefix q (trim (q @ s))"
proof -
  have ws: "w \<noteq> [] \<and> set w \<subseteq> whitespace_bytes" if "w \<in> set whitespace_encodings" for w
    using that whitespace_encodings_nonempty by auto
  have "\<not> prefix w (q @ s)" if "w \<in> set whitespace_encodings" for w
    using ws [OF that] assms(1,2) by (cases w; cases q) auto
  then have "match_len whitespace_encodings (q @ s) = 0" by (auto simp: match_len_def find_Some_iff split: option.splits)
  then have "trim_start (q @ s) = q @ s" by (simp add: trim_start_def strip_front_id)
  moreover have "suffix (rev q) (strip_front (map rev whitespace_encodings) (rev s @ rev q))"
    using assms ws by (intro strip_front_keeps_suffix) (auto simp: hd_rev)
  ultimately show ?thesis by (simp add: trim_def trim_end_def suffix_to_prefix)
qed

lemma trim_lower_generated: "origin_is_generated (source_of (m\<lparr>mf_source := ''generated:'' @ name\<rparr>))"
proof -
  have "prefix ''generated:'' (trim (''generated:'' @ name))" by (rule trim_keeps_prefix) code_simp+
  then obtain r where "trim (''generated:'' @ name) = ''generated:'' @ r" by (auto simp: prefix_def)
  moreover have "to_ascii_lowercase ''generated:'' = ''generated:''" by code_simp
  ultimately show ?thesis by (simp add: origin_is_generated_def source_of_def to_ascii_lowercase_def)
qed

lemma created_untrusted:
  assumes "create_skill dbg today now ff capability = Inr (Inr g)"
  shows "ff_allowed ff \<and> mf_trust (gk_manifest g) = Untrusted \<and> capability \<in> set (mf_capabilities (gk_manifest g)) \<and>
    blockers_of dbg (gk_manifest g) no_evidence = [] \<and> derived_trust (gk_manifest g) ev = Untrusted"
  using assms trim_lower_generated
  by (auto simp: create_skill_def Let_def validate_manifest_def permitted_iff derived_trust_def split: if_splits option.splits sum.splits prod.splits)

end
