(* ===== verification/Skills.thy ===== *)
theory Skills
  imports Skill_Registries Step_System
begin

text \<open>
  The skill manager: \<open>cuma-skills/src/manager.rs\<close> and \<open>from_config\<close> of \<open>lib.rs\<close>, from a gap to an installed
  skill and the record of what is installed.

  The disk is the tree of the install directory, the staging directories left out of it (their names
  begin with a dot, which no skill id does); what is staged is the tree the registry wrote. Each
  file operation may fail, as the faults of the call say. The encoding of the record as
  JSON is an argument.
\<close>

section \<open>Data\<close>

record installed_skill =
  is_manifest :: skill_manifest
  is_digest :: "string option"
  is_signed_by :: "string option"
  is_registry :: string
  is_enabled :: bool
  is_installed_at :: string

abbreviation is_id :: "installed_skill \<Rightarrow> string" where "is_id s \<equiv> mf_id (is_manifest s)"

datatype skill_outcome =
    GapInstalled skill_manifest
  | GapNeedsApproval skill_manifest validation_report
  | GapRefused skill_manifest validation_report
  | GapNotFound capability

datatype update_outcome =
    UpUnchanged
  | UpUpdated "string option" "string option" bool
  | UpRefused "string list"
  | UpUnavailable string

record staged_skill =
  sd_manifest :: skill_manifest
  sd_report :: validation_report
  sd_evidence :: evidence
  sd_registry :: string
  sd_files :: "fs_dir option"

record 'key skill_manager =
  sm_config :: skills_config
  sm_registries :: "skill_registry list"
  sm_keys :: "'key trusted_keys"
  sm_install_dir :: "path option"
  sm_installed :: "installed_skill list"
  sm_guides :: "(capability_set \<times> skill_guide) list"
  sm_disk :: fs_dir

text \<open>
  The faults of one call: the message of the failure, for a removal with what is left of the directory, and the
  clock.
\<close>

record skill_io =
  io_stage :: "string option"
  io_remove :: "(string \<times> fs_dir) option"
  io_place :: "string option"
  io_save_dir :: "string option"
  io_write :: "string option"
  io_rename :: "string option"
  io_now :: string

definition no_faults :: "string \<Rightarrow> skill_io" where
  "no_faults now =
     \<lparr>io_stage = None, io_remove = None, io_place = None, io_save_dir = None, io_write = None, io_rename = None, io_now = now\<rparr>"

text \<open>What the manager computes with: whether bytes are UTF-8, and the record's encoding.\<close>

record 'key skill_env =
  ke_dbg :: "string \<Rightarrow> string"
  ke_crypto :: "'key crypto"
  ke_utf8 :: "string \<Rightarrow> bool"
  ke_to_json :: "installed_skill list \<Rightarrow> string"
  ke_from_json :: "string \<Rightarrow> string + installed_skill list"

definition skill_lockfile :: string where "skill_lockfile = ''installed.json''"
definition max_instructions :: nat where "max_instructions = 8000"

text \<open>The \<open>?\<close> operator.\<close>

definition result_bind :: "'a result \<Rightarrow> ('a \<Rightarrow> 'b result) \<Rightarrow> 'b result" where
  "result_bind r k = (case r of Inl e \<Rightarrow> Inl e | Inr x \<Rightarrow> k x)"

lemma result_bind_Inr [simp]: "result_bind r k = Inr y \<longleftrightarrow> (\<exists>x. r = Inr x \<and> k x = Inr y)"
  by (auto simp: result_bind_def split: sum.splits)

section \<open>Reading\<close>

definition dir_at :: "fs_dir \<Rightarrow> string \<Rightarrow> fs_dir option" where
  "dir_at disk i = (case map_of disk i of Some (FsDir d) \<Rightarrow> Some d | _ \<Rightarrow> None)"

definition guide_of :: "'key skill_env \<Rightarrow> fs_dir \<Rightarrow> installed_skill \<Rightarrow> (capability_set \<times> skill_guide) option" where
  "guide_of ke disk s =
     Option.bind (dir_at disk (is_id s)) (\<lambda>d.
     Option.bind (dir_file instructions_file d) (\<lambda>text.
       if ke_utf8 ke text
       then Some (mf_capabilities (is_manifest s),
              \<lparr>sg_id = is_id s, sg_name = mf_name (is_manifest s), sg_trust = mf_trust (is_manifest s),
               sg_instructions = concat (take max_instructions (utf8_chars text))\<rparr>)
       else None))"

definition rebuild_guides :: "'key skill_env \<Rightarrow> installed_skill list \<Rightarrow> 'key skill_manager \<Rightarrow> 'key skill_manager" where
  "rebuild_guides ke installed sm =
     sm\<lparr>sm_guides :=
       (if sm_install_dir sm = None then [] else List.map_filter (guide_of ke (sm_disk sm)) (filter is_enabled installed))\<rparr>"

definition new_skill_manager :: "skills_config \<Rightarrow> skill_registry list \<Rightarrow> 'key skill_manager" where
  "new_skill_manager config rs =
     \<lparr>sm_config = config, sm_registries = rs, sm_keys = [], sm_install_dir = None, sm_installed = [], sm_guides = [], sm_disk = []\<rparr>"

definition with_install_dir :: "'key skill_env \<Rightarrow> path \<Rightarrow> fs_dir \<Rightarrow> 'key skill_manager \<Rightarrow> 'key skill_manager result" where
  "with_install_dir ke directory disk sm =
     (case (case dir_file skill_lockfile disk of
              Some text \<Rightarrow> if ke_utf8 ke text then ke_from_json ke text else Inr []
            | None \<Rightarrow> Inr []) of
        Inl err \<Rightarrow> Inl (ESkill (path_join directory skill_lockfile @ '' is corrupt: '' @ err))
      | Inr installed \<Rightarrow>
          Inr (rebuild_guides ke installed (sm\<lparr>sm_installed := installed, sm_install_dir := Some directory, sm_disk := disk\<rparr>)))"

definition installed_capabilities :: "'key skill_manager \<Rightarrow> capability_set" where
  "installed_capabilities sm =
     fold (\<lambda>s set. fold bs_insert (mf_capabilities (is_manifest s)) set) (filter is_enabled (sm_installed sm)) []"

definition search_skills :: "'key skill_manager \<Rightarrow> string \<Rightarrow> skill_manifest list" where
  "search_skills sm query =
     concat (map (\<lambda>r. case rg_search r query of Inr ms \<Rightarrow> ms | Inl _ \<Rightarrow> []) (sm_registries sm))"

definition skill_gaps :: "'key skill_manager \<Rightarrow> capability_set \<Rightarrow> capability_set \<Rightarrow> capability list" where
  "skill_gaps sm required available =
     filter (\<lambda>c. c \<notin> set available \<and> c \<notin> set (installed_capabilities sm)) required"

definition guidance_for :: "'key skill_manager \<Rightarrow> capability_set \<Rightarrow> skill_guide list" where
  "guidance_for sm caps =
     sort_key sg_trust
       (map snd (filter (\<lambda>(provides, _). provides = [] \<or> list_ex (\<lambda>c. c \<in> set caps) provides) (sm_guides sm)))"

section \<open>Staging\<close>

definition prefer_order :: "string option \<Rightarrow> skill_registry list \<Rightarrow> skill_registry list" where
  "prefer_order prefer rs =
     filter (\<lambda>r. case prefer of None \<Rightarrow> True | Some p \<Rightarrow> rg_name r = p) rs
     @ filter (\<lambda>r. case prefer of None \<Rightarrow> False | Some p \<Rightarrow> rg_name r \<noteq> p) rs"

fun first_offering :: "string \<Rightarrow> skill_registry list \<Rightarrow> (skill_registry \<times> skill_manifest) option" where
  "first_offering i [] = None"
| "first_offering i (r # rs) = (case rg_inspect r i of Inr m \<Rightarrow> Some (r, m) | Inl _ \<Rightarrow> first_offering i rs)"

definition locate_skill :: "'key skill_manager \<Rightarrow> string \<Rightarrow> string option \<Rightarrow> (skill_registry \<times> skill_manifest) option" where
  "locate_skill sm i prefer = first_offering i (prefer_order prefer (sm_registries sm))"

definition stage_dir :: "skill_io \<Rightarrow> unit result" where
  "stage_dir io = (case io_stage io of Some err \<Rightarrow> Inl (ESkill (''cannot stage: '' @ err)) | None \<Rightarrow> Inr ())"

definition staged_evidence :: "'key skill_env \<Rightarrow> 'key skill_manager \<Rightarrow> fetched_skill \<Rightarrow> fs_dir \<Rightarrow> evidence result" where
  "staged_evidence ke sm f d =
     (if fd_has_files f then gather_evidence (ke_dbg ke) (ke_crypto ke) d (fd_published_digest f) (sm_keys sm)
      else Inr (no_evidence\<lparr>ev_published_digest := fd_published_digest f\<rparr>))"

definition stage_skill :: "'key skill_env \<Rightarrow> skill_io \<Rightarrow> 'key skill_manager \<Rightarrow> string \<Rightarrow> string option \<Rightarrow> staged_skill result" where
  "stage_skill ke io sm i prefer =
     result_bind (check_id (ke_dbg ke) i) (\<lambda>_.
       case locate_skill sm i prefer of
         None \<Rightarrow> Inl (ESkill (''no registry provides a skill named '' @ i))
       | Some (registry, _) \<Rightarrow>
           result_bind (stage_dir io) (\<lambda>_.
           result_bind (rg_fetch registry i) (\<lambda>(f, d).
             if mf_id (fd_manifest f) \<noteq> i
             then Inl (ESecurity (''asked for '' @ i @ '', the registry delivered '' @ mf_id (fd_manifest f)))
             else
               result_bind (staged_evidence ke sm f d) (\<lambda>ev.
                 let report = assess_fetched (ke_dbg ke) (fd_manifest f) ev in
                 Inr \<lparr>sd_manifest = (fd_manifest f)\<lparr>mf_trust := vr_trust report\<rparr>, sd_report = report, sd_evidence = ev,
                      sd_registry = rg_name registry, sd_files = (if fd_has_files f then Some d else None)\<rparr>))))"

section \<open>Putting in place, and recording\<close>

text \<open>\<open>remove_dir_all\<close> of an entry that exists: it fails on a file, and a failure may leave part of the directory.\<close>

definition remove_entry :: "skill_io \<Rightarrow> string \<Rightarrow> string \<Rightarrow> fs_dir \<Rightarrow> unit result \<times> fs_dir" where
  "remove_entry io what i disk =
     (case map_of disk i of
        None \<Rightarrow> (Inr (), disk)
      | Some (FsFile _) \<Rightarrow> (Inl (ESkill (what @ '' '' @ i @ '': not a directory'')), disk)
      | Some _ \<Rightarrow>
          (case io_remove io of
             Some (err, left) \<Rightarrow> (Inl (ESkill (what @ '' '' @ i @ '': '' @ err)), AList.update i (FsDir left) disk)
           | None \<Rightarrow> (Inr (), AList.delete i disk)))"

definition place_files :: "skill_io \<Rightarrow> string \<Rightarrow> fs_dir \<Rightarrow> fs_dir \<Rightarrow> unit result \<times> fs_dir" where
  "place_files io i files disk =
     (case io_place io of
        Some err \<Rightarrow> (Inl (ESkill (''cannot install into '' @ i @ '': '' @ err)), disk)
      | None \<Rightarrow> (Inr (), AList.update i (FsDir files) disk))"

definition entry_is_dir :: "string \<Rightarrow> fs_dir \<Rightarrow> bool" where
  "entry_is_dir name disk = (case map_of disk name of Some (FsDir _) \<Rightarrow> True | _ \<Rightarrow> False)"

text \<open>The record is written beside the lock file and renamed over it.\<close>

definition write_lockfile :: "'key skill_env \<Rightarrow> skill_io \<Rightarrow> installed_skill list \<Rightarrow> fs_dir \<Rightarrow> unit result \<times> fs_dir" where
  "write_lockfile ke io installed disk =
     (let tmp = skill_lockfile @ ''.tmp''; json = ke_to_json ke installed;
          failed = (\<lambda>err. Inl (ESkill (''cannot write '' @ skill_lockfile @ '': '' @ err))) in
      case io_save_dir io of
        Some err \<Rightarrow> (Inl (ESkill err), disk)
      | None \<Rightarrow>
          if entry_is_dir tmp disk then (failed ''is a directory'', disk)
          else case io_write io of
                 Some err \<Rightarrow> (failed err, disk)
               | None \<Rightarrow>
                   if entry_is_dir skill_lockfile disk then (failed ''is a directory'', AList.update tmp (FsFile json) disk)
                   else case io_rename io of
                          Some err \<Rightarrow> (failed err, AList.update tmp (FsFile json) disk)
                        | None \<Rightarrow> (Inr (), AList.update skill_lockfile (FsFile json) (AList.delete tmp disk)))"

definition save_installed :: "'key skill_env \<Rightarrow> skill_io \<Rightarrow> 'key skill_manager \<Rightarrow> unit result \<times> 'key skill_manager" where
  "save_installed ke io sm =
     (let sm = rebuild_guides ke (sm_installed sm) sm in
      if sm_install_dir sm = None then (Inr (), sm)
      else case write_lockfile ke io (sm_installed sm) (sm_disk sm) of (r, disk) \<Rightarrow> (r, sm\<lparr>sm_disk := disk\<rparr>))"

definition replace_files :: "skill_io \<Rightarrow> string \<Rightarrow> fs_dir \<Rightarrow> fs_dir \<Rightarrow> unit result \<times> fs_dir" where
  "replace_files io i files disk =
     (case remove_entry io ''cannot replace'' i disk of
        (Inl e, disk) \<Rightarrow> (Inl e, disk)
      | (Inr _, disk) \<Rightarrow> place_files io i files disk)"

definition place_staged :: "skill_io \<Rightarrow> staged_skill \<Rightarrow> 'key skill_manager \<Rightarrow> unit result \<times> fs_dir" where
  "place_staged io sd sm =
     (case (sm_install_dir sm, sd_files sd) of
        (Some _, Some files) \<Rightarrow> replace_files io (mf_id (sd_manifest sd)) files (sm_disk sm)
      | _ \<Rightarrow> (Inr (), sm_disk sm))"

definition record_of :: "skill_io \<Rightarrow> staged_skill \<Rightarrow> bool \<Rightarrow> installed_skill" where
  "record_of io sd enabled =
     \<lparr>is_manifest = sd_manifest sd, is_digest = ev_digest (sd_evidence sd),
      is_signed_by = (case ev_signature (sd_evidence sd) of Some (SigValid key) \<Rightarrow> Some key | _ \<Rightarrow> None),
      is_registry = sd_registry sd, is_enabled = enabled, is_installed_at = io_now io\<rparr>"

definition add_record :: "installed_skill \<Rightarrow> installed_skill list \<Rightarrow> installed_skill list" where
  "add_record s installed = sort_key is_id (filter (\<lambda>t. is_id t \<noteq> is_id s) installed @ [s])"

definition commit_skill ::
  "'key skill_env \<Rightarrow> skill_io \<Rightarrow> staged_skill \<Rightarrow> bool \<Rightarrow> 'key skill_manager \<Rightarrow> installed_skill result \<times> 'key skill_manager" where
  "commit_skill ke io sd enabled sm =
     (let i = mf_id (sd_manifest sd) in
      if \<not> vr_permitted (sd_report sd)
      then (Inl (ESecurity (''refusing to install '' @ i @ '': '' @ join ''; '' (vr_blockers (sd_report sd)))), sm)
      else
        case place_staged io sd sm of
          (Inl e, disk) \<Rightarrow> (Inl e, sm\<lparr>sm_disk := disk\<rparr>)
        | (Inr _, disk) \<Rightarrow>
            let s = record_of io sd enabled in
            (case save_installed ke io (sm\<lparr>sm_disk := disk, sm_installed := add_record s (sm_installed sm)\<rparr>) of
               (Inl e, sm) \<Rightarrow> (Inl e, sm)
             | (Inr _, sm) \<Rightarrow> (Inr s, sm)))"

section \<open>The operations\<close>

definition preview_skill :: "'key skill_env \<Rightarrow> skill_io \<Rightarrow> 'key skill_manager \<Rightarrow> string \<Rightarrow> (skill_manifest \<times> validation_report) result" where
  "preview_skill ke io sm i = result_bind (stage_skill ke io sm i None) (\<lambda>sd. Inr (sd_manifest sd, sd_report sd))"

definition install_skill :: "'key skill_env \<Rightarrow> skill_io \<Rightarrow> string \<Rightarrow> 'key skill_manager \<Rightarrow> installed_skill result \<times> 'key skill_manager" where
  "install_skill ke io i sm =
     (case stage_skill ke io sm i None of
        Inl e \<Rightarrow> (Inl e, sm)
      | Inr sd \<Rightarrow> commit_skill ke io sd (mf_trust (sd_manifest sd) \<noteq> Untrusted) sm)"

definition refusal_report :: "meta_agent_error \<Rightarrow> validation_report" where
  "refusal_report e = \<lparr>vr_permitted = False, vr_trust = Untrusted, vr_blockers = [display_error e], vr_warnings = []\<rparr>"

definition satisfy :: "'key skill_env \<Rightarrow> skill_io \<Rightarrow> capability \<Rightarrow> 'key skill_manager \<Rightarrow> skill_outcome \<times> 'key skill_manager" where
  "satisfy ke io capability sm =
     (if \<not> sk_enabled (sm_config sm) then (GapNotFound capability, sm)
      else
        case List.find (\<lambda>m. capability \<in> set (mf_capabilities m)) (search_skills sm (display_capability capability)) of
          None \<Rightarrow> (GapNotFound capability, sm)
        | Some candidate \<Rightarrow>
            (case stage_skill ke io sm (mf_id candidate) None of
               Inl e \<Rightarrow> (GapRefused candidate (refusal_report e), sm)
             | Inr sd \<Rightarrow>
                 if \<not> vr_permitted (sd_report sd) then (GapRefused (sd_manifest sd) (sd_report sd), sm)
                 else if \<not> may_auto_install (vr_trust (sd_report sd)) (sk_auto_install (sm_config sm))
                 then (GapNeedsApproval (sd_manifest sd) (sd_report sd), sm)
                 else
                   (case commit_skill ke io sd True sm of
                      (Inr s, sm) \<Rightarrow> (GapInstalled (is_manifest s), sm)
                    | (Inl e, sm) \<Rightarrow> (GapRefused (sd_manifest sd) (sd_report sd), sm))))"

definition remove_files :: "'key skill_env \<Rightarrow> skill_io \<Rightarrow> string \<Rightarrow> 'key skill_manager \<Rightarrow> unit result \<times> fs_dir" where
  "remove_files ke io i sm =
     (if sm_install_dir sm = None then (Inr (), sm_disk sm)
      else case check_id (ke_dbg ke) i of
             Inl e \<Rightarrow> (Inl e, sm_disk sm)
           | Inr _ \<Rightarrow> remove_entry io ''cannot remove'' i (sm_disk sm))"

definition remove_skill :: "'key skill_env \<Rightarrow> skill_io \<Rightarrow> string \<Rightarrow> 'key skill_manager \<Rightarrow> bool result \<times> 'key skill_manager" where
  "remove_skill ke io i sm =
     (let rest = filter (\<lambda>s. is_id s \<noteq> i) (sm_installed sm) in
      if length rest = length (sm_installed sm) then (Inr False, sm\<lparr>sm_installed := rest\<rparr>)
      else
        let sm = sm\<lparr>sm_installed := rest\<rparr> in
        case remove_files ke io i sm of
          (Inl e, disk) \<Rightarrow> (Inl e, sm\<lparr>sm_disk := disk\<rparr>)
        | (Inr _, disk) \<Rightarrow>
            (case save_installed ke io (sm\<lparr>sm_disk := disk\<rparr>) of
               (Inl e, sm) \<Rightarrow> (Inl e, sm)
             | (Inr _, sm) \<Rightarrow> (Inr True, sm)))"

text \<open>\<open>set_skill_enabled\<close> changes the first record with the id.\<close>

fun enable_first :: "string \<Rightarrow> bool \<Rightarrow> installed_skill list \<Rightarrow> installed_skill list" where
  "enable_first i b [] = []"
| "enable_first i b (s # ss) = (if is_id s = i then s\<lparr>is_enabled := b\<rparr> # ss else s # enable_first i b ss)"

definition set_skill_enabled :: "'key skill_env \<Rightarrow> skill_io \<Rightarrow> string \<Rightarrow> bool \<Rightarrow> 'key skill_manager \<Rightarrow> bool result \<times> 'key skill_manager" where
  "set_skill_enabled ke io i enabled sm =
     (case List.find (\<lambda>s. is_id s = i) (sm_installed sm) of
        None \<Rightarrow> (Inr False, sm)
      | Some s \<Rightarrow>
          if enabled \<and> mf_trust (is_manifest s) = Untrusted
          then (Inl (ESecurity (i @ '' is untrusted and cannot be enabled; review it and publish it signed'')), sm)
          else
            (case save_installed ke io (sm\<lparr>sm_installed := enable_first i enabled (sm_installed sm)\<rparr>) of
               (Inl e, sm) \<Rightarrow> (Inl e, sm)
             | (Inr _, sm) \<Rightarrow> (Inr True, sm)))"

definition update_one :: "'key skill_env \<Rightarrow> skill_io \<Rightarrow> installed_skill \<Rightarrow> 'key skill_manager \<Rightarrow> update_outcome \<times> 'key skill_manager" where
  "update_one ke io current sm =
     (case stage_skill ke io sm (is_id current) (Some (is_registry current)) of
        Inl e \<Rightarrow> (UpUnavailable (display_error e), sm)
      | Inr sd \<Rightarrow>
          if \<not> vr_permitted (sd_report sd) then (UpRefused (vr_blockers (sd_report sd)), sm)
          else if ev_digest (sd_evidence sd) \<noteq> None \<and> ev_digest (sd_evidence sd) = is_digest current then (UpUnchanged, sm)
          else
            let fell = mf_trust (is_manifest current) < mf_trust (sd_manifest sd) in
            (case commit_skill ke io sd (is_enabled current \<and> \<not> fell) sm of
               (Inr _, sm) \<Rightarrow> (UpUpdated (is_digest current) (ev_digest (sd_evidence sd)) (fell \<and> is_enabled current), sm)
             | (Inl e, sm) \<Rightarrow> (UpRefused [display_error e], sm)))"

fun update_each ::
  "'key skill_env \<Rightarrow> (string \<Rightarrow> skill_io) \<Rightarrow> installed_skill list \<Rightarrow> 'key skill_manager \<Rightarrow> (string \<times> update_outcome) list \<times> 'key skill_manager" where
  "update_each ke ios [] sm = ([], sm)"
| "update_each ke ios (s # ss) sm =
     (case update_one ke (ios (is_id s)) s sm of
        (outcome, sm) \<Rightarrow> (case update_each ke ios ss sm of (outcomes, sm) \<Rightarrow> ((is_id s, outcome) # outcomes, sm)))"

definition update_skills ::
  "'key skill_env \<Rightarrow> (string \<Rightarrow> skill_io) \<Rightarrow> string option \<Rightarrow> 'key skill_manager \<Rightarrow> (string \<times> update_outcome) list \<times> 'key skill_manager" where
  "update_skills ke ios only sm =
     update_each ke ios
       (filter (\<lambda>s. (case only of None \<Rightarrow> True | Some i \<Rightarrow> is_id s = i) \<and> \<not> prefix ''generated:'' (mf_source (is_manifest s)))
         (sm_installed sm)) sm"

definition install_generated ::
  "'key skill_env \<Rightarrow> skill_io \<Rightarrow> generated_skill \<Rightarrow> 'key skill_manager \<Rightarrow> installed_skill result \<times> 'key skill_manager" where
  "install_generated ke io g sm =
     (let m = gk_manifest g; dbg = ke_dbg ke in
      case check_id dbg (mf_id m) of
        Inl e \<Rightarrow> (Inl e, sm)
      | Inr _ \<Rightarrow>
          let m = m\<lparr>mf_trust := Untrusted\<rparr>; report = validate_manifest dbg m in
          (case stage_dir io of
             Inl e \<Rightarrow> (Inl e, sm)
           | Inr _ \<Rightarrow>
               let files = [(manifest_file, FsFile (toml_manifest dbg m))] in
               (case gather_evidence dbg (ke_crypto ke) files None ([] :: 'key trusted_keys) of
                  Inl e \<Rightarrow> (Inl e, sm)
                | Inr ev \<Rightarrow>
                    commit_skill ke io
                      \<lparr>sd_manifest = m, sd_report = report, sd_evidence = ev, sd_registry = ''generated:'' @ gk_generated_by g,
                       sd_files = Some files\<rparr> False sm)))"

definition skills_from_config ::
  "'key skill_env \<Rightarrow> skill_codecs \<Rightarrow> (string \<Rightarrow> string + 'key) \<Rightarrow> skill_world \<Rightarrow> (path \<Rightarrow> fs_dir) \<Rightarrow> skills_config \<Rightarrow> path \<Rightarrow>
   ('key skill_manager \<times> string list) result" where
  "skills_from_config ke kc parse_key w disk config workspace =
     (let dot_cuma = path_join workspace ''.cuma'';
          (entries, warnings) = configured_entries (kc_dbg kc) dot_cuma (sk_registries config);
          install_dir = (case sk_install_dir config of None \<Rightarrow> path_join dot_cuma ''skills'' | Some p \<Rightarrow> p) in
      result_bind (keys_from_config (cy_base64 (ke_crypto ke)) parse_key (sk_trusted_keys config) []) (\<lambda>keys.
      result_bind (with_install_dir ke install_dir (disk install_dir) (new_skill_manager config (map (open_registry kc w) entries))) (\<lambda>sm.
        Inr (sm\<lparr>sm_keys := keys\<rparr>, warnings))))"

section \<open>The manager as a state machine\<close>

datatype skill_request =
    InstallSkill string | SatisfyGap capability | RemoveSkill string | EnableSkill string bool
  | UpdateSkills "string option" | InstallGenerated generated_skill

text \<open>
  One request, with the world the registries see while it is served and the faults of the file operations on each
  skill.
\<close>

type_synonym skill_call = "skill_request \<times> skill_world \<times> (string \<Rightarrow> skill_io)"

definition skill_step ::
  "'key skill_env \<Rightarrow> skill_codecs \<Rightarrow> registry_entry list \<Rightarrow> skill_call \<Rightarrow> 'key skill_manager \<Rightarrow> 'key skill_manager" where
  "skill_step ke kc entries call sm =
     (case call of (request, w, ios) \<Rightarrow>
        let sm = sm\<lparr>sm_registries := map (open_registry kc w) entries\<rparr> in
        case request of
          InstallSkill i \<Rightarrow> snd (install_skill ke (ios i) i sm)
        | SatisfyGap c \<Rightarrow> snd (satisfy ke (ios []) c sm)
        | RemoveSkill i \<Rightarrow> snd (remove_skill ke (ios i) i sm)
        | EnableSkill i b \<Rightarrow> snd (set_skill_enabled ke (ios i) i b sm)
        | UpdateSkills only \<Rightarrow> snd (update_skills ke ios only sm)
        | InstallGenerated g \<Rightarrow> snd (install_generated ke (ios (mf_id (gk_manifest g))) g sm))"

section \<open>What is installed\<close>

definition harmless_permission :: "string \<Rightarrow> bool" where
  "harmless_permission p \<longleftrightarrow>
     \<not> list_ex (\<lambda>d. prefix d (to_ascii_lowercase (trim p))) dangerous_permissions \<and> \<not> list_ex (str_contains p) escape_patterns"

text \<open>Someone whose key is configured signed these very files.\<close>

definition signed_by_key :: "'key skill_env \<Rightarrow> 'key trusted_keys \<Rightarrow> installed_skill \<Rightarrow> bool" where
  "signed_by_key ke keys s \<longleftrightarrow>
     (\<exists>name key digest bytes. is_signed_by s = Some name \<and> bt_get keys name = Some key \<and> is_digest s = Some digest \<and>
        length bytes = 64 \<and> cy_verify (ke_crypto ke) key digest bytes)"

definition skill_ok :: "'key skill_env \<Rightarrow> string \<Rightarrow> 'key trusted_keys \<Rightarrow> installed_skill \<Rightarrow> bool" where
  "skill_ok ke v keys s \<longleftrightarrow>
     (is_enabled s \<longrightarrow> mf_trust (is_manifest s) \<noteq> Untrusted) \<and>
     (mf_trust (is_manifest s) = Trusted \<longrightarrow> shipped v (is_manifest s) \<or> signed_by_key ke keys s) \<and>
     (mf_trust (is_manifest s) = Verified \<longrightarrow> (\<exists>digest. is_digest s = Some digest \<and> mf_checksum (is_manifest s) = Some digest)) \<and>
     list_all harmless_permission (mf_requested_permissions (is_manifest s)) \<and> check_id (ke_dbg ke) (is_id s) = Inr ()"

definition manager_ok :: "'key skill_env \<Rightarrow> string \<Rightarrow> 'key skill_manager \<Rightarrow> bool" where
  "manager_ok ke v sm \<longleftrightarrow>
     sorted_wrt (<) (map is_id (sm_installed sm)) \<and> list_all (skill_ok ke v (sm_keys sm)) (sm_installed sm) \<and>
     list_all (\<lambda>(_, g). sg_trust g \<noteq> Untrusted) (sm_guides sm)"

lemma permitted_harmless: "blockers_of dbg m ev = [] \<Longrightarrow> list_all harmless_permission (mf_requested_permissions m)"
  using permitted_facts [of dbg m ev] by (auto simp: harmless_permission_def list_all_iff list_ex_iff)

lemma shipped_trusted: "shipped v m \<Longrightarrow> mf_trust m = Trusted"
  by (auto simp: shipped_def builtin_skills_def builtin_skill_def Let_def)

lemma shipped_keeps [simp]: "shipped v m \<Longrightarrow> m\<lparr>mf_trust := Trusted\<rparr> = m"
  using shipped_trusted [of v m] by (cases m) simp

lemma first_offering_in: "first_offering i rs = Some (r, m) \<Longrightarrow> r \<in> set rs \<and> rg_inspect r i = Inr m"
  by (induction rs) (auto split: sum.splits)

lemma locate_skill_in: "locate_skill sm i prefer = Some (r, m) \<Longrightarrow> r \<in> set (sm_registries sm)"
  by (auto simp: locate_skill_def prefer_order_def dest!: first_offering_in)

lemma staged_evidence_facts:
  assumes "staged_evidence ke sm f d = Inr ev"
  shows "ev_published_digest ev = fd_published_digest f"
    "ev_signature ev = Some (SigValid name) \<Longrightarrow>
       \<exists>key digest bytes. bt_get (sm_keys sm) name = Some key \<and> ev_digest ev = Some digest \<and> length bytes = 64 \<and>
         cy_verify (ke_crypto ke) key digest bytes"
  using assms
  by (auto simp: staged_evidence_def gather_evidence_def no_evidence_def Let_def dest!: check_signature_valid split: if_splits sum.splits)
    blast

text \<open>What is staged and permitted may be recorded.\<close>

definition recordable :: "'key skill_env \<Rightarrow> string \<Rightarrow> 'key trusted_keys \<Rightarrow> staged_skill \<Rightarrow> bool \<Rightarrow> bool" where
  "recordable ke v keys sd enabled \<longleftrightarrow> (vr_permitted (sd_report sd) \<longrightarrow> (\<forall>io. skill_ok ke v keys (record_of io sd enabled)))"

lemma check_id_unit: "check_id dbg i = Inr x \<longleftrightarrow> check_id dbg i = Inr ()"
  by simp

lemma stage_skill_facts:
  assumes "stage_skill ke io sm i prefer = Inr sd" "\<And>r. r \<in> set (sm_registries sm) \<Longrightarrow> skill_source r (shipped v)"
  shows "mf_id (sd_manifest sd) = i" "vr_trust (sd_report sd) = mf_trust (sd_manifest sd)"
    "enabled \<longrightarrow> mf_trust (sd_manifest sd) \<noteq> Untrusted \<Longrightarrow> recordable ke v (sm_keys sm) sd enabled"
proof -
  obtain r m f d ev where ids: "check_id (ke_dbg ke) i = Inr ()" "mf_id (fd_manifest f) = i"
    and r: "locate_skill sm i prefer = Some (r, m)" "rg_fetch r i = Inr (f, d)" and ev: "staged_evidence ke sm f d = Inr ev"
    and sd: "sd = \<lparr>sd_manifest = (fd_manifest f)\<lparr>mf_trust := derived_trust (fd_manifest f) ev\<rparr>,
        sd_report = assess_fetched (ke_dbg ke) (fd_manifest f) ev, sd_evidence = ev, sd_registry = rg_name r,
        sd_files = (if fd_has_files f then Some d else None)\<rparr>"
    using assms(1) by (auto simp: stage_skill_def Let_def split: option.splits if_splits)
  show "mf_id (sd_manifest sd) = i" "vr_trust (sd_report sd) = mf_trust (sd_manifest sd)" by (simp_all add: sd ids)
  have source: "skill_source r (shipped v)" by (rule assms(2)) (rule locate_skill_in [OF r(1)])
  assume en: "enabled \<longrightarrow> mf_trust (sd_manifest sd) \<noteq> Untrusted"
  show "recordable ke v (sm_keys sm) sd enabled"
    unfolding recordable_def
  proof (intro impI allI)
    fix io
    assume "vr_permitted (sd_report sd)"
    then have "blockers_of (ke_dbg ke) ((fd_manifest f)\<lparr>mf_trust := Trusted\<rparr>) ev = []"
      by (simp add: sd assess_fetched_def permitted_iff)
    from permitted_harmless [OF this] have perms: "list_all harmless_permission (mf_requested_permissions (fd_manifest f))" by simp
    have trusted: "shipped v (fd_manifest f) \<or> signed_by_key ke (sm_keys sm) (record_of io sd enabled)"
      if "derived_trust (fd_manifest f) ev = Trusted"
      using skill_source.trusted_source [OF source r(2) that] staged_evidence_facts(2) [OF ev]
      by (auto simp: signed_by_key_def record_of_def sd)
    moreover have "\<exists>digest. ev_digest ev = Some digest \<and> mf_checksum (fd_manifest f) = Some digest"
      if "derived_trust (fd_manifest f) ev = Verified"
      by (rule skill_source.verified_source [OF source r(2) that staged_evidence_facts(1) [OF ev]])
    ultimately show "skill_ok ke v (sm_keys sm) (record_of io sd enabled)"
      using en perms ids by (auto simp: skill_ok_def record_of_def sd)
  qed
qed

section \<open>Every request keeps it\<close>

lemma guides_trusted:
  "list_all (skill_ok ke v keys) installed \<Longrightarrow> list_all (\<lambda>(_, g). sg_trust g \<noteq> Untrusted) (sm_guides (rebuild_guides ke installed sm))"
  by (auto simp: rebuild_guides_def list_all_iff in_map_filter guide_of_def skill_ok_def bind_eq_Some_conv split: if_splits)

lemma rebuild_guides_keeps [simp]:
  "sm_config (rebuild_guides ke l sm) = sm_config sm" "sm_registries (rebuild_guides ke l sm) = sm_registries sm"
  "sm_keys (rebuild_guides ke l sm) = sm_keys sm" "sm_install_dir (rebuild_guides ke l sm) = sm_install_dir sm"
  "sm_installed (rebuild_guides ke l sm) = sm_installed sm" "sm_disk (rebuild_guides ke l sm) = sm_disk sm"
  by (simp_all add: rebuild_guides_def)

lemma save_installed_keeps [simp]:
  "sm_config (snd (save_installed ke io sm)) = sm_config sm" "sm_registries (snd (save_installed ke io sm)) = sm_registries sm"
  "sm_keys (snd (save_installed ke io sm)) = sm_keys sm" "sm_install_dir (snd (save_installed ke io sm)) = sm_install_dir sm"
  "sm_installed (snd (save_installed ke io sm)) = sm_installed sm"
  "sm_guides (snd (save_installed ke io sm)) = sm_guides (rebuild_guides ke (sm_installed sm) sm)"
  by (simp_all add: save_installed_def Let_def split: prod.splits)

lemma save_installed_ok:
  assumes "sorted_wrt (<) (map is_id (sm_installed sm))" "list_all (skill_ok ke v (sm_keys sm)) (sm_installed sm)"
  shows "manager_ok ke v (snd (save_installed ke io sm))"
  using assms guides_trusted [OF assms(2)] by (simp add: manager_ok_def)

lemma add_record_set: "set (add_record s l) = insert s {t \<in> set l. is_id t \<noteq> is_id s}"
  by (auto simp: add_record_def)

lemma add_record_sorted: "sorted_wrt (<) (map is_id l) \<Longrightarrow> sorted_wrt (<) (map is_id (add_record s l))"
proof -
  assume l: "sorted_wrt (<) (map is_id l)"
  then have "distinct (map is_id (filter (\<lambda>t. is_id t \<noteq> is_id s) l @ [s]))"
    by (auto simp: strict_sorted_iff distinct_map_filter)
  moreover have "mset (map is_id (add_record s l)) = mset (map is_id (filter (\<lambda>t. is_id t \<noteq> is_id s) l @ [s]))"
    by (simp add: add_record_def)
  ultimately have "distinct (map is_id (add_record s l))" using mset_eq_imp_distinct_iff by blast
  moreover have "sorted (map is_id (add_record s l))" by (simp add: add_record_def)
  ultimately show ?thesis by (simp add: strict_sorted_iff)
qed

lemma snd_case_result [simp]:
  "snd (case p of (Inl e, x) \<Rightarrow> (f e, x) | (Inr y, x) \<Rightarrow> (g y, x)) = snd p"
  by (simp split: prod.split sum.split)

lemma commit_skill_state:
  "(\<exists>disk. snd (commit_skill ke io sd enabled sm) = sm\<lparr>sm_disk := disk\<rparr>) \<or>
   vr_permitted (sd_report sd) \<and> (\<exists>disk. snd (commit_skill ke io sd enabled sm) =
      snd (save_installed ke io (sm\<lparr>sm_disk := disk, sm_installed := add_record (record_of io sd enabled) (sm_installed sm)\<rparr>)))"
proof (cases "vr_permitted (sd_report sd)")
  case True
  obtain r disk where *: "place_staged io sd sm = (r, disk)" by fastforce
  show ?thesis by (cases r) (auto simp: commit_skill_def Let_def True *)
next
  case False
  then have "snd (commit_skill ke io sd enabled sm) = sm\<lparr>sm_disk := sm_disk sm\<rparr>" by (simp add: commit_skill_def Let_def)
  then show ?thesis by blast
qed

lemma commit_skill_keeps [simp]:
  "sm_config (snd (commit_skill ke io sd enabled sm)) = sm_config sm"
  "sm_registries (snd (commit_skill ke io sd enabled sm)) = sm_registries sm"
  "sm_keys (snd (commit_skill ke io sd enabled sm)) = sm_keys sm"
  using commit_skill_state [of ke io sd enabled sm] by auto

lemma commit_skill_ok:
  assumes "manager_ok ke v sm" "recordable ke v (sm_keys sm) sd enabled"
  shows "manager_ok ke v (snd (commit_skill ke io sd enabled sm))"
proof -
  have "manager_ok ke v (snd (save_installed ke io (sm\<lparr>sm_disk := disk, sm_installed := add_record (record_of io sd enabled) (sm_installed sm)\<rparr>)))"
    if "vr_permitted (sd_report sd)" for disk
    using assms that by (intro save_installed_ok)
      (auto simp: manager_ok_def recordable_def list_all_iff add_record_set intro!: add_record_sorted)
  moreover have "manager_ok ke v (sm\<lparr>sm_disk := disk\<rparr>)" for disk using assms(1) by (simp add: manager_ok_def)
  ultimately show ?thesis using commit_skill_state [of ke io sd enabled sm] by auto
qed

text \<open>The registries a manager asks, each with its promise.\<close>

definition sources_ok :: "string \<Rightarrow> 'key skill_manager \<Rightarrow> bool" where
  "sources_ok v sm \<longleftrightarrow> (\<forall>r \<in> set (sm_registries sm). skill_source r (shipped v))"

lemma sources_okD: "sources_ok v sm \<Longrightarrow> r \<in> set (sm_registries sm) \<Longrightarrow> skill_source r (shipped v)"
  by (simp add: sources_ok_def)

lemma install_skill_ok: "manager_ok ke v sm \<Longrightarrow> sources_ok v sm \<Longrightarrow> manager_ok ke v (snd (install_skill ke io i sm))"
  by (auto simp: install_skill_def split: sum.splits intro!: commit_skill_ok stage_skill_facts(3) dest: sources_okD)

lemma may_auto_install_trust: "may_auto_install t policy \<Longrightarrow> t \<noteq> Untrusted"
  by (auto simp: may_auto_install_def split: skill_auto_install.splits)

lemma satisfy_ok:
  assumes "manager_ok ke v sm" "sources_ok v sm"
  shows "manager_ok ke v (snd (satisfy ke io c sm))"
proof -
  have "manager_ok ke v (snd (commit_skill ke io sd True sm))"
    if "stage_skill ke io sm i None = Inr sd" "may_auto_install (vr_trust (sd_report sd)) policy" for i sd policy
    using stage_skill_facts(2,3) [OF that(1) sources_okD [OF assms(2)]] may_auto_install_trust [OF that(2)]
    by (intro commit_skill_ok assms(1)) simp
  with assms(1) show ?thesis
    by (auto simp: satisfy_def split: sum.splits option.splits prod.splits if_splits)
qed

lemma manager_ok_fewer: "manager_ok ke v sm \<Longrightarrow> manager_ok ke v (sm\<lparr>sm_installed := filter P (sm_installed sm)\<rparr>)"
  by (auto simp: manager_ok_def list_all_iff sorted_wrt_map intro: sorted_wrt_filter)

lemma manager_ok_disk [simp]: "manager_ok ke v (sm\<lparr>sm_disk := disk\<rparr>) \<longleftrightarrow> manager_ok ke v sm"
  by (simp add: manager_ok_def)

lemma save_keeps_ok: "manager_ok ke v sm \<Longrightarrow> manager_ok ke v (snd (save_installed ke io sm))"
  by (auto simp: manager_ok_def dest: guides_trusted)

lemma remove_skill_state:
  "\<exists>disk. snd (remove_skill ke io i sm) = sm\<lparr>sm_installed := filter (\<lambda>s. is_id s \<noteq> i) (sm_installed sm), sm_disk := disk\<rparr> \<or>
     snd (remove_skill ke io i sm) =
       snd (save_installed ke io (sm\<lparr>sm_installed := filter (\<lambda>s. is_id s \<noteq> i) (sm_installed sm), sm_disk := disk\<rparr>))"
proof -
  define sm1 where "sm1 = sm\<lparr>sm_installed := filter (\<lambda>s. is_id s \<noteq> i) (sm_installed sm)\<rparr>"
  obtain r disk where *: "remove_files ke io i sm1 = (r, disk)" by fastforce
  show ?thesis
  proof (cases "length (filter (\<lambda>s. is_id s \<noteq> i) (sm_installed sm)) = length (sm_installed sm)")
    case True
    then have "snd (remove_skill ke io i sm) = sm1\<lparr>sm_disk := sm_disk sm\<rparr>" by (simp add: remove_skill_def Let_def sm1_def)
    then show ?thesis by (intro exI [of _ "sm_disk sm"]) (simp add: sm1_def)
  next
    case False
    then show ?thesis
      by (cases r; intro exI [of _ disk]) (simp_all add: remove_skill_def Let_def sm1_def [symmetric] *)
  qed
qed

lemma remove_skill_ok: "manager_ok ke v sm \<Longrightarrow> manager_ok ke v (snd (remove_skill ke io i sm))"
  using remove_skill_state [of ke io i sm] manager_ok_fewer [of ke v sm] by (auto intro!: save_keeps_ok)

lemma enable_first_ids [simp]: "map is_id (enable_first i b l) = map is_id l"
  by (induction l) auto

lemma skill_ok_enable: "skill_ok ke v keys s \<Longrightarrow> \<not> (b \<and> mf_trust (is_manifest s) = Untrusted) \<Longrightarrow> skill_ok ke v keys (s\<lparr>is_enabled := b\<rparr>)"
  by (simp add: skill_ok_def signed_by_key_def)

lemma enable_first_ok:
  "list_all (skill_ok ke v keys) l \<Longrightarrow> List.find (\<lambda>s. is_id s = i) l = Some s \<Longrightarrow> \<not> (b \<and> mf_trust (is_manifest s) = Untrusted) \<Longrightarrow>
   list_all (skill_ok ke v keys) (enable_first i b l)"
  by (induction l) (auto intro: skill_ok_enable split: if_splits)

lemma set_skill_enabled_ok: "manager_ok ke v sm \<Longrightarrow> manager_ok ke v (snd (set_skill_enabled ke io i b sm))"
  by (auto simp: set_skill_enabled_def manager_ok_def split: option.splits intro: guides_trusted enable_first_ok)

lemma update_one_ok:
  assumes "manager_ok ke v sm" "sources_ok v sm" "skill_ok ke v (sm_keys sm) s"
  shows "manager_ok ke v (snd (update_one ke io s sm))"
proof -
  have "manager_ok ke v (snd (commit_skill ke io sd (is_enabled s \<and> \<not> mf_trust (is_manifest s) < mf_trust (sd_manifest sd)) sm))"
    if "stage_skill ke io sm i pf = Inr sd" for i pf sd
  proof (intro commit_skill_ok assms(1) stage_skill_facts(3) [OF that sources_okD [OF assms(2)]])
    show "is_enabled s \<and> \<not> mf_trust (is_manifest s) < mf_trust (sd_manifest sd) \<longrightarrow> mf_trust (sd_manifest sd) \<noteq> Untrusted"
      using assms(3) by (auto simp: skill_ok_def not_less)
  qed
  with assms(1) show ?thesis by (simp add: update_one_def Let_def split: sum.splits)
qed

lemma update_one_keeps [simp]:
  "sm_registries (snd (update_one ke io s sm)) = sm_registries sm" "sm_keys (snd (update_one ke io s sm)) = sm_keys sm"
  by (simp_all add: update_one_def Let_def split: sum.splits)

lemma update_each_ok:
  "manager_ok ke v sm \<Longrightarrow> sources_ok v sm \<Longrightarrow> list_all (skill_ok ke v (sm_keys sm)) ss \<Longrightarrow>
   manager_ok ke v (snd (update_each ke ios ss sm))"
proof (induction ss arbitrary: sm)
  case (Cons s ss)
  from Cons.prems have "manager_ok ke v (snd (update_one ke (ios (is_id s)) s sm))" by (simp add: update_one_ok)
  then have "manager_ok ke v (snd (update_each ke ios ss (snd (update_one ke (ios (is_id s)) s sm))))"
    using Cons.prems by (intro Cons.IH) (simp_all add: sources_ok_def)
  then show ?case by (simp add: case_prod_unfold)
qed simp

lemma update_skills_ok: "manager_ok ke v sm \<Longrightarrow> sources_ok v sm \<Longrightarrow> manager_ok ke v (snd (update_skills ke ios only sm))"
  unfolding update_skills_def by (rule update_each_ok) (auto simp: manager_ok_def list_all_iff)

lemma generated_recordable:
  assumes "check_id (ke_dbg ke) (mf_id m) = Inr ()" "mf_trust m = Untrusted"
  shows "recordable ke v keys \<lparr>sd_manifest = m, sd_report = validate_manifest (ke_dbg ke) m, sd_evidence = ev, sd_registry = r, sd_files = fs\<rparr> False"
  using assms permitted_harmless [of "ke_dbg ke" m no_evidence]
  by (auto simp: recordable_def skill_ok_def record_of_def validate_manifest_def permitted_iff)

lemma install_generated_ok: "manager_ok ke v sm \<Longrightarrow> manager_ok ke v (snd (install_generated ke io g sm))"
  by (auto simp: install_generated_def Let_def split: sum.splits intro!: commit_skill_ok generated_recordable)

lemma skill_step_ok:
  assumes "manager_ok ke (kc_version kc) sm" "list_all entry_secure entries"
  shows "manager_ok ke (kc_version kc) (skill_step ke kc entries call sm)"
proof -
  obtain request w ios where call: "call = (request, w, ios)" by (cases call)
  define sm1 where "sm1 = sm\<lparr>sm_registries := map (open_registry kc w) entries\<rparr>"
  have "manager_ok ke (kc_version kc) sm1" using assms(1) by (simp add: manager_ok_def sm1_def)
  moreover have "sources_ok (kc_version kc) sm1"
    using assms(2) by (auto simp: sources_ok_def sm1_def list_all_iff intro: secure_registry)
  ultimately show ?thesis
    by (cases request)
      (simp_all add: skill_step_def call Let_def sm1_def [symmetric] install_skill_ok satisfy_ok remove_skill_ok
        set_skill_enabled_ok update_skills_ok install_generated_ok)
qed

interpretation skill_runs: step_system
  "\<lambda>sm. sm_installed sm = [] \<and> sm_guides sm = []"
  "skill_step ke kc (fst (configured_entries dbg dot_cuma es))"
  "manager_ok ke (kc_version kc)" for ke kc dbg dot_cuma es
proof unfold_locales
  show "sm_installed sm = [] \<and> sm_guides sm = [] \<Longrightarrow> manager_ok ke (kc_version kc) sm" for sm :: "'a skill_manager"
    by (simp add: manager_ok_def)
qed (rule skill_step_ok [OF _ configured_entries_secure])

section \<open>What each request does\<close>

text \<open>Only what is in place as a directory counts for a guide, so the record's own files do not matter.\<close>

lemma write_lockfile_disk:
  assumes "write_lockfile ke io l disk = (r, disk')"
  shows "disk' = disk \<or> \<not> entry_is_dir (skill_lockfile @ ''.tmp'') disk \<and>
    (disk' = AList.update (skill_lockfile @ ''.tmp'') (FsFile (ke_to_json ke l)) disk \<or>
     \<not> entry_is_dir skill_lockfile disk \<and> disk' = AList.update skill_lockfile (FsFile (ke_to_json ke l)) (AList.delete (skill_lockfile @ ''.tmp'') disk))"
  using assms by (simp add: write_lockfile_def Let_def split: if_splits option.splits)

lemma dir_at_file: "\<not> entry_is_dir n disk \<Longrightarrow> dir_at (AList.update n (FsFile b) disk) = dir_at disk"
  "\<not> entry_is_dir n disk \<Longrightarrow> dir_at (AList.delete n disk) = dir_at disk"
  by (auto simp: fun_eq_iff dir_at_def entry_is_dir_def update_conv' delete_conv' split: option.splits fs_node.splits)

lemma entry_is_dir_delete: "\<not> entry_is_dir n disk \<Longrightarrow> \<not> entry_is_dir n (AList.delete m disk)"
  by (simp add: entry_is_dir_def delete_conv' split: option.split)

lemma write_lockfile_dirs: "write_lockfile ke io l disk = (r, disk') \<Longrightarrow> dir_at disk' = dir_at disk"
  by (drule write_lockfile_disk) (auto simp: dir_at_file entry_is_dir_delete)

lemma rebuild_guides_eq:
  "sm_guides (rebuild_guides ke l sm) =
     (if sm_install_dir sm = None then [] else List.map_filter (guide_of ke (sm_disk sm)) (filter is_enabled l))"
  by (simp add: rebuild_guides_def)

text \<open>What was saved is what the next process reads: the record and the guides.\<close>

lemma saved_then_loaded:
  assumes "save_installed ke io sm = (Inr (), sm')" "sm_install_dir sm = Some p"
    and json: "ke_from_json ke (ke_to_json ke (sm_installed sm)) = Inr (sm_installed sm)" "ke_utf8 ke (ke_to_json ke (sm_installed sm))"
  shows "\<exists>fresh. with_install_dir ke p (sm_disk sm') new = Inr fresh \<and> sm_installed fresh = sm_installed sm \<and> sm_guides fresh = sm_guides sm'"
proof -
  obtain disk where disk: "write_lockfile ke io (sm_installed sm) (sm_disk sm) = (Inr (), disk)"
    and sm': "sm' = (rebuild_guides ke (sm_installed sm) sm)\<lparr>sm_disk := disk\<rparr>"
    using assms(1,2) by (auto simp: save_installed_def Let_def split: prod.splits)
  have "dir_file skill_lockfile disk = Some (ke_to_json ke (sm_installed sm))"
    using disk by (auto simp: write_lockfile_def Let_def dir_file_def update_conv' split: if_splits option.splits)
  moreover have "guide_of ke disk = guide_of ke (sm_disk sm)"
    unfolding guide_of_def using write_lockfile_dirs [OF disk] by simp
  ultimately show ?thesis
    using assms(2) json
    by (simp add: with_install_dir_def sm' rebuild_guides_eq)
qed

text \<open>A commit that succeeds has saved a manager whose record holds the skill.\<close>

lemma commit_skill_done:
  assumes "commit_skill ke io sd enabled sm = (Inr s, sm')"
  shows "s = record_of io sd enabled \<and> vr_permitted (sd_report sd) \<and>
    (\<exists>disk. save_installed ke io (sm\<lparr>sm_disk := disk, sm_installed := add_record s (sm_installed sm)\<rparr>) = (Inr (), sm'))"
  using assms by (auto simp: commit_skill_def Let_def split: if_splits prod.splits sum.splits)

lemma satisfy_changes:
  assumes "satisfy ke io c sm = (outcome, sm')" "sm_installed sm' \<noteq> sm_installed sm"
    and sources: "sources_ok v sm"
  shows "sk_enabled (sm_config sm) \<and> (\<exists>s. sm_installed sm' = add_record s (sm_installed sm) \<and>
    may_auto_install (mf_trust (is_manifest s)) (sk_auto_install (sm_config sm)))"
proof -
  have sm': "sm' = snd (satisfy ke io c sm)" by (simp add: assms(1))
  have on: "sk_enabled (sm_config sm)" using assms(2) by (cases "sk_enabled (sm_config sm)") (auto simp: sm' satisfy_def)
  obtain m where m: "List.find (\<lambda>m. c \<in> set (mf_capabilities m)) (search_skills sm (display_capability c)) = Some m"
    using assms(2) on by (cases "List.find (\<lambda>m. c \<in> set (mf_capabilities m)) (search_skills sm (display_capability c))") (auto simp: sm' satisfy_def)
  obtain sd where sd: "stage_skill ke io sm (mf_id m) None = Inr sd"
    using assms(2) on m by (cases "stage_skill ke io sm (mf_id m) None") (auto simp: sm' satisfy_def)
  have may: "vr_permitted (sd_report sd)" "may_auto_install (vr_trust (sd_report sd)) (sk_auto_install (sm_config sm))"
    using assms(2) by (auto simp: sm' satisfy_def on m sd split: if_splits)
  have commit: "sm' = snd (commit_skill ke io sd True sm)" by (simp add: sm' satisfy_def on m sd may)
  have "vr_trust (sd_report sd) = mf_trust (sd_manifest sd)"
    by (rule stage_skill_facts(2) [OF sd sources_okD [OF sources]])
  moreover have "sm_installed sm' = add_record (record_of io sd True) (sm_installed sm)"
    using commit_skill_state [of ke io sd True sm] assms(2) commit by auto
  ultimately show ?thesis using on may(2) by (auto simp: record_of_def intro!: exI [of _ "record_of io sd True"])
qed

text \<open>An update that does not commit leaves the manager as it was.\<close>

lemma update_one_refused:
  assumes "update_one ke io s sm = (outcome, sm')" "sm' \<noteq> sm"
  shows "\<exists>sd. stage_skill ke io sm (is_id s) (Some (is_registry s)) = Inr sd \<and> vr_permitted (sd_report sd) \<and>
    sm' = snd (commit_skill ke io sd (is_enabled s \<and> mf_trust (sd_manifest sd) \<le> mf_trust (is_manifest s)) sm)"
proof -
  have sm': "sm' = snd (update_one ke io s sm)" by (simp add: assms(1))
  obtain sd where sd: "stage_skill ke io sm (is_id s) (Some (is_registry s)) = Inr sd"
    using assms(2) by (cases "stage_skill ke io sm (is_id s) (Some (is_registry s))") (auto simp: sm' update_one_def)
  then show ?thesis using assms(2) by (auto simp: sm' update_one_def Let_def not_less split: if_splits)
qed

text \<open>The most trusted guides come first, and all of them are relevant.\<close>

lemma guidance_facts:
  "sorted (map sg_trust (guidance_for sm caps))"
  "g \<in> set (guidance_for sm caps) \<Longrightarrow> \<exists>provides. (provides, g) \<in> set (sm_guides sm) \<and> (provides = [] \<or> set provides \<inter> set caps \<noteq> {})"
  by (auto simp: guidance_for_def list_ex_iff)

lemma installed_capabilities_set:
  "set (installed_capabilities sm) = (\<Union>s \<in> {s \<in> set (sm_installed sm). is_enabled s}. set (mf_capabilities (is_manifest s)))"
proof -
  have "set (fold (\<lambda>s acc. fold bs_insert (mf_capabilities (is_manifest s)) acc) ss acc) =
      set acc \<union> (\<Union>s \<in> set ss. set (mf_capabilities (is_manifest s)))" for ss :: "installed_skill list" and acc
    by (induction ss arbitrary: acc) (auto simp: set_fold_bs_insert)
  then show ?thesis by (simp add: installed_capabilities_def)
qed

section \<open>Runs keep the keys\<close>

lemma satisfy_state: "snd (satisfy ke io c sm) = sm \<or> (\<exists>sd. snd (satisfy ke io c sm) = snd (commit_skill ke io sd True sm))"
  by (auto simp: satisfy_def split: option.split sum.split)

lemma update_each_keys [simp]: "sm_keys (snd (update_each ke ios ss sm)) = sm_keys sm"
  by (induction ss arbitrary: sm) (simp_all add: case_prod_unfold)

lemma request_keys [simp]:
  "sm_keys (snd (install_skill ke io i sm)) = sm_keys sm" "sm_keys (snd (satisfy ke io c sm)) = sm_keys sm"
  "sm_keys (snd (remove_skill ke io i sm)) = sm_keys sm" "sm_keys (snd (set_skill_enabled ke io i b sm)) = sm_keys sm"
  "sm_keys (snd (update_skills ke ios only sm)) = sm_keys sm" "sm_keys (snd (install_generated ke io g sm)) = sm_keys sm"
proof -
  show "sm_keys (snd (install_skill ke io i sm)) = sm_keys sm" by (simp add: install_skill_def split: sum.split)
  show "sm_keys (snd (satisfy ke io c sm)) = sm_keys sm" using satisfy_state [of ke io c sm] by auto
  show "sm_keys (snd (remove_skill ke io i sm)) = sm_keys sm" using remove_skill_state [of ke io i sm] by auto
  show "sm_keys (snd (set_skill_enabled ke io i b sm)) = sm_keys sm" by (simp add: set_skill_enabled_def split: option.split)
  show "sm_keys (snd (update_skills ke ios only sm)) = sm_keys sm" by (simp add: update_skills_def)
  show "sm_keys (snd (install_generated ke io g sm)) = sm_keys sm" by (simp add: install_generated_def Let_def split: sum.split)
qed

lemma skill_step_keys [simp]: "sm_keys (skill_step ke kc entries call sm) = sm_keys sm"
  by (simp add: skill_step_def Let_def split: prod.split skill_request.split)

lemma skill_run_keys [simp]: "sm_keys (fold (skill_step ke kc entries) calls sm) = sm_keys sm"
  by (induction calls arbitrary: sm) simp_all

section \<open>Digests\<close>

text \<open>Where the hash has no collision, the same digest means the same files.\<close>

lemma content_digest_inj:
  assumes "content_digest sha256_hex lossy a = Inr d" "content_digest sha256_hex lossy b = Inr d"
    and "\<And>x y. sha256_hex x = sha256_hex y \<Longrightarrow> x = y"
    and "list_all (plain_file lossy) (node_files [] (FsDir a))" "list_all (plain_file lossy) (node_files [] (FsDir b))"
  shows "mset (node_files [] (FsDir a)) = mset (node_files [] (FsDir b))"
proof -
  obtain fs gs where fs: "skill_files a = Inr fs" and gs: "skill_files b = Inr gs"
    and eq: "sha256_hex (digest_input lossy fs) = sha256_hex (digest_input lossy gs)"
    using assms(1,2) by (auto simp: content_digest_def split: sum.splits)
  note exact = skill_files_exact(1) [OF fs] skill_files_exact(1) [OF gs]
  have "list_all (plain_file lossy) fs" "list_all (plain_file lossy) gs"
    using assms(4,5) mset_eq_setD [OF exact(1)] mset_eq_setD [OF exact(2)] by (simp_all add: list_all_iff)
  then have "fs = gs" using assms(3) [OF eq] by (blast intro: digest_input_inj)
  then show ?thesis using exact by simp
qed

end
