(* ===== verification/Skill_Faults.thy ===== *)
theory Skill_Faults
  imports Skills
begin

text \<open>
  What the skill manager does when a file operation fails, or a name collides with its own files: lemmas on the
  operations of \<open>Skills\<close> under faults.
\<close>

section \<open>When the disk gets in the way\<close>

lemma stage_skill_id: "stage_skill ke io sm i prefer = Inr sd \<Longrightarrow> mf_id (sd_manifest sd) = i"
  by (auto simp: stage_skill_def Let_def split: option.splits if_splits)

lemma place_fails:
  assumes "dir_at disk i = Some d" "io_remove io = None" "io_place io = Some err"
  shows "replace_files io i files disk = (Inl (ESkill (''cannot install into '' @ i @ '': '' @ err)), AList.delete i disk)"
  using assms by (auto simp: replace_files_def remove_entry_def place_files_def dir_at_def split: option.splits fs_node.splits)

lemma write_lockfile_blocked: "entry_is_dir skill_lockfile disk \<Longrightarrow> fst (write_lockfile ke io l disk) \<noteq> Inr ()"
  by (simp add: write_lockfile_def Let_def split: option.split)

lemma record_replaced:
  assumes "stage_skill ke (no_faults now) sm skill_lockfile None = Inr sd" "vr_permitted (sd_report sd)" "sd_files sd = Some files"
    "sm_install_dir sm = Some p" "map_of (sm_disk sm) skill_lockfile = None" "map_of (sm_disk sm) (skill_lockfile @ ''.tmp'') = None"
    "mf_id (sd_manifest sd) = skill_lockfile"
  shows "\<exists>sm' r. install_skill ke (no_faults now) skill_lockfile sm = (Inl r, sm') \<and> entry_is_dir skill_lockfile (sm_disk sm')"
proof -
  have "place_staged (no_faults now) sd sm = (Inr (), AList.update skill_lockfile (FsDir files) (sm_disk sm))"
    using assms by (simp add: place_staged_def replace_files_def remove_entry_def place_files_def no_faults_def)
  then show ?thesis using assms
    by (auto simp: install_skill_def commit_skill_def Let_def save_installed_def write_lockfile_def no_faults_def entry_is_dir_def
        update_conv' split: prod.splits)
qed

text \<open>A removal that fails takes the skill off the record in memory and leaves its guide in use.\<close>

lemma failed_removal_keeps_guiding:
  assumes "s \<in> set (sm_installed sm)" "sm_install_dir sm = Some p" "check_id (ke_dbg ke) (is_id s) = Inr ()"
    "dir_at (sm_disk sm) (is_id s) = Some d" "io_remove io = Some (err, left)"
  shows "(\<exists>e. fst (remove_skill ke io (is_id s) sm) = Inl e) \<and> s \<notin> set (sm_installed (snd (remove_skill ke io (is_id s) sm))) \<and>
    guidance_for (snd (remove_skill ke io (is_id s) sm)) = guidance_for sm"
proof -
  have files: "\<exists>e disk. remove_files ke io (is_id s) (sm\<lparr>sm_installed := l\<rparr>) = (Inl e, disk)" for l
    using assms by (auto simp: remove_files_def remove_entry_def dir_at_def split: option.splits fs_node.splits)
  have "length (filter (\<lambda>t. is_id t \<noteq> is_id s) (sm_installed sm)) \<noteq> length (sm_installed sm)"
    using assms(1) by (metis (mono_tags, lifting) length_filter_less nat_neq_iff)
  with files [of "filter (\<lambda>t. is_id t \<noteq> is_id s) (sm_installed sm)"] show ?thesis
    by (auto simp: remove_skill_def Let_def guidance_for_def fun_eq_iff)
qed

text \<open>The record is taken at its word: what it says is installed, enabled and trusted guides agents, whatever its files are.\<close>

lemma record_is_believed:
  assumes "dir_file skill_lockfile disk = Some text" "ke_utf8 ke text" "ke_from_json ke text = Inr installed"
    "s \<in> set installed" "is_enabled s" "guide_of ke disk s = Some (provides, g)"
  shows "\<exists>sm. with_install_dir ke p disk new = Inr sm \<and> (provides, g) \<in> set (sm_guides sm) \<and> sg_trust g = mf_trust (is_manifest s)"
  using assms by (auto simp: with_install_dir_def rebuild_guides_eq in_map_filter guide_of_def bind_eq_Some_conv split: if_splits)

end
