(* ===== verification/Skill_Examples.thy ===== *)
theory Skill_Examples
  imports Skill_Faults "HOL-Library.Code_Target_Nat"
begin

text \<open>
  Concrete skill managers, on which the theorems about skills are seen to apply: one that installs a skill that
  ships, one with two skills of the same name, one whose disk is full, and one offered a skill named like the
  record.
\<close>

definition ex_crypto :: "unit crypto" where
  "ex_crypto = \<lparr>cy_base64 = Inr, cy_verify = (\<lambda>_ _ _. False), cy_sha256 = (\<lambda>s. s), cy_lossy = (\<lambda>s. s)\<rparr>"

definition ex_skill_env :: "unit skill_env" where
  "ex_skill_env =
     \<lparr>ke_dbg = (\<lambda>s. s), ke_crypto = ex_crypto, ke_utf8 = (\<lambda>_. True), ke_to_json = (\<lambda>_. ''[]''), ke_from_json = (\<lambda>_. Inr [])\<rparr>"

definition ex_codecs :: skill_codecs where
  "ex_codecs = \<lparr>kc_dbg = (\<lambda>s. s), kc_toml = (\<lambda>_. Inl ''none''), kc_json = (\<lambda>_. Inl ''none''), kc_version = ''1.0.0''\<rparr>"

definition ex_world :: skill_world where
  "ex_world = \<lparr>sw_directory = (\<lambda>_. None), sw_http = (\<lambda>_. Inl (ESkill ''offline'')), sw_checkout = (\<lambda>_. Inl (ESkill ''offline''))\<rparr>"

definition ex_manager :: "unit skill_manager" where
  "ex_manager = (new_skill_manager default_skills_config [])\<lparr>sm_install_dir := Some ''/skills''\<rparr>"

lemma ex_start_manager: "sm_installed ex_manager = []" "sm_guides ex_manager = []"
  by (simp_all add: ex_manager_def new_skill_manager_def)

text \<open>Asking for a skill that ships.\<close>

definition ex_call :: skill_call where
  "ex_call = (InstallSkill ''git-workflow'', ex_world, \<lambda>_. no_faults [])"

definition ex_ran :: "unit skill_manager" where
  "ex_ran = fold (skill_step ex_skill_env ex_codecs (fst (configured_entries (\<lambda>s. s) ''/w/.cuma'' [''builtin'', ''ftp://x'']))) [ex_call] ex_manager"

lemma ex_ran_installed: "map (\<lambda>s. (is_id s, is_enabled s)) (sm_installed ex_ran) = [(''git-workflow'', True)]"
  by code_simp

text \<open>Two registries with a skill of the same name.\<close>

definition ex_toml :: "string \<Rightarrow> string + raw_manifest" where
  "ex_toml _ = Inr \<lparr>rm_id = ''test-runner'', rm_name = ''mine'', rm_description = [], rm_version = ''1'', rm_capabilities = [''vision''],
     rm_permissions = [], rm_checksum = None, rm_signature = None\<rparr>"

definition ex_two_codecs :: skill_codecs where
  "ex_two_codecs = ex_codecs\<lparr>kc_toml := ex_toml\<rparr>"

definition ex_two_world :: skill_world where
  "ex_two_world = ex_world\<lparr>sw_directory := (\<lambda>_. Some [(''mine.toml'', FsFile [])])\<rparr>"

definition ex_registries :: "skill_registry list" where
  "ex_registries = map (open_registry ex_two_codecs ex_two_world) (fst (configured_entries (\<lambda>s. s) ''/w/.cuma'' [''builtin'', ''local'']))"

definition ex_satisfied :: "skill_outcome \<times> unit skill_manager" where
  "ex_satisfied = satisfy ex_skill_env (no_faults []) Vision (ex_manager\<lparr>sm_registries := ex_registries\<rparr>)"

lemma ex_satisfied_facts:
  "(case ex_satisfied of
      (GapInstalled m, sm) \<Rightarrow> mf_id m = ''test-runner'' \<and> Vision \<notin> set (mf_capabilities m) \<and>
        Vision \<notin> set (installed_capabilities sm) \<and> sm_installed sm \<noteq> []
    | _ \<Rightarrow> False)"
  by code_simp

lemma ex_satisfied_run:
  "\<exists>m sm. ex_satisfied = (GapInstalled m, sm) \<and> Vision \<notin> set (mf_capabilities m) \<and> Vision \<notin> set (installed_capabilities sm) \<and> sm_installed sm \<noteq> []"
proof (cases ex_satisfied)
  case (Pair out sm)
  show ?thesis using ex_satisfied_facts unfolding Pair by (cases out) simp_all
qed

text \<open>A record that is read back as it was written.\<close>

definition ex_builtin_manager :: "unit skill_manager" where
  "ex_builtin_manager = ex_manager\<lparr>sm_registries := map (open_registry ex_codecs ex_world) [BuiltinSkills]\<rparr>"

definition ex_saved :: "installed_skill result \<times> unit skill_manager" where
  "ex_saved = install_skill ex_skill_env (no_faults []) ''git-workflow'' ex_builtin_manager"

definition ex_disk_env :: "unit skill_env" where
  "ex_disk_env = ex_skill_env\<lparr>ke_from_json := (\<lambda>_. Inr (sm_installed (snd ex_saved)))\<rparr>"

lemma install_ignores_decoder: "install_skill (ke\<lparr>ke_from_json := f\<rparr>) io i sm = install_skill ke io i sm"
proof -
  have guide: "guide_of (ke\<lparr>ke_from_json := f\<rparr>) = guide_of ke" by (rule ext)+ (simp add: guide_of_def)
  have "write_lockfile (ke\<lparr>ke_from_json := f\<rparr>) = write_lockfile ke" by (rule ext)+ (simp add: write_lockfile_def)
  then have save: "save_installed (ke\<lparr>ke_from_json := f\<rparr>) = save_installed ke"
    by (intro ext) (simp add: save_installed_def rebuild_guides_def Let_def guide)
  have "staged_evidence (ke\<lparr>ke_from_json := f\<rparr>) = staged_evidence ke" by (rule ext)+ (simp add: staged_evidence_def)
  then have stage: "stage_skill (ke\<lparr>ke_from_json := f\<rparr>) = stage_skill ke"
    by (intro ext) (simp add: stage_skill_def cong del: option.case_cong_weak if_weak_cong let_weak_cong)
  have "commit_skill (ke\<lparr>ke_from_json := f\<rparr>) = commit_skill ke"
    by (intro ext) (simp add: commit_skill_def save cong del: sum.case_cong_weak if_weak_cong let_weak_cong)
  then show ?thesis by (simp add: install_skill_def stage split: sum.split)
qed

lemma ex_saved_facts: "isl (fst ex_saved) = False"
  by code_simp

lemma ex_saved_run: "\<exists>s. ex_saved = (Inr s, snd ex_saved)"
proof (cases ex_saved)
  case (Pair r sm)
  show ?thesis using ex_saved_facts unfolding Pair by (cases r) simp_all
qed

lemma ex_disk_run: "install_skill ex_disk_env (no_faults []) ''git-workflow'' ex_builtin_manager = ex_saved"
  by (simp add: ex_disk_env_def install_ignores_decoder ex_saved_def)

text \<open>A rename that fails.\<close>

definition ex_old :: installed_skill where
  "ex_old = \<lparr>is_manifest = builtin_skill ''0.9'' ''git-workflow'' ''Git'' [] [VersionControl] [], is_digest = Some ''old'', is_signed_by = None,
     is_registry = ''builtin'', is_enabled = True, is_installed_at = []\<rparr>"

definition ex_with_old :: "unit skill_manager" where
  "ex_with_old = ex_builtin_manager\<lparr>sm_installed := [ex_old],
     sm_disk := [(''git-workflow'', FsDir [(instructions_file, FsFile ''old'')])]\<rparr>"

definition ex_no_rename :: skill_io where
  "ex_no_rename = (no_faults [])\<lparr>io_place := Some ''disk full''\<rparr>"

definition ex_staged :: staged_skill where
  "ex_staged = projr (stage_skill ex_skill_env ex_no_rename ex_with_old ''git-workflow'' (Some ''builtin''))"

lemma ex_staged_facts:
  "stage_skill ex_skill_env ex_no_rename ex_with_old (is_id ex_old) (Some (is_registry ex_old)) = Inr ex_staged \<and>
   vr_permitted (sd_report ex_staged) \<and> ev_digest (sd_evidence ex_staged) \<noteq> is_digest ex_old \<and> sd_files ex_staged \<noteq> None"
  by code_simp

text \<open>A skill named like the record.\<close>

definition ex_named_record :: "unit skill_manager" where
  "ex_named_record = ex_manager\<lparr>sm_registries :=
     [open_registry (ex_codecs\<lparr>kc_toml := (\<lambda>s. map_sum id (\<lambda>r. r\<lparr>rm_id := skill_lockfile\<rparr>) (ex_toml s))\<rparr>)
        (ex_world\<lparr>sw_directory := (\<lambda>_. Some [(''pkg'', FsDir [(manifest_file, FsFile [])])])\<rparr>) (LocalSkills ''/w/.cuma/skill-sources'')]\<rparr>"

definition ex_record_staged :: staged_skill where
  "ex_record_staged = projr (stage_skill ex_skill_env (no_faults []) ex_named_record skill_lockfile None)"

lemma ex_record_facts:
  "stage_skill ex_skill_env (no_faults []) ex_named_record skill_lockfile None = Inr ex_record_staged \<and>
   vr_permitted (sd_report ex_record_staged) \<and> sd_files ex_record_staged \<noteq> None"
  by code_simp

lemma ex_manager_dir: "sm_install_dir ex_manager = Some ''/skills''" "sm_disk ex_manager = []" "sm_installed ex_manager = []"
  by (simp_all add: ex_manager_def new_skill_manager_def)

lemma ex_builtin_dir: "sm_install_dir ex_builtin_manager = Some ''/skills''"
  by (simp add: ex_builtin_manager_def ex_manager_dir)

text \<open>Trees with the same files in different orders.\<close>

definition ex_tree :: fs_dir where
  "ex_tree = [(''a'', FsFile ''1''), (''b'', FsDir [(''c'', FsFile [])])]"

lemma ex_tree_plain: "list_all (plain_file (\<lambda>s. s)) (node_files [] (FsDir ex_tree))" "list_all (plain_file (\<lambda>s. s)) (node_files [] (FsDir (rev ex_tree)))"
  by (simp_all add: ex_tree_def plain_file_def signature_file_def)

lemma ex_tree_digest:
  "\<exists>d. content_digest (\<lambda>s. s) (\<lambda>s. s) ex_tree = Inr d \<and> content_digest (\<lambda>s. s) (\<lambda>s. s) (rev ex_tree) = Inr d"
  unfolding ex_tree_def by (simp add: content_digest_def skill_files_def scan_loop.simps Let_def signature_file_def skill_max_files_def skill_max_bytes_def)

end
