(* ===== verification/Examples.thy ===== *)
theory Examples
  imports Progress Confine A2A_Runs Skill_Examples
begin

text \<open>
  Concrete inputs, on which the theorems of the development are seen to apply: a session with one
  task and no agent, a random source that answers with the lower end of its range, the heuristic
  planner, and a few small graphs, ledgers and registries.
\<close>

definition ex_fresh :: "nat \<Rightarrow> task_id" where
  "ex_fresh n = TaskId (replicate n (CHR ''x''))"

definition ex_plan :: "string \<Rightarrow> capability_set \<Rightarrow> string list \<Rightarrow> task_graph result" where
  "ex_plan goal caps memories = plan to_ascii_lowercase ex_fresh True goal"

definition ex_orchestrator :: orchestrator where
  "ex_orchestrator =
     new_orchestrator default_router_config default_limits ex_plan (\<lambda>_ _ _. Inr None) ''/work'' False True"

definition ex_attempt :: attempt_env where
  "ex_attempt =
     \<lparr>ae_route_clock = (\<lambda>_ _. 0), ae_attempt_id = AttemptId ''a'', ae_started_at = 0,
      ae_execute = (\<lambda>_. ([], None)), ae_latency_ms = 0, ae_wall = 0, ae_failure_now = 0, ae_health_now = 0,
      ae_probe_clock = (\<lambda>_ _. 0), ae_random = (\<lambda>lo hi. Some lo), ae_memory_up = False\<rparr>"

definition ex_env :: task_env where
  "ex_env = \<lparr>te_recall = (\<lambda>_ _. None), te_worktree = None, te_apply = Inr [], te_attempt = (\<lambda>_. ex_attempt)\<rparr>"

definition ex_task :: task where
  "ex_task = new_task (TaskId ''t'') (with_risk (new_spec ''fix src/a.rs'' BugFix) Medium)"

definition ex_graph :: task_graph where
  "ex_graph = graph_add ex_task empty_graph"

lemma inj_ex_fresh: "inj ex_fresh"
  by (rule injI) (metis ex_fresh_def length_replicate task_id.inject)

lemma ex_steady: "steady ex_orchestrator"
  by (simp add: steady_def declines_replans_def ex_orchestrator_def policy_ok_new)
     (simp add: new_orchestrator_def default_limits_def)

lemma ex_policy: "policy_ok ex_orchestrator"
  using ex_steady by (simp add: steady_def)

lemma ex_sound: "sound_env ex_env"
  by (auto simp: sound_env_def ex_env_def ex_attempt_def ranged_def)

lemma ex_unclaimed: "unclaimed new_ledger"
  by (simp add: unclaimed_def ledger_ok_new) (simp add: holds_def new_ledger_def bt_get_def)

lemma ex_graph_get: "graph_get ex_graph i = (if i = TaskId ''t'' then Some ex_task else None)"
  by (simp add: ex_graph_def graph_get_add ex_task_def new_task_def)

lemma ex_valid: "valid_graph ex_graph"
  unfolding ex_graph_def
  by (rule valid_graph_add [OF valid_graph_empty]) (simp_all add: ex_task_def new_task_def)

lemma ex_status: "tk_status ex_task = Pending" "tk_attempts ex_task = []" "tk_id ex_task = TaskId ''t''" "deps ex_task = []"
  by (simp_all add: ex_task_def new_task_def)

lemma ex_proper: "proper_task (TaskId ''t'') ex_graph"
  by (simp add: proper_task_def ex_graph_get attempts_of_def attempt_count_def ex_status)

lemma ex_idle: "idle_graph ex_graph"
  by (auto simp: idle_graph_def ex_valid unblocked_def none_running_def small_attempts_def in_order_def ex_graph_get
      ex_status attempts_of_def attempt_count_def)

definition ex_state :: exec_state where
  "ex_state = \<lparr>es_graph = ex_graph, es_isolated = None, es_workspace = ''/work'', es_recalled = [], es_handoff = None,
     es_delivered = True, es_on_target = 0, es_abandoned = [], es_pass = 0\<rparr>"

definition ex_failed :: task_graph where
  "ex_failed = graph_update (TaskId ''t'') (\<lambda>t. t\<lparr>tk_status := Failed\<rparr>) ex_graph"

lemma ex_start: "task_step pow ex_orchestrator s (TaskId ''t'') ex_env (Starting ex_graph) sh = Some (Routing ex_state, sh)"
  by (simp add: start_task_def isolate_def ex_orchestrator_def new_orchestrator_def default_limits_def ex_graph_get
      recall_for_task_def ex_state_def)

lemma ex_route: "fst (route_task ex_orchestrator clk t xs new_shared) = Inl (ERouting (tk_id t) ''no agents are registered'')"
  by (simp add: route_task_eq route_def registry_snapshot_of_def new_shared_def bt_values_def rank_candidates_def no_route_reason_def case_prod_beta)

lemma ex_no_agents:
  "\<exists>sh'. task_step pow ex_orchestrator s (TaskId ''t'') ex_env (Routing ex_state) new_shared =
     Some (Settling (Inr False) (ex_state\<lparr>es_graph := ex_failed\<rparr>), sh')"
proof -
  obtain sh1 where "route_task ex_orchestrator (ae_route_clock ex_attempt) ex_task [] new_shared =
      (Inl (ERouting (tk_id ex_task) ''no agents are registered''), sh1)"
    using ex_route [of "ae_route_clock ex_attempt" ex_task "[]"] by (metis prod.collapse)
  moreover have "\<not> rp_max_attempts (oc_retry_policy ex_orchestrator) \<le> 0"
    by (simp add: ex_orchestrator_def new_orchestrator_def with_max_attempts_def default_retry_policy_def default_limits_def)
  ultimately show ?thesis
    by (simp add: begin_pass_def ex_state_def ex_graph_get ex_env_def attempt_count_def ex_status fail_task_def ex_failed_def)
qed

lemma ex_finished: "task_reaches pow ex_orchestrator s (TaskId ''t'') ex_env ex_graph (Finished (Inr False) ex_failed)"
proof -
  have "task_reaches pow ex_orchestrator s (TaskId ''t'') ex_env ex_graph (Routing ex_state)"
    by (rule reaches_step [OF reaches_start ex_start])
  then have "task_reaches pow ex_orchestrator s (TaskId ''t'') ex_env ex_graph
      (Settling (Inr False) (ex_state\<lparr>es_graph := ex_failed\<rparr>))"
    using ex_no_agents reaches_step by blast
  then show ?thesis by (rule reaches_step) (simp add: finish_task_def ex_state_def)
qed

definition ex_writer :: "string \<Rightarrow> string \<Rightarrow> task" where
  "ex_writer i d = new_task (TaskId i) (with_risk (new_spec d Implementation) Medium)"

definition ex_pair :: task_graph where
  "ex_pair = graph_add (ex_writer ''u'' ''c/d'') (graph_add (ex_writer ''t'' ''a/b'') empty_graph)"

lemma ex_writer_simps [simp]:
  "tk_id (ex_writer i d) = TaskId i" "ts_risk (tk_spec (ex_writer i d)) = Medium" "deps (ex_writer i d) = []"
  "ts_description (tk_spec (ex_writer i d)) = d"
  by (simp_all add: ex_writer_def new_task_def with_risk_def new_spec_def)

lemma ex_pair_get:
  "graph_get ex_pair (TaskId ''t'') = Some (ex_writer ''t'' ''a/b'')"
  "graph_get ex_pair (TaskId ''u'') = Some (ex_writer ''u'' ''c/d'')"
  by (simp_all add: ex_pair_def graph_get_add)

lemma ex_writes:
  "task_writes (\<lambda>c. True) None ex_pair (ex_writer ''t'' ''a/b'') = [''a/b'']"
  "task_writes (\<lambda>c. True) None ex_pair (ex_writer ''u'' ''c/d'') = [''c/d'']"
  by (simp_all only: task_writes_def dependency_artifacts_def ex_writer_simps map_filter_simps list.map concat.simps)
     code_simp+

lemma ex_claims:
  "fst (claim (TaskId ''t'') [''a/b''] new_ledger) = Inr ()"
  "fst (claim (TaskId ''u'') [''c/d''] (snd (claim (TaskId ''t'') [''a/b''] new_ledger))) = Inr ()"
  by code_simp+

lemma ex_admitted:
  "\<exists>l. admit_concurrently (\<lambda>c. True) None ex_pair [TaskId ''t'', TaskId ''u''] new_ledger = ([TaskId ''t'', TaskId ''u''], l)"
  using ex_claims
  by (cases "claim (TaskId ''t'') [''a/b''] new_ledger";
      cases "claim (TaskId ''u'') [''c/d''] (snd (claim (TaskId ''t'') [''a/b''] new_ledger))")
     (simp add: admit_concurrently_def admit_def ex_pair_get ex_writes)

text \<open>One agent that can do everything \<open>ex_task\<close> needs.\<close>

definition ex_weights :: router_weights where
  "ex_weights = \<lparr>rw_quality = f1, rw_cost = f0, rw_latency = f0, rw_reliability = f0, rw_context = f0\<rparr>"

definition ex_router :: router where
  "ex_router = \<lparr>ro_config = default_router_config\<lparr>rc_weights := ex_weights\<rparr>, ro_history = []\<rparr>"

definition ex_agent :: agent_descriptor where
  "ex_agent = with_capabilities (new_agent (AgentId ''a'') ''Agent'' Acp) (baseline_capabilities BugFix)"

definition ex_shared :: shared where
  "ex_shared = new_shared\<lparr>sh_agents := [(AgentId ''a'', ex_agent)]\<rparr>"

definition ex_breakers :: breaker_registry where
  "ex_breakers = new_breaker_registry default_breaker_config"

lemma ex_weights_sum: "weights_sum ex_weights = f1"
  by (simp add: weights_sum_def ex_weights_def)

lemma ex_weights_valid: "weights_validate show_f64 ex_weights = Inr ()"
  by (simp add: weights_validate_def weight_dims_def ex_weights_sum) (simp add: ex_weights_def is_finite_def)

lemma ex_weights_normalized: "weights_normalized ex_weights = ex_weights"
  by (simp add: weights_normalized_def ex_weights_sum) (simp add: ex_weights_def)

lemma ex_router_ok: "router_ok ex_router"
  by (simp add: router_ok_def ex_router_def router_weights_of_def ex_weights_normalized default_router_config_def
      history_ok_def history_stats_def bt_get_def) (simp add: all_weights_def ex_weights_def)

lemma ex_agent_simps [simp]:
  "ad_id ex_agent = AgentId ''a''" "ad_models ex_agent = []" "ad_capabilities ex_agent = baseline_capabilities BugFix"
  "ad_enabled ex_agent" "ad_health ex_agent = default_health" "ad_protocol ex_agent = Acp"
  "ad_performance_profile ex_agent = default_performance" "ad_cost_profile ex_agent = default_cost_profile"
  by (simp_all add: ex_agent_def with_capabilities_def new_agent_def)

lemma ex_targets: "snapshot_targets [ex_agent] = [(ex_agent, None)]"
  by (simp add: snapshot_targets_def agent_targets_def)

lemma ex_target_ok: "target_ok ex_agent None"
  by (simp add: target_ok_def performance_ok_def cost_ok_def default_performance_def
      default_cost_profile_def known_all_def)

lemma ex_task_ok: "task_ok ex_task"
proof -
  have "length (baseline_capabilities BugFix) = 3" by code_simp
  then show ?thesis by (simp add: task_ok_def ex_task_def new_task_def with_risk_def new_spec_def)
qed

lemma ex_eligible:
  assumes "rq_exclude_targets rq = []" "rq_budget_usd rq = None" "rq_task rq = ex_task"
    "rc_strategy cfg = Balanced" "rc_exclude_agents cfg = []" "rc_pin_agent cfg = None"
  shows "eligible clk cfg ex_breakers rq (ex_agent, None)"
proof -
  have "ts_required_capabilities (tk_spec ex_task) = baseline_capabilities BugFix"
    by (simp add: ex_task_def new_task_def with_risk_def new_spec_def)
  with assms show ?thesis
    by (simp add: eligible_def agent_passes_def model_passes_def request_passes_def agent_refusal_def over_budget_def
        gate_def ex_breakers_def breaker_of_def new_breaker_registry_def new_breaker_def bt_get_def
        effective_capabilities_def default_health_def health_is_routable_def)
qed

lemma ex_invokes:
  "\<exists>t a m rq st' sh'. begin_pass ex_orchestrator s (TaskId ''t'') ex_env ex_state ex_shared = (Invoking t a m rq st', sh')"
proof -
  let ?rq = "task_request ex_orchestrator ex_task [] ex_shared" and ?clk = "ae_route_clock ex_attempt"
  let ?ro = "\<lparr>ro_config = oc_router ex_orchestrator, ro_history = sh_history ex_shared\<rparr>"
  have cfg: "oc_router ex_orchestrator = default_router_config" "lc_max_cost_usd (oc_limits ex_orchestrator) = None"
    by (simp_all add: ex_orchestrator_def new_orchestrator_def default_limits_def)
  have sh: "registry_snapshot_of (sh_agents ex_shared) = [ex_agent]" "sh_breakers ex_shared = ex_breakers"
    by (simp_all add: ex_shared_def registry_snapshot_of_def bt_values_def new_shared_def ex_breakers_def)
  have "eligible ?clk (ro_config ?ro) (sh_breakers ex_shared) ?rq (ex_agent, None)"
    unfolding sh by (rule ex_eligible) (simp_all add: cfg default_router_config_def)
  then obtain d br where "route ?clk ?ro ?rq (sh_breakers ex_shared) = (Inr d, br)"
    using route_eligible [of ex_agent None ?rq ?clk ?ro "sh_breakers ex_shared"] by (auto simp: sh ex_targets)
  then have r: "route_task ex_orchestrator ?clk ex_task [] ex_shared = (Inr d, ex_shared\<lparr>sh_breakers := br\<rparr>)"
    by (simp add: route_task_eq)
  have "\<not> rp_max_attempts (oc_retry_policy ex_orchestrator) \<le> 0"
    by (simp add: ex_orchestrator_def new_orchestrator_def with_max_attempts_def default_retry_policy_def default_limits_def)
  with r show ?thesis
    by (auto simp: begin_pass_def ex_state_def ex_graph_get ex_env_def attempt_count_def ex_status Let_def case_prod_beta)
qed

text \<open>A second task that waits for \<open>ex_task\<close>.\<close>

definition ex_dependent :: task where
  "ex_dependent = new_task (TaskId ''u'') (depends_on (new_spec ''test'' Testing) (TaskId ''t''))"

definition ex_chain :: task_graph where
  "ex_chain = graph_add ex_dependent ex_graph"

lemma ex_chain_get:
  "graph_get ex_chain i = (if i = TaskId ''u'' then Some ex_dependent else if i = TaskId ''t'' then Some ex_task else None)"
  by (auto simp: ex_chain_def graph_get_add ex_dependent_def new_task_def ex_graph_get)

lemma ex_chain_wf: "graph_wf ex_chain"
  using ex_valid unfolding ex_chain_def valid_graph_def by (blast intro: graph_wf_add)

lemma ex_chain_facts:
  "ex_fresh 0 \<noteq> ex_fresh 1" "ex_fresh 0 \<notin> nodes ex_chain" "ex_fresh 1 \<notin> nodes ex_chain"
  "graph_get ex_chain (tk_id ex_task) = Some ex_task" "graph_get ex_chain (TaskId ''u'') = Some ex_dependent"
  "tk_id ex_task \<in> set (deps ex_dependent)" "TaskId ''u'' \<noteq> tk_id ex_task"
  by (simp_all add: nodes_def ex_chain_get ex_fresh_def ex_status)
     (simp_all add: ex_dependent_def new_task_def depends_on_def)

lemma ex_ls_allowed: "screen debug_str \<lparr>cg_allow_destructive = True, cg_allowlist = []\<rparr> ''ls'' = Allow"
proof -
  have "normalize_command ''ls'' = ''ls''" by code_simp
  then show ?thesis by (simp add: screen_allow_iff allowlisted_def)
qed

text \<open>A machine with a home directory that holds a key, and a confinement by bubblewrap.\<close>

definition ex_os :: os_view where
  "ex_os =
     \<lparr>os_canonicalize = (\<lambda>p. Some p), os_home = Some ''/home/u'',
      os_entries = (\<lambda>p. if p = ''/home/u'' then Some [''.ssh'', ''.cache'', ''proj''] else None),
      os_exists = (\<lambda>p. False), os_is_dir = (\<lambda>p. p = ''/home/u/.ssh''), os_is_file = (\<lambda>p. False), os_is_symlink = (\<lambda>p. False),
      os_is_special_file = (\<lambda>p. False), os_read = (\<lambda>p. None), os_current_exe = None, os_current_dir = None,
      os_environment = [''PATH'', ''SECRET_KEY'']\<rparr>"

definition ex_runtime :: agent_sandbox where
  "ex_runtime =
     \<lparr>sx_runtime = Some Bubblewrap, sx_enabled = True, sx_allowed_hosts = [], sx_forwarded_env = [], sx_writable = [], sx_required = False\<rparr>"

definition ex_card :: agent_card where
  "ex_card = new_card ''CUMA'' ''http://localhost/''"

end
