(* ===== verification/Announcements.thy ===== *)
theory Announcements
  imports Progress
begin

text \<open>
  What a session announces (\<open>cuma-orchestrator/src/executor.rs\<close>, every call of \<open>publish\<close>): the
  shape of the stretch of the event log that one run adds, under every interleaving of its tasks.
\<close>

section \<open>News of a task\<close>

definition task_news :: "session_id \<Rightarrow> event \<Rightarrow> bool" where
  "task_news s e \<longleftrightarrow> ev_session_id e = s \<and> ev_task_id e \<noteq> None \<and>
     (case ev_kind e of
        SessionStarted _ \<Rightarrow> False | SessionCompleted _ \<Rightarrow> False | TaskPlanned _ \<Rightarrow> False | TaskCreated _ \<Rightarrow> False
      | TaskStatusChanged _ \<Rightarrow> False | SkillInstalled _ _ \<Rightarrow> False | SkillRejected _ _ \<Rightarrow> False | _ \<Rightarrow> True)"

definition announces :: "session_id \<Rightarrow> shared \<Rightarrow> shared \<Rightarrow> bool" where
  "announces s sh sh' \<longleftrightarrow> (\<exists>es. sh_events sh' = sh_events sh @ es \<and> list_all (task_news s) es)"

lemma announces_refl [simp]: "announces s sh sh"
  by (simp add: announces_def)

lemma announces_trans: "announces s a b \<Longrightarrow> announces s b c \<Longrightarrow> announces s a c"
  unfolding announces_def by (metis append_assoc list_all_append)

lemma announces_events: "sh_events c = sh_events b \<Longrightarrow> announces s a c = announces s a b"
  by (simp add: announces_def)

lemma announces_publish: "announces s a b \<Longrightarrow> task_news s e \<Longrightarrow> announces s a (publish e b)"
  unfolding announces_def publish_def by (auto intro: exI [of _ "_ @ [e]"])

lemma announces_update [simp]:
  "announces s a (b\<lparr>sh_agents := x1\<rparr>) = announces s a b" "announces s a (b\<lparr>sh_models := x2\<rparr>) = announces s a b"
  "announces s a (b\<lparr>sh_breakers := x3\<rparr>) = announces s a b" "announces s a (b\<lparr>sh_usage := x4\<rparr>) = announces s a b"
  "announces s a (b\<lparr>sh_history := x5\<rparr>) = announces s a b" "announces s a (b\<lparr>sh_memory := x6\<rparr>) = announces s a b"
  "announces s a (b\<lparr>sh_git := x7\<rparr>) = announces s a b" "announces s a (record_call oc c b) = announces s a b"
  by (simp_all add: announces_def)

lemma task_news_simps [simp]:
  "task_news s (with_attempt e attempt) = task_news s e"
  "task_news s (task_event s t (UsageRecorded u c))" "task_news s (task_event s t (TaskFailedEv r))"
  "task_news s (task_event s t (HandoffPerformed x y))" "task_news s (task_event s t (RoutingFailed r))"
  "task_news s (task_event s t (AgentSelected x m f r))" "task_news s (task_event s t (AgentStarted x))"
  "task_news s (task_event s t (TaskCompletedEv u))" "task_news s (task_event s t (AgentFailed x cls r))"
  "task_news s (task_event s t (CircuitBreakerChanged x r))" "task_news s (task_event s t (RetryScheduled n d r))"
  "task_news s (task_event s t (FallbackSelected x y r))" "task_news s (task_event s t (AgentOutputReceived r))"
  "task_news s (task_event s t (TaskSkippedEv i))"
  by (simp_all add: task_news_def task_event_def with_attempt_def)

section \<open>Every step of a task\<close>

lemma announces_fail_task: "announces s a sh \<Longrightarrow> announces s a (snd (fail_task s i r (g, sh)))"
  by (simp add: fail_task_def announces_publish)

lemma announces_route: "announces s a (snd (route_task oc clk t xs sh)) = announces s a sh"
  by (simp add: announces_def route_task_def Let_def case_prod_beta)

lemma announces_deliver: "announces s a sh \<Longrightarrow> announces s a (snd (deliver_handoff oc s i x st sh))"
  by (auto simp: deliver_handoff_def Let_def announces_publish split: option.splits)

lemma announces_record: "announces s a sh \<Longrightarrow> announces s a (record_attempt oc s t env x m tokens c ok cls n sh)"
  by (simp add: record_attempt_def Let_def announces_publish)

lemma announces_note_failure: "announces s a sh \<Longrightarrow> announces s a (note_failure oc s i env x m cls r sh)"
  by (auto simp: note_failure_def Let_def announces_publish split: prod.splits option.splits)

lemma announces_react: "announces s a sh \<Longrightarrow> announces s a (snd (react oc s i t x m alt d st sh))"
  using announces_fail_task
  by (auto simp: react_def announces_publish case_prod_beta split: retry_decision.splits option.splits sum.splits)

lemma announces_chunks: "announces s a sh \<Longrightarrow> announces s a (fold (\<lambda>c. publish (task_event s i (AgentOutputReceived c))) cs sh)"
  by (induction cs arbitrary: sh) (simp_all add: announces_publish)

lemma announces_begin_pass: "announces s a sh \<Longrightarrow> announces s a (snd (begin_pass oc s i te st sh))"
proof (cases "graph_get (es_graph st) i")
  case (Some t)
  assume sh: "announces s a sh"
  obtain r sh1 where r: "route_task oc (ae_route_clock (te_attempt te (es_pass st))) t (es_abandoned st) sh = (r, sh1)"
    by force
  moreover have "announces s a sh1" using sh announces_route r by (metis snd_conv)
  ultimately show ?thesis using Some sh
    by (cases r) (simp_all add: begin_pass_def Let_def case_prod_beta announces_fail_task announces_publish announces_deliver)
qed (simp add: begin_pass_def)

lemma announces_on_success: "announces s a sh \<Longrightarrow> announces s a (snd (on_success oc s i env t x m out st sh))"
  by (auto simp: on_success_def remember_success_def Let_def announces_publish)

lemma announces_on_failure:
  assumes "announces s a sh" "on_failure pow oc s i env x m cls r recorded st sh = Some (ph, sh')"
  shows "announces s a sh'"
proof (cases "graph_get (es_graph st) i")
  case (Some row)
  obtain probe sh1 where probe: "route_task oc (ae_probe_clock env) (push_attempt recorded row) (es_abandoned st @ [(x, m)])
      (note_failure oc s i env x m cls r sh) = (probe, sh1)" by force
  have "announces s a sh1" using announces_route announces_note_failure [OF assms(1)] probe by (metis snd_conv)
  moreover have "\<exists>t alt d st1. react oc s i t x m alt d st1 sh1 = (ph, sh')"
    using assms(2) Some probe by (auto simp: on_failure_def Let_def graph_get_update)
  ultimately show ?thesis using announces_react by (metis snd_conv)
next
  case None
  then show ?thesis using assms announces_note_failure by (auto simp: on_failure_def Let_def graph_get_update)
qed

lemma announces_end_pass:
  assumes "announces s a sh" "end_pass pow oc s i te t x m rq st sh = Some (ph, sh')"
  shows "announces s a sh'"
proof -
  obtain chunks r where r: "invoke_adapter oc (te_attempt te (es_pass st)) x rq = (chunks, r)" by force
  note recorded = announces_record [OF announces_chunks [OF assms(1)]]
  show ?thesis
  proof (cases "failure_of r")
    case None
    then show ?thesis using assms(2) r announces_on_success [OF recorded]
      by (auto simp: end_pass_def Let_def) (metis snd_conv)
  next
    case (Some f)
    then show ?thesis using assms(2) r announces_on_failure [OF recorded]
      by (cases f) (auto simp: end_pass_def Let_def)
  qed
qed

lemma announces_finish: "announces s a sh \<Longrightarrow> announces s a (snd (finish_task s i te r st sh))"
  using announces_fail_task
  by (auto simp: finish_task_def settle_isolated_def Let_def case_prod_beta split: option.splits sum.splits)

lemma announces_step:
  assumes "announces s a sh" "task_step pow oc s i te ph sh = Some (ph', sh')"
  shows "announces s a sh'"
proof (cases ph)
  case (Starting g)
  then show ?thesis using assms by (auto simp: start_task_def Let_def split: option.splits)
next
  case (Routing st)
  then show ?thesis using assms announces_begin_pass by (metis option.inject snd_conv task_step.simps(2))
next
  case (Invoking t x m rq st)
  then show ?thesis using assms announces_end_pass by simp
next
  case (Settling r st)
  then show ?thesis using assms announces_finish by (metis option.inject snd_conv task_step.simps(4))
qed (use assms in simp)

section \<open>A wave, a pass, a session\<close>

lemma announces_wave:
  "announces s a sh \<Longrightarrow> run_wave fuel pow oc s env sched k ws sh = Some (ws', sh') \<Longrightarrow> announces s a sh'"
proof (induction fuel arbitrary: k ws sh)
  case 0
  then show ?case by (simp add: run_wave.simps split: if_splits)
next
  case (Suc fuel)
  show ?case
  proof (cases "unfinished ws = []")
    case False
    then obtain n ph sh1 i where "task_step pow oc s i (env i) (snd (ws ! n)) sh = Some (ph, sh1)"
        "run_wave fuel pow oc s env sched (Suc k) (ws[n := (i, ph)]) sh1 = Some (ws', sh')"
      using Suc.prems(2) by (auto simp: run_wave.simps [of "Suc fuel"] Let_def split: option.splits)
    then show ?thesis using Suc announces_step by blast
  qed (use Suc.prems in \<open>simp add: run_wave.simps\<close>)
qed

lemma announces_skips: "announces s a sh \<Longrightarrow> announces s a (fold (\<lambda>j. publish (task_event s j (TaskSkippedEv i))) js sh)"
  by (induction js arbitrary: sh) (simp_all add: announces_publish)

lemma announces_fold_result:
  assumes "announces s a sh" "fold_result s alone (i, ph) (g, l, sh) = Some (g', l', sh')"
  shows "announces s a sh'"
proof (cases ph)
  case (Finished outcome tg)
  then show ?thesis using assms announces_skips by (auto simp: fold_result_def Let_def split: if_splits option.splits)
qed (use assms in \<open>simp_all add: fold_result_def\<close>)

lemma announces_fold_results:
  "announces s a sh \<Longrightarrow> fold_results s alone ws (g, l, sh) = Some (g', l', sh') \<Longrightarrow> announces s a sh'"
proof (induction ws arbitrary: g l sh)
  case (Cons w ws)
  obtain i ph where w: "w = (i, ph)" by force
  from Cons.prems(2) obtain g1 l1 sh1 where "fold_result s alone (i, ph) (g, l, sh) = Some (g1, l1, sh1)"
      "fold_results s alone ws (g1, l1, sh1) = Some (g', l', sh')"
    by (cases "fold_result s alone w (g, l, sh)") (auto simp: w)
  then show ?case using Cons.IH Cons.prems(1) announces_fold_result by blast
qed simp

lemma announces_pass:
  assumes "announces s a sh" "graph_pass pow alnum oc s index env sched (g, l, sh) = Some (g', l', sh')"
  shows "announces s a sh'"
proof -
  obtain admitted l1 where ad: "admit_concurrently alnum index g (ready_ids oc g) l = (admitted, l1)" by force
  obtain ws sh1 l2 where wave: "run_wave (wave_fuel oc (length admitted)) pow oc s env sched 0 (map (\<lambda>i. (i, Starting g)) admitted) sh = Some (ws, sh1)"
      and results: "fold_results s (length ws = 1) ws (g, l1, sh1) = Some (g', l2, sh')"
    using assms(2) ad by (auto simp: graph_pass_def split: option.splits)
  show ?thesis by (rule announces_fold_results [OF announces_wave [OF assms(1) wave] results])
qed

lemma announces_passes:
  "announces s a sh \<Longrightarrow> graph_passes n pow alnum oc s index env sched k (g, l, sh) = Some (g', l', sh') \<Longrightarrow> announces s a sh'"
proof (induction n arbitrary: k g l sh)
  case (Suc n)
  show ?case
  proof (cases "graph_is_complete g \<or> ready_ids oc g = []")
    case False
    then obtain g1 l1 sh1 where "graph_pass pow alnum oc s index (env k) (sched k) (g, l, sh) = Some (g1, l1, sh1)"
        "graph_passes n pow alnum oc s index env sched (Suc k) (g1, l1, sh1) = Some (g', l', sh')"
      using Suc.prems(2) by (cases "graph_pass pow alnum oc s index (env k) (sched k) (g, l, sh)") auto
    then show ?thesis using Suc announces_pass by blast
  qed (use Suc.prems in auto)
qed simp

text \<open>The stretch of the log one session adds.\<close>

definition session_log :: "session_id \<Rightarrow> string \<Rightarrow> session_result result \<Rightarrow> event list \<Rightarrow> bool" where
  "session_log s goal r es \<longleftrightarrow>
     (case r of
        Inl _ \<Rightarrow> es = [session_event s (SessionStarted goal)]
      | Inr res \<Rightarrow> \<exists>n news. list_all (task_news s) news \<and>
          es = session_event s (SessionStarted goal) # session_event s (TaskPlanned n) # news @ [session_event s (SessionCompleted (sr_success res))])"

lemma session_announces:
  assumes "run_session pow alnum oc memories index env sched s goal (l, sh) = Some (r, l', sh')"
  shows "\<exists>es. sh_events sh' = sh_events sh @ es \<and> session_log s goal r es"
proof -
  define sh1 where "sh1 = prepare_workspace oc s (publish (session_event s (SessionStarted goal)) (record_call oc (SessionStartedRec s goal) sh))"
  have sh1: "sh_events sh1 = sh_events sh @ [session_event s (SessionStarted goal)]"
    by (simp add: sh1_def prepare_workspace_def publish_def)
  show ?thesis
  proof (cases "plan_goal oc memories goal sh1")
    case (Inl e)
    then show ?thesis using assms sh1 unfolding run_session_def Let_def by (auto simp: sh1_def session_log_def)
  next
    case (Inr g)
    define sh2 where "sh2 = publish (session_event s (TaskPlanned (graph_len g))) sh1"
    obtain g' l2 sh3 where run: "execute_graph pow alnum oc s index env sched (g, l, sh2) = Some (g', l2, sh3)"
        and r: "\<exists>res. r = Inr res \<and> sh' = record_call oc (SessionFinishedRec res) (publish (session_event s (SessionCompleted (sr_success res))) sh3)"
      using assms unfolding run_session_def Let_def prod.case sh1_def [symmetric] Inr sum.case sh2_def [symmetric] by auto
    then have "\<exists>res. r = Inr res \<and> sh_events sh' = sh_events sh3 @ [session_event s (SessionCompleted (sr_success res))]"
      by (auto simp: publish_def)
    moreover have "announces s sh2 sh3" using announces_passes [of s sh2 sh2] run by (simp add: execute_graph_def)
    ultimately show ?thesis using sh1 by (auto simp: announces_def sh2_def publish_def session_log_def)
  qed
qed

end
