(* ===== verification/Interface.thy ===== *)
theory Interface
  imports Announcements Skill_Policy
begin

text \<open>
  The terminal interface: \<open>cuma-tui/src/state.rs\<close> (the view model that events are folded into),
  \<open>view.rs\<close> (the text of every screen; colours, borders and layout are the terminal library's) and
  \<open>app.rs\<close> (what a key means, and the loop over keys, events and finished work). A character of text is the
  string of its bytes. What the orchestrator, the skill manager and the memory store answer comes with the input
  that asked.
\<close>

section \<open>The view model\<close>

datatype tui_screen =
    ChatScreen | TasksScreen | AgentsScreen | ModelsScreen | SkillsScreen | MemoryScreen | UsageScreen | LogsScreen
  | ConfigurationScreen

definition all_screens :: "tui_screen list" where
  "all_screens =
     [ChatScreen, TasksScreen, AgentsScreen, ModelsScreen, SkillsScreen, MemoryScreen, UsageScreen, LogsScreen,
      ConfigurationScreen]"

fun screen_title :: "tui_screen \<Rightarrow> string" where
  "screen_title ChatScreen = ''Chat''"
| "screen_title TasksScreen = ''Tasks''"
| "screen_title AgentsScreen = ''Agents''"
| "screen_title ModelsScreen = ''Models''"
| "screen_title SkillsScreen = ''Skills''"
| "screen_title MemoryScreen = ''Memory''"
| "screen_title UsageScreen = ''Usage''"
| "screen_title LogsScreen = ''Logs''"
| "screen_title ConfigurationScreen = ''Config''"

fun position_of :: "'a \<Rightarrow> 'a list \<Rightarrow> nat option" where
  "position_of x [] = None"
| "position_of x (y # ys) = (if y = x then Some 0 else map_option Suc (position_of x ys))"

definition screen_index :: "tui_screen \<Rightarrow> nat" where
  "screen_index s = (case position_of s all_screens of Some i \<Rightarrow> i | None \<Rightarrow> 0)"

definition screen_after :: "tui_screen \<Rightarrow> tui_screen" where
  "screen_after s = all_screens ! ((screen_index s + 1) mod length all_screens)"

definition screen_before :: "tui_screen \<Rightarrow> tui_screen" where
  "screen_before s = all_screens ! ((screen_index s + length all_screens - 1) mod length all_screens)"

record task_row =
  tr_id :: task_id
  tr_description :: string
  tr_status :: task_status
  tr_agent :: "agent_id option"
  tr_model :: "model_id option"

definition status_marker :: "task_status \<Rightarrow> string" where
  "status_marker s =
     (case s of
        Completed \<Rightarrow> [CHR 0xE2, CHR 0x9C, CHR 0x93]
      | Running \<Rightarrow> [CHR 0xE2, CHR 0x97, CHR 0x8F]
      | Failed \<Rightarrow> [CHR 0xE2, CHR 0x9C, CHR 0x97]
      | Skipped \<Rightarrow> [CHR 0xE2, CHR 0x8A, CHR 0x98]
      | TaskCancelled \<Rightarrow> [CHR 0xE2, CHR 0x8A, CHR 0x97]
      | _ \<Rightarrow> [CHR 0xE2, CHR 0x97, CHR 0x8B])"

record skill_row =
  kr_id :: string
  kr_name :: string
  kr_trust :: string
  kr_enabled :: bool
  kr_capabilities :: "string list"
  kr_registry :: string

record memory_row =
  mr_id :: string
  mr_kind :: string
  mr_content :: string

datatype input_mode = Navigating | Editing

definition max_log_lines :: nat where
  "max_log_lines = 500"

record app_state =
  ui_screen :: tui_screen
  ui_goal :: string
  ui_running :: bool
  ui_tasks :: "task_row list"
  ui_current_agent :: "agent_id option"
  ui_current_model :: "model_id option"
  ui_last_explanation :: "string option"
  ui_transcript :: string
  ui_tokens :: token_usage
  ui_spent_usd :: f64
  ui_unpriced_attempts :: u32
  ui_agent_health :: "(agent_id, string) btree"
  ui_logs :: "string list"
  ui_finished :: "bool option"
  ui_input_mode :: input_mode
  ui_input :: string
  ui_scroll :: "16 word"
  ui_should_quit :: bool
  ui_notice :: "string option"
  ui_agents :: "agent_descriptor list"
  ui_skills :: "skill_row list option"
  ui_skill_cursor :: nat
  ui_memory_attached :: bool
  ui_memory_query :: "string option"
  ui_memories :: "memory_row list"
  ui_memory_searching :: bool

text \<open>The derived \<open>Default\<close>: its token count is marked as not reported.\<close>

definition new_app_state :: app_state where
  "new_app_state =
     \<lparr>ui_screen = ChatScreen, ui_goal = [], ui_running = False, ui_tasks = [], ui_current_agent = None,
      ui_current_model = None, ui_last_explanation = None, ui_transcript = [], ui_tokens = estimated_usage 0 0,
      ui_spent_usd = Fin 0, ui_unpriced_attempts = 0, ui_agent_health = [], ui_logs = [], ui_finished = None,
      ui_input_mode = Navigating, ui_input = [], ui_scroll = 0, ui_should_quit = False, ui_notice = None,
      ui_agents = [], ui_skills = None, ui_skill_cursor = 0, ui_memory_attached = False, ui_memory_query = None,
      ui_memories = [], ui_memory_searching = False\<rparr>"

definition keep_last :: "nat \<Rightarrow> 'a list \<Rightarrow> 'a list" where
  "keep_last n xs = drop (length xs - n) xs"

definition ui_log :: "string \<Rightarrow> app_state \<Rightarrow> app_state" where
  "ui_log line ui = ui\<lparr>ui_logs := keep_last max_log_lines (ui_logs ui @ [line])\<rparr>"

text \<open>The first row of a task is the one updated.\<close>

fun update_row :: "task_id \<Rightarrow> (task_row \<Rightarrow> task_row) \<Rightarrow> task_row list \<Rightarrow> task_row list" where
  "update_row i f [] = []"
| "update_row i f (t # ts) = (if tr_id t = i then f t # ts else t # update_row i f ts)"

definition update_task :: "task_id option \<Rightarrow> (task_row \<Rightarrow> task_row) \<Rightarrow> app_state \<Rightarrow> app_state" where
  "update_task i f ui = (case i of None \<Rightarrow> ui | Some i \<Rightarrow> ui\<lparr>ui_tasks := update_row i f (ui_tasks ui)\<rparr>)"

definition ui_apply :: "event \<Rightarrow> app_state \<Rightarrow> app_state" where
  "ui_apply e ui =
     (case ev_kind e of
        SessionStarted goal \<Rightarrow>
          ui_log (''session started: '' @ goal)
            (ui\<lparr>ui_goal := goal, ui_running := True, ui_finished := None, ui_tasks := [], ui_transcript := []\<rparr>)
      | SessionCompleted success \<Rightarrow>
          ui_log (''session '' @ (if success then ''completed'' else ''failed''))
            (ui\<lparr>ui_running := False, ui_finished := Some success, ui_current_agent := None, ui_current_model := None\<rparr>)
      | TaskPlanned n \<Rightarrow> ui_log (''planned '' @ show_nat n @ '' tasks'') ui
      | TaskCreated description \<Rightarrow>
          (case ev_task_id e of
             None \<Rightarrow> ui
           | Some i \<Rightarrow>
               ui\<lparr>ui_tasks := ui_tasks ui @
                    [\<lparr>tr_id = i, tr_description = description, tr_status = Pending, tr_agent = None, tr_model = None\<rparr>]\<rparr>)
      | TaskStatusChanged status \<Rightarrow> update_task (ev_task_id e) (\<lambda>t. t\<lparr>tr_status := status\<rparr>) ui
      | TaskCompletedEv tokens \<Rightarrow>
          update_task (ev_task_id e) (\<lambda>t. t\<lparr>tr_status := Completed\<rparr>)
            (ui\<lparr>ui_tokens := usage_merge (ui_tokens ui) tokens\<rparr>)
      | TaskFailedEv reason \<Rightarrow>
          ui_log (''task failed: '' @ reason) (update_task (ev_task_id e) (\<lambda>t. t\<lparr>tr_status := Failed\<rparr>) ui)
      | TaskSkippedEv blocked_by \<Rightarrow>
          ui_log (''task skipped, blocked by '' @ task_str blocked_by)
            (update_task (ev_task_id e) (\<lambda>t. t\<lparr>tr_status := Skipped\<rparr>) ui)
      | AgentSelected agent model score explanation \<Rightarrow>
          ui_log (''routed to '' @ agent_str agent @ '' (score '' @ fmt_fixed 3 score @ '')'')
            (update_task (ev_task_id e) (\<lambda>t. t\<lparr>tr_agent := Some agent, tr_model := model\<rparr>)
              (ui\<lparr>ui_current_agent := Some agent, ui_current_model := model, ui_last_explanation := Some explanation\<rparr>))
      | RoutingFailed reason \<Rightarrow> ui_log (''routing failed: '' @ reason) ui
      | AgentStarted agent \<Rightarrow>
          ui_log (agent_str agent @ '' started'') (update_task (ev_task_id e) (\<lambda>t. t\<lparr>tr_status := Running\<rparr>) ui)
      | AgentOutputReceived chunk \<Rightarrow> ui\<lparr>ui_transcript := ui_transcript ui @ chunk\<rparr>
      | AgentFailed agent cls message \<Rightarrow>
          ui_log (agent_str agent @ '' failed ('' @ debug_error_class cls @ ''): '' @ message) ui
      | RetryScheduled attempt delay reason \<Rightarrow>
          ui_log (''retry '' @ show_word attempt @ '' scheduled in '' @ show_word delay @ ''ms'') ui
      | FallbackSelected from to reason \<Rightarrow> ui_log (''falling back from '' @ agent_str from @ '': '' @ reason) ui
      | CircuitBreakerChanged agent state \<Rightarrow>
          ui_log (agent_str agent @ '' circuit breaker is '' @ state)
            (ui\<lparr>ui_agent_health := bt_insert agent state (ui_agent_health ui)\<rparr>)
      | HandoffPerformed from to \<Rightarrow> ui_log (''handed off from '' @ agent_str from @ '' to '' @ agent_str to) ui
      | SkillInstalled skill trust \<Rightarrow> ui_log (''installed skill '' @ skill @ '' ('' @ trust @ '')'') ui
      | SkillRejected skill reason \<Rightarrow> ui_log (''refused skill '' @ skill @ '': '' @ reason) ui
      | UsageRecorded tokens cost \<Rightarrow>
          (let ui = ui\<lparr>ui_tokens := usage_merge (ui_tokens ui) tokens\<rparr> in
           case cost of
             Some c \<Rightarrow> ui\<lparr>ui_spent_usd := fadd (ui_spent_usd ui) c\<rparr>
           | None \<Rightarrow> ui\<lparr>ui_unpriced_attempts := ui_unpriced_attempts ui + 1\<rparr>))"

definition ui_render_cost :: "app_state \<Rightarrow> string" where
  "ui_render_cost ui =
     (if 0 < ui_unpriced_attempts ui
      then [CHR 0xE2, CHR 0x89, CHR 0xA5] @ ''$'' @ fmt_fixed 4 (ui_spent_usd ui) @ '' ('' @
           show_word (ui_unpriced_attempts ui) @ '' unpriced)''
      else ''~$'' @ fmt_fixed 4 (ui_spent_usd ui))"

definition completed_count :: "app_state \<Rightarrow> nat" where
  "completed_count ui = length (filter (\<lambda>t. tr_status t = Completed) (ui_tasks ui))"

definition next_screen :: "app_state \<Rightarrow> app_state" where
  "next_screen ui = ui\<lparr>ui_screen := screen_after (ui_screen ui), ui_scroll := 0\<rparr>"

definition previous_screen :: "app_state \<Rightarrow> app_state" where
  "previous_screen ui = ui\<lparr>ui_screen := screen_before (ui_screen ui), ui_scroll := 0\<rparr>"

definition go_to :: "tui_screen \<Rightarrow> app_state \<Rightarrow> app_state" where
  "go_to s ui = ui\<lparr>ui_screen := s, ui_scroll := 0\<rparr>"

definition set_skills :: "skill_row list \<Rightarrow> app_state \<Rightarrow> app_state" where
  "set_skills rows ui = ui\<lparr>ui_skill_cursor := min (ui_skill_cursor ui) (length rows - 1), ui_skills := Some rows\<rparr>"

text \<open>\<open>saturating_add_signed\<close> on \<open>usize\<close>.\<close>

definition saturating_add_signed :: "nat \<Rightarrow> int \<Rightarrow> nat" where
  "saturating_add_signed n d = nat (min (max 0 (int n + d)) (2 ^ 64 - 1))"

definition move_skill_cursor :: "int \<Rightarrow> app_state \<Rightarrow> app_state" where
  "move_skill_cursor d ui =
     (let n = (case ui_skills ui of Some rows \<Rightarrow> length rows | None \<Rightarrow> 0) in
      if n = 0 then ui\<lparr>ui_skill_cursor := 0\<rparr>
      else ui\<lparr>ui_skill_cursor := min (saturating_add_signed (ui_skill_cursor ui) d) (n - 1)\<rparr>)"

definition selected_skill :: "app_state \<Rightarrow> skill_row option" where
  "selected_skill ui =
     Option.bind (ui_skills ui) (\<lambda>rows. if ui_skill_cursor ui < length rows then Some (rows ! ui_skill_cursor ui) else None)"

definition set_memories :: "string \<Rightarrow> memory_row list \<Rightarrow> app_state \<Rightarrow> app_state" where
  "set_memories q rows ui = ui\<lparr>ui_memory_query := Some q, ui_memories := rows, ui_memory_searching := False\<rparr>"

definition scroll_down :: "16 word \<Rightarrow> app_state \<Rightarrow> app_state" where
  "scroll_down n ui = ui\<lparr>ui_scroll := saturating_add (ui_scroll ui) n\<rparr>"

definition scroll_up :: "16 word \<Rightarrow> app_state \<Rightarrow> app_state" where
  "scroll_up n ui = ui\<lparr>ui_scroll := saturating_sub (ui_scroll ui) n\<rparr>"

definition already_running :: string where
  "already_running = ''a session is already running''"

definition begin_editing :: "app_state \<Rightarrow> app_state" where
  "begin_editing ui =
     (if ui_running ui \<and> ui_screen ui \<noteq> MemoryScreen then ui\<lparr>ui_notice := Some already_running\<rparr>
      else ui\<lparr>ui_input_mode := Editing, ui_notice := None\<rparr>)"

definition cancel_editing :: "app_state \<Rightarrow> app_state" where
  "cancel_editing ui = ui\<lparr>ui_input_mode := Navigating, ui_input := []\<rparr>"

definition submit :: "app_state \<Rightarrow> string option \<times> app_state" where
  "submit ui =
     (let goal = trim (ui_input ui); ui = ui\<lparr>ui_input_mode := Navigating, ui_input := []\<rparr> in
      if goal = [] then (None, ui) else (Some goal, ui\<lparr>ui_notice := None\<rparr>))"

definition push_char :: "string \<Rightarrow> app_state \<Rightarrow> app_state" where
  "push_char c ui = ui\<lparr>ui_input := ui_input ui @ c\<rparr>"

definition pop_char :: "app_state \<Rightarrow> app_state" where
  "pop_char ui = ui\<lparr>ui_input := concat (butlast (utf8_chars (ui_input ui)))\<rparr>"

definition ui_quit :: "app_state \<Rightarrow> app_state" where
  "ui_quit ui = ui\<lparr>ui_should_quit := True\<rparr>"

definition set_agents :: "agent_descriptor list \<Rightarrow> app_state \<Rightarrow> app_state" where
  "set_agents as ui = ui\<lparr>ui_agents := as\<rparr>"

section \<open>What each screen says\<close>

definition status_line :: "app_state \<Rightarrow> string" where
  "status_line ui =
     ''Meta Agent  |  '' @ show_nat (completed_count ui) @ ''/'' @ show_nat (length (ui_tasks ui)) @ '' tasks  |  '' @
     show_word (usage_total (ui_tokens ui)) @ '' tokens  |  '' @ ui_render_cost ui @ ''  |  '' @
     (if ui_running ui then ''running'' else if ui_finished ui \<noteq> None then ''finished'' else ''idle'')"

definition plan_lines :: "app_state \<Rightarrow> string list" where
  "plan_lines ui = map (\<lambda>t. status_marker (tr_status t) @ '' '' @ tr_description t) (ui_tasks ui)"

definition plan_panel :: "app_state \<Rightarrow> string list" where
  "plan_panel ui = (if plan_lines ui = [] then [''No plan yet.''] else plan_lines ui)"

definition or_dash :: "('a \<Rightarrow> string) \<Rightarrow> 'a option \<Rightarrow> string" where
  "or_dash f x = (case x of Some v \<Rightarrow> f v | None \<Rightarrow> ''-'')"

definition execution_lines :: "app_state \<Rightarrow> string list" where
  "execution_lines ui =
     [''Agent: '' @ or_dash agent_str (ui_current_agent ui), ''Model: '' @ or_dash model_str (ui_current_model ui)] @
     (case List.find (\<lambda>t. tr_status t = Running) (ui_tasks ui) of
        Some t \<Rightarrow> [''Task:  '' @ tr_description t]
      | None \<Rightarrow> [])"

definition help_line :: "app_state \<Rightarrow> string" where
  "help_line ui =
     (let dot = ''  '' @ [CHR 0xC2, CHR 0xB7] @ ''  '' in
      case ui_input_mode ui of
        Editing \<Rightarrow> ''Enter submit'' @ dot @ ''Esc cancel''
      | Navigating \<Rightarrow>
          ''Tab/Shift-Tab screens'' @ dot @ ''1-9 jump'' @ dot @ ''i new goal'' @ dot @
          [CHR 0xE2, CHR 0x86, CHR 0x91, CHR 0xE2, CHR 0x86, CHR 0x93] @ '' scroll'' @ dot @ ''q quit'')"

definition tab_titles :: "string list" where
  "tab_titles = map (\<lambda>(i, s). show_nat (i + 1) @ '':'' @ screen_title s) (enumerate 0 all_screens)"

definition status_bar :: "app_state \<Rightarrow> string" where
  "status_bar ui = status_line ui @ (case ui_notice ui of Some n \<Rightarrow> ''  |  '' @ n | None \<Rightarrow> [])"

definition conversation_lines :: "app_state \<Rightarrow> string list" where
  "conversation_lines ui =
     (let lines = (if ui_goal ui = [] then [] else [''You'', ''> '' @ ui_goal ui, []]) @
                  (if ui_transcript ui = [] then [] else ''Agent'' # str_lines (ui_transcript ui)) in
      if lines = [] then [''Press i to enter a goal.''] else lines)"

fun debug_task_status :: "task_status \<Rightarrow> string" where
  "debug_task_status Pending = ''Pending''"
| "debug_task_status Ready = ''Ready''"
| "debug_task_status Running = ''Running''"
| "debug_task_status Completed = ''Completed''"
| "debug_task_status Failed = ''Failed''"
| "debug_task_status Skipped = ''Skipped''"
| "debug_task_status TaskCancelled = ''Cancelled''"

fun debug_protocol :: "agent_protocol \<Rightarrow> string" where
  "debug_protocol Acp = ''Acp''"
| "debug_protocol A2A = ''A2A''"
| "debug_protocol Native = ''Native''"

definition tasks_table :: "app_state \<Rightarrow> string list list" where
  "tasks_table ui =
     map (\<lambda>t. [status_marker (tr_status t), debug_task_status (tr_status t), or_dash agent_str (tr_agent t),
               or_dash model_str (tr_model t), tr_description t]) (ui_tasks ui)"

definition agents_table :: "app_state \<Rightarrow> string list list" where
  "agents_table ui =
     map (\<lambda>a. [agent_str (ad_id a), debug_protocol (ad_protocol a),
               (case bt_get (ui_agent_health ui) (ad_id a) of Some h \<Rightarrow> h | None \<Rightarrow> debug_health_state (ah_state (ad_health a))),
               show_nat (length (ad_models a)), show_nat (length (ad_capabilities a))]) (ui_agents ui)"

definition models_table :: "app_state \<Rightarrow> string list list" where
  "models_table ui =
     (let price = \<lambda>p. or_dash (fmt_fixed 2) (known_value p) in
      map (\<lambda>m. [model_str (md_id m), agent_str (md_agent_id m),
                or_dash (\<lambda>w. show_word (w div 1000) @ ''K'') (known_value (md_context_window m)),
                price (input_per_mtok (md_cost m)), price (output_per_mtok (md_cost m))])
        (concat (map ad_models (ui_agents ui))))"

definition usage_lines :: "app_state \<Rightarrow> string list" where
  "usage_lines ui =
     [''Tokens in:     '' @ show_word (tu_input (ui_tokens ui)), ''Tokens out:    '' @ show_word (tu_output (ui_tokens ui)),
      ''Tokens cached: '' @ show_word (tu_cached (ui_tokens ui)), [], ''Cost:          '' @ ui_render_cost ui, [],
      ''Tasks:         '' @ show_nat (completed_count ui) @ '' of '' @ show_nat (length (ui_tasks ui)) @ '' complete''] @
     (if tu_reported (ui_tokens ui) then []
      else [[], ''Some token counts were estimated, not reported by the agent.''])"

definition configuration_lines :: "app_state \<Rightarrow> string list" where
  "configuration_lines ui =
     str_lines (case ui_last_explanation ui of Some e \<Rightarrow> e | None \<Rightarrow> ''No routing decision has been made yet.'')"

text \<open>\<open>{:<n}\<close> counts characters.\<close>

definition pad_chars :: "nat \<Rightarrow> string \<Rightarrow> string" where
  "pad_chars n s = s @ replicate (n - length (utf8_chars s)) (CHR '' '')"

definition skill_lines :: "app_state \<Rightarrow> string list" where
  "skill_lines ui =
     (case ui_skills ui of
        None \<Rightarrow> [''No skill manager is attached to this interface.'']
      | Some [] \<Rightarrow>
          [''No skills are installed.'', [], ''Find some with: cuma skills search <query>, then cuma skills install <id>'']
      | Some rows \<Rightarrow>
          map (\<lambda>r. (if kr_enabled r then ''[x]'' else ''[ ]'') @ '' '' @ pad_chars 24 (kr_id r) @ '' '' @ pad_chars 10 (kr_trust r) @
                   '' '' @ pad_chars 12 (kr_registry r) @ join '', '' (kr_capabilities r)) rows @
          [[], [CHR 0xE2, CHR 0x86, CHR 0x91] @ ''/'' @ [CHR 0xE2, CHR 0x86, CHR 0x93] @ '' select   space enable/disable '' @
               [CHR 0xE2, CHR 0x80, CHR 0x94] @ '' an enabled skill'' @ [CHR 0x27] @ ''s instructions accompany relevant tasks''])"

text \<open>\<open>dbg\<close> is \<open>{:?}\<close> on a string.\<close>

definition memory_lines :: "(string \<Rightarrow> string) \<Rightarrow> app_state \<Rightarrow> string list" where
  "memory_lines dbg ui =
     (if \<not> ui_memory_attached ui
      then [''Long-term memory is off.'', [], ''Enable it with [memory] enabled = true in .cuma/config.toml.'']
      else
        (if ui_memory_searching ui then [''searching'' @ [CHR 0xE2, CHR 0x80, CHR 0xA6]]
         else case ui_memory_query ui of
                Some q \<Rightarrow>
                  [show_nat (length (ui_memories ui)) @ '' result'' @ (if length (ui_memories ui) = 1 then [] else ''s'') @
                   '' for '' @ dbg q]
              | None \<Rightarrow> [''Press / to search long-term memory.'']) @
        [[]] @
        concat (map (\<lambda>m. [mr_id m @ '' ('' @ mr_kind m @ '')''] @ map (\<lambda>l. ''  '' @ l) (take 6 (str_lines (mr_content m))) @ [[]])
          (ui_memories ui)))"

definition input_line :: "app_state \<Rightarrow> string" where
  "input_line ui =
     (case ui_input_mode ui of
        Editing \<Rightarrow> ''> '' @ ui_input ui @ ''_''
      | Navigating \<Rightarrow>
          (if ui_running ui then ''running'' @ [CHR 0xE2, CHR 0x80, CHR 0xA6] else ''press i to enter a goal''))"

section \<open>Keys\<close>

datatype key_code =
    KeyEnter | KeyEsc | KeyBackspace | KeyChar string | KeyTab | KeyBackTab | KeyLeft | KeyRight | KeyUp | KeyDown
  | KeyPageUp | KeyPageDown | KeyHome | KeyOther

record key_event =
  kv_release :: bool
  kv_control :: bool
  kv_code :: key_code

datatype action =
    NoAction | QuitAction | RedrawAction | SubmitGoal string | SearchMemory string | ToggleSkill string bool

definition edit_key :: "key_code \<Rightarrow> app_state \<Rightarrow> action \<times> app_state" where
  "edit_key code ui =
     (case code of
        KeyEnter \<Rightarrow>
          (case submit ui of
             (Some text, ui) \<Rightarrow>
               if ui_screen ui = MemoryScreen then (SearchMemory text, ui\<lparr>ui_memory_searching := True\<rparr>)
               else (SubmitGoal text, ui)
           | (None, ui) \<Rightarrow> (RedrawAction, ui))
      | KeyEsc \<Rightarrow> (RedrawAction, cancel_editing ui)
      | KeyBackspace \<Rightarrow> (RedrawAction, pop_char ui)
      | KeyChar c \<Rightarrow> (RedrawAction, push_char c ui)
      | _ \<Rightarrow> (NoAction, ui))"

definition digit_screen :: "string \<Rightarrow> tui_screen option" where
  "digit_screen c =
     (case c of
        [d] \<Rightarrow> let n = (of_char d :: nat) in if 49 \<le> n \<and> n \<le> 57 then Some (all_screens ! (n - 49)) else None
      | _ \<Rightarrow> None)"

definition navigate_key :: "key_code \<Rightarrow> app_state \<Rightarrow> action \<times> app_state" where
  "navigate_key code ui =
     (if code \<in> {KeyChar ''q'', KeyEsc} then (QuitAction, ui_quit ui)
      else if code \<in> {KeyChar ''i'', KeyChar ''/''} then (RedrawAction, begin_editing ui)
      else if code \<in> {KeyTab, KeyRight} then (RedrawAction, next_screen ui)
      else if code \<in> {KeyBackTab, KeyLeft} then (RedrawAction, previous_screen ui)
      else if code \<in> {KeyDown, KeyChar ''j''} \<and> ui_screen ui = SkillsScreen then (RedrawAction, move_skill_cursor 1 ui)
      else if code \<in> {KeyUp, KeyChar ''k''} \<and> ui_screen ui = SkillsScreen then (RedrawAction, move_skill_cursor (- 1) ui)
      else if code \<in> {KeyChar '' '', KeyChar ''e''} \<and> ui_screen ui = SkillsScreen then
        (case selected_skill ui of Some r \<Rightarrow> (ToggleSkill (kr_id r) (\<not> kr_enabled r), ui) | None \<Rightarrow> (NoAction, ui))
      else if code \<in> {KeyDown, KeyChar ''j''} then (RedrawAction, scroll_down 1 ui)
      else if code \<in> {KeyUp, KeyChar ''k''} then (RedrawAction, scroll_up 1 ui)
      else if code = KeyPageDown then (RedrawAction, scroll_down 10 ui)
      else if code = KeyPageUp then (RedrawAction, scroll_up 10 ui)
      else if code = KeyHome then (RedrawAction, ui\<lparr>ui_scroll := 0\<rparr>)
      else
        case code of
          KeyChar c \<Rightarrow> (case digit_screen c of Some s \<Rightarrow> (RedrawAction, go_to s ui) | None \<Rightarrow> (NoAction, ui))
        | _ \<Rightarrow> (NoAction, ui))"

definition handle_key :: "key_event \<Rightarrow> app_state \<Rightarrow> action \<times> app_state" where
  "handle_key key ui =
     (if kv_release key then (NoAction, ui)
      else if kv_control key \<and> kv_code key = KeyChar ''c'' then (QuitAction, ui_quit ui)
      else case ui_input_mode ui of
             Editing \<Rightarrow> edit_key (kv_code key) ui
           | Navigating \<Rightarrow> navigate_key (kv_code key) ui)"

section \<open>The loop\<close>

text \<open>What the interface makes the rest of the program do, in order.\<close>

datatype ui_call =
    StartSession string | AbortSession | StartRecall string | AbortRecall | SetSkillEnabled string bool

record loop_state =
  lp_ui :: app_state
  lp_session :: "string option"
  lp_recall :: "string option"
  lp_redraw :: bool
  lp_done :: bool
  lp_calls :: "ui_call list"

text \<open>What wakes the loop. A key comes with the answers of the skill source, should it be asked: of \<open>set_enabled\<close>,
  and of \<open>skills\<close> after it. \<open>AgentDescriptors\<close> are the agents of the registry at that moment.\<close>

datatype wake =
    KeyPressed key_event "unit result" "skill_row list result"
  | Resized
  | OtherTerminalEvent
  | BusEvent event "agent_descriptor list"
  | BusLagged nat
  | BusClosed
  | SessionDone "session_result result" "agent_descriptor list"
  | SessionPanicked string "agent_descriptor list"
  | RecallDone "memory_row list result"
  | RecallStopped string
  | IdleRedraw

definition notice :: "string \<Rightarrow> app_state \<Rightarrow> app_state" where
  "notice n ui = ui\<lparr>ui_notice := Some n\<rparr>"

definition refresh_skills :: "skill_row list result \<Rightarrow> app_state \<Rightarrow> app_state" where
  "refresh_skills listed ui =
     (case listed of
        Inr rows \<Rightarrow> set_skills rows ui
      | Inl err \<Rightarrow> notice (''cannot list skills: '' @ display_error err) ui)"

definition apply_and_refresh :: "event \<Rightarrow> agent_descriptor list \<Rightarrow> app_state \<Rightarrow> app_state" where
  "apply_and_refresh e agents ui =
     (case ev_kind e of CircuitBreakerChanged _ _ \<Rightarrow> set_agents agents (ui_apply e ui) | _ \<Rightarrow> ui_apply e ui)"

definition act :: "bool \<Rightarrow> bool \<Rightarrow> unit result \<Rightarrow> skill_row list result \<Rightarrow> action \<Rightarrow> loop_state \<Rightarrow> loop_state" where
  "act has_skills has_memory set_answer listed a lp =
     (case a of
        NoAction \<Rightarrow> lp
      | QuitAction \<Rightarrow> lp\<lparr>lp_done := True\<rparr>
      | RedrawAction \<Rightarrow> lp\<lparr>lp_redraw := True\<rparr>
      | SubmitGoal goal \<Rightarrow>
          (case lp_session lp of
             Some _ \<Rightarrow> lp\<lparr>lp_ui := notice already_running (lp_ui lp), lp_redraw := True\<rparr>
           | None \<Rightarrow> lp\<lparr>lp_session := Some goal, lp_calls := lp_calls lp @ [StartSession goal], lp_redraw := True\<rparr>)
      | SearchMemory query \<Rightarrow>
          (if has_memory then
             lp\<lparr>lp_recall := Some query,
                lp_calls := lp_calls lp @ (if lp_recall lp = None then [] else [AbortRecall]) @ [StartRecall query],
                lp_redraw := True\<rparr>
           else
             lp\<lparr>lp_ui := notice ''no memory backend is configured'' ((lp_ui lp)\<lparr>ui_memory_searching := False\<rparr>), lp_redraw := True\<rparr>)
      | ToggleSkill i enabled \<Rightarrow>
          (if has_skills then
             lp\<lparr>lp_ui := refresh_skills listed
                  (notice (case set_answer of
                       Inr _ \<Rightarrow> (if enabled then ''enabled'' else ''disabled'') @ '' '' @ i
                     | Inl err \<Rightarrow> display_error err) (lp_ui lp)),
                lp_calls := lp_calls lp @ [SetSkillEnabled i enabled], lp_redraw := True\<rparr>
           else lp\<lparr>lp_redraw := True\<rparr>))"

definition session_ended :: "string \<Rightarrow> agent_descriptor list \<Rightarrow> loop_state \<Rightarrow> loop_state" where
  "session_ended text agents lp =
     (case lp_session lp of
        None \<Rightarrow> lp
      | Some _ \<Rightarrow> lp\<lparr>lp_session := None, lp_ui := set_agents agents (notice text (lp_ui lp)), lp_redraw := True\<rparr>)"

text \<open>A branch whose handle is absent never resolves: work that was not started does not finish.\<close>

definition loop_turn :: "bool \<Rightarrow> bool \<Rightarrow> wake \<Rightarrow> loop_state \<Rightarrow> loop_state" where
  "loop_turn has_skills has_memory w lp =
     (case w of
        KeyPressed key set_answer listed \<Rightarrow>
          (case handle_key key (lp_ui lp) of
             (a, ui) \<Rightarrow> act has_skills has_memory set_answer listed a (lp\<lparr>lp_ui := ui\<rparr>))
      | Resized \<Rightarrow> lp\<lparr>lp_redraw := True\<rparr>
      | OtherTerminalEvent \<Rightarrow> lp
      | BusEvent e agents \<Rightarrow> lp\<lparr>lp_ui := apply_and_refresh e agents (lp_ui lp), lp_redraw := True\<rparr>
      | BusLagged missed \<Rightarrow>
          lp\<lparr>lp_ui := notice (show_nat missed @ '' events dropped while redrawing'') (lp_ui lp), lp_redraw := True\<rparr>
      | BusClosed \<Rightarrow> lp\<lparr>lp_done := True\<rparr>
      | SessionDone r agents \<Rightarrow>
          session_ended (case r of Inr res \<Rightarrow> sr_summary res | Inl err \<Rightarrow> ''session failed: '' @ display_error err) agents lp
      | SessionPanicked text agents \<Rightarrow> session_ended (''session task panicked: '' @ text) agents lp
      | RecallDone found \<Rightarrow>
          (case lp_recall lp of
             None \<Rightarrow> lp
           | Some query \<Rightarrow>
               lp\<lparr>lp_recall := None, lp_redraw := True,
                  lp_ui := (case found of
                      Inr rows \<Rightarrow> set_memories query rows (lp_ui lp)
                    | Inl err \<Rightarrow> notice (''memory search failed: '' @ display_error err) (set_memories query [] (lp_ui lp)))\<rparr>)
      | RecallStopped text \<Rightarrow>
          (case lp_recall lp of
             None \<Rightarrow> lp
           | Some _ \<Rightarrow>
               lp\<lparr>lp_recall := None, lp_redraw := True,
                  lp_ui := notice (''memory search stopped: '' @ text) ((lp_ui lp)\<lparr>ui_memory_searching := False\<rparr>)\<rparr>)
      | IdleRedraw \<Rightarrow> lp\<lparr>lp_redraw := True\<rparr>)"

text \<open>Drawing comes first in a round, and a state that asked to quit ends the loop before it waits again.\<close>

definition loop_step :: "bool \<Rightarrow> bool \<Rightarrow> wake \<Rightarrow> loop_state \<Rightarrow> loop_state" where
  "loop_step has_skills has_memory w lp =
     (if lp_done lp then lp
      else let lp = lp\<lparr>lp_redraw := False\<rparr> in
        if ui_should_quit (lp_ui lp) then lp\<lparr>lp_done := True\<rparr> else loop_turn has_skills has_memory w lp)"

definition loop_exit :: "loop_state \<Rightarrow> loop_state" where
  "loop_exit lp =
     lp\<lparr>lp_calls := lp_calls lp @ (if lp_session lp = None then [] else [AbortSession]) @
                    (if lp_recall lp = None then [] else [AbortRecall])\<rparr>"

definition start_interface :: "bool \<Rightarrow> bool \<Rightarrow> agent_descriptor list \<Rightarrow> skill_row list result \<Rightarrow> loop_state" where
  "start_interface has_skills has_memory agents listed =
     \<lparr>lp_ui = (if has_skills then refresh_skills listed else id)
               ((set_agents agents new_app_state)\<lparr>ui_memory_attached := has_memory\<rparr>),
      lp_session = None, lp_recall = None, lp_redraw = True, lp_done = False, lp_calls = []\<rparr>"

definition run_interface :: "bool \<Rightarrow> bool \<Rightarrow> agent_descriptor list \<Rightarrow> skill_row list result \<Rightarrow> wake list \<Rightarrow> loop_state" where
  "run_interface has_skills has_memory agents listed ws =
     loop_exit (fold (loop_step has_skills has_memory) ws (start_interface has_skills has_memory agents listed))"

end
