(* ===== verification/Interface_Runs.thy ===== *)
theory Interface_Runs
  imports Interface Step_System
begin

text \<open>
  What the terminal interface keeps true over any run of its loop (\<open>cuma-tui/src/app.rs\<close>), and what it shows of
  the sessions the orchestrator announces.
\<close>

section \<open>An invariant of the view model\<close>

definition shown_skills :: "skill_row list option \<Rightarrow> skill_row list" where
  "shown_skills skills = (case skills of Some rows \<Rightarrow> rows | None \<Rightarrow> [])"

lemma shown_skills_simps [simp]: "shown_skills None = []" "shown_skills (Some rows) = rows"
  by (simp_all add: shown_skills_def)

definition cursor_ok :: "app_state \<Rightarrow> bool" where
  "cursor_ok ui \<longleftrightarrow> ui_skill_cursor ui \<le> length (shown_skills (ui_skills ui)) - 1"

definition ui_ok :: "app_state \<Rightarrow> bool" where
  "ui_ok ui \<longleftrightarrow> length (ui_logs ui) \<le> max_log_lines \<and> cursor_ok ui \<and> (ui_input_mode ui = Navigating \<longrightarrow> ui_input ui = [])"

lemma keep_last_length [simp]: "length (keep_last n xs) = min n (length xs)"
  by (simp add: keep_last_def)

lemma ui_log_simps [simp]:
  "ui_running (ui_log l ui) = ui_running ui" "ui_tasks (ui_log l ui) = ui_tasks ui" "ui_tokens (ui_log l ui) = ui_tokens ui"
  "ui_skills (ui_log l ui) = ui_skills ui" "ui_skill_cursor (ui_log l ui) = ui_skill_cursor ui"
  "ui_input_mode (ui_log l ui) = ui_input_mode ui" "ui_input (ui_log l ui) = ui_input ui" "ui_screen (ui_log l ui) = ui_screen ui"
  "ui_memory_searching (ui_log l ui) = ui_memory_searching ui" "ui_should_quit (ui_log l ui) = ui_should_quit ui"
  by (simp_all add: ui_log_def)

lemma update_task_simps [simp]:
  "ui_running (update_task i f ui) = ui_running ui" "ui_logs (update_task i f ui) = ui_logs ui" "ui_tokens (update_task i f ui) = ui_tokens ui"
  "ui_skills (update_task i f ui) = ui_skills ui" "ui_skill_cursor (update_task i f ui) = ui_skill_cursor ui"
  "ui_input_mode (update_task i f ui) = ui_input_mode ui" "ui_input (update_task i f ui) = ui_input ui"
  "ui_screen (update_task i f ui) = ui_screen ui" "ui_memory_searching (update_task i f ui) = ui_memory_searching ui"
  "ui_should_quit (update_task i f ui) = ui_should_quit ui"
  by (simp_all add: update_task_def split: option.split)

lemma update_task_length [simp]: "length (ui_tasks (update_task i f ui)) = length (ui_tasks ui)"
proof -
  have "length (update_row j f ts) = length ts" for j ts by (induction j f ts rule: update_row.induct) simp_all
  then show ?thesis by (simp add: update_task_def split: option.split)
qed

lemma update_task_Nil [simp]: "ui_tasks (update_task i f ui) = [] \<longleftrightarrow> ui_tasks ui = []"
  by (metis length_0_conv update_task_length)

text \<open>An event changes nothing of the input, of the screen shown, of the skills and of the search.\<close>

lemma ui_apply_simps [simp]:
  "ui_skills (ui_apply e ui) = ui_skills ui" "ui_skill_cursor (ui_apply e ui) = ui_skill_cursor ui"
  "ui_input_mode (ui_apply e ui) = ui_input_mode ui" "ui_input (ui_apply e ui) = ui_input ui" "ui_screen (ui_apply e ui) = ui_screen ui"
  "ui_memory_searching (ui_apply e ui) = ui_memory_searching ui" "ui_should_quit (ui_apply e ui) = ui_should_quit ui"
  by (simp_all add: ui_apply_def Let_def split: event_kind.split option.split)

lemma ui_apply_logs: "length (ui_logs ui) \<le> max_log_lines \<Longrightarrow> length (ui_logs (ui_apply e ui)) \<le> max_log_lines"
  by (simp add: ui_apply_def Let_def ui_log_def split: event_kind.split option.split)

lemma ui_ok_apply: "ui_ok ui \<Longrightarrow> ui_ok (ui_apply e ui)"
  by (simp add: ui_ok_def cursor_ok_def ui_apply_logs)

lemma apply_and_refresh_simps [simp]:
  "ui_running (apply_and_refresh e as ui) = ui_running (ui_apply e ui)" "ui_tasks (apply_and_refresh e as ui) = ui_tasks (ui_apply e ui)"
  "ui_input_mode (apply_and_refresh e as ui) = ui_input_mode ui" "ui_screen (apply_and_refresh e as ui) = ui_screen ui"
  "ui_memory_searching (apply_and_refresh e as ui) = ui_memory_searching ui"
  "ui_should_quit (apply_and_refresh e as ui) = ui_should_quit ui" "ui_tokens (apply_and_refresh e as ui) = ui_tokens (ui_apply e ui)"
  by (simp_all add: apply_and_refresh_def set_agents_def split: event_kind.split)

lemma ui_ok_set_agents [simp]: "ui_ok (set_agents as ui) = ui_ok ui"
  by (simp add: ui_ok_def cursor_ok_def set_agents_def)

lemma ui_ok_notice [simp]: "ui_ok (notice n ui) = ui_ok ui"
  by (simp add: ui_ok_def cursor_ok_def notice_def)

lemma ui_ok_refresh: "ui_ok ui \<Longrightarrow> ui_ok (apply_and_refresh e as ui)"
  by (simp add: apply_and_refresh_def ui_ok_apply split: event_kind.split)

lemma ui_ok_skills: "ui_ok ui \<Longrightarrow> ui_ok (refresh_skills listed ui)"
  by (auto simp: refresh_skills_def ui_ok_def cursor_ok_def set_skills_def notice_def split: sum.split)

lemma ui_ok_edit: "ui_ok ui \<Longrightarrow> ui_input_mode ui = Editing \<Longrightarrow> ui_ok (snd (edit_key code ui))"
  by (auto simp: edit_key_def submit_def Let_def cancel_editing_def pop_char_def push_char_def ui_ok_def cursor_ok_def
      split: key_code.split)

text \<open>Whatever the key, navigation ends in one of these ways.\<close>

lemma navigate_key_cases:
  assumes "P (QuitAction, ui_quit ui)" "P (RedrawAction, begin_editing ui)" "P (RedrawAction, next_screen ui)"
    and "P (RedrawAction, previous_screen ui)" "\<And>d. P (RedrawAction, move_skill_cursor d ui)"
    and "\<And>i b. P (ToggleSkill i b, ui)" "P (NoAction, ui)" "\<And>n. P (RedrawAction, scroll_down n ui)"
    and "\<And>n. P (RedrawAction, scroll_up n ui)" "P (RedrawAction, ui\<lparr>ui_scroll := 0\<rparr>)" "\<And>s. P (RedrawAction, go_to s ui)"
  shows "P (navigate_key code ui)"
proof -
  have digits: "P (case code of KeyChar c \<Rightarrow> (case digit_screen c of Some s \<Rightarrow> (RedrawAction, go_to s ui) | None \<Rightarrow> (NoAction, ui))
        | _ \<Rightarrow> (NoAction, ui))"
    using assms(7,11) by (simp split: key_code.split option.split)
  have toggle: "P (case selected_skill ui of Some r \<Rightarrow> (ToggleSkill (kr_id r) (\<not> kr_enabled r), ui) | None \<Rightarrow> (NoAction, ui))"
    using assms(6,7) by (simp split: option.split)
  have choice: "P x \<Longrightarrow> P y \<Longrightarrow> P (if c then x else y)" for x y c by simp
  show ?thesis unfolding navigate_key_def by (intro choice assms digits toggle)
qed

lemma ui_ok_navigate: "ui_ok ui \<Longrightarrow> ui_input_mode ui = Navigating \<Longrightarrow> ui_ok (snd (navigate_key code ui))"
  by (rule navigate_key_cases)
    (auto simp: ui_ok_def cursor_ok_def ui_quit_def begin_editing_def next_screen_def previous_screen_def move_skill_cursor_def
      Let_def scroll_down_def scroll_up_def go_to_def shown_skills_def split: option.splits)

lemma ui_ok_quit [simp]: "ui_ok (ui_quit ui) = ui_ok ui"
  by (simp add: ui_quit_def ui_ok_def cursor_ok_def)

lemma ui_ok_key: "ui_ok ui \<Longrightarrow> ui_ok (snd (handle_key key ui))"
  using ui_ok_edit ui_ok_navigate by (auto simp: handle_key_def split: input_mode.split)

section \<open>An invariant of the loop\<close>

definition sent_goal :: "ui_call \<Rightarrow> bool" where
  "sent_goal c \<longleftrightarrow> (case c of StartSession g \<Rightarrow> g \<noteq> [] \<and> trim g = g | StartRecall q \<Rightarrow> q \<noteq> [] \<and> trim q = q | _ \<Rightarrow> True)"

definition searches_recall :: "loop_state \<Rightarrow> bool" where
  "searches_recall lp \<longleftrightarrow> (ui_memory_searching (lp_ui lp) \<longleftrightarrow> lp_recall lp \<noteq> None)"

definition lp_ok :: "bool \<Rightarrow> loop_state \<Rightarrow> bool" where
  "lp_ok has_memory lp \<longleftrightarrow>
     ui_ok (lp_ui lp) \<and> searches_recall lp \<and> (\<not> has_memory \<longrightarrow> lp_recall lp = None) \<and> list_all sent_goal (lp_calls lp)"

definition is_request :: "action \<Rightarrow> bool" where
  "is_request a \<longleftrightarrow> (case a of SubmitGoal _ \<Rightarrow> True | SearchMemory _ \<Rightarrow> True | _ \<Rightarrow> False)"

text \<open>What a key may ask for: a goal or a query only as typed, and a search only with the flag set.\<close>

lemma handle_key_action:
  assumes "handle_key key ui = (a, ui')"
  shows "(\<forall>g. a = SubmitGoal g \<longrightarrow> g \<noteq> [] \<and> trim g = g) \<and>
    (case a of
       SearchMemory q \<Rightarrow> ui_memory_searching ui' \<and> q \<noteq> [] \<and> trim q = q
     | _ \<Rightarrow> ui_memory_searching ui' = ui_memory_searching ui)"
proof (cases "kv_release key \<or> kv_control key \<and> kv_code key = KeyChar ''c''")
  case True
  then show ?thesis using assms by (auto simp: handle_key_def ui_quit_def split: if_splits)
next
  case False
  show ?thesis
  proof (cases "ui_input_mode ui")
    case Editing
    then show ?thesis using assms False
      by (auto simp: handle_key_def edit_key_def submit_def Let_def cancel_editing_def pop_char_def push_char_def
          split: key_code.splits if_splits)
  next
    case Navigating
    then have key: "navigate_key (kv_code key) ui = (a, ui')" using assms False by (auto simp: handle_key_def)
    have "\<not> is_request (fst (navigate_key code ui)) \<and> ui_memory_searching (snd (navigate_key code ui)) = ui_memory_searching ui" for code
      by (rule navigate_key_cases)
        (simp_all add: ui_quit_def begin_editing_def next_screen_def previous_screen_def move_skill_cursor_def
          Let_def scroll_down_def scroll_up_def go_to_def is_request_def)
    from this [of "kv_code key"] show ?thesis by (simp add: key is_request_def split: action.splits)
  qed
qed

lemma refresh_searching [simp]:
  "ui_memory_searching (refresh_skills listed ui) = ui_memory_searching ui" "ui_memory_searching (notice n ui) = ui_memory_searching ui"
  "ui_memory_searching (set_agents as ui) = ui_memory_searching ui"
  by (simp_all add: refresh_skills_def set_skills_def notice_def set_agents_def split: sum.split)

lemma ui_ok_searching [simp]: "ui_ok (ui\<lparr>ui_memory_searching := b\<rparr>) = ui_ok ui"
  by (simp add: ui_ok_def cursor_ok_def)

lemma ui_ok_memories [simp]: "ui_ok (set_memories q rows ui) = ui_ok ui"
  by (simp add: ui_ok_def cursor_ok_def set_memories_def)

lemma lp_ok_act:
  assumes "lp_ok has_memory lp" "handle_key key (lp_ui lp) = (a, ui)"
  shows "lp_ok has_memory (act has_skills has_memory answer listed a (lp\<lparr>lp_ui := ui\<rparr>))"
proof -
  have "ui_ok ui" using ui_ok_key assms by (metis lp_ok_def snd_conv)
  with assms(1) handle_key_action [OF assms(2)] show ?thesis
    by (cases a) (auto simp: act_def lp_ok_def searches_recall_def sent_goal_def ui_ok_skills split: option.split)
qed

lemma lp_ok_session_ended: "lp_ok has_memory lp \<Longrightarrow> lp_ok has_memory (session_ended t as lp)"
  by (auto simp: session_ended_def lp_ok_def searches_recall_def split: option.split)

lemma lp_ok_turn: "lp_ok has_memory lp \<Longrightarrow> lp_ok has_memory (loop_turn has_skills has_memory w lp)"
proof (cases w)
  case (KeyPressed key answer listed)
  assume "lp_ok has_memory lp"
  then show ?thesis using lp_ok_act by (auto simp: loop_turn_def KeyPressed split: prod.split)
next
  case (RecallDone found)
  assume "lp_ok has_memory lp"
  then show ?thesis
    by (auto simp: loop_turn_def RecallDone lp_ok_def searches_recall_def set_memories_def [of _ _ "lp_ui lp"] notice_def
        split: option.splits sum.splits) (auto simp: ui_ok_def cursor_ok_def)
qed (auto simp: loop_turn_def lp_ok_session_ended, auto simp: lp_ok_def searches_recall_def ui_ok_refresh split: option.split)

lemma lp_ok_step: "lp_ok has_memory lp \<Longrightarrow> lp_ok has_memory (loop_step has_skills has_memory w lp)"
  by (auto simp: loop_step_def Let_def intro!: lp_ok_turn) (auto simp: lp_ok_def searches_recall_def)

lemma lp_ok_start: "lp_ok has_memory (start_interface has_skills has_memory agents listed)"
  by (auto simp: start_interface_def lp_ok_def searches_recall_def intro!: ui_ok_skills)
    (auto simp: ui_ok_def cursor_ok_def new_app_state_def set_agents_def)

interpretation interface_runs: step_system
  "\<lambda>lp. lp = start_interface has_skills has_memory agents listed"
  "loop_step has_skills has_memory" "lp_ok has_memory" for has_skills has_memory agents listed
  by unfold_locales (auto simp: lp_ok_start lp_ok_step)

section \<open>What is shown of a session\<close>

lemma news_adds_no_task: "task_news s e \<Longrightarrow> ui_tasks ui = [] \<Longrightarrow> ui_tasks (ui_apply e ui) = []"
  by (auto simp: task_news_def ui_apply_def Let_def split: event_kind.splits option.split)

lemma news_keeps_running: "task_news s e \<Longrightarrow> ui_running (ui_apply e ui) = ui_running ui"
  by (auto simp: task_news_def ui_apply_def Let_def split: event_kind.splits option.split)

lemma news_shown:
  "list_all (task_news s) es \<Longrightarrow> ui_tasks ui = [] \<Longrightarrow> ui_tasks (fold ui_apply es ui) = [] \<and> ui_running (fold ui_apply es ui) = ui_running ui"
proof (induction es arbitrary: ui)
  case (Cons e es)
  then have e: "task_news s e" by simp
  from Cons.IH [of "ui_apply e ui"] Cons.prems news_adds_no_task [OF e] news_keeps_running [OF e] show ?case by simp
qed simp

lemma session_shown:
  assumes "session_log s goal r es"
  shows "ui_tasks (fold ui_apply es ui) = []" "ui_running (fold ui_apply es ui) \<longleftrightarrow> (\<exists>e. r = Inl e)"
proof -
  have start: "ui_tasks (ui_apply (session_event s (SessionStarted goal)) ui) = []" "ui_running (ui_apply (session_event s (SessionStarted goal)) ui)"
    by (simp_all add: ui_apply_def session_event_def)
  have planned: "ui_tasks (ui_apply (session_event s (TaskPlanned n)) u) = ui_tasks u" for n u
    by (simp add: ui_apply_def session_event_def)
  have finish: "ui_tasks (ui_apply (session_event s (SessionCompleted b)) u) = ui_tasks u"
      "\<not> ui_running (ui_apply (session_event s (SessionCompleted b)) u)" for b u
    by (simp_all add: ui_apply_def session_event_def)
  show "ui_tasks (fold ui_apply es ui) = []" "ui_running (fold ui_apply es ui) \<longleftrightarrow> (\<exists>e. r = Inl e)"
    using assms start planned finish news_shown by (auto simp: session_log_def split: sum.splits)
qed

text \<open>The token count of a default state is an estimate, and merging keeps it one.\<close>

lemma apply_keeps_estimated: "\<not> tu_reported (ui_tokens ui) \<Longrightarrow> \<not> tu_reported (ui_tokens (ui_apply e ui))"
  by (simp add: ui_apply_def Let_def usage_merge_def split: event_kind.split option.split)

lemma always_estimated: "\<not> tu_reported (ui_tokens ui) \<Longrightarrow> \<not> tu_reported (ui_tokens (fold ui_apply es ui))"
  by (induction es arbitrary: ui) (simp_all add: apply_keeps_estimated)

text \<open>What the executor announces of an attempt that completes its task.\<close>

lemma chunks_announced: "sh_events (fold (\<lambda>c. publish (f c)) cs sh) = sh_events sh @ map f cs"
  by (induction cs arbitrary: sh) (simp_all add: publish_def)

lemma usage_announced:
  "\<exists>cost. sh_events (record_attempt oc s t env a m tokens rc ok cls n sh) =
     sh_events sh @ [with_attempt (task_event s (tk_id t) (UsageRecorded tokens cost)) (ae_attempt_id env)]"
  by (auto simp: record_attempt_def Let_def publish_def)

lemma success_announced:
  "sh_events (snd (on_success oc s i env t a m out st sh)) = sh_events sh @ [task_event s i (TaskCompletedEv (eo_tokens out))]"
  by (simp add: on_success_def remember_success_def Let_def publish_def)

lemma completion_announced:
  assumes "end_pass pow oc s i te t a m rq st sh = Some (ph, sh')"
    and "invoke_adapter oc (te_attempt te (es_pass st)) a rq = (chunks, r)" "outcome_of r = Some out" "eo_success out"
  shows "\<exists>cost. sh_events sh' = sh_events sh @ map (\<lambda>c. task_event s i (AgentOutputReceived c)) chunks @
    [with_attempt (task_event s (tk_id t) (UsageRecorded (eo_tokens out) cost)) (ae_attempt_id (te_attempt te (es_pass st))),
     task_event s i (TaskCompletedEv (eo_tokens out))]"
proof -
  let ?env = "te_attempt te (es_pass st)"
  let ?sh = "fold (\<lambda>c. publish (task_event s i (AgentOutputReceived c))) chunks sh"
  have r: "r = Inr out" "failure_of r = None" using assms(3,4) by (auto simp: outcome_of_def failure_of_def split: sum.splits)
  obtain rc ok cls n where
    "on_success oc s i ?env t a m out st (record_attempt oc s t ?env a m (eo_tokens out) rc ok cls n ?sh) = (ph, sh')"
    using assms(1) unfolding end_pass_def Let_def assms(2) prod.case r(2) option.case assms(3) by auto
  then have "sh_events sh' =
      sh_events (record_attempt oc s t ?env a m (eo_tokens out) rc ok cls n ?sh) @ [task_event s i (TaskCompletedEv (eo_tokens out))]"
    using success_announced by (metis snd_conv)
  with usage_announced [of oc s t ?env a m "eo_tokens out" rc ok cls n ?sh] show ?thesis by (auto simp: chunks_announced)
qed

lemma output_keeps_tokens: "ui_tokens (fold ui_apply (map (\<lambda>c. task_event s i (AgentOutputReceived c)) cs) ui) = ui_tokens ui"
  by (induction cs arbitrary: ui) (simp_all add: ui_apply_def task_event_def)

section \<open>An interface nobody can give a goal\<close>

text \<open>While a session is shown as running, a goal can be typed nowhere but on the memory screen, where it is a search.\<close>

definition locked :: "app_state \<Rightarrow> bool" where
  "locked ui \<longleftrightarrow> ui_running ui \<and> (ui_input_mode ui = Navigating \<or> ui_screen ui = MemoryScreen)"

fun completes_session :: "wake \<Rightarrow> bool" where
  "completes_session (BusEvent e as) \<longleftrightarrow> (\<exists>b. ev_kind e = SessionCompleted b)"
| "completes_session _ \<longleftrightarrow> False"

lemma locked_key:
  assumes "locked ui" "handle_key key ui = (a, ui')"
  shows "locked ui' \<and> (\<forall>g. a \<noteq> SubmitGoal g)"
proof (cases "kv_release key \<or> kv_control key \<and> kv_code key = KeyChar ''c''")
  case True
  then show ?thesis using assms by (auto simp: handle_key_def ui_quit_def locked_def split: if_splits)
next
  case False
  show ?thesis
  proof (cases "ui_input_mode ui")
    case Editing
    then show ?thesis using assms False
      by (auto simp: handle_key_def edit_key_def submit_def Let_def cancel_editing_def pop_char_def push_char_def locked_def
          split: key_code.splits if_splits)
  next
    case Navigating
    have "locked (snd (navigate_key code ui)) \<and> (\<forall>g. fst (navigate_key code ui) \<noteq> SubmitGoal g)" for code
      by (rule navigate_key_cases) (use assms(1) Navigating in \<open>auto simp: locked_def ui_quit_def begin_editing_def next_screen_def previous_screen_def move_skill_cursor_def
          Let_def scroll_down_def scroll_up_def go_to_def\<close>)
    from this [of "kv_code key"] show ?thesis using assms(2) False Navigating by (auto simp: handle_key_def)
  qed
qed

lemma locked_simps [simp]:
  "locked (notice n ui) = locked ui" "locked (set_agents as ui) = locked ui" "locked (refresh_skills listed ui) = locked ui"
  "locked (set_memories q rows ui) = locked ui" "locked (ui\<lparr>ui_memory_searching := b\<rparr>) = locked ui"
  by (simp_all add: locked_def notice_def set_agents_def refresh_skills_def set_skills_def set_memories_def split: sum.split)

lemma running_apply: "\<nexists>b. ev_kind e = SessionCompleted b \<Longrightarrow> ui_running ui \<Longrightarrow> ui_running (ui_apply e ui)"
  by (auto simp: ui_apply_def Let_def split: event_kind.split option.split)

lemma locked_apply: "\<nexists>b. ev_kind e = SessionCompleted b \<Longrightarrow> locked ui \<Longrightarrow> locked (apply_and_refresh e as ui)"
  using running_apply by (auto simp: locked_def)

definition started :: "loop_state \<Rightarrow> ui_call list" where
  "started lp = filter (\<lambda>c. case c of StartSession _ \<Rightarrow> True | _ \<Rightarrow> False) (lp_calls lp)"

lemma locked_turn:
  assumes "locked (lp_ui lp)" "\<not> completes_session w"
  shows "locked (lp_ui (loop_turn has_skills has_memory w lp)) \<and> started (loop_turn has_skills has_memory w lp) = started lp"
proof (cases w)
  case (KeyPressed key answer listed)
  obtain a ui where key: "handle_key key (lp_ui lp) = (a, ui)" by force
  from locked_key [OF assms(1) key] show ?thesis
    by (cases a) (auto simp: loop_turn_def KeyPressed key act_def started_def)
qed (use assms locked_apply in \<open>auto simp: loop_turn_def session_ended_def started_def split: option.split sum.split\<close>)

lemma locked_run:
  assumes "locked (lp_ui lp)" "\<forall>w \<in> set ws. \<not> completes_session w"
  shows "locked (lp_ui (fold (loop_step has_skills has_memory) ws lp)) \<and> started (fold (loop_step has_skills has_memory) ws lp) = started lp"
  using assms
proof (induction ws arbitrary: lp)
  case (Cons w ws)
  have "locked (lp_ui (loop_step has_skills has_memory w lp)) \<and> started (loop_step has_skills has_memory w lp) = started lp"
    using locked_turn [of "lp\<lparr>lp_redraw := False\<rparr>" w] Cons.prems by (auto simp: loop_step_def Let_def started_def)
  with Cons show ?case by simp
qed simp

end
