(* ===== verification/Llm_Planner.thy ===== *)
theory Llm_Planner
  imports Progress Skill_Policy
begin

text \<open>
  \<open>cuma-planner/src/llm.rs\<close>: a plan read from the reply of a language model, and the fall back on the
  heuristic planner. The model is a function of its two prompts; \<open>alnum\<close> tells the characters that are
  alphanumeric. Fresh ids are drawn as in \<open>Planner\<close>.
\<close>

section \<open>Asking\<close>

definition plan_system_prompt :: string where
  "plan_system_prompt =
     (let nl = [CHR 0x0A] in
      ''You decompose software engineering goals into executable subtasks.'' @ nl @ nl @
      ''Reply with ONE task per line and nothing else. Each line must be:'' @ nl @ nl @
      ''  TYPE | DEPENDS_ON | DESCRIPTION'' @ nl @ nl @
      ''TYPE is one of: inspection, research, design, implementation, bugfix,'' @ nl @
      ''refactor, testing, validation, documentation, review.'' @ nl @
      ''DEPENDS_ON is a comma-separated list of 1-based line numbers of earlier'' @ nl @
      ''lines, or `-` for none.'' @ nl @
      ''DESCRIPTION is a single imperative sentence.'' @ nl @ nl @
      ''Produce between 2 and 12 lines. Do not number the lines. Do not add prose,'' @ nl @
      ''headings or code fences.'')"

definition plan_user_prompt :: "string \<Rightarrow> capability_set \<Rightarrow> string list \<Rightarrow> string" where
  "plan_user_prompt goal caps memories =
     (let nl = [CHR 0x0A] in
      ''Goal: '' @ goal @ nl
      @ (if caps = [] then []
         else nl @ ''Only these capabilities are available: '' @ join '', '' (map display_capability caps) @ nl)
      @ (if memories = [] then []
         else nl @ ''Relevant prior knowledge:'' @ nl @ concat (map (\<lambda>m. ''- '' @ m @ nl) (take 5 memories))))"

section \<open>Reading the reply\<close>

definition parse_task_type :: "string \<Rightarrow> task_type" where
  "parse_task_type raw =
     (let w = to_ascii_lowercase (trim raw) in
      if w \<in> {''inspection'', ''inspect''} then Inspection
      else if w = ''research'' then Research
      else if w \<in> {''design'', ''architecture''} then Design
      else if w \<in> {''implementation'', ''implement''} then Implementation
      else if w \<in> {''bugfix'', ''bug_fix'', ''debug''} then BugFix
      else if w \<in> {''refactor'', ''refactoring''} then Refactor
      else if w \<in> {''testing'', ''test'', ''tests''} then Testing
      else if w \<in> {''validation'', ''validate''} then Validation
      else if w \<in> {''documentation'', ''docs''} then Documentation
      else if w = ''review'' then Review
      else General)"

fun risk_for :: "task_type \<Rightarrow> risk" where
  "risk_for Inspection = ReadOnly"
| "risk_for Research = ReadOnly"
| "risk_for Design = ReadOnly"
| "risk_for Review = ReadOnly"
| "risk_for Documentation = Low"
| "risk_for Testing = Low"
| "risk_for Validation = Low"
| "risk_for _ = Medium"

text \<open>The bullets a model puts before a line: a hyphen, an asterisk, U+2022.\<close>

definition plan_bullets :: "string list" where
  "plan_bullets = [''-'', ''*'', [CHR 0xE2, CHR 0x80, CHR 0xA2]]"

definition strip_bullets :: "string \<Rightarrow> string" where
  "strip_bullets s = trim (concat (dropWhile (\<lambda>c. c \<in> set plan_bullets) (utf8_chars (trim s))))"

text \<open>\<open>splitn(3, '|')\<close>, where it gives three parts.\<close>

definition three_parts :: "string \<Rightarrow> (string \<times> string \<times> string) option" where
  "three_parts s =
     Option.bind (split_once (CHR ''|'') s) (\<lambda>(a, r).
     Option.bind (split_once (CHR ''|'') r) (\<lambda>(b, c). Some (trim a, trim b, trim c)))"

text \<open>Dependencies are numbers of lines accepted before this one, counted from zero.\<close>

definition parse_dependencies :: "string \<Rightarrow> nat \<Rightarrow> nat list" where
  "parse_dependencies field accepted =
     (if field = ''-'' then []
      else
        map (\<lambda>d. d - 1)
          (filter (\<lambda>d. 1 \<le> d \<and> d \<le> accepted)
            (List.map_filter (\<lambda>d. parse_unsigned (2 ^ 64) (trim d)) (split_char (CHR '','') field))))"

type_synonym pending_task = "task_spec \<times> nat list"

definition plan_line :: "(string \<Rightarrow> bool) \<Rightarrow> capability_set \<Rightarrow> string \<Rightarrow> pending_task list \<Rightarrow> pending_task list" where
  "plan_line alnum available raw pending =
     (let line = strip_bullets raw in
      if line = [] \<or> prefix ''```'' line then pending
      else
        case three_parts line of
          None \<Rightarrow> pending
        | Some (kind, after, description) \<Rightarrow>
            if kind = [] \<or> \<not> list_ex alnum (utf8_chars description) then pending
            else
              let ttype = parse_task_type kind;
                  spec = (new_spec description ttype)\<lparr>ts_risk := risk_for ttype\<rparr>;
                  row = (spec, parse_dependencies after (length pending)) in
              if available \<noteq> [] \<and> \<not> cm_is_complete (match_against available (ts_required_capabilities spec)) then pending
              else pending @ [row])"

definition plan_rows :: "(string \<Rightarrow> bool) \<Rightarrow> string \<Rightarrow> capability_set \<Rightarrow> pending_task list" where
  "plan_rows alnum reply available = fold (plan_line alnum available) (str_lines reply) []"

definition add_row :: "(nat \<Rightarrow> task_id) \<Rightarrow> pending_task \<Rightarrow> task_graph \<times> task_id list \<Rightarrow> task_graph \<times> task_id list" where
  "add_row fresh row st =
     (case (row, st) of
        ((spec, after), (g, ids)) \<Rightarrow>
          let t = new_task (fresh (length ids))
                (spec\<lparr>ts_dependencies := List.map_filter (\<lambda>i. if i < length ids then Some (ids ! i) else None) after\<rparr>) in
          (graph_add t g, ids @ [tk_id t]))"

definition rows_graph :: "(nat \<Rightarrow> task_id) \<Rightarrow> pending_task list \<Rightarrow> task_graph \<times> task_id list" where
  "rows_graph fresh rows = fold (add_row fresh) rows (empty_graph, [])"

definition parse_plan :: "(string \<Rightarrow> bool) \<Rightarrow> (nat \<Rightarrow> task_id) \<Rightarrow> string \<Rightarrow> capability_set \<Rightarrow> task_graph option" where
  "parse_plan alnum fresh reply available =
     (let rows = plan_rows alnum reply available in
      if length rows < 2 then None
      else
        let g = fst (rows_graph fresh rows) in
        case graph_validate g of Inl _ \<Rightarrow> None | Inr _ \<Rightarrow> Some g)"

section \<open>Planning\<close>

text \<open>The heuristic planner is the default one, which always validates. It draws its ids after those of a plan that
  was read and then refused.\<close>

definition llm_plan ::
  "(string \<Rightarrow> string) \<Rightarrow> (string \<Rightarrow> bool) \<Rightarrow> (nat \<Rightarrow> task_id) \<Rightarrow> (string \<Rightarrow> string \<Rightarrow> string result) \<Rightarrow>
   string \<Rightarrow> capability_set \<Rightarrow> string list \<Rightarrow> task_graph result" where
  "llm_plan to_lowercase alnum fresh answer raw_goal caps memories =
     (let goal = trim raw_goal in
      if goal = [] then Inl (EConfiguration ''cannot plan an empty goal'')
      else
        case answer plan_system_prompt (plan_user_prompt goal caps memories) of
          Inl _ \<Rightarrow> plan to_lowercase fresh True goal
        | Inr reply \<Rightarrow>
            (case parse_plan alnum fresh reply caps of
               Some g \<Rightarrow> Inr g
             | None \<Rightarrow> plan to_lowercase (\<lambda>n. fresh (length (plan_rows alnum reply caps) + n)) True goal))"

definition llm_replan ::
  "(string \<Rightarrow> string) \<Rightarrow> (nat \<Rightarrow> task_id) \<Rightarrow> task_graph \<Rightarrow> task \<Rightarrow> string \<Rightarrow> task_graph option result" where
  "llm_replan to_lowercase fresh g failed reason = replan to_lowercase fresh g failed reason"

definition unsatisfiable_capabilities :: "task_graph \<Rightarrow> capability_set \<Rightarrow> capability list" where
  "unsatisfiable_capabilities g available =
     fold (\<lambda>t missing. fold (\<lambda>c missing. if c \<in> set missing then missing else missing @ [c])
            (cm_missing (match_against available (ts_required_capabilities (tk_spec t)))) missing)
       (graph_iter g) []"

section \<open>What is read\<close>

definition planned_row :: "capability_set \<Rightarrow> nat \<Rightarrow> pending_task \<Rightarrow> bool" where
  "planned_row available n row \<longleftrightarrow>
     list_all (\<lambda>i. i < n) (snd row) \<and> ts_risk (fst row) = risk_for (ts_task_type (fst row)) \<and>
     (available = [] \<or> set (ts_required_capabilities (fst row)) \<subseteq> set available)"

definition planned_rows :: "capability_set \<Rightarrow> pending_task list \<Rightarrow> bool" where
  "planned_rows available rows \<longleftrightarrow> (\<forall>n < length rows. planned_row available n (rows ! n))"

lemma parse_dependencies_bound: "list_all (\<lambda>i. i < n) (parse_dependencies field n)"
  by (auto simp: parse_dependencies_def list_all_iff)

lemma plan_line_ok: "planned_rows available rows \<Longrightarrow> planned_rows available (plan_line alnum available raw rows)"
  using parse_dependencies_bound
  by (auto simp: plan_line_def Let_def planned_rows_def planned_row_def nth_append less_Suc_eq cm_is_complete_iff new_spec_def split: option.splits)

lemma plan_rows_planned: "planned_rows available (plan_rows alnum reply available)"
proof -
  have "planned_rows available rows \<Longrightarrow> planned_rows available (fold (plan_line alnum available) ls rows)" for ls rows
    by (induction ls arbitrary: rows) (simp_all add: plan_line_ok)
  then show ?thesis unfolding plan_rows_def by (simp add: planned_rows_def)
qed

text \<open>The graph of rows: the n-th row is the n-th task, waiting for the tasks of the rows it names.\<close>

lemma rows_graph_snoc: "rows_graph fresh (rows @ [row]) = add_row fresh row (rows_graph fresh rows)"
  by (simp add: rows_graph_def)

lemma rows_graph_ids [simp]: "snd (rows_graph fresh rows) = map fresh [0..<length rows]"
proof (induction rows rule: rev_induct)
  case (snoc row rows)
  then show ?case by (cases "rows_graph fresh rows"; cases row) (auto simp: rows_graph_snoc add_row_def Let_def new_task_def)
qed (simp add: rows_graph_def)

definition row_task :: "(nat \<Rightarrow> task_id) \<Rightarrow> nat \<Rightarrow> pending_task \<Rightarrow> task" where
  "row_task fresh n row = new_task (fresh n) ((fst row)\<lparr>ts_dependencies := map fresh (snd row)\<rparr>)"

lemma map_filter_bounded: "list_all (\<lambda>i. i < n) is \<Longrightarrow> List.map_filter (\<lambda>i. if i < n then Some (map f [0..<n] ! i) else None) is = map f is"
  by (induction "is") (simp_all add: List.map_filter_simps)

lemma rows_graph_add:
  assumes "list_all (\<lambda>i. i < length rows) (snd row)"
  shows "fst (rows_graph fresh (rows @ [row])) = graph_add (row_task fresh (length rows) row) (fst (rows_graph fresh rows))"
proof -
  obtain g where g: "rows_graph fresh rows = (g, map fresh [0..<length rows])" by (metis prod.collapse rows_graph_ids)
  show ?thesis using map_filter_bounded [OF assms, of fresh]
    by (cases row) (simp add: rows_graph_snoc add_row_def g row_task_def Let_def)
qed

lemma planned_rows_snoc: "planned_rows a (rows @ [row]) \<longleftrightarrow> planned_rows a rows \<and> planned_row a (length rows) row"
  by (auto simp: planned_rows_def nth_append less_Suc_eq)

lemma row_task_id [simp]: "tk_id (row_task fresh n r) = fresh n"
  by (simp add: row_task_def new_task_def)

lemma rows_graph_facts:
  assumes inj: "inj fresh" and "planned_rows a rows"
  shows "nodes (fst (rows_graph fresh rows)) = fresh ` {..<length rows} \<and>
    (\<forall>n < length rows. graph_get (fst (rows_graph fresh rows)) (fresh n) = Some (row_task fresh n (rows ! n))) \<and>
    untried_graph (fst (rows_graph fresh rows)) \<and>
    (list_all (\<lambda>r. distinct (snd r)) rows \<longrightarrow> valid_graph (fst (rows_graph fresh rows)))"
  using assms(2)
proof (induction rows rule: rev_induct)
  case Nil
  then show ?case
    by (simp add: rows_graph_def valid_graph_empty untried_graph_def graph_wf_empty all_tasks_empty)
next
  case (snoc row rows)
  define g where "g = fst (rows_graph fresh rows)"
  have row: "list_all (\<lambda>i. i < length rows) (snd row)" using snoc.prems by (simp add: planned_rows_snoc planned_row_def)
  have IH: "nodes g = fresh ` {..<length rows}" "\<forall>n < length rows. graph_get g (fresh n) = Some (row_task fresh n (rows ! n))"
      "untried_graph g" "list_all (\<lambda>r. distinct (snd r)) rows \<longrightarrow> valid_graph g"
    using snoc.IH snoc.prems by (simp_all add: planned_rows_snoc g_def)
  have new: "fst (rows_graph fresh (rows @ [row])) = graph_add (row_task fresh (length rows) row) g"
    by (simp add: rows_graph_add [OF row] g_def)
  have "valid_graph (graph_add (row_task fresh (length rows) row) g)" if "list_all (\<lambda>r. distinct (snd r)) (rows @ [row])"
  proof (rule valid_graph_add)
    show "valid_graph g" using IH(4) that by simp
    show "tk_id (row_task fresh (length rows) row) \<notin> nodes g" using inj by (auto simp: IH(1) inj_eq)
    show "set (deps (row_task fresh (length rows) row)) \<subseteq> nodes g"
      using row by (auto simp: row_task_def new_task_def IH(1) list_all_iff)
    show "distinct (deps (row_task fresh (length rows) row))"
      using that inj_on_subset [OF inj subset_UNIV] by (simp add: row_task_def new_task_def distinct_map)
  qed
  moreover have "untried_graph (graph_add (row_task fresh (length rows) row) g)"
    using IH(3) by (auto simp: untried_graph_def all_tasks_def graph_get_add graph_wf_add row_task_def new_task_def)
  moreover have "nodes (graph_add (row_task fresh (length rows) row) g) = fresh ` {..<length (rows @ [row])}"
    by (simp add: nodes_add IH(1) lessThan_Suc)
  moreover have "graph_get (graph_add (row_task fresh (length rows) row) g) (fresh n) = Some (row_task fresh n ((rows @ [row]) ! n))"
    if "n < length (rows @ [row])" for n
    using that IH(2) inj by (auto simp: graph_get_add nth_append less_Suc_eq inj_eq)
  ultimately show ?case by (simp add: new)
qed

text \<open>A repeated dependency is the one thing for which a plan of two rows or more is refused.\<close>

lemma rows_graph_distinct:
  assumes "inj fresh" "planned_rows a rows" "valid_graph (fst (rows_graph fresh rows))"
  shows "list_all (\<lambda>r. distinct (snd r)) rows"
  unfolding list_all_length
proof (intro allI impI)
  fix n assume n: "n < length rows"
  have "graph_get (fst (rows_graph fresh rows)) (fresh n) = Some (row_task fresh n (rows ! n))"
    using rows_graph_facts [OF assms(1,2)] n by blast
  then have "gdeps (fst (rows_graph fresh rows)) (fresh n) = map fresh (snd (rows ! n))"
    by (simp add: gdeps_def row_task_def new_task_def)
  then show "distinct (snd (rows ! n))" using assms(3) by (metis distinct_map valid_graph_def)
qed

lemma parse_plan_iff:
  assumes "inj fresh"
  shows "parse_plan alnum fresh reply available = Some g \<longleftrightarrow>
    2 \<le> length (plan_rows alnum reply available) \<and> list_all (\<lambda>r. distinct (snd r)) (plan_rows alnum reply available) \<and>
    g = fst (rows_graph fresh (plan_rows alnum reply available))"
proof -
  define rows where "rows = plan_rows alnum reply available"
  have rows: "planned_rows available rows" by (simp add: rows_def plan_rows_planned)
  note facts = rows_graph_facts [OF assms rows]
  define h where "h = fst (rows_graph fresh rows)"
  have wf: "graph_wf h" using facts by (simp add: untried_graph_def h_def)
  have "graph_validate h = Inr () \<longleftrightarrow> valid_graph h" unfolding valid_graph_def graph_validate_iff [OF wf] using wf by blast
  also have "\<dots> \<longleftrightarrow> list_all (\<lambda>r. distinct (snd r)) rows"
    using facts rows_graph_distinct [OF assms rows] unfolding h_def by blast
  finally have validate: "(case graph_validate h of Inl _ \<Rightarrow> None | Inr _ \<Rightarrow> Some h) =
      (if list_all (\<lambda>r. distinct (snd r)) rows then Some h else None)"
    by (cases "graph_validate h") simp_all
  show ?thesis
    unfolding parse_plan_def rows_def [symmetric] Let_def h_def [symmetric] validate by auto
qed

section \<open>A planner for sessions\<close>

lemma parse_plan_untried:
  assumes "parse_plan alnum fresh reply available = Some g"
  shows "untried_graph g"
proof -
  have "untried_graph (fst (rows_graph fresh rows))" for rows
  proof (induction rows rule: rev_induct)
    case (snoc row rows)
    then show ?case
      by (cases "rows_graph fresh rows"; cases row)
        (auto simp: rows_graph_snoc add_row_def Let_def untried_graph_def all_tasks_def graph_get_add graph_wf_add new_task_def)
  qed (simp add: rows_graph_def untried_graph_def graph_wf_empty all_tasks_empty)
  then show ?thesis using assms by (auto simp: parse_plan_def Let_def split: if_splits sum.splits)
qed

interpretation model_planner: session_planner "llm_plan to_lowercase alnum fresh answer" for to_lowercase alnum fresh answer
  by unfold_locales
    (auto simp: llm_plan_def Let_def parse_plan_untried dest!: heuristic.planned split: if_splits sum.splits option.splits)

text \<open>The planner never fails on a goal: whatever the model says, there is a plan, and it is valid.\<close>

lemma llm_plan_total:
  assumes "inj fresh" "trim goal \<noteq> []"
  shows "\<exists>g. llm_plan to_lowercase alnum fresh answer goal caps memories = Inr g \<and> valid_graph g"
proof -
  have heuristic: "\<exists>g. plan to_lowercase f True (trim goal) = Inr g \<and> valid_graph g" if "inj f" for f
    using plan_graph_valid [OF that] assms(2) valid_graph_validate by (auto simp: plan_def Let_def)
  have read: "valid_graph g" if "parse_plan alnum fresh reply caps = Some g" for reply g
    using that rows_graph_facts [OF assms(1) plan_rows_planned] by (auto simp: parse_plan_iff [OF assms(1)])
  have "inj (\<lambda>n. fresh (k + n))" for k by (rule injI) (use injD [OF assms(1)] in fastforce)
  then show ?thesis
    using heuristic [OF assms(1)] heuristic read assms(2)
    by (auto simp: llm_plan_def Let_def split: sum.splits option.splits)
qed

lemma unsatisfiable_capabilities_set:
  "set (unsatisfiable_capabilities g available) =
     {c. c \<notin> set available \<and> (\<exists>t \<in> set (graph_iter g). c \<in> set (ts_required_capabilities (tk_spec t)))}"
proof -
  have inner: "set (fold (\<lambda>c missing. if c \<in> set missing then missing else missing @ [c]) cs ms) = set ms \<union> set cs" for cs ms :: "capability list"
    by (induction cs arbitrary: ms) auto
  have missing: "set (cm_missing (match_against available r)) = set r - set available" for r
    by (auto simp: match_against_def Let_def)
  have "set (fold (\<lambda>t ms. fold (\<lambda>c missing. if c \<in> set missing then missing else missing @ [c])
            (cm_missing (match_against available (ts_required_capabilities (tk_spec t)))) ms) ts ms) =
      set ms \<union> (\<Union>t \<in> set ts. set (ts_required_capabilities (tk_spec t)) - set available)" for ts :: "task list" and ms
    by (induction ts arbitrary: ms) (auto simp: inner missing)
  then show ?thesis by (auto simp: unsatisfiable_capabilities_def)
qed

end
