(* ===== verification/Interface_Examples.thy ===== *)
theory Interface_Examples
  imports Examples Interface_Runs Llm_Planner "HOL-Library.Code_Target_Nat"
begin

text \<open>
  Concrete inputs for the theorems about the language-model planner and the terminal interface: a reply of two
  rows, an orchestrator whose planner refuses, an agent that completes its task.
\<close>

lemma plan_line_row:
  assumes "strip_bullets raw = line \<and> line \<noteq> [] \<and> \<not> prefix ''```'' line"
    and "three_parts line = Some (kind, after, description) \<and> kind \<noteq> [] \<and> list_ex alnum (utf8_chars description)"
  shows "plan_line alnum [] raw pending =
    pending @ [((new_spec description (parse_task_type kind))\<lparr>ts_risk := risk_for (parse_task_type kind)\<rparr>, parse_dependencies after (length pending))]"
  using assms by (simp add: plan_line_def Let_def)

definition ex_model_reply :: string where
  "ex_model_reply = ''inspection | - | Read the module'' @ CHR 0x0A # ''implementation | 2 | Add the endpoint''"

definition ex_letters :: "string \<Rightarrow> bool" where
  "ex_letters c \<longleftrightarrow> c \<notin> {'' '', ''|'', ''-'', ''.''}"

lemma ex_first_row:
  "strip_bullets ''inspection | - | Read the module'' = ''inspection | - | Read the module'' \<and> ''inspection | - | Read the module'' \<noteq> [] \<and> \<not> prefix ''```'' ''inspection | - | Read the module''"
  "three_parts ''inspection | - | Read the module'' = Some (''inspection'', ''-'', ''Read the module'') \<and> ''inspection'' \<noteq> [] \<and>
   list_ex ex_letters (utf8_chars ''Read the module'')"
  by code_simp+

lemma ex_second_row:
  "strip_bullets ''implementation | 2 | Add the endpoint'' = ''implementation | 2 | Add the endpoint'' \<and> ''implementation | 2 | Add the endpoint'' \<noteq> [] \<and> \<not> prefix ''```'' ''implementation | 2 | Add the endpoint''"
  "three_parts ''implementation | 2 | Add the endpoint'' = Some (''implementation'', ''2'', ''Add the endpoint'') \<and> ''implementation'' \<noteq> [] \<and>
   list_ex ex_letters (utf8_chars ''Add the endpoint'')"
  by code_simp+

lemma parse_task_type_ex: "parse_task_type ''inspection'' = Inspection" "parse_task_type ''implementation'' = Implementation"
  by code_simp+

lemma ex_second_dependencies: "parse_dependencies ''2'' (Suc 0) = []"
  by code_simp

lemma ex_reply_lines: "str_lines ex_model_reply = [''inspection | - | Read the module'', ''implementation | 2 | Add the endpoint'']"
  unfolding ex_model_reply_def by code_simp

lemma ex_model_rows:
  "plan_rows ex_letters ex_model_reply [] =
     [((new_spec ''Read the module'' Inspection)\<lparr>ts_risk := ReadOnly\<rparr>, []), ((new_spec ''Add the endpoint'' Implementation)\<lparr>ts_risk := Medium\<rparr>, [])]"
  by (simp add: plan_rows_def ex_reply_lines plan_line_row [OF ex_first_row] plan_line_row [OF ex_second_row]
      ex_second_dependencies parse_dependencies_def [of "''-''"] parse_task_type_ex)

lemma ex_prose_skipped: "plan_line ex_letters [] ''Here is the plan:'' [] = []"
  by code_simp

definition ex_refusing :: orchestrator where
  "ex_refusing = ex_orchestrator\<lparr>oc_plan := (\<lambda>_ _ _. Inl (EConfiguration ''no plan''))\<rparr>"

lemma ex_refused: "\<exists>l sh. run_session pow alnum ex_refusing [] None env sched s goal (new_ledger, new_shared) =
    Some (Inl (EConfiguration ''no plan''), l, sh)"
  by (simp add: run_session_def Let_def plan_goal_def ex_refusing_def)

definition ex_done :: execution_outcome where
  "ex_done = \<lparr>eo_attempt_id = AttemptId ''a'', eo_agent_id = AgentId ''x'', eo_model_id = None, eo_success = True, eo_output = [],
     eo_changed_files = [], eo_tokens = reported_usage 100 50, eo_latency_ms = 0, eo_failure_class = None,
     eo_failure_reason = None, eo_reported_cost_usd = None\<rparr>"

definition ex_working :: task_env where
  "ex_working = ex_env\<lparr>te_attempt := (\<lambda>_. ex_attempt\<lparr>ae_execute := (\<lambda>_. ([''Done.''], Some (Inr ex_done)))\<rparr>)\<rparr>"

definition ex_reaching :: orchestrator where
  "ex_reaching = ex_orchestrator\<lparr>oc_adapters := [AgentId ''x'']\<rparr>"

lemma ex_completes:
  "\<exists>ph sh. end_pass pow ex_reaching s i ex_working t (AgentId ''x'') None rq ex_state new_shared = Some (ph, sh)"
  "failure_of (snd (invoke_adapter ex_reaching (te_attempt ex_working 0) (AgentId ''x'') rq)) = None"
  "outcome_of (snd (invoke_adapter ex_reaching (te_attempt ex_working 0) (AgentId ''x'') rq)) = Some ex_done"
  by (simp_all add: end_pass_def invoke_adapter_def ex_reaching_def ex_working_def failure_of_def outcome_of_def ex_done_def ex_state_def on_success_def Let_def)

definition ex_modelled :: orchestrator where
  "ex_modelled = ex_orchestrator\<lparr>oc_plan := llm_plan to_ascii_lowercase ex_letters ex_fresh (\<lambda>_ _. Inr ex_model_reply)\<rparr>"

lemma ex_modelled_steady: "steady ex_modelled"
  using ex_steady by (simp add: steady_def declines_replans_def ex_modelled_def policy_ok_def)

lemma ex_blank_goal: "trim ''fix'' \<noteq> []"
  by code_simp

end
