(* ===== verification/Acp_Sessions.thy ===== *)
theory Acp_Sessions
  imports Announcements Config_Layers Step_System
begin

text \<open>
  The book-keeping of the ACP server: \<open>cuma-server-acp/src/session.rs\<close>, the sessions of the clients and the
  files they are kept in, and \<open>workspaces.rs\<close>, the pool of orchestrators by working directory. JSON is a pair of
  parameters, the fresh part of an id and the time are arguments. A handle on a running prompt is its number.
\<close>

section \<open>Sessions\<close>

definition max_history :: nat where
  "max_history = 50"

definition max_turn_chars :: nat where
  "max_turn_chars = 16000"

record turn =
  tn_prompt :: string
  tn_response :: string

record acp_session =
  as_workspace :: path
  as_turns :: "turn list"
  as_created_at :: timestamp
  as_running :: "nat option"

definition new_acp_session :: "path \<Rightarrow> timestamp \<Rightarrow> acp_session" where
  "new_acp_session workspace now = \<lparr>as_workspace = workspace, as_turns = [], as_created_at = now, as_running = None\<rparr>"

definition truncated_mark :: string where
  "truncated_mark = CHR 0x0A # ''['' @ [CHR 0xE2, CHR 0x80, CHR 0xA6] @ '' truncated]''"

definition clip :: "string \<Rightarrow> string" where
  "clip text =
     (if length (utf8_chars text) \<le> max_turn_chars then text
      else concat (take max_turn_chars (utf8_chars text)) @ truncated_mark)"

definition record_turn :: "string \<Rightarrow> string \<Rightarrow> acp_session \<Rightarrow> acp_session" where
  "record_turn prompt response s =
     (let turns = as_turns s @ [\<lparr>tn_prompt = clip prompt, tn_response = clip response\<rparr>]
      in s\<lparr>as_turns := drop (length turns - max_history) turns\<rparr>)"

definition turn_history :: "acp_session \<Rightarrow> string list" where
  "turn_history s = map tn_response (as_turns s)"

section \<open>Session files\<close>

definition id_byte :: "char \<Rightarrow> bool" where
  "id_byte c \<longleftrightarrow> is_ascii_alphanumeric c \<or> c \<in> {CHR ''-'', CHR ''_''}"

definition is_plausible_id :: "string \<Rightarrow> bool" where
  "is_plausible_id i \<longleftrightarrow> prefix ''cuma-'' i \<and> length i \<le> 64 \<and> list_all id_byte i"

text \<open>The directory of the sessions, when they are kept, and what its files hold.\<close>

record acp_registry =
  ag_sessions :: "(string, acp_session) btree"
  ag_directory :: "path option"
  ag_files :: "path \<Rightarrow> string option"

definition new_acp_registry :: "path option \<Rightarrow> (path \<Rightarrow> string option) \<Rightarrow> acp_registry" where
  "new_acp_registry directory files = \<lparr>ag_sessions = [], ag_directory = directory, ag_files = files\<rparr>"

definition acp_is_persistent :: "acp_registry \<Rightarrow> bool" where
  "acp_is_persistent rg \<longleftrightarrow> ag_directory rg \<noteq> None"

definition path_for :: "string \<Rightarrow> acp_registry \<Rightarrow> path option" where
  "path_for key rg =
     Option.bind (ag_directory rg) (\<lambda>d. if is_plausible_id key then Some (path_join d (key @ ''.json'')) else None)"

text \<open>Where writing a session ends: with the file in place, before anything is written, within the temporary file, or
  with the temporary file not moved.\<close>

datatype write_end = WriteDone | NothingWritten | CutShort string | NotMoved

definition write_atomically :: "write_end \<Rightarrow> path \<Rightarrow> string \<Rightarrow> (path \<Rightarrow> string option) \<Rightarrow> path \<Rightarrow> string option" where
  "write_atomically we p text files =
     (let temporary = p @ ''.tmp'' in
      case we of
        NothingWritten \<Rightarrow> files
      | CutShort part \<Rightarrow> files(temporary \<mapsto> part)
      | NotMoved \<Rightarrow> files(temporary \<mapsto> text)
      | WriteDone \<Rightarrow> files(p \<mapsto> text, temporary := None))"

definition acp_persist :: "(acp_session \<Rightarrow> string) \<Rightarrow> write_end \<Rightarrow> string \<Rightarrow> acp_session \<Rightarrow> acp_registry \<Rightarrow> acp_registry" where
  "acp_persist to_json we key s rg =
     (case path_for key rg of
        None \<Rightarrow> rg
      | Some p \<Rightarrow> rg\<lparr>ag_files := write_atomically we p (to_json s) (ag_files rg)\<rparr>)"

section \<open>The operations on sessions\<close>

definition acp_create ::
  "(acp_session \<Rightarrow> string) \<Rightarrow> write_end \<Rightarrow> string \<Rightarrow> timestamp \<Rightarrow> path \<Rightarrow> acp_registry \<Rightarrow> string \<times> acp_registry" where
  "acp_create to_json we fresh now workspace rg =
     (let i = ''cuma-'' @ fresh; s = new_acp_session workspace now; rg = acp_persist to_json we i s rg
      in (i, rg\<lparr>ag_sessions := bt_insert i s (ag_sessions rg)\<rparr>))"

definition acp_load :: "(string \<Rightarrow> acp_session option) \<Rightarrow> string \<Rightarrow> path \<Rightarrow> acp_registry \<Rightarrow> acp_session option \<times> acp_registry" where
  "acp_load of_json i workspace rg =
     (case bt_get (ag_sessions rg) i of
        Some s \<Rightarrow> (Some s, rg)
      | None \<Rightarrow>
          (case Option.bind (path_for i rg) (\<lambda>p. Option.bind (ag_files rg p) of_json) of
             None \<Rightarrow> (None, rg)
           | Some s \<Rightarrow>
               let s = s\<lparr>as_workspace := workspace\<rparr> in (Some s, rg\<lparr>ag_sessions := bt_insert i s (ag_sessions rg)\<rparr>)))"

definition acp_workspace :: "string \<Rightarrow> acp_registry \<Rightarrow> path option" where
  "acp_workspace i rg = map_option as_workspace (bt_get (ag_sessions rg) i)"

definition acp_record :: "(acp_session \<Rightarrow> string) \<Rightarrow> write_end \<Rightarrow> string \<Rightarrow> string \<Rightarrow> string \<Rightarrow> acp_registry \<Rightarrow> acp_registry" where
  "acp_record to_json we i prompt response rg =
     (case bt_get (ag_sessions rg) i of
        None \<Rightarrow> rg
      | Some s \<Rightarrow>
          let s = record_turn prompt response s
          in acp_persist to_json we i s (rg\<lparr>ag_sessions := bt_insert i s (ag_sessions rg)\<rparr>))"

text \<open>\<open>finished\<close> tells whether the task behind a handle is finished.\<close>

definition acp_start :: "(nat \<Rightarrow> bool) \<Rightarrow> timestamp \<Rightarrow> path \<Rightarrow> string \<Rightarrow> nat \<Rightarrow> acp_registry \<Rightarrow> bool \<times> acp_registry" where
  "acp_start finished now current_dir i handle rg =
     (let s = (case bt_get (ag_sessions rg) i of Some s \<Rightarrow> s | None \<Rightarrow> new_acp_session current_dir now);
          rg = rg\<lparr>ag_sessions := bt_insert i s (ag_sessions rg)\<rparr> in
      if (case as_running s of Some h \<Rightarrow> \<not> finished h | None \<Rightarrow> False) then (False, rg)
      else (True, rg\<lparr>ag_sessions := bt_insert i (s\<lparr>as_running := Some handle\<rparr>) (ag_sessions rg)\<rparr>))"

definition acp_finish :: "string \<Rightarrow> acp_registry \<Rightarrow> acp_registry" where
  "acp_finish i rg = rg\<lparr>ag_sessions := bt_modify i (\<lambda>s. s\<lparr>as_running := None\<rparr>) (ag_sessions rg)\<rparr>"

text \<open>The handle to abort, when there is one.\<close>

definition acp_cancel :: "(nat \<Rightarrow> bool) \<Rightarrow> string \<Rightarrow> acp_registry \<Rightarrow> nat option" where
  "acp_cancel finished i rg =
     Option.bind (Option.bind (bt_get (ag_sessions rg) i) as_running) (\<lambda>h. if finished h then None else Some h)"

definition acp_get :: "string \<Rightarrow> acp_registry \<Rightarrow> acp_session option" where
  "acp_get i rg = bt_get (ag_sessions rg) i"

text \<open>Deleting the file may fail, which is ignored.\<close>

definition acp_remove :: "bool \<Rightarrow> string \<Rightarrow> acp_registry \<Rightarrow> bool \<times> acp_registry" where
  "acp_remove deletes i rg =
     (bt_get (ag_sessions rg) i \<noteq> None,
      rg\<lparr>ag_sessions := bt_remove i (ag_sessions rg),
         ag_files := (case path_for i rg of Some p \<Rightarrow> if deletes then (ag_files rg)(p := None) else ag_files rg | None \<Rightarrow> ag_files rg)\<rparr>)"

definition acp_len :: "acp_registry \<Rightarrow> nat" where
  "acp_len rg = length (ag_sessions rg)"

section \<open>Workspaces\<close>

definition max_workspaces :: nat where
  "max_workspaces = 8"

text \<open>What a slot holds is known from outside to be in use when a session has hold of its cell or of its orchestrator.\<close>

record 'o slot =
  sl_path :: path
  sl_orchestrator :: "'o option"
  sl_last_used :: nat

record 'o workspaces =
  ws_default_path :: path
  ws_default :: 'o
  ws_builds :: bool
  ws_slots :: "'o slot list"
  ws_clock :: nat

definition fixed_workspaces :: "path \<Rightarrow> 'o \<Rightarrow> 'o workspaces" where
  "fixed_workspaces current_dir o1 =
     \<lparr>ws_default_path = current_dir, ws_default = o1, ws_builds = False, ws_slots = [], ws_clock = 0\<rparr>"

definition per_directory :: "(path \<Rightarrow> path option) \<Rightarrow> path \<Rightarrow> 'o \<Rightarrow> 'o workspaces" where
  "per_directory canonicalize default_path o1 =
     (let p = (case canonicalize default_path of Some c \<Rightarrow> c | None \<Rightarrow> default_path) in
      \<lparr>ws_default_path = p, ws_default = o1, ws_builds = True,
       ws_slots = [\<lparr>sl_path = p, sl_orchestrator = Some o1, sl_last_used = 0\<rparr>], ws_clock = 1\<rparr>)"

definition validate_workspace :: "(path \<Rightarrow> string + path) \<Rightarrow> (path \<Rightarrow> bool) \<Rightarrow> path \<Rightarrow> 'o workspaces \<Rightarrow> path result" where
  "validate_workspace canonicalize is_dir requested ws =
     (if \<not> ws_builds ws then Inr requested
      else if \<not> prefix ''/'' requested then
        Inl (EConfiguration (''the session'' @ [CHR 0x27] @ ''s working directory must be an absolute path, got '' @ requested))
      else
        case canonicalize requested of
          Inl err \<Rightarrow> Inl (EConfiguration (''cannot use '' @ requested @ '' as a working directory: '' @ err))
        | Inr p \<Rightarrow> if is_dir p then Inr p else Inl (EConfiguration (p @ '' is not a directory'')))"

definition idle_slot :: "(path \<Rightarrow> bool) \<Rightarrow> path \<Rightarrow> 'o slot \<Rightarrow> bool" where
  "idle_slot in_use default_path s \<longleftrightarrow> sl_path s \<noteq> default_path \<and> \<not> in_use (sl_path s) \<and> sl_orchestrator s \<noteq> None"

text \<open>\<open>min_by_key\<close>: the first of the least.\<close>

fun least_recent :: "(nat \<times> 'o slot) list \<Rightarrow> nat option" where
  "least_recent [] = None"
| "least_recent [(n, s)] = Some n"
| "least_recent ((n, s) # (m, t) # rest) = least_recent ((if sl_last_used t < sl_last_used s then (m, t) else (n, s)) # rest)"

lemma least_recent_in: "least_recent xs = Some n \<Longrightarrow> n \<in> fst ` set xs"
proof (induction xs rule: least_recent.induct)
  case (3 n s m t rest)
  then show ?case by (cases "sl_last_used t < sl_last_used s") auto
qed auto

lemma least_recent_idle:
  assumes "least_recent (filter (\<lambda>(n, s). P s) (enumerate 0 slots)) = Some n"
  shows "n < length slots \<and> P (slots ! n)"
  using least_recent_in [OF assms] by (auto simp: in_set_enumerate_eq)

function evict :: "(path \<Rightarrow> bool) \<Rightarrow> path \<Rightarrow> 'o slot list \<Rightarrow> 'o slot list" where
  "evict in_use default_path slots =
     (if length slots \<le> max_workspaces then slots
      else case least_recent (filter (\<lambda>(n, s). idle_slot in_use default_path s) (enumerate 0 slots)) of
             None \<Rightarrow> slots
           | Some n \<Rightarrow> evict in_use default_path (take n slots @ drop (Suc n) slots))"
  by pat_completeness auto

termination
  by (relation "measure (\<lambda>(in_use, p, slots). length slots)") (auto dest!: least_recent_idle)

declare evict.simps [simp del]

definition slot_for :: "(path \<Rightarrow> bool) \<Rightarrow> path \<Rightarrow> 'o workspaces \<Rightarrow> 'o workspaces" where
  "slot_for in_use p ws =
     (let now = ws_clock ws; ws = ws\<lparr>ws_clock := Suc now\<rparr> in
      if list_ex (\<lambda>s. sl_path s = p) (ws_slots ws)
      then ws\<lparr>ws_slots := map (\<lambda>s. if sl_path s = p then s\<lparr>sl_last_used := now\<rparr> else s) (ws_slots ws)\<rparr>
      else
        ws\<lparr>ws_slots := evict (in_use(p := True)) (ws_default_path ws)
             (ws_slots ws @ [\<lparr>sl_path = p, sl_orchestrator = None, sl_last_used = now\<rparr>])\<rparr>)"

definition slot_built :: "path \<Rightarrow> 'o \<Rightarrow> 'o workspaces \<Rightarrow> 'o workspaces" where
  "slot_built p built ws =
     ws\<lparr>ws_slots := map (\<lambda>s. if sl_path s = p \<and> sl_orchestrator s = None then s\<lparr>sl_orchestrator := Some built\<rparr> else s) (ws_slots ws)\<rparr>"

text \<open>The orchestrator of a workspace; \<open>build\<close> is what building one for it would give.\<close>

definition workspace_orchestrator ::
  "(path \<Rightarrow> bool) \<Rightarrow> (path \<Rightarrow> 'o result) \<Rightarrow> path option \<Rightarrow> 'o workspaces \<Rightarrow> 'o result \<times> 'o workspaces" where
  "workspace_orchestrator in_use build workspace ws =
     (case workspace of
        None \<Rightarrow> (Inr (ws_default ws), ws)
      | Some p \<Rightarrow>
          if \<not> ws_builds ws then (Inr (ws_default ws), ws)
          else
            let ws = slot_for in_use p ws in
            (case Option.bind (List.find (\<lambda>s. sl_path s = p) (ws_slots ws)) sl_orchestrator of
               Some found \<Rightarrow> (Inr found, ws)
             | None \<Rightarrow> (case build p of Inl err \<Rightarrow> (Inl err, ws) | Inr built \<Rightarrow> (Inr built, slot_built p built ws))))"

definition workspaces_len :: "'o workspaces \<Rightarrow> nat" where
  "workspaces_len ws = length (filter (\<lambda>s. sl_orchestrator s \<noteq> None) (ws_slots ws))"

section \<open>Laws of the sessions\<close>

lemma record_turn_bound: "length (as_turns (record_turn p r s)) \<le> max_history"
  by (simp add: record_turn_def Let_def)

lemma path_forD:
  assumes "path_for i rg = Some p"
  obtains d where "ag_directory rg = Some d" "p = path_join d (i @ ''.json'')" "is_plausible_id i"
  using assms by (auto simp: path_for_def bind_eq_Some_conv split: if_splits)

lemma plausible_bytes: "is_plausible_id i \<Longrightarrow> CHR ''/'' \<notin> set i \<and> CHR ''.'' \<notin> set i"
proof -
  have "\<not> id_byte (CHR ''/'')" "\<not> id_byte (CHR ''.'')" by code_simp+
  then show "is_plausible_id i \<Longrightarrow> CHR ''/'' \<notin> set i \<and> CHR ''.'' \<notin> set i" by (auto simp: is_plausible_id_def list_all_iff)
qed

text \<open>The files the sessions may be kept in.\<close>

definition session_file :: "path \<Rightarrow> path \<Rightarrow> bool" where
  "session_file d p \<longleftrightarrow> (\<exists>n. CHR ''/'' \<notin> set n \<and> prefix ''cuma-'' n \<and> p = path_join d n)"

lemma path_join_append: "\<not> prefix ''/'' q \<Longrightarrow> q \<noteq> [] \<Longrightarrow> path_join d q @ x = path_join d (q @ x)"
  by (cases q) (auto simp: path_join_def)

lemma path_for_session_file:
  assumes "path_for i rg = Some p"
  shows "\<exists>d. ag_directory rg = Some d \<and> session_file d p \<and> session_file d (p @ ''.tmp'')"
proof -
  obtain d where d: "ag_directory rg = Some d" "p = path_join d (i @ ''.json'')" "is_plausible_id i"
    using path_forD [OF assms] .
  have i: "prefix ''cuma-'' i" "CHR ''/'' \<notin> set i" using d(3) plausible_bytes by (auto simp: is_plausible_id_def)
  then have "p @ ''.tmp'' = path_join d (i @ ''.json.tmp'')" unfolding d(2) by (subst path_join_append) (auto simp: prefix_def)
  moreover have "session_file d (path_join d (i @ x))" if "CHR ''/'' \<notin> set x" for x
    unfolding session_file_def using i that by (intro exI [of _ "i @ x"]) (auto simp: prefix_def)
  ultimately show ?thesis using d(1,2) by auto
qed

lemma acp_persist_simps [simp]:
  "ag_sessions (acp_persist tj we i s rg) = ag_sessions rg" "ag_directory (acp_persist tj we i s rg) = ag_directory rg"
  by (simp_all add: acp_persist_def split: option.split)

lemma write_atomically_other: "q \<noteq> p \<Longrightarrow> q \<noteq> p @ ''.tmp'' \<Longrightarrow> write_atomically we p t files q = files q"
  by (simp add: write_atomically_def Let_def split: write_end.split)

text \<open>A session's file holds what it held or what was to be written, wherever the writing ends.\<close>

lemma write_is_atomic: "write_atomically we p t files p \<in> {files p, Some t}"
  by (auto simp: write_atomically_def Let_def split: write_end.split)

lemma acp_persist_outside:
  assumes "\<forall>d. ag_directory rg = Some d \<longrightarrow> \<not> session_file d q"
  shows "ag_files (acp_persist tj we i s rg) q = ag_files rg q"
proof (cases "path_for i rg")
  case (Some p)
  with path_for_session_file [OF Some] assms have "q \<noteq> p" "q \<noteq> p @ ''.tmp''" by auto
  with Some show ?thesis by (simp add: acp_persist_def write_atomically_other)
qed (simp add: acp_persist_def)

text \<open>What was recorded is what another process loads.\<close>

lemma recorded_then_loaded:
  assumes "bt_get (ag_sessions rg) i = Some s" "path_for i rg = Some p"
    and "of_json (to_json (record_turn prompt response s)) = Some ((record_turn prompt response s)\<lparr>as_running := None\<rparr>)"
  shows "fst (acp_load of_json i w (new_acp_registry (ag_directory rg) (ag_files (acp_record to_json WriteDone i prompt response rg)))) =
    Some ((record_turn prompt response s)\<lparr>as_workspace := w, as_running := None\<rparr>)"
proof -
  have p: "path_for i (rg\<lparr>ag_sessions := x\<rparr>) = Some p" "path_for i (new_acp_registry (ag_directory rg) files) = Some p" for x files
    using assms(2) by (simp_all add: path_for_def new_acp_registry_def)
  have "p \<noteq> p @ ''.tmp''" by simp
  then show ?thesis using assms(1,3) p(2)
    by (simp add: acp_record_def Let_def acp_persist_def p(1) write_atomically_def acp_load_def new_acp_registry_def)
qed

section \<open>Laws of the workspaces\<close>

lemma evict_keeps:
  "s \<in> set slots \<Longrightarrow> \<not> idle_slot in_use d s \<Longrightarrow> s \<in> set (evict in_use d slots)"
proof (induction in_use d slots rule: evict.induct)
  case (1 in_use d slots)
  show ?case
  proof (cases "length slots \<le> max_workspaces")
    case False
    show ?thesis
    proof (cases "least_recent (filter (\<lambda>(n, s). idle_slot in_use d s) (enumerate 0 slots))")
      case (Some n)
      have n: "n < length slots" "idle_slot in_use d (slots ! n)" using least_recent_idle [OF Some] by simp_all
      have "s \<in> set (take n slots @ drop (Suc n) slots)"
        using "1.prems" n id_take_nth_drop [OF n(1)] by (metis (no_types, lifting) Un_iff insertE list.simps(15) set_append)
      with "1.IH" [OF False Some] "1.prems"(2) False Some show ?thesis by (simp add: evict.simps [of in_use d slots])
    qed (use "1.prems"(1) in \<open>simp add: evict.simps [of in_use d slots]\<close>)
  qed (use "1.prems"(1) in \<open>simp add: evict.simps [of in_use d slots]\<close>)
qed

lemma evict_subset: "set (evict in_use d slots) \<subseteq> set slots \<and> (distinct (map f slots) \<longrightarrow> distinct (map f (evict in_use d slots)))"
proof (induction in_use d slots rule: evict.induct)
  case (1 in_use d slots)
  show ?case
  proof (cases "length slots \<le> max_workspaces")
    case False
    show ?thesis
    proof (cases "least_recent (filter (\<lambda>(n, s). idle_slot in_use d s) (enumerate 0 slots))")
      case (Some n)
      have "set (take n slots @ drop (Suc n) slots) \<subseteq> set slots" by (auto dest: in_set_takeD in_set_dropD)
      moreover have "distinct (map f slots) \<Longrightarrow> distinct (map f (take n slots @ drop (Suc n) slots))"
        by (auto simp: take_map [symmetric] drop_map [symmetric] set_take_disj_set_drop_if_distinct simp flip: set_map)
      ultimately show ?thesis using "1.IH" [OF False Some] False Some by (simp add: evict.simps [of in_use d slots]) blast
    qed (simp add: evict.simps [of in_use d slots])
  qed (simp add: evict.simps [of in_use d slots])
qed

lemma evict_distinct: "distinct (map f slots) \<Longrightarrow> distinct (map f (evict in_use d slots))"
  using evict_subset by blast

text \<open>Eviction stops within the limit, or when nothing left is idle.\<close>

lemma evict_bounds:
  "length (evict in_use d slots) \<le> max_workspaces \<or> list_all (\<lambda>s. \<not> idle_slot in_use d s) (evict in_use d slots)"
proof (induction in_use d slots rule: evict.induct)
  case (1 in_use d slots)
  show ?case
  proof (cases "least_recent (filter (\<lambda>(n, s). idle_slot in_use d s) (enumerate 0 slots))")
    case None
    have "least_recent xs = None \<Longrightarrow> xs = []" for xs :: "(nat \<times> 'a slot) list" by (induction xs rule: least_recent.induct) auto
    from this [OF None] have "list_all (\<lambda>s. \<not> idle_slot in_use d s) slots"
      by (auto simp: filter_empty_conv list_all_length in_set_enumerate_eq)
    then show ?thesis using None by (simp add: evict.simps [of in_use d slots])
  next
    case (Some n)
    show ?thesis
    proof (cases "length slots \<le> max_workspaces")
      case False
      from "1.IH" [OF False Some] False Some show ?thesis by (simp add: evict.simps [of in_use d slots])
    qed (simp add: evict.simps [of in_use d slots])
  qed
qed

end
