(* ===== verification/Acp_Server.thy ===== *)
theory Acp_Server
  imports Acp_Sessions
begin

text \<open>
  The ACP server: \<open>cuma-server-acp/src/translate.rs\<close> and \<open>lib.rs\<close>. Every request of a client, every prompt at
  work, every session the orchestrator runs for one and every pump of events is a task of its own; \<open>acp_step\<close>
  is what one of them does between two points where it waits. The protocol library, which frames the messages, is not here.
\<close>

section \<open>Translating\<close>

datatype content_block = TextBlock string | OtherBlock

definition prompt_to_goal :: "content_block list \<Rightarrow> string" where
  "prompt_to_goal blocks =
     join [CHR 0x0A] (filter (\<lambda>t. t \<noteq> [])
       (List.map_filter (\<lambda>b. case b of TextBlock t \<Rightarrow> Some (trim t) | OtherBlock \<Rightarrow> None) blocks))"

datatype session_update = AgentMessage string | UserMessage string

definition event_to_session_update :: "event \<Rightarrow> session_update option" where
  "event_to_session_update e =
     (let nl = [CHR 0x0A]; say = \<lambda>t. Some (AgentMessage t) in
      case ev_kind e of
        AgentOutputReceived chunk \<Rightarrow> say chunk
      | TaskPlanned n \<Rightarrow> say (''Planned '' @ show_nat n @ '' task'' @ (if n = 1 then [] else ''s'') @ ''.'' @ nl)
      | AgentSelected agent model _ _ \<Rightarrow>
          say ([CHR 0xE2, CHR 0x86, CHR 0x92] @ '' delegating to '' @ agent_str agent @
               (case model of Some m \<Rightarrow> '' / '' @ model_str m | None \<Rightarrow> []) @ nl)
      | AgentFailed agent cls _ \<Rightarrow>
          say ([CHR 0xE2, CHR 0x9A, CHR 0xA0] @ '' '' @ agent_str agent @ '' failed ('' @ debug_error_class cls @ '')'' @ nl)
      | FallbackSelected from _ reason \<Rightarrow>
          say ([CHR 0xE2, CHR 0x86, CHR 0xBB] @ '' falling back from '' @ agent_str from @ '': '' @ reason @ nl)
      | TaskFailedEv reason \<Rightarrow> say ([CHR 0xE2, CHR 0x9C, CHR 0x97] @ '' '' @ reason @ nl)
      | TaskSkippedEv _ \<Rightarrow> say ([CHR 0xE2, CHR 0x8A, CHR 0x98] @ '' skipped, a dependency failed'' @ nl)
      | _ \<Rightarrow> None)"

datatype stop_reason = EndTurn | StopCancelled | MaxTokens | Refusal

definition stop_reason_for :: "session_result result \<Rightarrow> stop_reason" where
  "stop_reason_for outcome =
     (case outcome of
        Inr _ \<Rightarrow> EndTurn
      | Inl err \<Rightarrow>
          (case error_class_of err of Cancelled \<Rightarrow> StopCancelled | ContextOverflow \<Rightarrow> MaxTokens | _ \<Rightarrow> EndTurn))"

section \<open>The server's state\<close>

text \<open>How the task of a run ends. Only one that was aborted ends cancelled.\<close>

datatype run_end = RunReturned "session_result result" | RunCancelled | RunPanicked string

record 'o acp_run =
  cr_session :: string
  cr_workspace :: "path option"
  cr_orchestrator :: 'o
  cr_goal :: string
  cr_aborted :: bool
  cr_end :: "run_end option"

datatype prompt_phase = PromptSpawned | PromptWaiting | PromptEnded run_end | PromptAnswered stop_reason

datatype pump_state = PumpOpen | PumpClosed | PumpAborted

record acp_prompt =
  pq_session :: string
  pq_goal :: string
  pq_run :: nat
  pq_phase :: prompt_phase
  pq_pump :: pump_state
  pq_transcript :: string

datatype acp_answer = SessionCreated string | SessionLoaded | PromptStopped string stop_reason | RefusedRequest int string | NotFound string

record 'o acp_server =
  ap_registry :: acp_registry
  ap_pool :: "'o workspaces"
  ap_runs :: "'o acp_run list"
  ap_prompts :: "acp_prompt list"
  ap_sent :: "(string \<times> session_update) list"
  ap_answers :: "acp_answer list"

definition acp_invalid_params :: int where
  "acp_invalid_params = -32602"

definition acp_internal_error :: int where
  "acp_internal_error = -32603"

definition new_acp_server :: "acp_registry \<Rightarrow> 'o workspaces \<Rightarrow> 'o acp_server" where
  "new_acp_server rg ws = \<lparr>ap_registry = rg, ap_pool = ws, ap_runs = [], ap_prompts = [], ap_sent = [], ap_answers = []\<rparr>"

definition run_finished :: "'o acp_server \<Rightarrow> nat \<Rightarrow> bool" where
  "run_finished ap h \<longleftrightarrow> h < length (ap_runs ap) \<and> cr_end (ap_runs ap ! h) \<noteq> None"

fun is_answered :: "prompt_phase \<Rightarrow> bool" where
  "is_answered (PromptAnswered _) = True"
| "is_answered _ = False"

text \<open>A run holds its orchestrator until it has ended and its prompt is answered.\<close>

definition holds_run :: "'o acp_server \<Rightarrow> nat \<Rightarrow> bool" where
  "holds_run ap h \<longleftrightarrow> h < length (ap_runs ap) \<and>
     (cr_end (ap_runs ap ! h) = None \<or> list_ex (\<lambda>q. pq_run q = h \<and> \<not> is_answered (pq_phase q)) (ap_prompts ap))"

definition workspace_in_use :: "'o acp_server \<Rightarrow> path \<Rightarrow> bool" where
  "workspace_in_use ap p \<longleftrightarrow>
     list_ex (\<lambda>h. holds_run ap h \<and> cr_workspace (ap_runs ap ! h) = Some p) [0..<length (ap_runs ap)]"

definition send_answer :: "acp_answer \<Rightarrow> 'o acp_server \<Rightarrow> 'o acp_server" where
  "send_answer a ap = ap\<lparr>ap_answers := ap_answers ap @ [a]\<rparr>"

definition send_update :: "string \<Rightarrow> session_update \<Rightarrow> 'o acp_server \<Rightarrow> 'o acp_server" where
  "send_update i u ap = ap\<lparr>ap_sent := ap_sent ap @ [(i, u)]\<rparr>"

definition update_prompt :: "nat \<Rightarrow> (acp_prompt \<Rightarrow> acp_prompt) \<Rightarrow> 'o acp_server \<Rightarrow> 'o acp_server" where
  "update_prompt k f ap = ap\<lparr>ap_prompts := (ap_prompts ap)[k := f (ap_prompts ap ! k)]\<rparr>"

definition abort_run :: "nat \<Rightarrow> 'o acp_server \<Rightarrow> 'o acp_server" where
  "abort_run h ap =
     (if h < length (ap_runs ap) then ap\<lparr>ap_runs := (ap_runs ap)[h := (ap_runs ap ! h)\<lparr>cr_aborted := True\<rparr>]\<rparr> else ap)"

definition take_orchestrator :: "(path \<Rightarrow> 'o result) \<Rightarrow> path option \<Rightarrow> 'o acp_server \<Rightarrow> 'o result \<times> 'o acp_server" where
  "take_orchestrator build workspace ap =
     (case workspace_orchestrator (workspace_in_use ap) build workspace (ap_pool ap) of
        (r, ws) \<Rightarrow> (r, ap\<lparr>ap_pool := ws\<rparr>))"

section \<open>Requests\<close>

definition acp_new_session ::
  "(acp_session \<Rightarrow> string) \<Rightarrow> (path \<Rightarrow> string + path) \<Rightarrow> (path \<Rightarrow> bool) \<Rightarrow> (path \<Rightarrow> 'o result) \<Rightarrow> write_end \<Rightarrow> string \<Rightarrow> timestamp \<Rightarrow>
   path \<Rightarrow> 'o acp_server \<Rightarrow> 'o acp_server" where
  "acp_new_session to_json canonicalize is_dir build we fresh now cwd ap =
     (case validate_workspace canonicalize is_dir cwd (ap_pool ap) of
        Inl err \<Rightarrow> send_answer (RefusedRequest acp_invalid_params (display_error err)) ap
      | Inr p \<Rightarrow>
          (case take_orchestrator build (Some p) ap of
             (Inl err, ap) \<Rightarrow> send_answer (RefusedRequest acp_internal_error (display_error err)) ap
           | (Inr _, ap) \<Rightarrow>
               (case acp_create to_json we fresh now p (ap_registry ap) of
                  (i, rg) \<Rightarrow> send_answer (SessionCreated i) (ap\<lparr>ap_registry := rg\<rparr>))))"

definition replay :: "string \<Rightarrow> turn \<Rightarrow> 'o acp_server \<Rightarrow> 'o acp_server" where
  "replay i t ap = send_update i (AgentMessage (tn_response t)) (send_update i (UserMessage (tn_prompt t)) ap)"

definition acp_load_session ::
  "(string \<Rightarrow> acp_session option) \<Rightarrow> (path \<Rightarrow> string + path) \<Rightarrow> (path \<Rightarrow> bool) \<Rightarrow> (path \<Rightarrow> 'o result) \<Rightarrow> string \<Rightarrow>
   path \<Rightarrow> 'o acp_server \<Rightarrow> 'o acp_server" where
  "acp_load_session of_json canonicalize is_dir build i cwd ap =
     (case validate_workspace canonicalize is_dir cwd (ap_pool ap) of
        Inl err \<Rightarrow> send_answer (RefusedRequest acp_invalid_params (display_error err)) ap
      | Inr p \<Rightarrow>
          (case acp_load of_json i p (ap_registry ap) of
             (None, rg) \<Rightarrow> send_answer (NotFound i) (ap\<lparr>ap_registry := rg\<rparr>)
           | (Some s, rg) \<Rightarrow>
               (case take_orchestrator build (Some p) (ap\<lparr>ap_registry := rg\<rparr>) of
                  (Inl err, ap) \<Rightarrow> send_answer (RefusedRequest acp_internal_error (display_error err)) ap
                | (Inr _, ap) \<Rightarrow> send_answer SessionLoaded (fold (replay i) (as_turns s) ap))))"

definition acp_cancel_prompt :: "string \<Rightarrow> 'o acp_server \<Rightarrow> 'o acp_server" where
  "acp_cancel_prompt i ap =
     (case acp_cancel (run_finished ap) i (ap_registry ap) of None \<Rightarrow> ap | Some h \<Rightarrow> abort_run h ap)"

text \<open>A prompt with a goal is spawned with its run and its pump, before the registry is asked whether it may run.\<close>

definition acp_prompt_request :: "(path \<Rightarrow> 'o result) \<Rightarrow> string \<Rightarrow> content_block list \<Rightarrow> 'o acp_server \<Rightarrow> 'o acp_server" where
  "acp_prompt_request build i blocks ap =
     (let goal = prompt_to_goal blocks; workspace = acp_workspace i (ap_registry ap) in
      if trim goal = [] then send_answer (PromptStopped i EndTurn) ap
      else
        case take_orchestrator build workspace ap of
          (Inl err, ap) \<Rightarrow>
            send_answer (PromptStopped i EndTurn)
              (send_update i (AgentMessage (''This session'' @ [CHR 0x27] @ ''s workspace could not be prepared: '' @ display_error err @ [CHR 0x0A])) ap)
        | (Inr oc, ap) \<Rightarrow>
            ap\<lparr>ap_runs := ap_runs ap @ [\<lparr>cr_session = i, cr_workspace = workspace, cr_orchestrator = oc, cr_goal = goal, cr_aborted = False, cr_end = None\<rparr>],
               ap_prompts := ap_prompts ap @ [\<lparr>pq_session = i, pq_goal = goal, pq_run = length (ap_runs ap), pq_phase = PromptSpawned,
                 pq_pump = PumpOpen, pq_transcript = []\<rparr>]\<rparr>)"

section \<open>A prompt at work\<close>

text \<open>\<open>run_id\<close> is the session id drawn for a run. The pump ends when it has seen its run complete, and when it lags.\<close>

definition pump_event :: "(nat \<Rightarrow> session_id) \<Rightarrow> nat \<Rightarrow> event \<Rightarrow> 'o acp_server \<Rightarrow> 'o acp_server" where
  "pump_event run_id k e ap =
     (if k < length (ap_prompts ap) \<and> pq_pump (ap_prompts ap ! k) = PumpOpen \<and> ev_session_id e = run_id (pq_run (ap_prompts ap ! k)) then
        let ap = (case ev_kind e of
                    AgentOutputReceived chunk \<Rightarrow> update_prompt k (\<lambda>q. q\<lparr>pq_transcript := pq_transcript q @ chunk\<rparr>) ap
                  | _ \<Rightarrow> ap);
            ap = (case event_to_session_update e of Some u \<Rightarrow> send_update (pq_session (ap_prompts ap ! k)) u ap | None \<Rightarrow> ap)
        in (case ev_kind e of SessionCompleted _ \<Rightarrow> update_prompt k (\<lambda>q. q\<lparr>pq_pump := PumpClosed\<rparr>) ap | _ \<Rightarrow> ap)
      else ap)"

definition pump_lags :: "nat \<Rightarrow> 'o acp_server \<Rightarrow> 'o acp_server" where
  "pump_lags k ap =
     (if k < length (ap_prompts ap) \<and> pq_pump (ap_prompts ap ! k) = PumpOpen
      then update_prompt k (\<lambda>q. q\<lparr>pq_pump := PumpClosed\<rparr>) ap else ap)"

definition outcome_of_end :: "run_end \<Rightarrow> session_result result option" where
  "outcome_of_end e =
     (case e of
        RunReturned r \<Rightarrow> Some r
      | RunCancelled \<Rightarrow> None
      | RunPanicked text \<Rightarrow> Some (Inl (EProtocol ''acp'' (''the session task failed: '' @ text) None)))"

definition turn_response :: "session_result result \<Rightarrow> string \<Rightarrow> string" where
  "turn_response outcome transcript =
     (case outcome of
        Inr res \<Rightarrow> if trim transcript = [] then sr_summary res else trim_end transcript @ [CHR 0x0A, CHR 0x0A] @ sr_summary res
      | Inl err \<Rightarrow> display_error err)"

definition end_prompt :: "(acp_session \<Rightarrow> string) \<Rightarrow> write_end \<Rightarrow> nat \<Rightarrow> string \<Rightarrow> stop_reason \<Rightarrow> 'o acp_server \<Rightarrow> 'o acp_server" where
  "end_prompt to_json we k response stop ap =
     (let q = ap_prompts ap ! k in
      send_answer (PromptStopped (pq_session q) stop)
        (update_prompt k (\<lambda>q. q\<lparr>pq_phase := PromptAnswered stop\<rparr>)
          (ap\<lparr>ap_registry := acp_record to_json we (pq_session q) (pq_goal q) response (ap_registry ap)\<rparr>)))"

definition start_prompt :: "timestamp \<Rightarrow> path \<Rightarrow> nat \<Rightarrow> 'o acp_server \<Rightarrow> 'o acp_server" where
  "start_prompt now current_dir k ap =
     (let q = ap_prompts ap ! k in
      case acp_start (run_finished ap) now current_dir (pq_session q) (pq_run q) (ap_registry ap) of
        (True, rg) \<Rightarrow> update_prompt k (\<lambda>q. q\<lparr>pq_phase := PromptWaiting\<rparr>) (ap\<lparr>ap_registry := rg\<rparr>)
      | (False, rg) \<Rightarrow>
          send_answer (PromptStopped (pq_session q) Refusal)
            (send_update (pq_session q) (AgentMessage (''A prompt is already running in this session; cancel it first.'' @ [CHR 0x0A]))
              (update_prompt k (\<lambda>q. q\<lparr>pq_phase := PromptAnswered Refusal, pq_pump := PumpAborted\<rparr>)
                (abort_run (pq_run q) (ap\<lparr>ap_registry := rg\<rparr>)))))"

text \<open>\<open>timed_out\<close> tells whether the pump has been waited for long enough.\<close>

definition prompt_proceeds ::
  "(acp_session \<Rightarrow> string) \<Rightarrow> bool \<Rightarrow> timestamp \<Rightarrow> path \<Rightarrow> write_end \<Rightarrow> nat \<Rightarrow> 'o acp_server \<Rightarrow> 'o acp_server" where
  "prompt_proceeds to_json timed_out now current_dir we k ap =
     (if length (ap_prompts ap) \<le> k then ap
      else
        let q = ap_prompts ap ! k in
        case pq_phase q of
          PromptSpawned \<Rightarrow> start_prompt now current_dir k ap
        | PromptWaiting \<Rightarrow>
            (case cr_end (ap_runs ap ! pq_run q) of
               None \<Rightarrow> ap
             | Some e \<Rightarrow>
                 update_prompt k (\<lambda>q. q\<lparr>pq_phase := PromptEnded e\<rparr>) (ap\<lparr>ap_registry := acp_finish (pq_session q) (ap_registry ap)\<rparr>))
        | PromptEnded e \<Rightarrow>
            (case outcome_of_end e of
               None \<Rightarrow> end_prompt to_json we k ''(cancelled)'' StopCancelled (update_prompt k (\<lambda>q. q\<lparr>pq_pump := PumpAborted\<rparr>) ap)
             | Some outcome \<Rightarrow>
                 if pq_pump q = PumpClosed then
                   end_prompt to_json we k (turn_response outcome (pq_transcript q)) (stop_reason_for outcome) ap
                 else if timed_out then end_prompt to_json we k (turn_response outcome []) (stop_reason_for outcome) ap
                 else ap)
        | PromptAnswered _ \<Rightarrow> ap)"

definition run_ends :: "nat \<Rightarrow> run_end \<Rightarrow> 'o acp_server \<Rightarrow> 'o acp_server" where
  "run_ends h e ap =
     (if h < length (ap_runs ap) \<and> cr_end (ap_runs ap ! h) = None \<and> (e = RunCancelled \<longrightarrow> cr_aborted (ap_runs ap ! h))
      then ap\<lparr>ap_runs := (ap_runs ap)[h := (ap_runs ap ! h)\<lparr>cr_end := Some e\<rparr>]\<rparr> else ap)"

section \<open>Steps\<close>

datatype 'o acp_input =
    NewSession "path \<Rightarrow> string + path" "path \<Rightarrow> bool" "path \<Rightarrow> 'o result" write_end string timestamp path
  | LoadSession "path \<Rightarrow> string + path" "path \<Rightarrow> bool" "path \<Rightarrow> 'o result" string path
  | CancelPrompt string
  | PromptRequest "path \<Rightarrow> 'o result" string "content_block list"
  | PromptProceeds bool timestamp path write_end nat
  | RunEnds nat run_end
  | PumpEvent nat event
  | PumpLags nat

fun acp_step ::
  "(acp_session \<Rightarrow> string) \<Rightarrow> (string \<Rightarrow> acp_session option) \<Rightarrow> (nat \<Rightarrow> session_id) \<Rightarrow> 'o acp_input \<Rightarrow> 'o acp_server \<Rightarrow> 'o acp_server" where
  "acp_step to_json of_json run_id (NewSession canonicalize is_dir build we fresh now cwd) ap =
     acp_new_session to_json canonicalize is_dir build we fresh now cwd ap"
| "acp_step to_json of_json run_id (LoadSession canonicalize is_dir build i cwd) ap =
     acp_load_session of_json canonicalize is_dir build i cwd ap"
| "acp_step to_json of_json run_id (CancelPrompt i) ap = acp_cancel_prompt i ap"
| "acp_step to_json of_json run_id (PromptRequest build i blocks) ap = acp_prompt_request build i blocks ap"
| "acp_step to_json of_json run_id (PromptProceeds timed_out now current_dir we k) ap =
     prompt_proceeds to_json timed_out now current_dir we k ap"
| "acp_step to_json of_json run_id (RunEnds h e) ap = run_ends h e ap"
| "acp_step to_json of_json run_id (PumpEvent k e) ap = pump_event run_id k e ap"
| "acp_step to_json of_json run_id (PumpLags k) ap = pump_lags k ap"

end
