(* ===== verification/Acp_Runs.thy ===== *)
theory Acp_Runs
  imports Acp_Server
begin

text \<open>
  What the ACP server keeps true whatever its clients send and in whatever order its tasks proceed: a run in
  progress works with the one orchestrator of its directory, handles stay within their session, histories are bounded
  and only session files are written.
\<close>

section \<open>The pool serves what is held\<close>

definition find_slot :: "path \<Rightarrow> 'o workspaces \<Rightarrow> 'o slot option" where
  "find_slot p ws = List.find (\<lambda>s. sl_path s = p) (ws_slots ws)"

definition pool_serves :: "'o workspaces \<Rightarrow> path option \<Rightarrow> 'o option" where
  "pool_serves ws w =
     (case w of
        None \<Rightarrow> Some (ws_default ws)
      | Some p \<Rightarrow> if ws_builds ws then Option.bind (find_slot p ws) sl_orchestrator else Some (ws_default ws))"

definition distinct_slots :: "'o workspaces \<Rightarrow> bool" where
  "distinct_slots ws \<longleftrightarrow> distinct (map sl_path (ws_slots ws))"

lemma find_path:
  "distinct (map sl_path slots) \<Longrightarrow> List.find (\<lambda>s. sl_path s = p) slots = Some s \<longleftrightarrow> s \<in> set slots \<and> sl_path s = p"
  by (induction slots) auto

lemma find_slot_iff: "distinct_slots ws \<Longrightarrow> find_slot p ws = Some s \<longleftrightarrow> s \<in> set (ws_slots ws) \<and> sl_path s = p"
  by (simp add: find_slot_def distinct_slots_def find_path)

lemma find_map_path: "(\<And>s. sl_path (f s) = sl_path s) \<Longrightarrow> List.find (\<lambda>s. sl_path s = p) (map f slots) = map_option f (List.find (\<lambda>s. sl_path s = p) slots)"
  by (induction slots) auto

lemma slot_for_simps [simp]:
  "ws_default (slot_for in_use p ws) = ws_default ws" "ws_builds (slot_for in_use p ws) = ws_builds ws"
  "ws_default_path (slot_for in_use p ws) = ws_default_path ws"
  by (simp_all add: slot_for_def Let_def)

lemma slot_built_simps [simp]:
  "ws_default (slot_built p b ws) = ws_default ws" "ws_builds (slot_built p b ws) = ws_builds ws"
  by (simp_all add: slot_built_def)

lemma slot_for_distinct: "distinct_slots ws \<Longrightarrow> distinct_slots (slot_for in_use p ws)"
proof (cases "list_ex (\<lambda>s. sl_path s = p) (ws_slots ws)")
  case True
  assume "distinct_slots ws"
  moreover have "map sl_path (map (\<lambda>s. if sl_path s = p then s\<lparr>sl_last_used := n\<rparr> else s) xs) = map sl_path xs" for n and xs :: "'a slot list"
    by simp
  ultimately show ?thesis using True by (simp add: slot_for_def Let_def distinct_slots_def del: map_map)
next
  case False
  assume "distinct_slots ws"
  then have "distinct (map sl_path (ws_slots ws @ [\<lparr>sl_path = p, sl_orchestrator = None, sl_last_used = ws_clock ws\<rparr>]))"
    using False by (auto simp: distinct_slots_def list_ex_iff)
  from evict_distinct [OF this] False show ?thesis by (simp add: slot_for_def Let_def distinct_slots_def)
qed

lemma slot_built_distinct: "distinct_slots ws \<Longrightarrow> distinct_slots (slot_built p b ws)"
proof -
  have "map sl_path (map (\<lambda>s. if sl_path s = p \<and> sl_orchestrator s = None then s\<lparr>sl_orchestrator := Some b\<rparr> else s) xs) = map sl_path xs"
    for xs :: "'a slot list" by simp
  then show "distinct_slots ws \<Longrightarrow> distinct_slots (slot_built p b ws)" by (simp add: slot_built_def distinct_slots_def del: map_map)
qed

text \<open>A slot asked for is there, and one in use keeps its orchestrator.\<close>

lemma slot_for_keeps:
  assumes "distinct_slots ws" "find_slot q ws = Some s" "in_use q \<or> q = p"
  shows "map_option sl_orchestrator (find_slot q (slot_for in_use p ws)) = Some (sl_orchestrator s)"
proof (cases "list_ex (\<lambda>s. sl_path s = p) (ws_slots ws)")
  case True
  then show ?thesis using assms(2) by (simp add: slot_for_def Let_def find_slot_def find_map_path)
next
  case False
  then have "s \<in> set (ws_slots ws)" "sl_path s = q" "q \<noteq> p" using assms(1,2) by (auto simp: find_slot_iff list_ex_iff)
  then have "s \<in> set (ws_slots (slot_for in_use p ws))" using False assms(3)
    by (auto simp: slot_for_def Let_def idle_slot_def intro!: evict_keeps)
  moreover have d: "distinct_slots (slot_for in_use p ws)" using slot_for_distinct [OF assms(1)] .
  ultimately show ?thesis using find_slot_iff [OF d, of q s] \<open>sl_path s = q\<close> by simp
qed

lemma slot_for_there: "distinct_slots ws \<Longrightarrow> find_slot p (slot_for in_use p ws) \<noteq> None"
proof (cases "list_ex (\<lambda>s. sl_path s = p) (ws_slots ws)")
  case True
  then have "find_slot p ws \<noteq> None" by (auto simp: find_slot_def find_None_iff list_ex_iff)
  moreover assume "distinct_slots ws"
  ultimately show ?thesis using slot_for_keeps [where ws = ws and q = p and p = p and in_use = in_use] by fastforce
next
  case False
  assume d: "distinct_slots ws"
  have "\<lparr>sl_path = p, sl_orchestrator = None, sl_last_used = ws_clock ws\<rparr> \<in> set (ws_slots (slot_for in_use p ws))"
    using False by (auto simp: slot_for_def Let_def idle_slot_def intro!: evict_keeps)
  then show ?thesis using find_slot_iff [OF slot_for_distinct [OF d]] by fastforce
qed

lemma slot_built_keeps:
  "find_slot q (slot_built p b ws) =
     map_option (\<lambda>s. if q = p \<and> sl_orchestrator s = None then s\<lparr>sl_orchestrator := Some b\<rparr> else s) (find_slot q ws)"
proof -
  have "List.find (\<lambda>s. sl_path s = q) (map (\<lambda>s. if sl_path s = p \<and> sl_orchestrator s = None then s\<lparr>sl_orchestrator := Some b\<rparr> else s) xs) =
      map_option (\<lambda>s. if q = p \<and> sl_orchestrator s = None then s\<lparr>sl_orchestrator := Some b\<rparr> else s) (List.find (\<lambda>s. sl_path s = q) xs)" for xs :: "'a slot list"
    by (induction xs) auto
  then show ?thesis by (simp add: find_slot_def slot_built_def)
qed

lemma workspace_orchestrator_ok:
  assumes "distinct_slots ws" "workspace_orchestrator in_use build w ws = (r, ws')"
  shows "distinct_slots ws'" "\<forall>oc. r = Inr oc \<longrightarrow> pool_serves ws' w = Some oc"
    "\<forall>v oc. (case v of Some q \<Rightarrow> in_use q | None \<Rightarrow> True) \<longrightarrow> pool_serves ws v = Some oc \<longrightarrow> pool_serves ws' v = Some oc"
proof -
  have "distinct_slots ws' \<and> (\<forall>oc. r = Inr oc \<longrightarrow> pool_serves ws' w = Some oc) \<and>
    (\<forall>v oc. (case v of Some q \<Rightarrow> in_use q | None \<Rightarrow> True) \<longrightarrow> pool_serves ws v = Some oc \<longrightarrow> pool_serves ws' v = Some oc)"
  proof (cases "w = None \<or> \<not> ws_builds ws")
    case True
    then show ?thesis using assms by (auto simp: workspace_orchestrator_def pool_serves_def split: option.splits)
  next
    case False
    then obtain p where p: "w = Some p" "ws_builds ws" by auto
    define ws1 where "ws1 = slot_for in_use p ws"
    have d1: "distinct_slots ws1" unfolding ws1_def using slot_for_distinct [OF assms(1)] .
    obtain s where s: "find_slot p ws1 = Some s" using slot_for_there [OF assms(1)] unfolding ws1_def by blast
    have kept: "pool_serves ws1 v = Some oc"
      if used: "case v of Some q \<Rightarrow> in_use q | None \<Rightarrow> True" and served: "pool_serves ws v = Some oc" for v oc
    proof (cases v)
      case (Some q)
      then obtain t where t: "find_slot q ws = Some t" "sl_orchestrator t = Some oc"
        using served p(2) by (auto simp: pool_serves_def bind_eq_Some_conv)
      from slot_for_keeps [OF assms(1) t(1), where in_use = in_use and p = p] used Some t(2) p(2) show ?thesis
        by (auto simp: pool_serves_def ws1_def)
    qed (use served in \<open>simp add: pool_serves_def ws1_def\<close>)
    have eq: "(case sl_orchestrator s of Some found \<Rightarrow> (Inr found, ws1)
        | None \<Rightarrow> (case build p of Inl err \<Rightarrow> (Inl err, ws1) | Inr built \<Rightarrow> (Inr built, slot_built p built ws1))) = (r, ws')"
      using assms(2) p s by (simp add: workspace_orchestrator_def Let_def ws1_def [symmetric] find_slot_def [symmetric])
    show ?thesis
    proof (cases "sl_orchestrator s")
      case (Some found)
      then have "r = Inr found" "ws' = ws1" using eq by simp_all
      then show ?thesis using d1 kept s Some p by (auto simp: pool_serves_def ws1_def)
    next
      case None
      show ?thesis
      proof (cases "build p")
        case (Inr built)
        then have r: "r = Inr built" "ws' = slot_built p built ws1" using eq None by simp_all
        have "pool_serves ws' v = Some oc" if "pool_serves ws1 v = Some oc" for v oc
          using that by (cases v; cases "find_slot (the v) ws1") (auto simp: r(2) pool_serves_def slot_built_keeps)
        then show ?thesis using r d1 kept s None p slot_built_distinct [OF d1]
          by (auto simp: pool_serves_def slot_built_keeps ws1_def)
      qed (use eq None d1 kept in auto)
    qed
  qed
  then show "distinct_slots ws'" "\<forall>oc. r = Inr oc \<longrightarrow> pool_serves ws' w = Some oc"
    "\<forall>v oc. (case v of Some q \<Rightarrow> in_use q | None \<Rightarrow> True) \<longrightarrow> pool_serves ws v = Some oc \<longrightarrow> pool_serves ws' v = Some oc"
    by blast+
qed

section \<open>Sessions and handles\<close>

definition session_ok :: "'o acp_run list \<Rightarrow> string \<Rightarrow> acp_session \<Rightarrow> bool" where
  "session_ok runs i s \<longleftrightarrow>
     length (as_turns s) \<le> max_history \<and> (\<forall>h. as_running s = Some h \<longrightarrow> h < length runs \<and> cr_session (runs ! h) = i)"

definition sessions_ok :: "'o acp_run list \<Rightarrow> acp_registry \<Rightarrow> bool" where
  "sessions_ok runs rg \<longleftrightarrow> bt_wf (ag_sessions rg) \<and> (\<forall>i s. bt_get (ag_sessions rg) i = Some s \<longrightarrow> session_ok runs i s)"

text \<open>What a session file may give: no more turns than are kept, and no running prompt, which is not written.\<close>

definition plain_json :: "(string \<Rightarrow> acp_session option) \<Rightarrow> bool" where
  "plain_json of_json \<longleftrightarrow> (\<forall>t s. of_json t = Some s \<longrightarrow> as_running s = None \<and> length (as_turns s) \<le> max_history)"

lemma sessions_ok_insert:
  "sessions_ok runs rg \<Longrightarrow> session_ok runs i s \<Longrightarrow> sessions_ok runs (rg\<lparr>ag_sessions := bt_insert i s (ag_sessions rg)\<rparr>)"
  by (auto simp: sessions_ok_def bt_wf_insert bt_get_insert split: if_splits)

lemma sessions_ok_persist [simp]: "sessions_ok runs (acp_persist tj we i s rg) = sessions_ok runs rg"
  by (simp add: sessions_ok_def)

lemma session_ok_new [simp]: "session_ok runs i (new_acp_session w now)"
  by (simp add: session_ok_def new_acp_session_def)

lemma sessions_ok_get: "sessions_ok runs rg \<Longrightarrow> bt_get (ag_sessions rg) i = Some s \<Longrightarrow> session_ok runs i s"
  by (simp add: sessions_ok_def)

lemma sessions_ok_create: "sessions_ok runs rg \<Longrightarrow> sessions_ok runs (snd (acp_create tj we fresh now w rg))"
  using sessions_ok_insert [of runs "acp_persist tj we (''cuma-'' @ fresh) (new_acp_session w now) rg"]
  by (simp add: acp_create_def Let_def)

lemma sessions_ok_load:
  assumes "sessions_ok runs rg" "plain_json of_json"
  shows "sessions_ok runs (snd (acp_load of_json i w rg)) \<and>
    (\<forall>s. fst (acp_load of_json i w rg) = Some s \<longrightarrow> length (as_turns s) \<le> max_history)"
proof (cases "bt_get (ag_sessions rg) i")
  case (Some s)
  then show ?thesis using assms(1) sessions_ok_get by (fastforce simp: acp_load_def session_ok_def)
next
  case None
  have "session_ok runs i (s\<lparr>as_workspace := w\<rparr>)" if "of_json t = Some s" for t s
    using that assms(2) by (auto simp: plain_json_def session_ok_def)
  then show ?thesis using assms None
    by (auto simp: acp_load_def Let_def bind_eq_Some_conv plain_json_def intro!: sessions_ok_insert split: option.split)
qed

lemma sessions_ok_record: "sessions_ok runs rg \<Longrightarrow> sessions_ok runs (acp_record tj we i p r rg)"
proof (cases "bt_get (ag_sessions rg) i")
  case (Some s)
  assume ok: "sessions_ok runs rg"
  have "session_ok runs i (record_turn p r s)"
    using sessions_ok_get [OF ok Some] record_turn_bound [of p r s] by (auto simp: session_ok_def) (auto simp: record_turn_def Let_def)
  then show ?thesis using ok Some by (simp add: acp_record_def Let_def sessions_ok_insert)
qed (simp add: acp_record_def)

lemma sessions_ok_start:
  assumes "sessions_ok runs rg" "h < length runs" "cr_session (runs ! h) = i"
  shows "sessions_ok runs (snd (acp_start finished now dir i h rg))"
proof -
  define s where "s = (case bt_get (ag_sessions rg) i of Some s \<Rightarrow> s | None \<Rightarrow> new_acp_session dir now)"
  have s: "session_ok runs i s" using sessions_ok_get [OF assms(1)] by (auto simp: s_def split: option.split)
  then have "session_ok runs i (s\<lparr>as_running := Some h\<rparr>)" using assms(2,3) by (simp add: session_ok_def)
  then show ?thesis unfolding acp_start_def Let_def s_def [symmetric]
    using sessions_ok_insert [OF assms(1) s] sessions_ok_insert [OF sessions_ok_insert [OF assms(1) s]] by auto
qed

lemma sessions_ok_finish: "sessions_ok runs rg \<Longrightarrow> sessions_ok runs (acp_finish i rg)"
  by (auto simp: sessions_ok_def acp_finish_def bt_wf_modify bt_get_modify session_ok_def)

section \<open>The invariant\<close>

definition prompts_ok :: "'o acp_server \<Rightarrow> bool" where
  "prompts_ok ap \<longleftrightarrow>
     list_all (\<lambda>q. pq_run q < length (ap_runs ap) \<and> cr_session (ap_runs ap ! pq_run q) = pq_session q) (ap_prompts ap)"

definition acp_ok :: "'o acp_server \<Rightarrow> bool" where
  "acp_ok ap \<longleftrightarrow> distinct_slots (ap_pool ap) \<and> prompts_ok ap \<and> sessions_ok (ap_runs ap) (ap_registry ap) \<and>
     (\<forall>h. holds_run ap h \<longrightarrow> pool_serves (ap_pool ap) (cr_workspace (ap_runs ap ! h)) = Some (cr_orchestrator (ap_runs ap ! h)))"

lemma acp_ok_sessions: "acp_ok ap \<Longrightarrow> sessions_ok (ap_runs ap) (ap_registry ap)"
  by (simp add: acp_ok_def)

text \<open>Steps that start no run: what a run is and belongs to stays, and none is taken up again.\<close>

definition same_run :: "'o acp_run \<Rightarrow> 'o acp_run \<Rightarrow> bool" where
  "same_run r r' \<longleftrightarrow> cr_session r' = cr_session r \<and> cr_workspace r' = cr_workspace r \<and> cr_orchestrator r' = cr_orchestrator r \<and>
     (cr_end r' = None \<longrightarrow> cr_end r = None)"

definition same_prompt :: "acp_prompt \<Rightarrow> acp_prompt \<Rightarrow> bool" where
  "same_prompt q q' \<longleftrightarrow> pq_session q' = pq_session q \<and> pq_run q' = pq_run q \<and> (is_answered (pq_phase q) \<longrightarrow> is_answered (pq_phase q'))"

definition quiet :: "'o acp_server \<Rightarrow> 'o acp_server \<Rightarrow> bool" where
  "quiet ap ap' \<longleftrightarrow> ap_pool ap' = ap_pool ap \<and> list_all2 same_run (ap_runs ap) (ap_runs ap') \<and> list_all2 same_prompt (ap_prompts ap) (ap_prompts ap')"

lemma same_run_refl [simp]: "same_run r r" and same_prompt_refl [simp]: "same_prompt q q"
  by (simp_all add: same_run_def same_prompt_def)

lemma quiet_refl [simp]: "quiet ap ap"
  by (simp add: quiet_def list_all2_refl)

lemma quiet_trans:
  assumes "quiet a b" "quiet b c"
  shows "quiet a c"
proof -
  have "same_run x y \<Longrightarrow> same_run y z \<Longrightarrow> same_run x z" for x y z :: "'a acp_run" by (simp add: same_run_def)
  moreover have "same_prompt x y \<Longrightarrow> same_prompt y z \<Longrightarrow> same_prompt x z" for x y z by (simp add: same_prompt_def)
  ultimately show ?thesis
    using assms list_all2_trans [of same_run same_run same_run] list_all2_trans [of same_prompt same_prompt same_prompt]
    unfolding quiet_def by metis
qed

lemma sessions_ok_same: "sessions_ok runs rg \<Longrightarrow> list_all2 same_run runs runs' \<Longrightarrow> sessions_ok runs' rg"
  by (fastforce simp: sessions_ok_def session_ok_def list_all2_conv_all_nth same_run_def)

lemma quiet_ok:
  assumes "acp_ok ap" "quiet ap ap'" "sessions_ok (ap_runs ap) (ap_registry ap')"
  shows "acp_ok ap'"
proof -
  have runs: "length (ap_runs ap') = length (ap_runs ap)" "\<And>h. h < length (ap_runs ap) \<Longrightarrow> same_run (ap_runs ap ! h) (ap_runs ap' ! h)"
    and prompts: "list_all2 same_prompt (ap_prompts ap) (ap_prompts ap')" and pool: "ap_pool ap' = ap_pool ap"
    using assms(2) by (auto simp: quiet_def list_all2_conv_all_nth)
  have "holds_run ap h" if held: "holds_run ap' h" for h
  proof -
    have h: "h < length (ap_runs ap)" using held runs(1) by (simp add: holds_run_def)
    show ?thesis
    proof (cases "cr_end (ap_runs ap' ! h) = None")
      case True
      then show ?thesis using runs(2) [OF h] h by (simp add: holds_run_def same_run_def)
    next
      case False
      then obtain k where k: "k < length (ap_prompts ap')" "pq_run (ap_prompts ap' ! k) = h" "\<not> is_answered (pq_phase (ap_prompts ap' ! k))"
        using held by (auto simp: holds_run_def list_ex_length)
      then have "k < length (ap_prompts ap)" "same_prompt (ap_prompts ap ! k) (ap_prompts ap' ! k)"
        using prompts by (auto simp: list_all2_conv_all_nth)
      then show ?thesis using k h by (auto simp: holds_run_def list_ex_length same_prompt_def)
    qed
  qed
  moreover have "prompts_ok ap'"
    using assms(1) runs prompts by (fastforce simp: acp_ok_def prompts_ok_def list_all_length list_all2_conv_all_nth same_prompt_def same_run_def)
  moreover have "sessions_ok (ap_runs ap') (ap_registry ap')"
    using sessions_ok_same [OF assms(3)] assms(2) by (simp add: quiet_def)
  ultimately show ?thesis using assms(1) runs(2) by (auto simp: acp_ok_def pool holds_run_def same_run_def)
qed

section \<open>The steps keep it\<close>

lemma quiet_simps [simp]:
  "quiet ap (send_answer a bp) = quiet ap bp" "quiet ap (send_update i u bp) = quiet ap bp" "quiet ap (bp\<lparr>ap_registry := rg\<rparr>) = quiet ap bp"
  by (simp_all add: quiet_def send_answer_def send_update_def)

lemma server_simps [simp]:
  "ap_registry (send_answer a ap) = ap_registry ap" "ap_registry (send_update i u ap) = ap_registry ap" "ap_registry (update_prompt k f ap) = ap_registry ap"
  "ap_runs (send_answer a ap) = ap_runs ap" "ap_runs (send_update i u ap) = ap_runs ap" "ap_runs (update_prompt k f ap) = ap_runs ap"
  "ap_prompts (send_answer a ap) = ap_prompts ap" "ap_prompts (send_update i u ap) = ap_prompts ap"
  "ap_registry (abort_run h ap) = ap_registry ap" "ap_prompts (abort_run h ap) = ap_prompts ap"
  by (simp_all add: send_answer_def send_update_def update_prompt_def abort_run_def)

lemma quiet_update_prompt: "same_prompt (ap_prompts ap ! k) (f (ap_prompts ap ! k)) \<Longrightarrow> quiet ap (update_prompt k f ap)"
  by (cases "k < length (ap_prompts ap)")
    (auto simp: quiet_def update_prompt_def list_all2_refl list_all2_conv_all_nth nth_list_update)

lemma quiet_abort_run: "quiet ap (abort_run h ap)"
  by (auto simp: quiet_def abort_run_def list_all2_refl list_all2_conv_all_nth nth_list_update same_run_def)

lemma quiet_run_ends: "quiet ap (run_ends h e ap)"
  by (auto simp: quiet_def run_ends_def list_all2_refl list_all2_conv_all_nth nth_list_update same_run_def)

lemma quiet_end_prompt: "quiet ap (end_prompt tj we k r stop ap)"
proof -
  have "quiet (ap\<lparr>ap_registry := rg\<rparr>) (update_prompt k (\<lambda>q. q\<lparr>pq_phase := PromptAnswered stop\<rparr>) (ap\<lparr>ap_registry := rg\<rparr>))" for rg
    by (rule quiet_update_prompt) (simp add: same_prompt_def)
  then have "quiet ap (update_prompt k (\<lambda>q. q\<lparr>pq_phase := PromptAnswered stop\<rparr>) (ap\<lparr>ap_registry := rg\<rparr>))" for rg
    by (rule quiet_trans [rotated]) simp
  then show ?thesis by (simp add: end_prompt_def Let_def)
qed

lemma sessions_end_prompt:
  "sessions_ok runs (ap_registry ap) \<Longrightarrow> sessions_ok runs (ap_registry (end_prompt tj we k r stop ap))"
  by (simp add: end_prompt_def Let_def sessions_ok_record)

lemma acp_ok_end_prompt: "acp_ok ap \<Longrightarrow> acp_ok (end_prompt tj we k r stop ap)"
  by (rule quiet_ok [OF _ quiet_end_prompt]) (simp_all add: sessions_end_prompt acp_ok_sessions)

lemma acp_ok_quiet_same: "acp_ok ap \<Longrightarrow> quiet ap ap' \<Longrightarrow> ap_registry ap' = ap_registry ap \<Longrightarrow> acp_ok ap'"
  using quiet_ok [of ap ap'] acp_ok_sessions [of ap] by simp

lemma acp_ok_registry: "acp_ok ap \<Longrightarrow> sessions_ok (ap_runs ap) rg \<Longrightarrow> acp_ok (ap\<lparr>ap_registry := rg\<rparr>)"
  by (rule quiet_ok [of ap]) simp_all

lemma acp_ok_start_prompt:
  assumes "acp_ok ap" "k < length (ap_prompts ap)" "\<not> is_answered (pq_phase (ap_prompts ap ! k))"
  shows "acp_ok (start_prompt now dir k ap)"
proof -
  define q where "q = ap_prompts ap ! k"
  have q: "pq_run q < length (ap_runs ap)" "cr_session (ap_runs ap ! pq_run q) = pq_session q"
    using assms(1,2) by (auto simp: acp_ok_def prompts_ok_def list_all_length q_def)
  obtain ok rg where start: "acp_start (run_finished ap) now dir (pq_session q) (pq_run q) (ap_registry ap) = (ok, rg)" by force
  then have rg: "sessions_ok (ap_runs ap) rg"
    using sessions_ok_start [OF _ q, of "ap_registry ap" "run_finished ap" now dir] assms(1) by (simp add: acp_ok_def)
  have ok: "acp_ok (ap\<lparr>ap_registry := rg\<rparr>)" using acp_ok_registry [OF assms(1) rg] .
  have waiting: "acp_ok (update_prompt k (\<lambda>q. q\<lparr>pq_phase := PromptWaiting\<rparr>) (ap\<lparr>ap_registry := rg\<rparr>))"
    by (rule acp_ok_quiet_same [OF ok]) (use assms(3) in \<open>auto intro!: quiet_update_prompt simp: same_prompt_def\<close>)
  have aborted: "acp_ok (abort_run (pq_run q) (ap\<lparr>ap_registry := rg\<rparr>))"
    by (rule acp_ok_quiet_same [OF ok quiet_abort_run]) simp
  have "acp_ok (update_prompt k (\<lambda>q. q\<lparr>pq_phase := PromptAnswered Refusal, pq_pump := PumpAborted\<rparr>) (abort_run (pq_run q) (ap\<lparr>ap_registry := rg\<rparr>)))"
    by (rule acp_ok_quiet_same [OF aborted]) (auto intro!: quiet_update_prompt simp: same_prompt_def)
  then have "acp_ok (send_answer a (send_update i u
      (update_prompt k (\<lambda>q. q\<lparr>pq_phase := PromptAnswered Refusal, pq_pump := PumpAborted\<rparr>) (abort_run (pq_run q) (ap\<lparr>ap_registry := rg\<rparr>)))))" for a i u
    by (rule acp_ok_quiet_same) simp_all
  with waiting show ?thesis unfolding start_prompt_def Let_def q_def [symmetric] start by (simp split: bool.split)
qed

lemma acp_ok_proceeds: "acp_ok ap \<Longrightarrow> acp_ok (prompt_proceeds tj late now dir we k ap)"
proof -
  assume ok: "acp_ok ap"
  define q where "q = ap_prompts ap ! k"
  have finished: "acp_ok (update_prompt k (\<lambda>q. q\<lparr>pq_phase := PromptEnded e\<rparr>) (ap\<lparr>ap_registry := acp_finish i (ap_registry ap)\<rparr>))"
    if "\<not> is_answered (pq_phase (ap_prompts ap ! k))" for e i
  proof (rule acp_ok_quiet_same)
    show "acp_ok (ap\<lparr>ap_registry := acp_finish i (ap_registry ap)\<rparr>)"
      by (rule acp_ok_registry [OF ok sessions_ok_finish [OF acp_ok_sessions [OF ok]]])
  qed (use that in \<open>auto intro!: quiet_update_prompt simp: same_prompt_def\<close>)
  have "acp_ok (update_prompt k (\<lambda>q. q\<lparr>pq_pump := PumpAborted\<rparr>) ap)"
    by (rule acp_ok_quiet_same [OF ok]) (auto intro!: quiet_update_prompt simp: same_prompt_def)
  then show ?thesis
    using ok acp_ok_start_prompt [OF ok, of k now dir] acp_ok_end_prompt finished
    by (auto simp: prompt_proceeds_def Let_def split: prompt_phase.split option.split)
qed

lemma acp_ok_take:
  assumes "acp_ok ap" "take_orchestrator build w ap = (r, ap')"
  shows "acp_ok ap'" "\<exists>ws. ap' = ap\<lparr>ap_pool := ws\<rparr>" "\<forall>oc. r = Inr oc \<longrightarrow> pool_serves (ap_pool ap') w = Some oc"
proof -
  obtain ws where ws: "workspace_orchestrator (workspace_in_use ap) build w (ap_pool ap) = (r, ws)" "ap' = ap\<lparr>ap_pool := ws\<rparr>"
    using assms(2) by (auto simp: take_orchestrator_def split: prod.splits)
  have distinct: "distinct_slots (ap_pool ap)" using assms(1) by (simp add: acp_ok_def)
  note pool = workspace_orchestrator_ok [OF distinct ws(1)]
  have holds: "holds_run ap' h = holds_run ap h" for h by (simp add: ws(2) holds_run_def)
  have "pool_serves ws (cr_workspace (ap_runs ap ! h)) = Some (cr_orchestrator (ap_runs ap ! h))" if "holds_run ap h" for h
  proof -
    have "case cr_workspace (ap_runs ap ! h) of Some q \<Rightarrow> workspace_in_use ap q | None \<Rightarrow> True"
      using that by (auto simp: workspace_in_use_def list_ex_iff holds_run_def split: option.split)
    then show ?thesis using pool(3) assms(1) that by (auto simp: acp_ok_def)
  qed
  then show "acp_ok ap'" using assms(1) pool(1) holds by (simp add: acp_ok_def ws(2) prompts_ok_def)
  show "\<exists>ws. ap' = ap\<lparr>ap_pool := ws\<rparr>" "\<forall>oc. r = Inr oc \<longrightarrow> pool_serves (ap_pool ap') w = Some oc" using ws(2) pool(2) by auto
qed

lemma acp_ok_answer [simp]: "acp_ok (send_answer a ap) = acp_ok ap" and acp_ok_send [simp]: "acp_ok (send_update i u ap) = acp_ok ap"
  by (simp_all add: acp_ok_def prompts_ok_def send_answer_def send_update_def holds_run_def)

lemma acp_ok_new_session: "acp_ok ap \<Longrightarrow> acp_ok (acp_new_session tj canonicalize is_dir build we fresh now cwd ap)"
proof -
  assume ok: "acp_ok ap"
  have "acp_ok (ap'\<lparr>ap_registry := snd (acp_create tj we fresh now p (ap_registry ap'))\<rparr>)"
      if "take_orchestrator build (Some p) ap = (r, ap')" for p r ap'
    using acp_ok_take(1) [OF ok that] by (intro acp_ok_registry sessions_ok_create) (simp_all add: acp_ok_sessions)
  with ok acp_ok_take(1) [OF ok] show ?thesis
    by (auto simp: acp_new_session_def split: sum.split prod.split) (metis snd_conv)
qed

lemma acp_ok_load_session:
  assumes "acp_ok ap" "plain_json of_json"
  shows "acp_ok (acp_load_session of_json canonicalize is_dir build i cwd ap)"
proof -
  have replays: "acp_ok bp \<Longrightarrow> acp_ok (fold (replay i) ts bp)" for ts bp
    by (induction ts arbitrary: bp) (simp_all add: replay_def)
  have loaded: "acp_ok (ap\<lparr>ap_registry := rg\<rparr>)" if "acp_load of_json i p (ap_registry ap) = (s, rg)" for p s rg
    using sessions_ok_load [OF _ assms(2), of "ap_runs ap" "ap_registry ap" i p] that assms(1)
    by (intro acp_ok_registry) (simp_all add: acp_ok_sessions)
  show ?thesis using assms(1) loaded acp_ok_take(1) [OF loaded] replays
    by (auto simp: acp_load_session_def split: sum.split prod.split option.split) blast+
qed

lemma acp_ok_prompt_request: "acp_ok ap \<Longrightarrow> acp_ok (acp_prompt_request build i blocks ap)"
proof -
  assume ok: "acp_ok ap"
  have "acp_ok (ap'\<lparr>ap_runs := ap_runs ap' @ [\<lparr>cr_session = i, cr_workspace = w, cr_orchestrator = oc, cr_goal = goal, cr_aborted = False, cr_end = None\<rparr>],
      ap_prompts := ap_prompts ap' @ [\<lparr>pq_session = i, pq_goal = goal, pq_run = length (ap_runs ap'), pq_phase = PromptSpawned,
        pq_pump = PumpOpen, pq_transcript = []\<rparr>]\<rparr>)" (is "acp_ok ?ap")
    if take: "take_orchestrator build w ap = (Inr oc, ap')" for w oc ap' goal
  proof -
    have ok': "acp_ok ap'" and served: "pool_serves (ap_pool ap') w = Some oc" using acp_ok_take(1,3) [OF ok take] by auto
    have old: "pq_run q < length (ap_runs ap')" if "q \<in> set (ap_prompts ap')" for q
      using ok' that by (auto simp: acp_ok_def prompts_ok_def list_all_iff)
    have "holds_run ap' h" if "holds_run ?ap h" "h \<noteq> length (ap_runs ap')" for h
      using that by (auto simp: holds_run_def nth_append)
    then have "pool_serves (ap_pool ?ap) (cr_workspace (ap_runs ?ap ! h)) = Some (cr_orchestrator (ap_runs ?ap ! h))" if "holds_run ?ap h" for h
      using that served ok' by (cases "h = length (ap_runs ap')") (auto simp: acp_ok_def nth_append holds_run_def)
    moreover have "prompts_ok ?ap" using ok' old by (auto simp: acp_ok_def prompts_ok_def list_all_iff nth_append less_SucI)
    moreover have "sessions_ok (ap_runs ?ap) (ap_registry ?ap)"
      using ok' by (fastforce simp: acp_ok_def sessions_ok_def session_ok_def nth_append)
    ultimately show ?thesis using ok' by (simp add: acp_ok_def)
  qed
  with ok acp_ok_take(1) [OF ok] show ?thesis
    by (auto simp: acp_prompt_request_def Let_def split: prod.split sum.split)
qed

lemma acp_ok_cancel: "acp_ok ap \<Longrightarrow> acp_ok (acp_cancel_prompt i ap)"
  using acp_ok_quiet_same [OF _ quiet_abort_run] by (auto simp: acp_cancel_prompt_def split: option.split)

lemma acp_ok_pump: "acp_ok ap \<Longrightarrow> acp_ok (pump_event run_id k e ap)"
proof -
  have keep: "acp_ok bp \<Longrightarrow> acp_ok (update_prompt k (\<lambda>q. q\<lparr>pq_transcript := t q\<rparr>) bp)"
      "acp_ok bp \<Longrightarrow> acp_ok (update_prompt k (\<lambda>q. q\<lparr>pq_pump := PumpClosed\<rparr>) bp)" for bp :: "'a acp_server" and t
    by (rule acp_ok_quiet_same; auto intro!: quiet_update_prompt simp: same_prompt_def)+
  assume ok: "acp_ok ap"
  show ?thesis using ok
    by (cases "ev_kind e") (auto simp: pump_event_def Let_def intro!: keep split: option.split)
qed

lemma acp_ok_step: "plain_json of_json \<Longrightarrow> acp_ok ap \<Longrightarrow> acp_ok (acp_step to_json of_json run_id e ap)"
proof (cases e)
  case (PumpLags k)
  assume "acp_ok ap"
  moreover have "acp_ok ap \<Longrightarrow> acp_ok (update_prompt k (\<lambda>q. q\<lparr>pq_pump := PumpClosed\<rparr>) ap)"
    by (rule acp_ok_quiet_same; auto intro!: quiet_update_prompt simp: same_prompt_def)
  ultimately show ?thesis by (simp add: PumpLags pump_lags_def)
next
  case (RunEnds h e)
  assume "acp_ok ap"
  moreover have "ap_registry (run_ends h e ap) = ap_registry ap" by (simp add: run_ends_def)
  ultimately show ?thesis using acp_ok_quiet_same [OF _ quiet_run_ends] by (simp add: RunEnds)
qed (simp_all add: acp_ok_new_session acp_ok_load_session acp_ok_cancel acp_ok_prompt_request acp_ok_proceeds acp_ok_pump)

lemma acp_ok_start: "acp_ok (new_acp_server (new_acp_registry directory files) (per_directory canonicalize p oc))"
  by (simp add: acp_ok_def new_acp_server_def new_acp_registry_def per_directory_def Let_def distinct_slots_def prompts_ok_def
      sessions_ok_def bt_wf_def bt_keys_def bt_get_def holds_run_def)

lemma acp_ok_run: "plain_json of_json \<Longrightarrow> acp_ok ap \<Longrightarrow> acp_ok (fold (acp_step to_json of_json run_id) es ap)"
  by (induction es arbitrary: ap) (simp_all add: acp_ok_step)

section \<open>Files\<close>

text \<open>A file no session is kept in is not written.\<close>

definition spares :: "path \<Rightarrow> acp_registry \<Rightarrow> acp_registry \<Rightarrow> bool" where
  "spares q rg rg' \<longleftrightarrow> ag_directory rg' = ag_directory rg \<and>
     ((\<forall>d. ag_directory rg = Some d \<longrightarrow> \<not> session_file d q) \<longrightarrow> ag_files rg' q = ag_files rg q)"

lemma spares_refl [simp]: "spares q rg rg"
  by (simp add: spares_def)

lemma spares_trans: "spares q a b \<Longrightarrow> spares q b c \<Longrightarrow> spares q a c"
  by (auto simp: spares_def)

lemma spares_persist: "spares q rg (acp_persist tj we i s rg)"
  using acp_persist_outside by (auto simp: spares_def)

lemma spares_sessions [simp]: "spares q rg (rg'\<lparr>ag_sessions := x\<rparr>) = spares q rg rg'" "spares q (rg\<lparr>ag_sessions := x\<rparr>) rg' = spares q rg rg'"
  by (simp_all add: spares_def)

lemma spares_create: "spares q rg (snd (acp_create tj we fresh now w rg))"
  by (simp add: acp_create_def Let_def spares_persist)

lemma spares_record: "spares q rg (acp_record tj we i p r rg)"
  using spares_persist [of q "rg\<lparr>ag_sessions := x\<rparr>" for x] by (simp add: acp_record_def Let_def split: option.split)

lemma spares_load: "spares q rg (snd (acp_load of_json i w rg))"
  by (simp add: acp_load_def Let_def split: option.split)

lemma spares_start: "spares q rg (snd (acp_start finished now dir i h rg))"
  by (simp add: acp_start_def Let_def)

lemma spares_finish: "spares q rg (acp_finish i rg)"
  by (simp add: acp_finish_def)

lemma take_keeps_registry: "take_orchestrator build w ap = (r, ap') \<Longrightarrow> ap_registry ap' = ap_registry ap"
  by (auto simp: take_orchestrator_def split: prod.splits)

lemma replay_keeps_registry [simp]: "ap_registry (fold (replay i) ts ap) = ap_registry ap"
  by (induction ts arbitrary: ap) (simp_all add: replay_def)

lemma spares_end_prompt: "spares q (ap_registry ap) (ap_registry (end_prompt tj we k r stop ap))"
  by (simp add: end_prompt_def Let_def spares_record)

lemma spares_step: "spares q (ap_registry ap) (ap_registry (acp_step to_json of_json run_id e ap))"
proof (cases e)
  case (NewSession canonicalize is_dir build we fresh now cwd)
  have "spares q (ap_registry ap) rg" if "take_orchestrator build (Some p) ap = (r, ap')" "acp_create to_json we fresh now p (ap_registry ap') = (i, rg)"
    for p r ap' i rg
    using take_keeps_registry [OF that(1)] that(2) spares_create by (metis snd_conv)
  then show ?thesis unfolding NewSession
    by (auto simp: acp_new_session_def take_keeps_registry split: sum.split prod.split)
next
  case (LoadSession canonicalize is_dir build i cwd)
  have "spares q (ap_registry ap) rg" if "acp_load of_json i p (ap_registry ap) = (s, rg)" for p s rg
    using that spares_load by (metis snd_conv)
  then show ?thesis unfolding LoadSession
    by (auto simp: acp_load_session_def dest!: take_keeps_registry split: sum.split prod.split option.split)
next
  case (CancelPrompt i)
  then show ?thesis by (simp add: acp_cancel_prompt_def split: option.split)
next
  case (PromptRequest build i blocks)
  then show ?thesis by (auto simp: acp_prompt_request_def Let_def take_keeps_registry split: prod.split sum.split)
next
  case (PromptProceeds late now dir we k)
  have "spares q (ap_registry ap) (ap_registry (start_prompt now dir k ap))"
    using spares_start [of q "ap_registry ap" "run_finished ap" now dir "pq_session (ap_prompts ap ! k)" "pq_run (ap_prompts ap ! k)"]
    by (auto simp: start_prompt_def Let_def split: prod.split bool.split)
  moreover have "spares q (ap_registry ap) (ap_registry (end_prompt to_json we k r stop (update_prompt k f ap)))" for r stop f
    using spares_end_prompt [of q "update_prompt k f ap"] by simp
  ultimately show ?thesis unfolding PromptProceeds
    by (auto simp: prompt_proceeds_def Let_def spares_end_prompt spares_finish split: prompt_phase.split option.split)
next
  case (RunEnds h e)
  then show ?thesis by (simp add: run_ends_def)
next
  case (PumpEvent k e)
  then show ?thesis by (auto simp: pump_event_def Let_def split: event_kind.split option.split)
next
  case (PumpLags k)
  then show ?thesis by (simp add: pump_lags_def)
qed

lemma spares_run: "spares q (ap_registry ap) (ap_registry (fold (acp_step to_json of_json run_id) es ap))"
  by (induction es arbitrary: ap) (auto intro: spares_trans spares_step)

text \<open>Nor is one read: a session that is not in memory is found in its own file or not at all.\<close>

lemma load_reads_session_files:
  assumes "\<forall>d p. ag_directory rg = Some d \<and> session_file d p \<longrightarrow> files p = ag_files rg p"
  shows "fst (acp_load of_json i w rg) = fst (acp_load of_json i w (rg\<lparr>ag_files := files\<rparr>))"
proof -
  have "path_for i (rg\<lparr>ag_files := files\<rparr>) = path_for i rg" by (simp add: path_for_def)
  then show ?thesis using assms path_for_session_file
    by (cases "path_for i rg") (fastforce simp: acp_load_def Let_def split: option.split)+
qed

section \<open>What goes wrong\<close>

text \<open>A session that is open keeps the directory it has, whatever directory the client loads it with.\<close>

lemma open_session_keeps_directory: "bt_get (ag_sessions rg) i = Some s \<Longrightarrow> acp_load of_json i w rg = (Some s, rg)"
  by (simp add: acp_load_def)

text \<open>A prompt is refused after its run was spawned, and may have done all its work by then.\<close>

lemma refused_after_running:
  assumes "bt_get (ag_sessions (ap_registry ap)) (pq_session (ap_prompts ap ! k)) = Some s" "as_running s = Some h" "\<not> run_finished ap h"
    and "cr_end (ap_runs ap ! pq_run (ap_prompts ap ! k)) = Some (RunReturned outcome)"
  shows "PromptStopped (pq_session (ap_prompts ap ! k)) Refusal \<in> set (ap_answers (start_prompt now dir k ap))"
  using assms by (simp add: start_prompt_def Let_def acp_start_def send_answer_def)

text \<open>The end of one prompt clears the handle of whichever prompt runs by then.\<close>

lemma finish_forgets_another:
  assumes "k < length (ap_prompts ap)" "pq_phase (ap_prompts ap ! k) = PromptWaiting" "cr_end (ap_runs ap ! pq_run (ap_prompts ap ! k)) = Some e"
    and "ap' = prompt_proceeds tj late now dir we k ap" "i = pq_session (ap_prompts ap ! k)"
  shows "acp_cancel finished i (ap_registry ap') = None \<and> fst (acp_start finished now' dir' i h (ap_registry ap')) \<and> ap_runs ap' = ap_runs ap"
proof -
  have registry: "ap_registry ap' = acp_finish i (ap_registry ap)" "ap_runs ap' = ap_runs ap"
    using assms by (simp_all add: prompt_proceeds_def Let_def)
  have "bt_get (ag_sessions (acp_finish i rg)) i = map_option (\<lambda>s. s\<lparr>as_running := None\<rparr>) (bt_get (ag_sessions rg) i)" for rg
    by (simp add: acp_finish_def bt_get_modify)
  then show ?thesis using registry
    by (cases "bt_get (ag_sessions (ap_registry ap)) i") (simp_all add: acp_cancel_def acp_start_def Let_def new_acp_session_def)
qed

text \<open>A slot whose orchestrator could not be built is never dropped.\<close>

definition unbuilt :: "'o workspaces \<Rightarrow> path set" where
  "unbuilt ws = sl_path ` {s \<in> set (ws_slots ws). sl_orchestrator s = None}"

lemma failed_build_stays:
  assumes "ws_builds ws" "\<forall>s \<in> set (ws_slots ws). sl_path s \<noteq> p" "build p = Inl err"
  shows "insert p (unbuilt ws) \<subseteq> unbuilt (snd (workspace_orchestrator in_use build (Some p) ws)) \<and>
    ws_builds (snd (workspace_orchestrator in_use build (Some p) ws)) \<and>
    sl_path ` set (ws_slots (snd (workspace_orchestrator in_use build (Some p) ws))) \<subseteq> insert p (sl_path ` set (ws_slots ws))"
proof -
  let ?s = "\<lparr>sl_path = p, sl_orchestrator = None, sl_last_used = ws_clock ws\<rparr>"
  have slots: "ws_slots (slot_for in_use p ws) = evict (in_use(p := True)) (ws_default_path ws) (ws_slots ws @ [?s])"
    using assms(2) by (auto simp: slot_for_def Let_def list_ex_iff)
  have subset: "set (ws_slots (slot_for in_use p ws)) \<subseteq> insert ?s (set (ws_slots ws))"
    unfolding slots using evict_subset [of "in_use(p := True)" "ws_default_path ws" "ws_slots ws @ [?s]"] by fastforce
  moreover have "t \<in> set xs \<and> sl_path t = p" if "List.find (\<lambda>s. sl_path s = p) xs = Some t" for t and xs :: "'a slot list"
    using that by (auto simp: find_Some_iff)
  ultimately have "List.find (\<lambda>s. sl_path s = p) (ws_slots (slot_for in_use p ws)) \<in> {None, Some ?s}"
    using assms(2) by (cases "List.find (\<lambda>s. sl_path s = p) (ws_slots (slot_for in_use p ws))") blast+
  then have result: "snd (workspace_orchestrator in_use build (Some p) ws) = slot_for in_use p ws"
    using assms(1,3) by (auto simp: workspace_orchestrator_def Let_def)
  have kept: "s \<in> set (ws_slots (slot_for in_use p ws))" if "s \<in> insert ?s (set (ws_slots ws))" "sl_orchestrator s = None" for s
    unfolding slots by (rule evict_keeps) (use that in \<open>auto simp: idle_slot_def\<close>)
  have "insert p (unbuilt ws) \<subseteq> unbuilt (slot_for in_use p ws)"
    using kept [of ?s] kept by (force simp: unbuilt_def)
  moreover have "sl_path ` set (ws_slots (slot_for in_use p ws)) \<subseteq> insert p (sl_path ` set (ws_slots ws))" using subset by auto
  ultimately show ?thesis using assms(1) unfolding result by simp
qed

lemma failed_builds_stay:
  assumes "ws_builds ws" "distinct ps" "set ps \<inter> sl_path ` set (ws_slots ws) = {}" "\<forall>p \<in> set ps. \<exists>err. build p = Inl err"
  shows "set ps \<subseteq> unbuilt (fold (\<lambda>p ws. snd (workspace_orchestrator in_use build (Some p) ws)) ps ws)"
proof -
  have "unbuilt ws \<union> set ps \<subseteq> unbuilt (fold (\<lambda>p ws. snd (workspace_orchestrator in_use build (Some p) ws)) ps ws)"
    using assms
  proof (induction ps arbitrary: ws)
    case (Cons p ps)
    define ws1 where "ws1 = snd (workspace_orchestrator in_use build (Some p) ws)"
    from Cons.prems obtain err where "build p = Inl err" by auto
    moreover have "\<forall>s \<in> set (ws_slots ws). sl_path s \<noteq> p" using Cons.prems(3) by auto
    ultimately have step: "insert p (unbuilt ws) \<subseteq> unbuilt ws1" "ws_builds ws1" "sl_path ` set (ws_slots ws1) \<subseteq> insert p (sl_path ` set (ws_slots ws))"
      using failed_build_stays [OF Cons.prems(1)] unfolding ws1_def by blast+
    have "unbuilt ws1 \<union> set ps \<subseteq> unbuilt (fold (\<lambda>p ws. snd (workspace_orchestrator in_use build (Some p) ws)) ps ws1)"
      by (rule Cons.IH) (use Cons.prems step in auto)
    then show ?case using step(1) by (auto simp: ws1_def)
  qed auto
  then show ?thesis by blast
qed

end
