(* ===== verification/Acp_Examples.thy ===== *)
theory Acp_Examples
  imports Acp_Runs "HOL-Library.Code_Target_Nat"
begin

text \<open>Concrete inputs for the theorems about the ACP server: one client that sends its second prompt before the first is answered.\<close>

definition ex_prompt :: "nat \<Rightarrow> nat acp_input" where
  "ex_prompt oc = PromptRequest (\<lambda>_. Inr oc) ''cuma-1'' [TextBlock ''fix'']"

definition ex_proceed :: "nat \<Rightarrow> nat acp_input" where
  "ex_proceed k = PromptProceeds False 0 ''/d'' WriteDone k"

definition ex_acp_inputs :: "nat acp_input list" where
  "ex_acp_inputs =
     [NewSession Inr (\<lambda>_. True) (\<lambda>_. Inr 7) WriteDone ''1'' 0 ''/w'', ex_prompt 8, ex_proceed 0,
      RunEnds 0 (RunReturned (Inl (EOther ''x''))), ex_prompt 9, ex_proceed 1]"

definition ex_run_id :: "nat \<Rightarrow> session_id" where
  "ex_run_id n = SessionId (show_nat n)"

definition ex_acp_start :: "nat acp_server" where
  "ex_acp_start = new_acp_server (new_acp_registry (Some ''/s'') (\<lambda>_. None)) (per_directory (\<lambda>_. None) ''/d'' 0)"

definition ex_acp :: "nat acp_server" where
  "ex_acp = fold (acp_step (\<lambda>_. ''{}'') (\<lambda>_. None) ex_run_id) ex_acp_inputs ex_acp_start"

lemma ex_acp_prompts: "map pq_phase (ap_prompts ex_acp) = [PromptWaiting, PromptWaiting] \<and> map pq_run (ap_prompts ex_acp) = [0, 1] \<and> map pq_session (ap_prompts ex_acp) = [''cuma-1'', ''cuma-1'']"
  by code_simp

lemma ex_acp_runs:
  "map cr_end (ap_runs ex_acp) = [Some (RunReturned (Inl (EOther ''x''))), None] \<and> map cr_orchestrator (ap_runs ex_acp) = [7, 7] \<and>
   map cr_workspace (ap_runs ex_acp) = [Some ''/w'', Some ''/w''] \<and> map cr_session (ap_runs ex_acp) = [''cuma-1'', ''cuma-1''] \<and>
   map cr_aborted (ap_runs ex_acp) = [False, False]"
  by code_simp

end
