(* ===== verification/Sse.thy ===== *)
theory Sse
  imports A2A_Server Confine
begin

text \<open>
  What the A2A client reads from a peer's event stream: the \<open>SseReader\<close> of
  \<open>cuma-protocol-a2a/src/client.rs\<close>, over the lossy decoding of UTF-8 it rests on, and when what is read
  does not depend on how the bytes were cut into chunks.
\<close>

section \<open>UTF-8 with replacement\<close>

text \<open>\<open>String::from_utf8_lossy\<close> puts U+FFFD for each maximal part of an ill-formed sequence. The bytes it takes
  at a time, and whether they are a scalar value.\<close>

definition byte_in :: "nat \<Rightarrow> nat \<Rightarrow> char \<Rightarrow> bool" where
  "byte_in lo hi c \<longleftrightarrow> lo \<le> of_char c \<and> of_char c \<le> hi"

definition second_byte :: "char \<Rightarrow> char \<Rightarrow> bool" where
  "second_byte c d =
     (if byte_in 0xE0 0xE0 c then byte_in 0xA0 0xBF d
      else if byte_in 0xED 0xED c then byte_in 0x80 0x9F d
      else if byte_in 0xF0 0xF0 c then byte_in 0x90 0xBF d
      else if byte_in 0xF4 0xF4 c then byte_in 0x80 0x8F d
      else byte_in 0x80 0xBF d)"

definition utf8_width :: "char \<Rightarrow> nat" where
  "utf8_width c =
     (if byte_in 0x00 0x7F c then 1 else if byte_in 0xC2 0xDF c then 2 else if byte_in 0xE0 0xEF c then 3
      else if byte_in 0xF0 0xF4 c then 4 else 0)"

definition utf8_take :: "char \<Rightarrow> string \<Rightarrow> nat \<times> bool" where
  "utf8_take c rest =
     (let w = utf8_width c in
      if w \<le> 1 then (1, w = 1)
      else case rest of
        [] \<Rightarrow> (1, False)
      | d # rest2 \<Rightarrow>
          if \<not> second_byte c d then (1, False) else if w = 2 then (2, True)
          else case rest2 of
            [] \<Rightarrow> (2, False)
          | e # rest3 \<Rightarrow>
              if \<not> byte_in 0x80 0xBF e then (2, False) else if w = 3 then (3, True)
              else case rest3 of [] \<Rightarrow> (3, False) | f # _ \<Rightarrow> if byte_in 0x80 0xBF f then (4, True) else (3, False))"

lemma utf8_take_pos: "0 < fst (utf8_take c rest)"
  by (simp add: utf8_take_def Let_def split: list.split)

definition replacement :: string where
  "replacement = [CHR 0xEF, CHR 0xBF, CHR 0xBD]"

function utf8_lossy :: "string \<Rightarrow> string" where
  "utf8_lossy [] = []"
| "utf8_lossy (c # rest) =
     (case utf8_take c rest of (n, ok) \<Rightarrow> (if ok then take n (c # rest) else replacement) @ utf8_lossy (drop n (c # rest)))"
  by pat_completeness auto
termination
  by (relation "measure length") (auto simp: utf8_take_pos dest!: arg_cong [where f = fst] intro: Suc_pred)

declare utf8_lossy.simps(2) [simp del]

function utf8_valid :: "string \<Rightarrow> bool" where
  "utf8_valid [] = True"
| "utf8_valid (c # rest) = (case utf8_take c rest of (n, ok) \<Rightarrow> ok \<and> utf8_valid (drop n (c # rest)))"
  by pat_completeness auto
termination
  by (relation "measure length") (auto simp: utf8_take_pos dest!: arg_cong [where f = fst] intro: Suc_pred)

declare utf8_valid.simps(2) [simp del]

lemma utf8_take_append: "snd (utf8_take c rest) \<Longrightarrow> utf8_take c (rest @ x) = utf8_take c rest"
  by (auto simp: utf8_take_def Let_def split: list.splits if_splits)

lemma utf8_take_bound: "fst (utf8_take c rest) \<le> Suc (length rest)"
  by (auto simp: utf8_take_def Let_def split: list.splits)

lemma utf8_valid_append: "utf8_valid a \<Longrightarrow> utf8_valid b \<Longrightarrow> utf8_valid (a @ b)"
proof (induction a rule: utf8_valid.induct)
  case (2 c rest)
  obtain n ok where take: "utf8_take c rest = (n, ok)" by force
  then have ok: "ok" "utf8_valid (drop n (c # rest))" using 2(2) by (simp_all add: utf8_valid.simps(2))
  have "utf8_take c (rest @ b) = (n, True)" using utf8_take_append [of c rest b] take ok(1) by simp
  moreover have "drop n (c # rest @ b) = drop n (c # rest) @ b" using utf8_take_bound [of c rest] take drop_append [of n "c # rest" b] by simp
  ultimately show ?case using 2(1) [OF take [symmetric] ok(2) 2(3)] ok by (simp add: utf8_valid.simps(2))
qed simp

lemma utf8_lossy_valid: "utf8_valid s \<Longrightarrow> utf8_lossy s = s"
proof (induction s rule: utf8_valid.induct)
  case (2 c rest)
  obtain n ok where take: "utf8_take c rest = (n, ok)" by force
  then have ok: "ok" "utf8_valid (drop n (c # rest))" using 2(2) by (simp_all add: utf8_valid.simps(2))
  then have "utf8_lossy (drop n (c # rest)) = drop n (c # rest)" using 2(1) [OF take [symmetric]] by simp
  then show ?case using take ok(1) by (simp add: utf8_lossy.simps(2))
qed simp

section \<open>Reading events\<close>

text \<open>\<open>replace("\r\n", "\n")\<close>, then \<open>replace('\r', "\n")\<close>.\<close>

fun replace_crlf :: "string \<Rightarrow> string" where
  "replace_crlf [] = []"
| "replace_crlf [c] = [c]"
| "replace_crlf (c # d # r) =
     (if c = CHR 0x0D \<and> d = CHR 0x0A then CHR 0x0A # replace_crlf r else c # replace_crlf (d # r))"

definition normalise_eol :: "string \<Rightarrow> string" where
  "normalise_eol s =
     (if CHR 0x0D \<in> set s then map (\<lambda>c. if c = CHR 0x0D then CHR 0x0A else c) (replace_crlf s) else s)"

text \<open>The text up to and with the first empty line, and the rest.\<close>

fun take_block :: "string \<Rightarrow> (string \<times> string) option" where
  "take_block (c # d # r) =
     (if c = CHR 0x0A \<and> d = CHR 0x0A then Some ([c, d], r) else map_option (\<lambda>(b, r). (c # b, r)) (take_block (d # r)))"
| "take_block _ = None"

lemma take_block_parts: "take_block s = Some (b, r) \<Longrightarrow> s = b @ r \<and> b \<noteq> []"
  by (induction s arbitrary: b rule: take_block.induct) (auto split: if_splits)

definition block_data :: "string \<Rightarrow> string option" where
  "block_data block =
     (let data = map (\<lambda>d. case strip_prefix '' '' d of Some d \<Rightarrow> d | None \<Rightarrow> d)
        (List.map_filter (strip_prefix ''data:'') (str_lines block))
      in if data = [] then None else Some (join [CHR 0x0A] data))"

function drain_events :: "string \<Rightarrow> string list \<times> string" where
  "drain_events buffer =
     (case take_block buffer of
        None \<Rightarrow> ([], buffer)
      | Some (block, rest) \<Rightarrow>
          (case drain_events rest of
             (events, left) \<Rightarrow> ((case block_data block of Some e \<Rightarrow> [e] | None \<Rightarrow> []) @ events, left)))"
  by pat_completeness auto
termination
  by (relation "measure length") (auto dest: take_block_parts)

declare drain_events.simps [simp del]

definition sse_feed :: "string \<Rightarrow> string \<Rightarrow> string list \<times> string" where
  "sse_feed buffer bytes = drain_events (normalise_eol (buffer @ utf8_lossy bytes))"

definition sse_feed_all :: "string list \<Rightarrow> string list \<times> string" where
  "sse_feed_all chunks = fold (\<lambda>c (events, buffer). case sse_feed buffer c of (es, b) \<Rightarrow> (events @ es, b)) chunks ([], [])"

section \<open>Chunks do not matter\<close>

lemma take_block_append: "take_block s = Some (b, r) \<Longrightarrow> take_block (s @ x) = Some (b, r @ x)"
  by (induction s arbitrary: b rule: take_block.induct) (auto split: if_splits)

lemma drain_left: "take_block (snd (drain_events s)) = None"
proof (induction s rule: drain_events.induct)
  case (1 s)
  show ?case
  proof (cases "take_block s")
    case (Some br)
    then show ?thesis using 1 by (cases br) (subst drain_events.simps, auto split: prod.split)
  qed (simp add: drain_events.simps)
qed

lemma drain_append:
  "drain_events (s @ x) = (case drain_events s of (es, b) \<Rightarrow> (case drain_events (b @ x) of (es2, b2) \<Rightarrow> (es @ es2, b2)))"
proof (induction s rule: drain_events.induct)
  case (1 s)
  show ?case
  proof (cases "take_block s")
    case None
    then show ?thesis by (simp add: drain_events.simps [of s])
  next
    case (Some br)
    obtain b r where br: "br = (b, r)" by force
    have "drain_events (s @ x) = (case drain_events (r @ x) of (es, l) \<Rightarrow> ((case block_data b of Some e \<Rightarrow> [e] | None \<Rightarrow> []) @ es, l))"
      using take_block_append [of s b r x] Some br by (simp add: drain_events.simps [of "s @ x"])
    moreover have "drain_events s = (case drain_events r of (es, l) \<Rightarrow> ((case block_data b of Some e \<Rightarrow> [e] | None \<Rightarrow> []) @ es, l))"
      using Some br by (simp add: drain_events.simps [of s])
    ultimately show ?thesis using 1 [OF Some br [symmetric]] by (simp split: prod.split)
  qed
qed

text \<open>Line ends are those of the parts, when no part ends within one.\<close>

definition line_end :: "char \<Rightarrow> char" where
  "line_end c = (if c = CHR 0x0D then CHR 0x0A else c)"

lemma normalise_eol_eq: "normalise_eol s = map line_end (replace_crlf s)"
proof -
  have "CHR 0x0D \<notin> set s \<Longrightarrow> replace_crlf s = s" by (induction s rule: replace_crlf.induct) auto
  moreover have "CHR 0x0D \<notin> set s \<Longrightarrow> map line_end s = s" by (induction s) (auto simp: line_end_def)
  ultimately show ?thesis by (auto simp: normalise_eol_def line_end_def [abs_def])
qed

lemma replace_crlf_append: "s = [] \<or> last s \<noteq> CHR 0x0D \<Longrightarrow> replace_crlf (s @ x) = replace_crlf s @ replace_crlf x"
proof (induction s rule: replace_crlf.induct)
  case (2 c)
  then show ?case by (cases x) auto
next
  case (3 c d r)
  then show ?case by (cases r) auto
qed simp

lemma normalise_append: "s = [] \<or> last s \<noteq> CHR 0x0D \<Longrightarrow> normalise_eol (s @ x) = normalise_eol s @ normalise_eol x"
  by (simp add: normalise_eol_eq replace_crlf_append)

lemma no_cr_normalised: "CHR 0x0D \<notin> set (normalise_eol s)"
  by (auto simp: normalise_eol_eq line_end_def)

lemma normalised_fixed: "CHR 0x0D \<notin> set s \<Longrightarrow> normalise_eol s = s"
  by (simp add: normalise_eol_def)

lemma drain_part: "drain_events s = (es, b) \<Longrightarrow> \<exists>done. s = done @ b"
proof (induction s arbitrary: es b rule: drain_events.induct)
  case (1 s)
  show ?case
  proof (cases "take_block s")
    case None
    then show ?thesis using 1(2) by (simp add: drain_events.simps [of s])
  next
    case (Some br)
    obtain c r where br: "br = (c, r)" by force
    obtain es2 where "drain_events r = (es2, b)"
      using 1(2) Some br by (auto simp: drain_events.simps [of s] split: prod.splits)
    from 1(1) [OF Some br [symmetric] this] show ?thesis using take_block_parts [of s c r] Some br by auto
  qed
qed

text \<open>A cut is clean when it is not within a character, nor within a line end of two characters.\<close>

definition clean_cut :: "string \<Rightarrow> bool" where
  "clean_cut chunk \<longleftrightarrow> utf8_valid chunk \<and> (chunk = [] \<or> last chunk \<noteq> CHR 0x0D)"

lemma fed_as_one:
  assumes "list_all clean_cut chunks"
  shows "sse_feed_all chunks = drain_events (normalise_eol (concat chunks))"
  using assms
proof (induction chunks rule: rev_induct)
  case Nil
  then show ?case by (simp add: sse_feed_all_def normalise_eol_def drain_events.simps)
next
  case (snoc c chunks)
  let ?text = "normalise_eol (concat chunks)"
  have chunks: "list_all clean_cut chunks" and "clean_cut c" using snoc.prems by simp_all
  then have c: "utf8_valid c" by (simp add: clean_cut_def)
  have ends: "concat chunks = [] \<or> last (concat chunks) \<noteq> CHR 0x0D"
    using chunks
  proof (induction chunks rule: rev_induct)
    case (snoc d ds)
    then show ?case by (cases "d = []") (auto simp: clean_cut_def)
  qed simp
  obtain es b where fed: "drain_events ?text = (es, b)" by force
  have "CHR 0x0D \<notin> set b" using drain_part [OF fed] no_cr_normalised [of "concat chunks"] by auto
  then have "b = [] \<or> last b \<noteq> CHR 0x0D" "normalise_eol b = b" by (metis last_in_set, simp add: normalised_fixed)
  then have "sse_feed b c = drain_events (b @ normalise_eol c)"
    by (simp add: sse_feed_def utf8_lossy_valid [OF c] normalise_append)
  moreover have "normalise_eol (concat (chunks @ [c])) = ?text @ normalise_eol c" using normalise_append [OF ends] by simp
  ultimately show ?case using snoc.IH [OF chunks] fed drain_append [of ?text "normalise_eol c"]
    by (simp add: sse_feed_all_def split: prod.split)
qed

lemma valid_concat: "list_all clean_cut chunks \<Longrightarrow> utf8_valid (concat chunks)"
  by (induction chunks) (simp_all add: clean_cut_def utf8_valid_append)

end
