(* ===== verification/A2A_Client.thy ===== *)
theory A2A_Client
  imports Sse
begin

text \<open>
  The A2A client: \<open>cuma-protocol-a2a/src/client.rs\<close>. HTTP and JSON text are library code: a request handed to
  the network takes some time, changes the world at the other end and gives a failure or a response whose body
  arrives in chunks. Everything that waits is given the deadline of the attempt, in milliseconds
  since it began; when it passes, the attempt is dropped where it stands. An attempt sees the
  peer as the adapter knows it; attempts that share an adapter are not interleaved here.
\<close>

section \<open>What the network gives\<close>

datatype http_failure = HttpTimedOut | HttpNotConnected | HttpFailed

record http_request =
  hq_url :: string
  hq_token :: "string option"
  hq_sse :: bool
  hq_body :: "json option"

text \<open>The chunks with the time before each, and how long after the last one the body ends or breaks.\<close>

record http_response =
  hr_status :: nat
  hr_retry_after :: "string option"
  hr_content_type :: "string option"
  hr_length :: "nat option"
  hr_chunks :: "(nat \<times> string) list"
  hr_end :: "nat \<times> string option"

record 'w network =
  nw_send :: "http_request \<Rightarrow> 'w \<Rightarrow> nat \<times> (http_failure \<times> string + http_response) \<times> 'w"
  nw_timed_out :: string
  nw_parse :: "string \<Rightarrow> string + json"
  nw_shape :: "json \<Rightarrow> string"
  nw_card :: "string \<Rightarrow> string + agent_card"
  nw_card_root :: "string \<Rightarrow> string option"
  nw_status :: "nat \<Rightarrow> string"
  nw_debug :: "string \<Rightarrow> string"
  nw_secret :: "string \<Rightarrow> string option"
  nw_uuid :: "nat \<Rightarrow> string"

section \<open>The adapter\<close>

definition max_response_bytes :: nat where "max_response_bytes = 8 * 1024 * 1024"
definition poll_initial :: nat where "poll_initial = 250"
definition poll_max :: nat where "poll_max = 5000"
definition short_call :: nat where "short_call = 30000"
definition invalid_request_code :: int where "invalid_request_code = - 32600"
definition agent_card_path :: string where "agent_card_path = ''/.well-known/agent-card.json''"

record peer =
  pr_url :: string
  pr_dialect :: dialect
  pr_streaming :: bool

record a2a_adapter =
  aa_id :: agent_id
  aa_endpoint :: string
  aa_auth_handle :: "string option"
  aa_peer :: peer
  aa_descriptor :: agent_descriptor

definition is_local_endpoint :: "string \<Rightarrow> bool" where
  "is_local_endpoint endpoint =
     (case strip_prefix ''http://'' endpoint of
        None \<Rightarrow> False
      | Some rest \<Rightarrow>
          let authority = hd (split_char (CHR ''/'') rest);
              host = (case strip_prefix ''['' authority of
                        Some bracketed \<Rightarrow> hd (split_char (CHR '']'') bracketed)
                      | None \<Rightarrow> hd (split_char (CHR '':'') authority))
          in host = ''localhost'' \<or> host = ''127.0.0.1'' \<or> host = ''::1'')"

definition ensure_acceptable_endpoint :: "(string \<Rightarrow> string) \<Rightarrow> agent_id \<Rightarrow> string \<Rightarrow> unit result" where
  "ensure_acceptable_endpoint dbg i endpoint =
     (if prefix ''https://'' endpoint \<or> is_local_endpoint endpoint then Inr ()
      else Inl (ESecurity (''agent '' @ agent_str i @ '': refusing a non-HTTPS A2A endpoint '' @ dbg endpoint)))"

definition new_adapter :: "(string \<Rightarrow> string) \<Rightarrow> agent_id \<Rightarrow> string \<Rightarrow> a2a_adapter result" where
  "new_adapter dbg i endpoint =
     (case ensure_acceptable_endpoint dbg i endpoint of
        Inl e \<Rightarrow> Inl e
      | Inr _ \<Rightarrow>
          Inr \<lparr>aa_id = i, aa_endpoint = endpoint, aa_auth_handle = None,
               aa_peer = \<lparr>pr_url = endpoint, pr_dialect = V1, pr_streaming = False\<rparr>,
               aa_descriptor = new_agent i (agent_str i) A2A\<rparr>)"

definition card_urls :: "(string \<Rightarrow> string option) \<Rightarrow> string \<Rightarrow> string list" where
  "card_urls card_root endpoint =
     (let urls = (case card_root endpoint of Some u \<Rightarrow> [u] | None \<Rightarrow> []);
          under_path = trim_end_matches (CHR ''/'') endpoint @ agent_card_path
      in if under_path \<in> set urls then urls else urls @ [under_path])"

section \<open>One attempt\<close>

text \<open>\<open>at_task\<close> is what the guard knows of the remote task, \<open>at_sent\<close> the requests so far.\<close>

record 'w a2a_attempt =
  at_world :: 'w
  at_elapsed :: nat
  at_peer :: peer
  at_task :: "string option"
  at_updates :: "string list"
  at_uuids :: nat
  at_sent :: "http_request list"

datatype call_error = CallRpc int string | CallOther meta_agent_error | CallDropped

datatype wait = InTime | PastLimit | PastDeadline

text \<open>Waiting for something \<open>d\<close> ms ahead, at most until \<open>limit\<close> and within the deadline.\<close>

definition wait_for :: "nat option \<Rightarrow> nat option \<Rightarrow> nat \<Rightarrow> 'w a2a_attempt \<Rightarrow> wait \<times> 'w a2a_attempt" where
  "wait_for deadline limit d a =
     (let t = at_elapsed a + d;
          reached = (\<lambda>bound. case bound of Some b \<Rightarrow> b \<le> t | None \<Rightarrow> False);
          first = (case (limit, deadline) of (Some l, Some b) \<Rightarrow> l < b | _ \<Rightarrow> True)
      in if reached limit \<and> first then (PastLimit, a\<lparr>at_elapsed := max (at_elapsed a) (the limit)\<rparr>)
         else if reached deadline then (PastDeadline, a\<lparr>at_elapsed := max (at_elapsed a) (the deadline)\<rparr>)
         else (InTime, a\<lparr>at_elapsed := t\<rparr>))"

definition oversized :: "agent_id \<Rightarrow> nat \<Rightarrow> meta_agent_error" where
  "oversized i bytes =
     ESecurity (''agent '' @ agent_str i @ '': response of '' @ show_nat bytes @ '' bytes exceeds the 8388608 byte cap'')"

text \<open>\<open>read_bounded\<close>: the loop over the chunks.\<close>

fun read_chunks ::
  "'w network \<Rightarrow> agent_id \<Rightarrow> nat option \<Rightarrow> nat option \<Rightarrow> (nat \<times> string) list \<Rightarrow> nat \<times> string option \<Rightarrow> string \<Rightarrow> 'w a2a_attempt \<Rightarrow>
   (call_error + string) \<times> 'w a2a_attempt" where
  "read_chunks nw i deadline limit [] (d, broken) body a =
     (case wait_for deadline limit d a of
        (PastDeadline, a) \<Rightarrow> (Inl CallDropped, a)
      | (PastLimit, a) \<Rightarrow> (Inl (CallOther (EProtocol ''a2a'' (''cannot read the response body: '' @ nw_timed_out nw) None)), a)
      | (InTime, a) \<Rightarrow>
          (case broken of
             Some err \<Rightarrow> (Inl (CallOther (EProtocol ''a2a'' (''cannot read the response body: '' @ err) None)), a)
           | None \<Rightarrow>
               if utf8_valid body then (Inr body, a)
               else (Inl (CallOther (EProtocol ''a2a'' ''the response body is not valid UTF-8'' None)), a)))"
| "read_chunks nw i deadline limit ((d, chunk) # rest) fin body a =
     (case wait_for deadline limit d a of
        (PastDeadline, a) \<Rightarrow> (Inl CallDropped, a)
      | (PastLimit, a) \<Rightarrow> (Inl (CallOther (EProtocol ''a2a'' (''cannot read the response body: '' @ nw_timed_out nw) None)), a)
      | (InTime, a) \<Rightarrow>
          if max_response_bytes < length (body @ chunk) then (Inl (CallOther (oversized i (length (body @ chunk)))), a)
          else read_chunks nw i deadline limit rest fin (body @ chunk) a)"

definition read_bounded ::
  "'w network \<Rightarrow> agent_id \<Rightarrow> nat option \<Rightarrow> nat option \<Rightarrow> http_response \<Rightarrow> 'w a2a_attempt \<Rightarrow> (call_error + string) \<times> 'w a2a_attempt" where
  "read_bounded nw i deadline limit r a =
     (case hr_length r of
        Some n \<Rightarrow>
          if max_response_bytes < n then (Inl (CallOther (oversized i n)), a)
          else read_chunks nw i deadline limit (hr_chunks r) (hr_end r) [] a
      | None \<Rightarrow> read_chunks nw i deadline limit (hr_chunks r) (hr_end r) [] a)"

definition authorize :: "'w network \<Rightarrow> string option \<Rightarrow> string option" where
  "authorize nw auth_handle = Option.bind auth_handle (nw_secret nw)"

definition post_body :: "string \<Rightarrow> string \<Rightarrow> json \<Rightarrow> json" where
  "post_body i m params = JObject [(''jsonrpc'', JString ''2.0''), (''id'', JString i), (''method'', JString m), (''params'', params)]"

text \<open>A request goes out; the answer is waited for.\<close>

definition exchange ::
  "'w network \<Rightarrow> nat option \<Rightarrow> nat option \<Rightarrow> http_request \<Rightarrow> 'w a2a_attempt \<Rightarrow>
   (call_error + (http_failure \<times> string + http_response)) \<times> 'w a2a_attempt" where
  "exchange nw deadline limit q a =
     (case nw_send nw q (at_world a) of
        (d, r, w) \<Rightarrow>
          (case wait_for deadline limit d (a\<lparr>at_world := w, at_sent := at_sent a @ [q]\<rparr>) of
             (PastDeadline, a) \<Rightarrow> (Inl CallDropped, a)
           | (PastLimit, a) \<Rightarrow> (Inr (Inl (HttpTimedOut, nw_timed_out nw)), a)
           | (InTime, a) \<Rightarrow> (Inr r, a)))"

definition show_failure :: "http_failure \<Rightarrow> string" where
  "show_failure f = (case f of HttpTimedOut \<Rightarrow> ''timed out'' | HttpNotConnected \<Rightarrow> ''could not connect'' | HttpFailed \<Rightarrow> ''failed'')"

text \<open>\<open>post\<close>.\<close>

definition post ::
  "'w network \<Rightarrow> a2a_adapter \<Rightarrow> nat option \<Rightarrow> string \<Rightarrow> string \<Rightarrow> json \<Rightarrow> nat option \<Rightarrow> bool \<Rightarrow> 'w a2a_attempt \<Rightarrow>
   (call_error + http_response) \<times> 'w a2a_attempt" where
  "post nw ad deadline url m params timeout streaming a =
     (let limit = map_option (\<lambda>t. at_elapsed a + t) timeout;
          q = \<lparr>hq_url = url, hq_token = authorize nw (aa_auth_handle ad), hq_sse = streaming,
               hq_body = Some (post_body (nw_uuid nw (at_uuids a)) m params)\<rparr> in
      case exchange nw deadline limit q (a\<lparr>at_uuids := Suc (at_uuids a)\<rparr>) of
        (Inl e, a) \<Rightarrow> (Inl e, a)
      | (Inr (Inl (f, err)), a) \<Rightarrow> (Inl (CallOther (EProtocol ''a2a'' (m @ '' '' @ show_failure f @ '': '' @ err) None)), a)
      | (Inr (Inr r), a) \<Rightarrow>
          if hr_status r = 429 then
            (Inl (CallOther (ERateLimit (aa_id ad) (map_option (\<lambda>secs. saturating_mul (of_nat secs) 1000)
               (Option.bind (hr_retry_after r) (parse_unsigned (2 ^ 64)))))), a)
          else if hr_status r = 401 \<or> hr_status r = 403 then
            (Inl (CallOther (EAuthentication (agent_str (aa_id ad)) (m @ '' returned '' @ nw_status nw (hr_status r)))), a)
          else if hr_status r < 200 \<or> 299 < hr_status r then
            (Inl (CallOther (EProtocol ''a2a'' (m @ '' returned HTTP '' @ nw_status nw (hr_status r)) None)), a)
          else (Inr r, a))"

section \<open>JSON-RPC\<close>

text \<open>The derived decoding of an envelope, from an object or an array; absent and null fields are none.\<close>

definition nullable :: "json option \<Rightarrow> json option" where
  "nullable v = (if v = Some JNull then None else v)"

definition rpc_error_of :: "json \<Rightarrow> (int \<times> string) option" where
  "rpc_error_of v =
     (case v of
        JObject fs \<Rightarrow>
          if length (filter (\<lambda>f. fst f = ''code'') fs) \<noteq> 1 \<or> length (filter (\<lambda>f. fst f = ''message'') fs) \<noteq> 1 then None
          else (case (map_of fs ''code'', map_of fs ''message'') of
                  (Some (JInt n), Some (JString m)) \<Rightarrow> if - (2 ^ 63) \<le> n \<and> n < 2 ^ 63 then Some (n, m) else None
                | _ \<Rightarrow> None)
      | JArray [JInt n, JString m] \<Rightarrow> if - (2 ^ 63) \<le> n \<and> n < 2 ^ 63 then Some (n, m) else None
      | _ \<Rightarrow> None)"

definition envelope_of :: "json \<Rightarrow> (json option \<times> (int \<times> string) option) option" where
  "envelope_of v =
     (let decode = (\<lambda>result err. case nullable err of
             None \<Rightarrow> Some (nullable result, None)
           | Some e \<Rightarrow> map_option (\<lambda>e. (nullable result, Some e)) (rpc_error_of e)) in
      case v of
        JObject fs \<Rightarrow>
          if 1 < length (filter (\<lambda>f. fst f = ''result'') fs) \<or> 1 < length (filter (\<lambda>f. fst f = ''error'') fs) then None
          else decode (map_of fs ''result'') (map_of fs ''error'')
      | JArray [] \<Rightarrow> decode None None
      | JArray [r] \<Rightarrow> decode (Some r) None
      | JArray [r, e] \<Rightarrow> decode (Some r) (Some e)
      | _ \<Rightarrow> None)"

definition parse_envelope :: "'w network \<Rightarrow> string \<Rightarrow> string \<Rightarrow> call_error + json" where
  "parse_envelope nw m body =
     (let invalid = (\<lambda>err. Inl (CallOther (EProtocol ''a2a'' (m @ '' returned invalid JSON-RPC: '' @ err) None))) in
      case nw_parse nw body of
        Inl err \<Rightarrow> invalid err
      | Inr v \<Rightarrow>
          (case envelope_of v of
             None \<Rightarrow> invalid (nw_shape nw v)
           | Some (_, Some (code, message)) \<Rightarrow> Inl (CallRpc code message)
           | Some (Some result, None) \<Rightarrow> Inr result
           | Some (None, None) \<Rightarrow> Inl (CallOther (EProtocol ''a2a'' (m @ '' returned neither result nor error'') None))))"

definition rpc_error_class :: "int \<Rightarrow> error_class" where
  "rpc_error_class code =
     (if code \<in> {parse_error_code, invalid_request_code, method_not_found_code, invalid_params_code, unsupported_operation_code}
      then ProtocolError
      else if code \<in> {internal_error_code, task_not_found_code} then TaskFailure
      else if code = - 32006 then InvalidResponse
      else Unknown)"

definition show_int :: "int \<Rightarrow> string" where
  "show_int n = (if n < 0 then ''-'' @ show_nat (nat (- n)) else show_nat (nat n))"

text \<open>\<open>lift\<close>; a dropped call is none of its business.\<close>

definition lift_error :: "agent_id \<Rightarrow> string \<Rightarrow> call_error \<Rightarrow> call_error" where
  "lift_error i m e =
     (case e of
        CallRpc code message \<Rightarrow> CallOther (EAgent i (m @ '': '' @ message @ '' (code '' @ show_int code @ '')'') (rpc_error_class code))
      | e \<Rightarrow> e)"

definition wire_name :: "string \<Rightarrow> dialect \<Rightarrow> string" where
  "wire_name m d = (case d of V1 \<Rightarrow> m | Legacy \<Rightarrow> (case legacy_name m of Some l \<Rightarrow> l | None \<Rightarrow> m))"

definition send_params :: "string \<Rightarrow> string \<Rightarrow> dialect \<Rightarrow> json" where
  "send_params mid prompt d =
     JObject [(''message'', message_json mid prompt ''user'' d),
       (''configuration'', JObject [(''acceptedOutputModes'', JArray [JString ''text/plain'']),
          case d of V1 \<Rightarrow> (''returnImmediately'', JBool False) | Legacy \<Rightarrow> (''blocking'', JBool True)])]"

definition relegacy_params :: "string \<Rightarrow> string \<Rightarrow> json \<Rightarrow> json" where
  "relegacy_params mid m params =
     (if m = send_message_m \<or> m = send_streaming_message_m
      then send_params mid (parts_text (json_pointer [''message'', ''parts''] params)) Legacy else params)"

definition call_raw ::
  "'w network \<Rightarrow> a2a_adapter \<Rightarrow> nat option \<Rightarrow> string \<Rightarrow> string \<Rightarrow> json \<Rightarrow> nat option \<Rightarrow> 'w a2a_attempt \<Rightarrow> (call_error + json) \<times> 'w a2a_attempt" where
  "call_raw nw ad deadline url m params timeout a =
     (let limit = map_option (\<lambda>t. at_elapsed a + t) timeout in
      case post nw ad deadline url m params timeout False a of
        (Inl e, a) \<Rightarrow> (Inl e, a)
      | (Inr r, a) \<Rightarrow>
          (case read_bounded nw (aa_id ad) deadline limit r a of
             (Inl e, a) \<Rightarrow> (Inl e, a)
           | (Inr body, a) \<Rightarrow> (parse_envelope nw m body, a)))"

text \<open>\<open>call\<close>: in the peer's dialect, once more in the old one when the method is not known.\<close>

definition a2a_call ::
  "'w network \<Rightarrow> a2a_adapter \<Rightarrow> nat option \<Rightarrow> string \<Rightarrow> json \<Rightarrow> nat option \<Rightarrow> 'w a2a_attempt \<Rightarrow> (call_error + json) \<times> 'w a2a_attempt" where
  "a2a_call nw ad deadline m params timeout a =
     (let p = at_peer a; name = wire_name m (pr_dialect p) in
      case call_raw nw ad deadline (pr_url p) name params timeout a of
        (Inr result, a) \<Rightarrow> (Inr result, a)
      | (Inl e, a) \<Rightarrow>
          (case e of
             CallRpc code _ \<Rightarrow>
               if code = method_not_found_code \<and> pr_dialect p = V1 \<and> legacy_name m \<noteq> None then
                 let old = wire_name m Legacy;
                     a = a\<lparr>at_peer := (at_peer a)\<lparr>pr_dialect := Legacy\<rparr>\<rparr> in
                 (case call_raw nw ad deadline (pr_url p) old (relegacy_params (nw_uuid nw (at_uuids a)) m params) timeout
                         (a\<lparr>at_uuids := Suc (at_uuids a)\<rparr>) of
                    (Inl e, a) \<Rightarrow> (Inl (lift_error (aa_id ad) old e), a)
                  | (Inr result, a) \<Rightarrow> (Inr result, a))
               else (Inl (lift_error (aa_id ad) name e), a)
           | _ \<Rightarrow> (Inl (lift_error (aa_id ad) name e), a)))"

text \<open>The method a request calls. What each wait keeps, and each request allowed, a call keeps.\<close>

definition request_method :: "http_request \<Rightarrow> string option" where
  "request_method q = Option.bind (hq_body q) (\<lambda>b. Option.bind (json_get ''method'' b) as_str)"

locale attempt_relation =
  fixes R :: "'w a2a_attempt \<Rightarrow> 'w a2a_attempt \<Rightarrow> bool" and allowed :: "http_request \<Rightarrow> bool" and deadline :: "nat option"
  assumes trans: "R a b \<Longrightarrow> R b c \<Longrightarrow> R a c"
    and waits: "wait_for deadline limit d a = (v, b) \<Longrightarrow> R a b"
    and sends: "allowed q \<Longrightarrow> R a (a\<lparr>at_world := w, at_sent := at_sent a @ [q]\<rparr>)"
    and keeps: "at_elapsed b = at_elapsed a \<Longrightarrow> at_sent b = at_sent a \<Longrightarrow> at_world b = at_world a \<Longrightarrow> R a b"
begin

lemma after: "R b c \<Longrightarrow> at_elapsed b = at_elapsed a \<Longrightarrow> at_sent b = at_sent a \<Longrightarrow> at_world b = at_world a \<Longrightarrow> R a c"
  by (rule trans [OF keeps])

lemma exchange_rel:
  assumes "exchange nw deadline limit q a = (r, c)" "allowed q"
  shows "R a c"
proof -
  obtain d s w where send: "nw_send nw q (at_world a) = (d, s, w)" by (cases "nw_send nw q (at_world a)") auto
  obtain v b where waited: "wait_for deadline limit d (a\<lparr>at_world := w, at_sent := at_sent a @ [q]\<rparr>) = (v, b)" by force
  have "b = c" using assms(1) by (cases v) (simp_all add: exchange_def send waited)
  then show ?thesis using trans [OF sends [OF assms(2)] waits [OF waited]] by simp
qed

lemma read_chunks_rel: "read_chunks nw i deadline limit cs fin body a = (r, c) \<Longrightarrow> R a c"
proof (induction cs arbitrary: body a)
  case Nil
  obtain d broken where fin: "fin = (d, broken)" by force
  obtain v b where waited: "wait_for deadline limit d a = (v, b)" by force
  have "b = c" using Nil by (cases v) (auto simp: fin waited split: option.splits if_splits)
  then show ?case using waits [OF waited] by simp
next
  case (Cons x cs)
  obtain d chunk where x: "x = (d, chunk)" by force
  obtain v b where waited: "wait_for deadline limit d a = (v, b)" by force
  have "c = b \<or> read_chunks nw i deadline limit cs fin (body @ chunk) b = (r, c)"
    using Cons.prems by (cases v) (auto simp: x waited split: if_splits)
  then show ?case using waits [OF waited] Cons.IH trans by blast
qed

lemma read_bounded_rel: "read_bounded nw i deadline limit r a = (v, c) \<Longrightarrow> R a c"
  by (auto simp: read_bounded_def keeps split: option.splits if_splits dest: read_chunks_rel)

lemma post_rel:
  assumes "post nw ad deadline url m params timeout streaming a = (r, c)" and "\<And>q. request_method q = Some m \<Longrightarrow> allowed q"
  shows "R a c"
proof -
  obtain limit q s b where sent: "exchange nw deadline limit q (a\<lparr>at_uuids := Suc (at_uuids a)\<rparr>) = (s, b)" and "b = c"
      and q: "hq_body q = Some (post_body (nw_uuid nw (at_uuids a)) m params)"
    using assms(1) unfolding post_def Let_def by (auto split: prod.splits sum.splits if_splits)
  have "allowed q" using assms(2) by (simp add: request_method_def q post_body_def)
  from after [OF exchange_rel [OF sent this]] show ?thesis by (simp add: \<open>b = c\<close>)
qed

lemma call_raw_rel:
  assumes "call_raw nw ad deadline url m params timeout a = (r, c)" and allows: "\<And>q. request_method q = Some m \<Longrightarrow> allowed q"
  shows "R a c"
proof -
  obtain s b where posted: "post nw ad deadline url m params timeout False a = (s, b)" by force
  show ?thesis
  proof (cases s)
    case (Inr resp)
    obtain t b2 where read: "read_bounded nw (aa_id ad) deadline (map_option (\<lambda>t. at_elapsed a + t) timeout) resp b = (t, b2)" by force
    have "b2 = c" using assms(1) by (cases t) (simp_all add: call_raw_def Let_def posted Inr read)
    then show ?thesis using trans [OF post_rel [OF posted allows] read_bounded_rel [OF read]] by simp
  next
    case (Inl e)
    then have "b = c" using assms(1) by (simp add: call_raw_def Let_def posted)
    then show ?thesis using post_rel [OF posted allows] by simp
  qed
qed

lemma a2a_call_rel:
  assumes "a2a_call nw ad deadline m params timeout a = (r, c)" and "\<And>q d. request_method q = Some (wire_name m d) \<Longrightarrow> allowed q"
  shows "R a c"
proof -
  let ?name = "wire_name m (pr_dialect (at_peer a))"
  obtain r1 b where first: "call_raw nw ad deadline (pr_url (at_peer a)) ?name params timeout a = (r1, b)" by force
  from call_raw_rel [OF this assms(2)] have ab: "R a b" .
  have second: "R a c" if "call_raw nw ad deadline u (wire_name m Legacy) ps timeout (b\<lparr>at_peer := p, at_uuids := n\<rparr>) = (r2, c)" for u ps p n r2
    using trans [OF ab after [OF call_raw_rel [OF that assms(2)]]] by simp
  have "b = c \<or> (\<exists>u ps p n r2. call_raw nw ad deadline u (wire_name m Legacy) ps timeout (b\<lparr>at_peer := p, at_uuids := n\<rparr>) = (r2, c))"
    using assms(1) by (simp add: a2a_call_def Let_def first split: sum.splits call_error.splits if_splits prod.splits) blast+
  then show ?thesis using ab second by blast
qed

end

text \<open>Time passes and requests are added.\<close>

definition later :: "'w a2a_attempt \<Rightarrow> 'w a2a_attempt \<Rightarrow> bool" where
  "later a b \<longleftrightarrow> at_elapsed a \<le> at_elapsed b \<and> prefix (at_sent a) (at_sent b)"

interpretation later: attempt_relation later "\<lambda>_. True" deadline for deadline
  by unfold_locales (auto simp: later_def wait_for_def Let_def split: if_splits)

section \<open>Following a task\<close>

definition forward :: "string \<Rightarrow> 'w a2a_attempt \<Rightarrow> 'w a2a_attempt" where
  "forward text a = (if trim text = [] then a else a\<lparr>at_updates := at_updates a @ [text]\<rparr>)"

datatype settled = SettledMessage string | SettledTask wire_task

text \<open>The delay before the poll after \<open>k\<close> others: it doubles, up to a limit.\<close>

definition poll_delay :: "nat \<Rightarrow> nat" where
  "poll_delay k = min (poll_initial * 2 ^ k) poll_max"

definition task_of_reply :: "json \<Rightarrow> wire_task option" where
  "task_of_reply v =
     (case parse_task v of
        Some t \<Rightarrow> Some t
      | None \<Rightarrow> (case parse_send_result v of Some (SentTask t) \<Rightarrow> Some t | _ \<Rightarrow> None))"

lemma poll_measure:
  assumes "wait_for (Some deadline) None (poll_delay k) a = (InTime, b)" "a2a_call nw ad (Some deadline) m params timeout b = (r, c)"
  shows "deadline - at_elapsed c < deadline - at_elapsed a"
proof -
  have "at_elapsed b = at_elapsed a + poll_delay k" "at_elapsed b < deadline"
    using assms(1) by (auto simp: wait_for_def Let_def split: if_splits)
  moreover have "at_elapsed b \<le> at_elapsed c" using later.a2a_call_rel [OF assms(2)] by (simp add: later_def)
  moreover have "0 < poll_delay k" by (simp add: poll_delay_def poll_initial_def poll_max_def)
  ultimately show ?thesis by simp
qed

function poll_until_settled ::
  "'w network \<Rightarrow> a2a_adapter \<Rightarrow> nat \<Rightarrow> nat \<Rightarrow> wire_task \<Rightarrow> 'w a2a_attempt \<Rightarrow> (call_error + wire_task) \<times> 'w a2a_attempt" where
  "poll_until_settled nw ad deadline k t a =
     (if wire_settled (wt_state t) then (Inr t, a)
      else case wait_for (Some deadline) None (poll_delay k) a of
        (InTime, a) \<Rightarrow>
          (case a2a_call nw ad (Some deadline) get_task_m (JObject [(''id'', JString (wt_id t))]) (Some short_call) a of
             (Inl e, a) \<Rightarrow> (Inl e, a)
           | (Inr result, a) \<Rightarrow>
               (case task_of_reply result of
                  None \<Rightarrow> (Inl (CallOther (EAgent (aa_id ad) ''GetTask returned something that is not a task'' InvalidResponse)), a)
                | Some t \<Rightarrow> poll_until_settled nw ad deadline (Suc k) t a))
      | (_, a) \<Rightarrow> (Inl CallDropped, a))"
  by pat_completeness auto
termination
  by (relation "measure (\<lambda>(nw, ad, deadline, k, t, a). deadline - at_elapsed a)") (auto intro: poll_measure [OF sym sym])

declare poll_until_settled.simps [simp del]

text \<open>\<open>run_blocking\<close>.\<close>

definition run_blocking ::
  "'w network \<Rightarrow> a2a_adapter \<Rightarrow> nat \<Rightarrow> string \<Rightarrow> 'w a2a_attempt \<Rightarrow> (call_error + settled) \<times> 'w a2a_attempt" where
  "run_blocking nw ad deadline prompt a =
     (let params = send_params (nw_uuid nw (at_uuids a)) prompt (pr_dialect (at_peer a)) in
      case a2a_call nw ad (Some deadline) send_message_m params None (a\<lparr>at_uuids := Suc (at_uuids a)\<rparr>) of
        (Inl e, a) \<Rightarrow> (Inl e, a)
      | (Inr result, a) \<Rightarrow>
          (case parse_send_result result of
             None \<Rightarrow> (Inl (CallOther (EAgent (aa_id ad) ''SendMessage returned neither a task nor a message'' InvalidResponse)), a)
           | Some (SentMessage text) \<Rightarrow> (Inr (SettledMessage text), forward text a)
           | Some (SentTask t) \<Rightarrow>
               (case poll_until_settled nw ad deadline 0 t (a\<lparr>at_task := Some (wt_id t)\<rparr>) of
                  (Inl e, a) \<Rightarrow> (Inl e, a)
                | (Inr t, a) \<Rightarrow> (Inr (SettledTask t), forward (wire_text t) a))))"

section \<open>Following a stream\<close>

record follower =
  fo_task :: "string option"
  fo_context :: string
  fo_state :: "task_state option"
  fo_status_text :: "string option"
  fo_artifact_text :: string
  fo_message :: "string option"

definition new_follower :: follower where
  "new_follower = \<lparr>fo_task = None, fo_context = [], fo_state = None, fo_status_text = None, fo_artifact_text = [], fo_message = None\<rparr>"

definition first_some :: "'a option \<Rightarrow> 'a option \<Rightarrow> 'a option" where
  "first_some x y = (case x of Some _ \<Rightarrow> x | None \<Rightarrow> y)"

definition follow :: "stream_event \<Rightarrow> follower \<Rightarrow> string option \<times> follower" where
  "follow ev f =
     (case ev of
        StreamMessage text \<Rightarrow> (Some text, f\<lparr>fo_message := Some text\<rparr>)
      | StreamTask t \<Rightarrow>
          (None, f\<lparr>fo_task := Some (wt_id t), fo_context := wt_context_id t, fo_state := Some (wt_state t),
                   fo_artifact_text := (if wt_artifacts t = [] then fo_artifact_text f
                                        else join [CHR 0x0A, CHR 0x0A] (map snd (wt_artifacts t))),
                   fo_status_text := first_some (wt_status_text t) (fo_status_text f)\<rparr>)
      | StreamStatus s text \<Rightarrow> (text, f\<lparr>fo_state := Some s, fo_status_text := first_some text (fo_status_text f)\<rparr>)
      | StreamArtifact text \<Rightarrow>
          (non_empty text,
           f\<lparr>fo_artifact_text := fo_artifact_text f @ (if fo_artifact_text f \<noteq> [] \<and> text \<noteq> [] then [CHR 0x0A] else []) @ text\<rparr>))"

definition stream_finished :: "follower \<Rightarrow> bool" where
  "stream_finished f \<longleftrightarrow> fo_message f \<noteq> None \<or> (case fo_state f of Some s \<Rightarrow> wire_settled s | None \<Rightarrow> False)"

definition follower_task :: "follower \<Rightarrow> wire_task" where
  "follower_task f =
     \<lparr>wt_id = (case fo_task f of Some i \<Rightarrow> i | None \<Rightarrow> []), wt_context_id = fo_context f,
      wt_state = (case fo_state f of Some s \<Rightarrow> s | None \<Rightarrow> StUnknown), wt_status_text = fo_status_text f, wt_timestamp = None,
      wt_artifacts = (if fo_artifact_text f = [] then [] else [(''stream'', fo_artifact_text f)])\<rparr>"

text \<open>The events of one chunk; whether the stream has said all it will.\<close>

fun stream_events ::
  "'w network \<Rightarrow> agent_id \<Rightarrow> string \<Rightarrow> string list \<Rightarrow> follower \<Rightarrow> 'w a2a_attempt \<Rightarrow> (call_error + bool \<times> follower) \<times> 'w a2a_attempt" where
  "stream_events nw i m [] f a = (Inr (False, f), a)"
| "stream_events nw i m (data # rest) f a =
     (case parse_envelope nw m data of
        Inl e \<Rightarrow> (Inl (lift_error i m e), a)
      | Inr result \<Rightarrow>
          (case parse_stream_event result of
             None \<Rightarrow> stream_events nw i m rest f a
           | Some ev \<Rightarrow>
               (case follow ev f of
                  (text, f) \<Rightarrow>
                    let a = (case text of Some text \<Rightarrow> forward text a | None \<Rightarrow> a);
                        a = a\<lparr>at_task := first_some (at_task a) (fo_task f)\<rparr>
                    in if stream_finished f then (Inr (True, f), a) else stream_events nw i m rest f a)))"

fun stream_chunks ::
  "'w network \<Rightarrow> agent_id \<Rightarrow> nat \<Rightarrow> string \<Rightarrow> (nat \<times> string) list \<Rightarrow> nat \<times> string option \<Rightarrow> nat \<Rightarrow> string \<Rightarrow> follower \<Rightarrow>
   'w a2a_attempt \<Rightarrow> (call_error + follower) \<times> 'w a2a_attempt" where
  "stream_chunks nw i deadline m [] (d, broken) received buffer f a =
     (case wait_for (Some deadline) None d a of
        (InTime, a) \<Rightarrow>
          (case broken of
             Some err \<Rightarrow> (Inl (CallOther (EAgent i (''the event stream broke: '' @ err) ConnectionFailure)), a)
           | None \<Rightarrow> (Inr f, a))
      | (_, a) \<Rightarrow> (Inl CallDropped, a))"
| "stream_chunks nw i deadline m ((d, chunk) # rest) fin received buffer f a =
     (case wait_for (Some deadline) None d a of
        (InTime, a) \<Rightarrow>
          let received = received + length chunk in
          if max_response_bytes < received then (Inl (CallOther (oversized i received)), a)
          else
            (case sse_feed buffer chunk of
               (events, buffer) \<Rightarrow>
                 (case stream_events nw i m events f a of
                    (Inl e, a) \<Rightarrow> (Inl e, a)
                  | (Inr (True, f), a) \<Rightarrow> (Inr f, a)
                  | (Inr (False, f), a) \<Rightarrow> stream_chunks nw i deadline m rest fin received buffer f a))
      | (_, a) \<Rightarrow> (Inl CallDropped, a))"

definition settle_task ::
  "'w network \<Rightarrow> a2a_adapter \<Rightarrow> nat \<Rightarrow> wire_task \<Rightarrow> 'w a2a_attempt \<Rightarrow> (call_error + settled option) \<times> 'w a2a_attempt" where
  "settle_task nw ad deadline t a =
     (case poll_until_settled nw ad deadline 0 t a of
        (Inl e, a) \<Rightarrow> (Inl e, a)
      | (Inr t, a) \<Rightarrow> (Inr (Some (SettledTask t)), a))"

text \<open>The answer to a streaming call that is no stream.\<close>

definition plain_answer ::
  "'w network \<Rightarrow> a2a_adapter \<Rightarrow> nat \<Rightarrow> string \<Rightarrow> string \<Rightarrow> 'w a2a_attempt \<Rightarrow> (call_error + settled option) \<times> 'w a2a_attempt" where
  "plain_answer nw ad deadline m body a =
     (case parse_envelope nw m body of
        Inl e \<Rightarrow>
          (case e of
             CallRpc code _ \<Rightarrow>
               if code = method_not_found_code \<or> code = unsupported_operation_code
               then (Inr None, a\<lparr>at_peer := (at_peer a)\<lparr>pr_streaming := False\<rparr>\<rparr>)
               else (Inl (lift_error (aa_id ad) m e), a)
           | _ \<Rightarrow> (Inl (lift_error (aa_id ad) m e), a))
      | Inr result \<Rightarrow>
          (case parse_stream_event result of
             Some (StreamMessage text) \<Rightarrow> (Inr (Some (SettledMessage text)), forward text a)
           | Some (StreamTask t) \<Rightarrow>
               (case settle_task nw ad deadline t (a\<lparr>at_task := Some (wt_id t)\<rparr>) of
                  (Inr (Some (SettledTask t)), a) \<Rightarrow> (Inr (Some (SettledTask t)), forward (wire_text t) a)
                | (r, a) \<Rightarrow> (r, a))
           | _ \<Rightarrow> (Inl (CallOther (EAgent (aa_id ad) ''a streaming call returned an unrecognised payload'' InvalidResponse)), a)))"

definition is_sse :: "http_response \<Rightarrow> bool" where
  "is_sse r \<longleftrightarrow> (case hr_content_type r of Some v \<Rightarrow> prefix ''text/event-stream'' v | None \<Rightarrow> False)"

definition run_streaming ::
  "'w network \<Rightarrow> a2a_adapter \<Rightarrow> nat \<Rightarrow> string \<Rightarrow> 'w a2a_attempt \<Rightarrow> (call_error + settled option) \<times> 'w a2a_attempt" where
  "run_streaming nw ad deadline prompt a =
     (let p = at_peer a; m = wire_name send_streaming_message_m (pr_dialect p);
          params = send_params (nw_uuid nw (at_uuids a)) prompt (pr_dialect p) in
      case post nw ad (Some deadline) (pr_url p) m params None True (a\<lparr>at_uuids := Suc (at_uuids a)\<rparr>) of
        (Inl e, a) \<Rightarrow> (Inl (lift_error (aa_id ad) m e), a)
      | (Inr r, a) \<Rightarrow>
          if \<not> is_sse r then
            (case read_bounded nw (aa_id ad) (Some deadline) None r a of
               (Inl e, a) \<Rightarrow> (Inl e, a)
             | (Inr body, a) \<Rightarrow> plain_answer nw ad deadline m body a)
          else
            (case stream_chunks nw (aa_id ad) deadline m (hr_chunks r) (hr_end r) 0 [] new_follower a of
               (Inl e, a) \<Rightarrow> (Inl e, a)
             | (Inr f, a) \<Rightarrow>
                 (case fo_message f of
                    Some text \<Rightarrow> (Inr (Some (SettledMessage text)), a)
                  | None \<Rightarrow>
                      let t = follower_task f in
                      if wire_settled (wt_state t) \<or> wt_id t = [] then (Inr (Some (SettledTask t)), a)
                      else settle_task nw ad deadline t a)))"

section \<open>An attempt as a whole\<close>

fun debug_state :: "task_state \<Rightarrow> string" where
  "debug_state Submitted = ''Submitted''"
| "debug_state Working = ''Working''"
| "debug_state StCompleted = ''Completed''"
| "debug_state StFailed = ''Failed''"
| "debug_state Canceled = ''Canceled''"
| "debug_state InputRequired = ''InputRequired''"
| "debug_state Rejected = ''Rejected''"
| "debug_state AuthRequired = ''AuthRequired''"
| "debug_state StUnknown = ''Unknown''"

definition failure_for :: "task_state \<Rightarrow> string \<Rightarrow> (error_class \<times> string) option" where
  "failure_for s output =
     (let excerpt = concat (take 300 (utf8_chars output));
          said = (if excerpt = [] then [] else '': '' @ excerpt) in
      case s of
        StCompleted \<Rightarrow> None
      | Canceled \<Rightarrow> Some (Cancelled, ''the remote task was cancelled'')
      | AuthRequired \<Rightarrow> Some (AuthenticationFailure, ''the remote agent requires authentication'' @ said)
      | InputRequired \<Rightarrow> Some (TaskFailure, ''the remote agent stopped to ask for input'' @ said)
      | Rejected \<Rightarrow> Some (TaskFailure, ''the remote agent rejected the task'' @ said)
      | StFailed \<Rightarrow> Some (TaskFailure, ''the remote task failed'' @ said)
      | _ \<Rightarrow> Some (InvalidResponse, ''the remote task ended without settling (state '' @ debug_state s @ '')''))"

definition a2a_outcome ::
  "attempt_id \<Rightarrow> agent_id \<Rightarrow> execution_request \<Rightarrow> settled \<Rightarrow> nat \<Rightarrow> execution_outcome" where
  "a2a_outcome attempt i request st elapsed =
     (let (s, output) = (case st of SettledMessage text \<Rightarrow> (None, text) | SettledTask t \<Rightarrow> (Some (wt_state t), wire_text t));
          failure = Option.bind s (\<lambda>s. failure_for s output)
      in \<lparr>eo_attempt_id = attempt, eo_agent_id = i, eo_model_id = xr_model request, eo_success = (failure = None), eo_output = output,
          eo_changed_files = [], eo_tokens = estimate_from_text (xr_prompt request) output, eo_latency_ms = of_nat elapsed,
          eo_failure_class = map_option fst failure, eo_failure_reason = map_option snd failure, eo_reported_cost_usd = None\<rparr>)"

text \<open>The guard, when it is dropped armed: a request whose answer nobody waits for. \<open>locked\<close> tells whether another
  attempt holds the peer just then.\<close>

definition cancel_request :: "'w network \<Rightarrow> string option \<Rightarrow> 'w a2a_attempt \<Rightarrow> string \<Rightarrow> http_request" where
  "cancel_request nw token a i =
     \<lparr>hq_url = pr_url (at_peer a), hq_token = token, hq_sse = False,
      hq_body = Some (post_body (nw_uuid nw (at_uuids a)) (wire_name cancel_task_m (pr_dialect (at_peer a))) (JObject [(''id'', JString i)]))\<rparr>"

definition drop_guard :: "'w network \<Rightarrow> bool \<Rightarrow> string option \<Rightarrow> 'w a2a_attempt \<Rightarrow> 'w a2a_attempt" where
  "drop_guard nw locked token a =
     (case at_task a of
        Some i \<Rightarrow>
          if locked then a
          else let q = cancel_request nw token a i
               in a\<lparr>at_world := snd (snd (nw_send nw q (at_world a))), at_sent := at_sent a @ [q], at_uuids := Suc (at_uuids a)\<rparr>
      | None \<Rightarrow> a)"

definition new_attempt :: "peer \<Rightarrow> 'w \<Rightarrow> 'w a2a_attempt" where
  "new_attempt p w = \<lparr>at_world = w, at_elapsed = 0, at_peer = p, at_task = None, at_updates = [], at_uuids = 0, at_sent = []\<rparr>"

definition run_attempt ::
  "'w network \<Rightarrow> a2a_adapter \<Rightarrow> nat \<Rightarrow> string \<Rightarrow> 'w a2a_attempt \<Rightarrow> (call_error + settled) \<times> 'w a2a_attempt" where
  "run_attempt nw ad deadline prompt a =
     (if pr_streaming (at_peer a) then
        (case run_streaming nw ad deadline prompt a of
           (Inl e, a) \<Rightarrow> (Inl e, a)
         | (Inr (Some st), a) \<Rightarrow> (Inr st, a)
         | (Inr None, a) \<Rightarrow> run_blocking nw ad deadline prompt a)
      else run_blocking nw ad deadline prompt a)"

definition attempt_error :: "agent_id \<Rightarrow> execution_request \<Rightarrow> call_error \<Rightarrow> meta_agent_error" where
  "attempt_error i request e =
     (case e of
        CallOther err \<Rightarrow> err
      | CallRpc code message \<Rightarrow> EAgent i message (rpc_error_class code)
      | CallDropped \<Rightarrow> EAgent i (''no result within '' @ show_word (xr_timeout_ms request) @ '' ms'') Timeout)"

text \<open>\<open>execute\<close>: what it returns and what the attempt has come to.\<close>

definition attempt_deadline :: "execution_request \<Rightarrow> nat" where
  "attempt_deadline request = max 1 (unat (xr_timeout_ms request))"

definition a2a_execute ::
  "'w network \<Rightarrow> bool \<Rightarrow> attempt_id \<Rightarrow> execution_request \<Rightarrow> a2a_adapter \<Rightarrow> 'w \<Rightarrow> execution_outcome result \<times> 'w a2a_attempt" where
  "a2a_execute nw locked attempt request ad w =
     (let token = authorize nw (aa_auth_handle ad) in
      case run_attempt nw ad (attempt_deadline request) (xr_prompt request) (new_attempt (aa_peer ad) w) of
        (Inr st, a) \<Rightarrow> (Inr (a2a_outcome attempt (aa_id ad) request st (at_elapsed a)), a)
      | (Inl e, a) \<Rightarrow> (Inl (attempt_error (aa_id ad) request e), drop_guard nw locked token a))"

section \<open>Cards and discovery\<close>

text \<open>No deadline here, so no call is dropped; \<open>last_error\<close> is what the last location said.\<close>

definition fetch_error :: "call_error \<Rightarrow> meta_agent_error" where
  "fetch_error e = (case e of CallOther err \<Rightarrow> err | CallRpc _ message \<Rightarrow> EOther message | CallDropped \<Rightarrow> EOther [])"

fun fetch_card_from ::
  "'w network \<Rightarrow> a2a_adapter \<Rightarrow> string list \<Rightarrow> string option \<Rightarrow> 'w a2a_attempt \<Rightarrow> agent_card result \<times> 'w a2a_attempt" where
  "fetch_card_from nw ad [] last_error a =
     (Inl (EProtocol ''a2a'' (case last_error of Some e \<Rightarrow> e | None \<Rightarrow> ''no Agent Card location to try'') None), a)"
| "fetch_card_from nw ad (url # rest) last_error a =
     (let limit = Some (at_elapsed a + short_call);
          q = \<lparr>hq_url = url, hq_token = authorize nw (aa_auth_handle ad), hq_sse = False, hq_body = None\<rparr> in
      case exchange nw None limit q a of
        (Inl e, a) \<Rightarrow> (Inl (fetch_error e), a)
      | (Inr (Inl (_, err)), a) \<Rightarrow> fetch_card_from nw ad rest (Some (''cannot fetch '' @ url @ '': '' @ err)) a
      | (Inr (Inr r), a) \<Rightarrow>
          if hr_status r < 200 \<or> 299 < hr_status r
          then fetch_card_from nw ad rest (Some (url @ '' returned '' @ nw_status nw (hr_status r))) a
          else
            (case read_bounded nw (aa_id ad) None limit r a of
               (Inl e, a) \<Rightarrow> (Inl (fetch_error e), a)
             | (Inr body, a) \<Rightarrow>
                 (case nw_card nw body of
                    Inl err \<Rightarrow> (Inl (EProtocol ''a2a'' (url @ '' is not a valid Agent Card: '' @ err) None), a)
                  | Inr c \<Rightarrow> (Inr c, a))))"

definition fetch_card :: "'w network \<Rightarrow> a2a_adapter \<Rightarrow> 'w \<Rightarrow> agent_card result \<times> 'w" where
  "fetch_card nw ad w =
     (case fetch_card_from nw ad (card_urls (nw_card_root nw) (aa_endpoint ad)) None (new_attempt (aa_peer ad) w) of
        (r, a) \<Rightarrow> (r, at_world a))"

definition health_check :: "'w network \<Rightarrow> a2a_adapter \<Rightarrow> 'w \<Rightarrow> unit result \<times> 'w" where
  "health_check nw ad w = (case fetch_card nw ad w of (Inl e, w) \<Rightarrow> (Inl e, w) | (Inr _, w) \<Rightarrow> (Inr (), w))"

definition peer_from_card :: "(string \<Rightarrow> string) \<Rightarrow> agent_id \<Rightarrow> agent_card \<Rightarrow> peer \<Rightarrow> peer" where
  "peer_from_card dbg i c p =
     (let p = p\<lparr>pr_streaming := kd_streaming c\<rparr> in
      case jsonrpc_endpoint c of
        None \<Rightarrow> p
      | Some (url, d) \<Rightarrow>
          let p = p\<lparr>pr_dialect := d\<rparr>
          in (case ensure_acceptable_endpoint dbg i url of Inr _ \<Rightarrow> p\<lparr>pr_url := url\<rparr> | Inl _ \<Rightarrow> p))"

definition descriptor_from_card :: "string \<Rightarrow> agent_card \<Rightarrow> agent_descriptor \<Rightarrow> agent_descriptor" where
  "descriptor_from_card endpoint c d =
     (let metadata = bt_insert ''endpoint'' endpoint (ad_metadata d);
          metadata = (case card_protocol_version c of Some v \<Rightarrow> bt_insert ''a2a_version'' v metadata | None \<Rightarrow> metadata);
          metadata = bt_insert ''a2a_streaming'' (if kd_streaming c then ''true'' else ''false'') metadata
      in d\<lparr>ad_name := kd_name c, ad_capabilities := fold bs_insert (capabilities_from_card c) (ad_capabilities d), ad_metadata := metadata\<rparr>)"

definition refresh_from_card :: "'w network \<Rightarrow> a2a_adapter \<Rightarrow> 'w \<Rightarrow> (agent_descriptor result \<times> a2a_adapter) \<times> 'w" where
  "refresh_from_card nw ad w =
     (case fetch_card nw ad w of
        (Inl e, w) \<Rightarrow> ((Inl e, ad), w)
      | (Inr c, w) \<Rightarrow>
          let d = descriptor_from_card (aa_endpoint ad) c (aa_descriptor ad)
          in ((Inr d, ad\<lparr>aa_peer := peer_from_card (nw_debug nw) (aa_id ad) c (aa_peer ad), aa_descriptor := d\<rparr>), w))"

definition adapter_for :: "(string \<Rightarrow> string) \<Rightarrow> string \<times> agent_config \<Rightarrow> a2a_adapter option" where
  "adapter_for dbg entry =
     (case entry of (i, cfg) \<Rightarrow>
        if \<not> ac_enabled cfg \<or> \<not> eq_ignore_ascii_case (ac_protocol cfg) ''a2a'' then None
        else Option.bind (ac_endpoint cfg) (\<lambda>endpoint.
          case new_adapter dbg (AgentId i) endpoint of
            Inl _ \<Rightarrow> None
          | Inr ad \<Rightarrow> Some (ad\<lparr>aa_descriptor := apply_to cfg (new_agent (AgentId i) i A2A), aa_auth_handle := ac_auth_secret_ref cfg\<rparr>)))"

definition a2a_adapters :: "(string \<Rightarrow> string) \<Rightarrow> (string, agent_config) btree \<Rightarrow> a2a_adapter list" where
  "a2a_adapters dbg agents = List.map_filter (adapter_for dbg) agents"

definition discover_one :: "'w network \<Rightarrow> a2a_adapter \<Rightarrow> 'w \<Rightarrow> agent_descriptor \<times> 'w" where
  "discover_one nw ad w =
     (case refresh_from_card nw ad w of
        ((Inr d, _), w) \<Rightarrow> (d, w)
      | ((Inl e, _), w) \<Rightarrow>
          let d = aa_descriptor ad
          in (d\<lparr>ad_health := (ad_health d)\<lparr>ah_state := Unavailable, ah_last_error := Some (display_error e)\<rparr>\<rparr>, w))"

definition a2a_discover :: "'w network \<Rightarrow> (string, agent_config) btree \<Rightarrow> 'w \<Rightarrow> agent_descriptor list \<times> 'w" where
  "a2a_discover nw agents w =
     fold (\<lambda>ad (ds, w). case discover_one nw ad w of (d, w) \<Rightarrow> (ds @ [d], w)) (a2a_adapters (nw_debug nw) agents) ([], w)"

end
