(* ===== verification/A2A_Attempts.thy ===== *)
theory A2A_Attempts
  imports A2A_Client
begin

text \<open>
  What an attempt of the A2A client keeps, whatever the peer answers: it ends by its deadline, with a bounded
  number of requests, and asks a peer to cancel a task only when it gives the task up. Then which endpoints it talks to.
\<close>

section \<open>Attempts\<close>

locale deadline_relation = attempt_relation R allowed "Some deadline"
  for R :: "'w a2a_attempt \<Rightarrow> 'w a2a_attempt \<Rightarrow> bool" and allowed :: "http_request \<Rightarrow> bool" and deadline :: nat
begin

lemma kept: "R a a" "R a (a\<lparr>at_task := i\<rparr>)" "R a (a\<lparr>at_updates := us\<rparr>)" "R a (a\<lparr>at_peer := p\<rparr>)" "R a (a\<lparr>at_uuids := n\<rparr>)" "R a (forward text a)"
  by (rule keeps; simp add: forward_def)+

lemma stream_events_rel: "stream_events nw i m es f a = (r, c) \<Longrightarrow> R a c"
proof (induction es arbitrary: f a)
  case (Cons x es)
  show ?case
  proof (cases "parse_envelope nw m x")
    case (Inr v)
    show ?thesis
    proof (cases "parse_stream_event v")
      case (Some ev)
      obtain said g where ev: "follow ev f = (said, g)" by force
      obtain b where b_def: "b = (case said of Some t \<Rightarrow> forward t a | None \<Rightarrow> a)\<lparr>at_task := first_some (at_task a) (fo_task g)\<rparr>" by blast
      have "R a b" unfolding b_def by (cases said) (auto intro: kept(2) trans [OF kept(6) kept(2)])
      moreover have "c = b \<or> stream_events nw i m es g b = (r, c)" using Cons.prems
        by (cases said) (auto simp: Inr Some ev b_def Let_def forward_def split: if_splits)
      ultimately show ?thesis using Cons.IH trans by blast
    qed (use Cons Inr kept(1) in auto)
  qed (use Cons kept(1) in auto)
qed (simp add: kept)

lemma stream_chunks_rel: "stream_chunks nw i deadline m cs fin received buffer f a = (r, c) \<Longrightarrow> R a c"
proof (induction cs arbitrary: received buffer f a)
  case Nil
  obtain d broken where fin: "fin = (d, broken)" by force
  obtain v b where waited: "wait_for (Some deadline) None d a = (v, b)" by force
  have "b = c" using Nil by (cases v) (auto simp: fin waited split: option.splits)
  then show ?case using waits [OF waited] by simp
next
  case (Cons x cs)
  obtain d chunk where x: "x = (d, chunk)" by force
  obtain v b where waited: "wait_for (Some deadline) None d a = (v, b)" by force
  obtain es buf where fed: "sse_feed buffer chunk = (es, buf)" by force
  obtain s e where events: "stream_events nw i m es f b = (s, e)" by force
  have "c = b \<or> c = e \<or> (\<exists>g. stream_chunks nw i deadline m cs fin (received + length chunk) buf g e = (r, c))"
    using Cons.prems by (cases v) (auto simp: x waited fed events Let_def split: if_splits sum.splits bool.splits prod.splits)
  then show ?case using waits [OF waited] stream_events_rel [OF events] Cons.IH trans by blast
qed

end

locale timed_relation = deadline_relation R allowed deadline
  for R :: "'w a2a_attempt \<Rightarrow> 'w a2a_attempt \<Rightarrow> bool" and allowed :: "http_request \<Rightarrow> bool" and deadline :: nat +
  assumes allows: "request_method q \<in> Some ` (\<lambda>(m, d). wire_name m d) ` ({send_message_m, send_streaming_message_m, get_task_m} \<times> UNIV) \<Longrightarrow> allowed q"
begin

lemma allows_method: "m \<in> {send_message_m, send_streaming_message_m, get_task_m} \<Longrightarrow> request_method q = Some (wire_name m d) \<Longrightarrow> allowed q"
  by (rule allows) (auto intro!: image_eqI [where x = "(m, d)"])

lemma own_call_rel:
  assumes "a2a_call nw ad (Some deadline) m params timeout a = (r, c)" "m \<in> {send_message_m, send_streaming_message_m, get_task_m}"
  shows "R a c"
  using a2a_call_rel [OF assms(1)] allows_method [OF assms(2)] by blast

lemma poll_rel: "poll_until_settled nw ad deadline k t a = (r, c) \<Longrightarrow> R a c"
proof (induction "deadline - at_elapsed a" arbitrary: a t k rule: less_induct)
  case less
  obtain v b where waited: "wait_for (Some deadline) None (poll_delay k) a = (v, b)" by force
  from waits [OF waited] have ab: "R a b" .
  show ?case
  proof (cases "wire_settled (wt_state t) \<or> v \<noteq> InTime")
    case True
    then have "c = a \<or> c = b" using less.prems
      by (cases v) (auto simp: poll_until_settled.simps [of nw ad deadline k] waited split: if_splits)
    then show ?thesis using ab kept(1) by auto
  next
    case False
    let ?params = "JObject [(''id'', JString (wt_id t))]"
    obtain s d where called: "a2a_call nw ad (Some deadline) get_task_m ?params (Some short_call) b = (s, d)" by force
    have ad: "R a d" using trans [OF ab own_call_rel [OF called]] by simp
    have "d = c \<or> (\<exists>t2. poll_until_settled nw ad deadline (Suc k) t2 d = (r, c))"
      using less.prems False
      by (auto simp: poll_until_settled.simps [of nw ad deadline k] waited called split: sum.splits option.splits)
    moreover have "wait_for (Some deadline) None (poll_delay k) a = (InTime, b)" using waited False by simp
    ultimately show ?thesis using ad less.hyps [OF poll_measure [OF _ called]] trans by blast
  qed
qed

lemma settle_rel: "settle_task nw ad deadline t a = (r, c) \<Longrightarrow> R a c"
  by (auto simp: settle_task_def split: prod.splits sum.splits dest: poll_rel)

lemma run_blocking_rel:
  assumes "run_blocking nw ad deadline prompt a = (r, c)"
  shows "R a c"
proof -
  let ?a = "a\<lparr>at_uuids := Suc (at_uuids a)\<rparr>"
  obtain s b where called: "a2a_call nw ad (Some deadline) send_message_m
      (send_params (nw_uuid nw (at_uuids a)) prompt (pr_dialect (at_peer a))) None ?a = (s, b)" by force
  have ab: "R a b" using trans [OF kept(5) own_call_rel [OF called]] by simp
  have polled: "R b (forward x d)" "R b d" if "poll_until_settled nw ad deadline 0 t (b\<lparr>at_task := i\<rparr>) = (u, d)" for t i u d x
    using trans [OF kept(2) poll_rel [OF that]] trans [OF _ kept(6)] by blast+
  have "c = b \<or> (\<exists>x. c = forward x b) \<or> (\<exists>t i u d x. poll_until_settled nw ad deadline 0 t (b\<lparr>at_task := i\<rparr>) = (u, d) \<and> (c = d \<or> c = forward x d))"
    using assms by (simp add: run_blocking_def Let_def called split: sum.splits option.splits send_result.splits prod.splits) blast+
  then show ?thesis using ab polled trans kept(6) by metis
qed

lemma plain_answer_rel:
  assumes "plain_answer nw ad deadline m body a = (r, c)"
  shows "R a c"
proof -
  have settled: "R a (forward x d)" "R a d" if "settle_task nw ad deadline t (a\<lparr>at_task := i\<rparr>) = (u, d)" for t i u d x
    using trans [OF kept(2) settle_rel [OF that]] trans [OF _ kept(6)] by blast+
  have "c = a \<or> (\<exists>x. c = forward x a) \<or> (\<exists>p. c = a\<lparr>at_peer := p\<rparr>) \<or>
      (\<exists>t i u d x. settle_task nw ad deadline t (a\<lparr>at_task := i\<rparr>) = (u, d) \<and> (c = d \<or> c = forward x d))"
    using assms
    by (simp add: plain_answer_def Let_def split: sum.splits option.splits call_error.splits stream_event.splits prod.splits settled.splits if_splits) blast+
  then show ?thesis using settled kept by metis
qed

lemma run_streaming_rel:
  assumes "run_streaming nw ad deadline prompt a = (r, c)"
  shows "R a c"
proof -
  let ?m = "wire_name send_streaming_message_m (pr_dialect (at_peer a))"
  obtain s b where posted: "post nw ad (Some deadline) (pr_url (at_peer a)) ?m (send_params (nw_uuid nw (at_uuids a)) prompt (pr_dialect (at_peer a)))
      None True (a\<lparr>at_uuids := Suc (at_uuids a)\<rparr>) = (s, b)" by force
  have "R (a\<lparr>at_uuids := Suc (at_uuids a)\<rparr>) b" by (rule post_rel [OF posted]) (rule allows_method, auto)
  with kept(5) have ab: "R a b" by (rule trans)
  show ?thesis
  proof (cases s)
    case (Inl e)
    then show ?thesis using assms ab by (simp add: run_streaming_def Let_def posted)
  next
    case (Inr resp)
    obtain u d where read: "read_bounded nw (aa_id ad) (Some deadline) None resp b = (u, d)" by force
    obtain v e where chunks: "stream_chunks nw (aa_id ad) deadline ?m (hr_chunks resp) (hr_end resp) 0 [] new_follower b = (v, e)" by force
    have "c = d \<or> (\<exists>body. plain_answer nw ad deadline ?m body d = (r, c)) \<or> c = e \<or> (\<exists>t. settle_task nw ad deadline t e = (r, c))"
      using assms by (auto simp: run_streaming_def Let_def posted Inr read chunks split: if_splits sum.splits option.splits)
    then show ?thesis
      using ab read_bounded_rel [OF read] stream_chunks_rel [OF chunks] plain_answer_rel settle_rel trans by metis
  qed
qed

lemma run_attempt_rel:
  assumes "run_attempt nw ad deadline prompt a = (r, c)"
  shows "R a c"
proof -
  obtain s b where streamed: "run_streaming nw ad deadline prompt a = (s, b)" by force
  have "c = b \<or> run_blocking nw ad deadline prompt b = (r, c)" if "pr_streaming (at_peer a)"
    using assms that by (auto simp: run_attempt_def streamed split: sum.splits option.splits)
  then show ?thesis using assms run_streaming_rel [OF streamed] run_blocking_rel trans
    by (cases "pr_streaming (at_peer a)") (auto simp: run_attempt_def)
qed

end

section \<open>Time, requests and cancellations\<close>

interpretation in_time: timed_relation "\<lambda>a b. at_elapsed a \<le> deadline \<longrightarrow> at_elapsed b \<le> deadline" "\<lambda>_. True" deadline for deadline
  by unfold_locales (auto simp: wait_for_def Let_def split: if_splits option.splits)

definition is_cancel :: "http_request \<Rightarrow> bool" where
  "is_cancel q \<longleftrightarrow> request_method q \<in> {Some cancel_task_m, Some ''tasks/cancel''}"

definition asks_no_cancel :: "'w a2a_attempt \<Rightarrow> 'w a2a_attempt \<Rightarrow> bool" where
  "asks_no_cancel a b \<longleftrightarrow> (\<exists>qs. at_sent b = at_sent a @ qs \<and> \<not> list_ex is_cancel qs)"

lemma own_methods:
  "m \<in> {send_message_m, send_streaming_message_m, get_task_m} \<Longrightarrow> wire_name m d \<noteq> cancel_task_m \<and> wire_name m d \<noteq> ''tasks/cancel''"
  by (cases d) (auto simp: wire_name_def legacy_name_def legacy_methods_def method_defs)

lemma wait_for_sent: "wait_for deadline limit d a = (v, b) \<Longrightarrow> at_sent b = at_sent a"
  by (auto simp: wait_for_def Let_def split: if_splits)

interpretation no_cancel: timed_relation asks_no_cancel "\<lambda>q. \<not> is_cancel q" deadline for deadline
proof (unfold_locales, goal_cases)
  case (1 a b c)
  then show ?case by (auto simp: asks_no_cancel_def)
next
  case (5 q)
  then show ?case using own_methods by (fastforce simp: is_cancel_def)
qed (auto simp: asks_no_cancel_def dest: wait_for_sent)

interpretation silent: deadline_relation "\<lambda>a b. at_sent b = at_sent a" "\<lambda>_. False" deadline for deadline
  by unfold_locales (auto dest: wait_for_sent)

lemma exchange_sends: "exchange nw deadline limit q a = (r, c) \<Longrightarrow> at_sent c = at_sent a @ [q]"
  by (auto simp: exchange_def split: prod.splits wait.splits dest!: wait_for_sent)

lemma post_sends:
  assumes "post nw ad deadline url m params timeout streaming a = (r, c)"
  shows "length (at_sent c) = Suc (length (at_sent a))"
  using assms by (auto simp: post_def Let_def split: prod.splits sum.splits if_splits dest!: exchange_sends)

lemma call_raw_sends:
  assumes "call_raw nw ad (Some deadline) url m params timeout a = (r, c)"
  shows "length (at_sent c) = Suc (length (at_sent a))"
proof -
  obtain s b where posted: "post nw ad (Some deadline) url m params timeout False a = (s, b)" by force
  have "at_sent c = at_sent b"
    using assms by (auto simp: call_raw_def Let_def posted split: sum.splits prod.splits dest: silent.read_bounded_rel)
  then show ?thesis using post_sends [OF posted] by simp
qed

lemma a2a_call_sends:
  assumes "a2a_call nw ad (Some deadline) m params timeout a = (r, c)"
  shows "length (at_sent c) \<le> length (at_sent a) + 2"
proof -
  obtain r1 b where first: "call_raw nw ad (Some deadline) (pr_url (at_peer a)) (wire_name m (pr_dialect (at_peer a))) params timeout a = (r1, b)" by force
  have "b = c \<or> (\<exists>u ps p n r2. call_raw nw ad (Some deadline) u (wire_name m Legacy) ps timeout (b\<lparr>at_peer := p, at_uuids := n\<rparr>) = (r2, c))"
    using assms by (simp add: a2a_call_def Let_def first split: sum.splits call_error.splits if_splits prod.splits) blast+
  then show ?thesis using call_raw_sends [OF first] by (auto dest!: call_raw_sends)
qed

lemma poll_sends:
  "poll_until_settled nw ad deadline k t a = (r, c) \<Longrightarrow>
   length (at_sent c) \<le> length (at_sent a) + 2 * ((5 - k) + (deadline - at_elapsed a) div poll_max + 1)"
proof (induction "deadline - at_elapsed a" arbitrary: a t k rule: less_induct)
  case less
  let ?left = "deadline - at_elapsed a"
  obtain v b where waited: "wait_for (Some deadline) None (poll_delay k) a = (v, b)" by force
  then have b: "at_sent b = at_sent a" by (rule wait_for_sent)
  show ?case
  proof (cases "wire_settled (wt_state t) \<or> v \<noteq> InTime")
    case True
    then show ?thesis using less.prems b
      by (cases v) (auto simp: poll_until_settled.simps [of nw ad deadline k] waited split: if_splits)
  next
    case False
    let ?params = "JObject [(''id'', JString (wt_id t))]"
    obtain s d where called: "a2a_call nw ad (Some deadline) get_task_m ?params (Some short_call) b = (s, d)" by force
    have in_time: "wait_for (Some deadline) None (poll_delay k) a = (InTime, b)" using waited False by simp
    then have spent: "at_elapsed b = at_elapsed a + poll_delay k" "at_elapsed b < deadline"
      by (auto simp: wait_for_def Let_def split: if_splits)
    have later: "at_elapsed b \<le> at_elapsed d" using later.a2a_call_rel [OF called] by (simp add: later_def)
    consider "d = c" | t2 where "poll_until_settled nw ad deadline (Suc k) t2 d = (r, c)"
      using less.prems False
      by (auto simp: poll_until_settled.simps [of nw ad deadline k] waited called split: sum.splits option.splits)
    then show ?thesis
    proof cases
      case 1
      then show ?thesis using a2a_call_sends [OF called] b by simp
    next
      case 2
      have "deadline - at_elapsed d \<le> ?left - poll_delay k" using later spent by simp
      then have fewer: "(5 - Suc k) + (deadline - at_elapsed d) div poll_max + 1 \<le> (5 - k) + ?left div poll_max"
      proof (cases "k < 5")
        case True
        have "(deadline - at_elapsed d) div poll_max \<le> ?left div poll_max"
          using \<open>deadline - at_elapsed d \<le> ?left - poll_delay k\<close> by (intro div_le_mono) simp
        then show ?thesis using True by simp
      next
        case False
        have "(2 :: nat) ^ 5 \<le> 2 ^ k" using False by (intro power_increasing) auto
        then have delay: "poll_delay k = poll_max" by (simp add: poll_delay_def poll_initial_def poll_max_def)
        have "(deadline - at_elapsed d) div poll_max + 1 \<le> (?left - poll_max) div poll_max + 1"
          using \<open>deadline - at_elapsed d \<le> ?left - poll_delay k\<close> delay by (simp add: div_le_mono)
        also have "\<dots> = ?left div poll_max"
          using spent delay by (simp add: le_div_geq poll_max_def)
        finally show ?thesis using False by simp
      qed
      show ?thesis using less.hyps [OF poll_measure [OF in_time called] 2] a2a_call_sends [OF called] b fewer by simp
    qed
  qed
qed

definition polls_bound :: "nat \<Rightarrow> nat" where
  "polls_bound deadline = 2 * (deadline div poll_max + 6)"

lemma poll_sends_at_most:
  assumes "poll_until_settled nw ad deadline 0 t a = (r, c)"
  shows "length (at_sent c) \<le> length (at_sent a) + polls_bound deadline"
proof -
  have "(deadline - at_elapsed a) div poll_max \<le> deadline div poll_max" by (intro div_le_mono) simp
  then show ?thesis using poll_sends [OF assms] by (simp add: polls_bound_def)
qed

lemma sent_forward [simp]: "at_sent (forward text a) = at_sent a"
  by (simp add: forward_def)

lemma settle_sends: "settle_task nw ad deadline t a = (r, c) \<Longrightarrow> length (at_sent c) \<le> length (at_sent a) + polls_bound deadline"
  by (auto simp: settle_task_def split: prod.splits sum.splits dest: poll_sends_at_most)

lemma settle_answers: "settle_task nw ad deadline t a = (r, c) \<Longrightarrow> r \<noteq> Inr None"
  by (auto simp: settle_task_def split: prod.splits sum.splits)

lemma blocking_sends:
  assumes "run_blocking nw ad deadline prompt a = (r, c)"
  shows "length (at_sent c) \<le> length (at_sent a) + 2 + polls_bound deadline"
proof -
  obtain s b where called: "a2a_call nw ad (Some deadline) send_message_m
      (send_params (nw_uuid nw (at_uuids a)) prompt (pr_dialect (at_peer a))) None (a\<lparr>at_uuids := Suc (at_uuids a)\<rparr>) = (s, b)" by force
  have "at_sent c = at_sent b \<or> (\<exists>t i u d. poll_until_settled nw ad deadline 0 t (b\<lparr>at_task := i\<rparr>) = (u, d) \<and> at_sent c = at_sent d)"
    using assms
    by (simp add: run_blocking_def Let_def called split: sum.splits option.splits send_result.splits prod.splits) (metis sent_forward)+
  then show ?thesis using a2a_call_sends [OF called] by (auto dest!: poll_sends_at_most)
qed

lemma plain_answer_sends:
  assumes "plain_answer nw ad deadline m body a = (r, c)"
  shows "length (at_sent c) \<le> length (at_sent a) + (if r = Inr None then 0 else polls_bound deadline)"
proof (cases "\<exists>v t. parse_envelope nw m body = Inr v \<and> parse_stream_event v = Some (StreamTask t)")
  case True
  then obtain v t where v: "parse_envelope nw m body = Inr v" "parse_stream_event v = Some (StreamTask t)" by blast
  obtain u d where settled: "settle_task nw ad deadline t (a\<lparr>at_task := Some (wt_id t)\<rparr>) = (u, d)" by force
  have "at_sent c = at_sent d \<and> r = u"
    using assms by (auto simp: plain_answer_def v settled split: sum.splits option.splits settled.splits)
  then show ?thesis using settle_sends [OF settled] settle_answers [OF settled] by simp
next
  case False
  then have "at_sent c = at_sent a" using assms
    by (auto simp: plain_answer_def split: sum.splits call_error.splits option.splits stream_event.splits if_splits)
  then show ?thesis by simp
qed

lemma streaming_sends:
  assumes "run_streaming nw ad deadline prompt a = (r, c)"
  shows "length (at_sent c) \<le> length (at_sent a) + 1 + (if r = Inr None then 0 else polls_bound deadline)"
proof -
  let ?m = "wire_name send_streaming_message_m (pr_dialect (at_peer a))"
  obtain s b where posted: "post nw ad (Some deadline) (pr_url (at_peer a)) ?m (send_params (nw_uuid nw (at_uuids a)) prompt (pr_dialect (at_peer a)))
      None True (a\<lparr>at_uuids := Suc (at_uuids a)\<rparr>) = (s, b)" by force
  show ?thesis
  proof (cases s)
    case (Inl e)
    then show ?thesis using assms post_sends [OF posted] by (simp add: run_streaming_def Let_def posted)
  next
    case (Inr resp)
    obtain u d where read: "read_bounded nw (aa_id ad) (Some deadline) None resp b = (u, d)" by force
    obtain v e where chunks: "stream_chunks nw (aa_id ad) deadline ?m (hr_chunks resp) (hr_end resp) 0 [] new_follower b = (v, e)" by force
    have "at_sent d = at_sent b" "at_sent e = at_sent b"
      using silent.read_bounded_rel [OF read] silent.stream_chunks_rel [OF chunks] by simp_all
    moreover have "c = d \<or> (\<exists>body. plain_answer nw ad deadline ?m body d = (r, c)) \<or> c = e \<or> (\<exists>t. settle_task nw ad deadline t e = (r, c))"
      using assms by (auto simp: run_streaming_def Let_def posted Inr read chunks split: if_splits sum.splits option.splits)
    ultimately show ?thesis using post_sends [OF posted] settle_answers by (fastforce dest: plain_answer_sends settle_sends)
  qed
qed

lemma attempt_sends:
  assumes "run_attempt nw ad deadline prompt a = (r, c)"
  shows "length (at_sent c) \<le> length (at_sent a) + 3 + polls_bound deadline"
proof (cases "pr_streaming (at_peer a)")
  case True
  obtain s b where streamed: "run_streaming nw ad deadline prompt a = (s, b)" by force
  have "s \<noteq> Inr None \<and> c = b \<or> s = Inr None \<and> run_blocking nw ad deadline prompt b = (r, c)"
    using assms True by (auto simp: run_attempt_def streamed split: sum.splits option.splits)
  then show ?thesis using streaming_sends [OF streamed] by (auto dest!: blocking_sends)
qed (use assms blocking_sends in \<open>fastforce simp: run_attempt_def\<close>)

text \<open>The whole of an attempt: in time, with a bounded number of requests.\<close>

lemma execute_bounded:
  assumes "a2a_execute nw locked attempt request ad w = (r, a)"
  shows "at_elapsed a \<le> attempt_deadline request \<and> length (at_sent a) \<le> 4 + polls_bound (attempt_deadline request)"
proof -
  obtain s b where run: "run_attempt nw ad (attempt_deadline request) (xr_prompt request) (new_attempt (aa_peer ad) w) = (s, b)" by force
  have "at_elapsed b \<le> attempt_deadline request" "length (at_sent b) \<le> 3 + polls_bound (attempt_deadline request)"
    using in_time.run_attempt_rel [OF run] attempt_sends [OF run] by (simp_all add: new_attempt_def)
  moreover have "at_elapsed (drop_guard nw l tok b) = at_elapsed b" "length (at_sent (drop_guard nw l tok b)) \<le> Suc (length (at_sent b))" for l tok
    by (simp_all add: drop_guard_def Let_def split: option.split)
  moreover have "a = b \<or> (\<exists>l tok. a = drop_guard nw l tok b)" using assms by (cases s) (auto simp: a2a_execute_def run Let_def)
  ultimately show ?thesis by (metis (no_types, lifting) Suc_le_mono add_Suc eval_nat_numeral(2) le_SucI le_trans semiring_norm(26,27))
qed

lemma is_cancel_request: "is_cancel (cancel_request nw tok a i)"
  by (cases "pr_dialect (at_peer a)")
    (simp_all add: is_cancel_def request_method_def cancel_request_def post_body_def wire_name_def legacy_name_def legacy_methods_def method_defs)

text \<open>A peer is asked to cancel the task it is known to run when the attempt ends otherwise than with its result, and only then.\<close>

lemma execute_cancels:
  assumes "a2a_execute nw False attempt request ad w = (r, a)"
  shows "case (r, at_task a) of
      (Inl _, Some i) \<Rightarrow> \<exists>qs b. at_sent a = qs @ [cancel_request nw (authorize nw (aa_auth_handle ad)) b i] \<and> \<not> list_ex is_cancel qs \<and> at_peer b = at_peer a
    | _ \<Rightarrow> \<not> list_ex is_cancel (at_sent a)"
proof -
  obtain s b where run: "run_attempt nw ad (attempt_deadline request) (xr_prompt request) (new_attempt (aa_peer ad) w) = (s, b)" by force
  have none: "\<not> list_ex is_cancel (at_sent b)"
    using no_cancel.run_attempt_rel [OF run] by (simp add: asks_no_cancel_def new_attempt_def)
  show ?thesis
  proof (cases s)
    case (Inr st)
    then show ?thesis using assms none by (auto simp: a2a_execute_def run Let_def)
  next
    case (Inl e)
    then have a: "a = drop_guard nw False (authorize nw (aa_auth_handle ad)) b" and r: "r = Inl (attempt_error (aa_id ad) request e)"
      using assms by (auto simp: a2a_execute_def run Let_def)
    show ?thesis
    proof (cases "at_task b")
      case None
      then show ?thesis using a r none by (simp add: drop_guard_def)
    next
      case (Some i)
      then have "at_task a = Some i" "at_sent a = at_sent b @ [cancel_request nw (authorize nw (aa_auth_handle ad)) b i]" "at_peer a = at_peer b"
        by (simp_all add: a drop_guard_def Let_def)
      then show ?thesis using r none by auto
    qed
  qed
qed

section \<open>Where a client calls\<close>

text \<open>The host of an \<open>http\<close> URL: after the user information, before the port.\<close>

definition http_host :: "string \<Rightarrow> string option" where
  "http_host url =
     map_option (\<lambda>rest.
       let authority = takeWhile (\<lambda>c. c \<notin> {CHR ''/'', CHR ''?'', CHR ''#''}) rest;
           h = last (split_char (CHR ''@'') authority)
       in if prefix ''['' h then takeWhile (\<lambda>c. c \<noteq> CHR '']'') (tl h) else takeWhile (\<lambda>c. c \<noteq> CHR '':'') h)
     (strip_prefix ''http://'' url)"

definition this_machine :: "string set" where
  "this_machine = {''localhost'', ''127.0.0.1'', ''::1''}"

definition acceptable_endpoint :: "string \<Rightarrow> bool" where
  "acceptable_endpoint url \<longleftrightarrow> prefix ''https://'' url \<or> is_local_endpoint url"

lemma ensure_acceptable: "ensure_acceptable_endpoint dbg i url = Inr u \<Longrightarrow> acceptable_endpoint url"
  by (simp add: ensure_acceptable_endpoint_def acceptable_endpoint_def split: if_splits)

lemma new_adapter_acceptable: "new_adapter dbg i url = Inr ad \<Longrightarrow> acceptable_endpoint (pr_url (aa_peer ad))"
  by (auto simp: new_adapter_def split: sum.splits dest: ensure_acceptable)

lemma card_keeps_acceptable: "acceptable_endpoint (pr_url p) \<Longrightarrow> acceptable_endpoint (pr_url (peer_from_card dbg i c p))"
  by (auto simp: peer_from_card_def Let_def split: option.splits sum.splits prod.splits dest: ensure_acceptable)

lemma refresh_keeps_acceptable:
  assumes "refresh_from_card nw ad w = ((r, ad'), w')" "acceptable_endpoint (pr_url (aa_peer ad))"
  shows "acceptable_endpoint (pr_url (aa_peer ad'))"
  using assms card_keeps_acceptable by (auto simp: refresh_from_card_def Let_def split: prod.splits sum.splits)

lemma adapter_for_acceptable: "adapter_for dbg e = Some ad \<Longrightarrow> acceptable_endpoint (pr_url (aa_peer ad))"
  by (cases e; cases "ac_endpoint (snd e)"; cases "new_adapter dbg (AgentId (fst e)) (the (ac_endpoint (snd e)))")
    (auto simp: adapter_for_def split: if_splits dest!: new_adapter_acceptable)

lemma adapters_acceptable: "ad \<in> set (a2a_adapters dbg agents) \<Longrightarrow> acceptable_endpoint (pr_url (aa_peer ad))"
  using adapter_for_acceptable by (auto simp: a2a_adapters_def in_map_filter)

lemma hd_split_char: "hd (split_char c s) = takeWhile (\<lambda>x. x \<noteq> c) s"
proof (induction s)
  case (Cons x s)
  then show ?case by (cases "split_char c s") auto
qed simp

lemma takeWhile_of_takeWhile: "\<forall>c \<in> set (takeWhile P xs). Q c \<Longrightarrow> takeWhile P (takeWhile Q xs) = takeWhile P xs"
  by (induction xs) auto

lemma takeWhile_both: "takeWhile P (takeWhile Q xs) = takeWhile (\<lambda>c. P c \<and> Q c) xs"
  by (induction xs) auto

text \<open>Unless it names a user, an endpoint taken for local is.\<close>

lemma local_is_local:
  assumes "is_local_endpoint url" "CHR ''@'' \<notin> set url"
  shows "\<exists>h \<in> this_machine. http_host url = Some h"
proof -
  obtain rest where url: "strip_prefix ''http://'' url = Some rest" using assms(1) by (auto simp: is_local_endpoint_def split: option.splits)
  then have no_user: "CHR ''@'' \<notin> set rest" using assms(2) by (auto simp: strip_prefix_def dest: in_set_dropD split: if_splits)
  let ?query = "\<lambda>c. c \<noteq> CHR ''?'' \<and> c \<noteq> CHR ''#''"
  let ?long = "takeWhile (\<lambda>c. c \<noteq> CHR ''/'') rest"
  have "takeWhile (\<lambda>c. c \<notin> {CHR ''/'', CHR ''?'', CHR ''#''}) rest = takeWhile ?query ?long"
    unfolding takeWhile_both by (rule takeWhile_cong) auto
  then have short: "takeWhile (\<lambda>c. c \<noteq> CHR ''/'' \<and> c \<noteq> CHR ''?'' \<and> c \<noteq> CHR ''#'') rest = takeWhile ?query ?long" by simp
  have user: "last (split_char (CHR ''@'') (takeWhile ?query ?long)) = takeWhile ?query ?long"
    using no_user by (subst split_char_single) (auto dest!: set_takeWhileD)
  have host_is: "http_host url = Some (if prefix ''['' h then takeWhile (\<lambda>c. c \<noteq> CHR '']'') (tl h) else takeWhile (\<lambda>c. c \<noteq> CHR '':'') h)"
    if "h = takeWhile ?query ?long" for h
    using that user by (simp add: http_host_def url short Let_def)
  have plain: "\<forall>h \<in> this_machine. \<forall>c \<in> set h. ?query c" by (simp add: this_machine_def)
  show ?thesis
  proof (cases "prefix ''['' ?long")
    case True
    then obtain b where b: "?long = CHR ''['' # b" by (auto simp: prefix_def)
    then have host: "takeWhile (\<lambda>c. c \<noteq> CHR '']'') b \<in> this_machine"
      using assms(1) [unfolded is_local_endpoint_def url] by (simp add: hd_split_char Let_def strip_prefix_def this_machine_def)
    then have "takeWhile (\<lambda>c. c \<noteq> CHR '']'') (takeWhile ?query b) = takeWhile (\<lambda>c. c \<noteq> CHR '']'') b"
      using plain by (intro takeWhile_of_takeWhile) blast
    then show ?thesis using host host_is [OF refl] by (simp add: b)
  next
    case False
    then have host: "takeWhile (\<lambda>c. c \<noteq> CHR '':'') ?long \<in> this_machine"
      using assms(1) [unfolded is_local_endpoint_def url] by (simp add: hd_split_char Let_def strip_prefix_def this_machine_def)
    then have "takeWhile (\<lambda>c. c \<noteq> CHR '':'') (takeWhile ?query ?long) = takeWhile (\<lambda>c. c \<noteq> CHR '':'') ?long"
      using plain by (intro takeWhile_of_takeWhile) blast
    moreover have "\<not> prefix ''['' (takeWhile ?query ?long)" using False by (cases ?long) (auto split: if_splits)
    ultimately show ?thesis using host host_is [OF refl] by simp
  qed
qed

end
