(* ===== verification/A2A_Link.thy ===== *)
theory A2A_Link
  imports A2A_Attempts A2A_Runs
begin

text \<open>
  The client of \<open>A2A_Client\<close> calling the server of \<open>A2A_Server\<close>: what a task's end at the one becomes at the
  other, and what a deadline that passes at the one leaves running at the other. JSON text is a pair of functions; \<open>progress\<close> is
  what the server does while a call waits, and how long the call has to wait.
\<close>

section \<open>The link\<close>

definition json_response :: "nat \<Rightarrow> string \<Rightarrow> http_response" where
  "json_response status text =
     \<lparr>hr_status = status, hr_retry_after = None, hr_content_type = Some ''application/json'', hr_length = Some (length text),
      hr_chunks = [(0, text)], hr_end = (0, None)\<rparr>"

definition rpc_request_of :: "json \<Rightarrow> request" where
  "rpc_request_of b =
     (case Option.bind (json_get ''method'' b) as_str of
        None \<Rightarrow> Inl ''missing field method''
      | Some m \<Rightarrow>
          Inr (case json_get ''id'' b of Some i \<Rightarrow> i | None \<Rightarrow> JNull, m, case json_get ''params'' b of Some p \<Rightarrow> p | None \<Rightarrow> JNull))"

definition link_send ::
  "(json \<Rightarrow> string) \<Rightarrow> (string \<Rightarrow> string) \<Rightarrow> fresh \<Rightarrow> (a2a_server \<Rightarrow> nat \<times> a2a_server) \<Rightarrow> http_request \<Rightarrow> a2a_server \<Rightarrow>
   nat \<times> (http_failure \<times> string + http_response) \<times> a2a_server" where
  "link_send to_text dbg fr progress q sv =
     (case hq_body q of
        None \<Rightarrow> (0, Inr (json_response 404 []), sv)
      | Some b \<Rightarrow>
          (case serve_rpc dbg fr (map_option (\<lambda>t. ''Bearer '' @ t) (hq_token q)) (rpc_request_of b) sv of
             (None, sv) \<Rightarrow> (0, Inr (json_response 401 []), sv)
           | (Some (ReplyJson v), sv) \<Rightarrow> (0, Inr (json_response 200 (to_text v)), sv)
           | (Some (ReplyStream _), sv) \<Rightarrow> (0, Inl (HttpFailed, ''stream''), sv)
           | (Some (ReplyWhenSettled i d c), sv) \<Rightarrow>
               (case progress sv of
                  (t, sv) \<Rightarrow>
                    (case settled_reply (fr_message fr 1) sv (ReplyWhenSettled i d c) of
                       Some v \<Rightarrow> (t, Inr (json_response 200 (to_text v)), sv)
                     | None \<Rightarrow> (t, Inl (HttpFailed, ''closed''), sv)))))"

section \<open>One call\<close>

definition call_request :: "'w network \<Rightarrow> a2a_adapter \<Rightarrow> string \<Rightarrow> string \<Rightarrow> json \<Rightarrow> 'w a2a_attempt \<Rightarrow> http_request" where
  "call_request nw ad url m params a =
     \<lparr>hq_url = url, hq_token = authorize nw (aa_auth_handle ad), hq_sse = False, hq_body = Some (post_body (nw_uuid nw (at_uuids a)) m params)\<rparr>"

lemma call_answered:
  assumes "nw_send nw (call_request nw ad url m params a) (at_world a) = (t, Inr (json_response 200 text), w)"
    and "at_elapsed a + t < deadline" "nw_parse nw text = Inr v" "envelope_of v = Some (Some result, None)"
    and "utf8_valid text" "length text \<le> max_response_bytes"
  shows "call_raw nw ad (Some deadline) url m params None a =
    (Inr result, a\<lparr>at_world := w, at_elapsed := at_elapsed a + t, at_uuids := Suc (at_uuids a), at_sent := at_sent a @ [call_request nw ad url m params a]\<rparr>)"
proof -
  have posted: "post nw ad (Some deadline) url m params None False a =
      (Inr (json_response 200 text), a\<lparr>at_world := w, at_elapsed := at_elapsed a + t, at_uuids := Suc (at_uuids a),
        at_sent := at_sent a @ [call_request nw ad url m params a]\<rparr>)"
    using assms(1,2) by (simp add: post_def exchange_def call_request_def wait_for_def Let_def json_response_def)
  show ?thesis using assms(2-)
    by (simp add: call_raw_def posted read_bounded_def json_response_def wait_for_def Let_def parse_envelope_def)
qed

lemma call_overrun:
  assumes "nw_send nw (call_request nw ad url m params a) (at_world a) = (t, r, w)" "deadline \<le> at_elapsed a + t" "at_elapsed a \<le> deadline"
  shows "call_raw nw ad (Some deadline) url m params None a =
    (Inl CallDropped, a\<lparr>at_world := w, at_elapsed := deadline, at_uuids := Suc (at_uuids a), at_sent := at_sent a @ [call_request nw ad url m params a]\<rparr>)"
proof -
  have "post nw ad (Some deadline) url m params None False a =
      (Inl CallDropped, a\<lparr>at_world := w, at_elapsed := deadline, at_uuids := Suc (at_uuids a), at_sent := at_sent a @ [call_request nw ad url m params a]\<rparr>)"
    using assms by (simp add: post_def exchange_def call_request_def wait_for_def Let_def)
  then show ?thesis by (simp add: call_raw_def)
qed

section \<open>Sending a message to CUMA\<close>

text \<open>The message a client that does not stream begins with.\<close>

definition first_params :: "'w network \<Rightarrow> a2a_adapter \<Rightarrow> execution_request \<Rightarrow> json" where
  "first_params nw ad request = send_params (nw_uuid nw 0) (xr_prompt request) (pr_dialect (aa_peer ad))"

definition first_attempt :: "a2a_adapter \<Rightarrow> 'w \<Rightarrow> 'w a2a_attempt" where
  "first_attempt ad w = (new_attempt (aa_peer ad) w)\<lparr>at_uuids := 1\<rparr>"

definition first_request :: "'w network \<Rightarrow> a2a_adapter \<Rightarrow> execution_request \<Rightarrow> 'w \<Rightarrow> http_request" where
  "first_request nw ad request w =
     call_request nw ad (pr_url (aa_peer ad)) (wire_name send_message_m (pr_dialect (aa_peer ad))) (first_params nw ad request) (first_attempt ad w)"

lemma wire_send_message: "(is_legacy (wire_name send_message_m d) \<longleftrightarrow> d = Legacy) \<and> canonical_method (wire_name send_message_m d) = send_message_m"
  by (cases d) (simp_all only:, code_simp+)

lemma waits_for_reply: "\<not> return_immediately d (send_params mid prompt d)"
  by (cases d) (simp_all add: return_immediately_def send_params_def json_bool_def json_pointer_def)

lemma link_starts:
  assumes "sv_tokens sv = []" "a2a_start fr (first_params nw ad request) sv = (Inr (i, c), sv1)" "progress sv1 = (t, sv2)"
  shows "link_send to_text dbg fr progress (first_request nw ad request w) sv =
    (t, (if wire_settled (wt_state (chan_task sv2 c))
         then Inr (json_response 200 (to_text (rpc_result (JString (nw_uuid nw 1)) (send_result_json (fr_message fr 1) (chan_task sv2 c) (pr_dialect (aa_peer ad))))))
         else Inl (HttpFailed, ''closed'')), sv2)"
proof -
  let ?d = "pr_dialect (aa_peer ad)"
  have "rpc_request_of (post_body (nw_uuid nw 1) (wire_name send_message_m ?d) (first_params nw ad request)) =
      Inr (JString (nw_uuid nw 1), wire_name send_message_m ?d, first_params nw ad request)"
    by (simp add: rpc_request_of_def post_body_def)
  moreover have "\<not> return_immediately ?d (first_params nw ad request)" by (simp add: first_params_def waits_for_reply)
  then have "handle dbg fr (Inr (JString (nw_uuid nw 1), wire_name send_message_m ?d, first_params nw ad request)) sv =
      (ReplyWhenSettled (JString (nw_uuid nw 1)) ?d c, sv1)"
    by (cases ?d) (simp_all add: handle_def wire_send_message send_message_def assms(2))
  ultimately show ?thesis
    by (simp add: link_send_def first_request_def call_request_def first_attempt_def serve_rpc_def is_authorized_def assms(1,3) settled_reply_def)
qed

lemma blocking_attempt:
  assumes "\<not> pr_streaming (aa_peer ad)"
  shows "run_attempt nw ad deadline (xr_prompt request) (new_attempt (aa_peer ad) w) =
    (case a2a_call nw ad (Some deadline) send_message_m (first_params nw ad request) None (first_attempt ad w) of
       (Inl e, a) \<Rightarrow> (Inl e, a)
     | (Inr result, a) \<Rightarrow>
         (case parse_send_result result of
            None \<Rightarrow> (Inl (CallOther (EAgent (aa_id ad) ''SendMessage returned neither a task nor a message'' InvalidResponse)), a)
          | Some (SentMessage text) \<Rightarrow> (Inr (SettledMessage text), forward text a)
          | Some (SentTask t) \<Rightarrow>
              (case poll_until_settled nw ad deadline 0 t (a\<lparr>at_task := Some (wt_id t)\<rparr>) of
                 (Inl e, a) \<Rightarrow> (Inl e, a)
               | (Inr t, a) \<Rightarrow> (Inr (SettledTask t), forward (wire_text t) a))))"
  using assms by (simp add: run_attempt_def run_blocking_def new_attempt_def first_params_def first_attempt_def)

lemma envelope_of_result: "v \<noteq> JNull \<Longrightarrow> envelope_of (rpc_result i v) = Some (Some v, None)"
  by (simp add: envelope_of_def rpc_result_def nullable_def)

text \<open>The task settles in time: the client reports what it came to.\<close>

lemma cuma_outcome:
  assumes plain: "\<not> pr_streaming (aa_peer ad)" and net: "nw_send nw = link_send to_text dbg fr progress"
    and start: "sv_tokens sv = []" "a2a_start fr (first_params nw ad request) sv = (Inr (i, c), sv1)" "progress sv1 = (t, sv2)"
    and tk: "tk = chan_task sv2 c" "wire_settled (wt_state tk)" "clean_task tk" "t < attempt_deadline request"
    and reply: "v = rpc_result (JString (nw_uuid nw 1)) (send_result_json (fr_message fr 1) tk (pr_dialect (aa_peer ad)))"
      "nw_parse nw (to_text v) = Inr v" "utf8_valid (to_text v)" "length (to_text v) \<le> max_response_bytes"
  shows "\<exists>a. a2a_execute nw locked attempt request ad sv = (Inr (a2a_outcome attempt (aa_id ad) request (SettledTask tk) t), a) \<and>
    at_world a = sv2 \<and> at_sent a = [first_request nw ad request sv]"
proof -
  note text_ok = reply(2-4) [unfolded reply(1)]
  let ?d = "pr_dialect (aa_peer ad)" and ?a = "first_attempt ad sv"
  let ?v = "send_result_json (fr_message fr 1) tk ?d"
  let ?b = "?a\<lparr>at_world := sv2, at_elapsed := t, at_uuids := 2, at_sent := [first_request nw ad request sv]\<rparr>"
  have start_facts: "at_elapsed ?a = 0" "at_world ?a = sv" "at_uuids ?a = 1" "at_sent ?a = []" "at_peer ?a = aa_peer ad"
    by (simp_all add: first_attempt_def new_attempt_def)
  have not_null: "?v \<noteq> JNull" by (cases ?d) (simp_all add: send_result_json_def task_json_def)
  have "call_raw nw ad (Some (attempt_deadline request)) (pr_url (aa_peer ad)) (wire_name send_message_m ?d) (first_params nw ad request) None ?a = (Inr ?v, ?b)"
    using call_answered [of nw ad "pr_url (aa_peer ad)" "wire_name send_message_m ?d" "first_params nw ad request" ?a t
        "to_text (rpc_result (JString (nw_uuid nw 1)) ?v)" sv2 "attempt_deadline request" "rpc_result (JString (nw_uuid nw 1)) ?v" ?v]
      link_starts [where progress = progress and to_text = to_text and dbg = dbg and w = sv, OF start] tk envelope_of_result [OF not_null] text_ok
    by (simp add: net start_facts first_request_def)
  then have "a2a_call nw ad (Some (attempt_deadline request)) send_message_m (first_params nw ad request) None ?a = (Inr ?v, ?b)"
    by (simp add: a2a_call_def start_facts)
  then have "run_attempt nw ad (attempt_deadline request) (xr_prompt request) (new_attempt (aa_peer ad) sv) =
      (Inr (SettledTask tk), forward (wire_text tk) (?b\<lparr>at_task := Some (wt_id tk)\<rparr>))"
    using tk(2) by (simp add: blocking_attempt [OF plain] parse_sent_task [OF tk(3)] poll_until_settled.simps)
  then show ?thesis by (simp add: a2a_execute_def forward_def)
qed

text \<open>The deadline passes first: the client knows no task to cancel.\<close>

lemma cuma_overrun:
  assumes plain: "\<not> pr_streaming (aa_peer ad)" and net: "nw_send nw = link_send to_text dbg fr progress"
    and start: "sv_tokens sv = []" "a2a_start fr (first_params nw ad request) sv = (Inr (i, c), sv1)" "progress sv1 = (t, sv2)"
    and late: "attempt_deadline request \<le> t"
  shows "\<exists>a. a2a_execute nw locked attempt request ad sv = (Inl (attempt_error (aa_id ad) request CallDropped), a) \<and>
    at_world a = sv2 \<and> at_sent a = [first_request nw ad request sv]"
proof -
  let ?d = "pr_dialect (aa_peer ad)" and ?a = "first_attempt ad sv"
  let ?b = "?a\<lparr>at_world := sv2, at_elapsed := attempt_deadline request, at_uuids := 2, at_sent := [first_request nw ad request sv]\<rparr>"
  have start_facts: "at_elapsed ?a = 0" "at_world ?a = sv" "at_uuids ?a = 1" "at_sent ?a = []" "at_peer ?a = aa_peer ad" "at_task ?a = None"
    by (simp_all add: first_attempt_def new_attempt_def)
  have "call_raw nw ad (Some (attempt_deadline request)) (pr_url (aa_peer ad)) (wire_name send_message_m ?d) (first_params nw ad request) None ?a =
      (Inl CallDropped, ?b)"
    using call_overrun [of nw ad "pr_url (aa_peer ad)" "wire_name send_message_m ?d" "first_params nw ad request" ?a t _ sv2 "attempt_deadline request"]
      link_starts [where progress = progress and to_text = to_text and dbg = dbg and w = sv, OF start] late
    by (simp add: net start_facts first_request_def)
  then have "a2a_call nw ad (Some (attempt_deadline request)) send_message_m (first_params nw ad request) None ?a = (Inl CallDropped, ?b)"
    by (simp add: a2a_call_def start_facts lift_error_def)
  then have "run_attempt nw ad (attempt_deadline request) (xr_prompt request) (new_attempt (aa_peer ad) sv) = (Inl CallDropped, ?b)"
    by (simp add: blocking_attempt [OF plain])
  then show ?thesis by (simp add: a2a_execute_def drop_guard_def start_facts)
qed

text \<open>The run started for it goes on.\<close>

lemma drive_keeps_aborted: "map rn_aborted (sv_runs (drive_step mid now r p sv)) = map rn_aborted (sv_runs sv)"
proof -
  have kept: "map rn_aborted (sv_runs (update_run r (\<lambda>x. x\<lparr>rn_phase := ph\<rparr>) sv)) = map rn_aborted (sv_runs sv)" for ph sv
    by (cases "r < length (sv_runs sv)") (simp_all add: update_run_def map_update list_update_same_conv list_update_beyond)
  have "sv_runs (set_task mid now c f sv) = sv_runs sv" "sv_runs (update_channel c g sv) = sv_runs sv" for c f g
    by (simp_all add: set_task_def persist_def update_channel_def Let_def)
  then show ?thesis by (simp add: drive_step_def Let_def kept split: run_phase.split poll.split)
qed

lemma drives_keep_aborted: "map rn_aborted (sv_runs (fold (\<lambda>(mid, now, r, p). drive_step mid now r p) steps sv)) = map rn_aborted (sv_runs sv)"
  by (induction steps arbitrary: sv) (auto simp: drive_keeps_aborted)

lemma make_room_runs: "make_room sv = (ev, sv') \<Longrightarrow> sv_runs sv' = sv_runs sv"
proof (induction sv arbitrary: ev sv' rule: make_room.induct)
  case (1 sv)
  then show ?case by (fastforce simp: make_room.simps [of sv] split: if_splits option.splits prod.splits)
qed

lemma start_adds_run:
  assumes "a2a_start fr params sv = (Inr (i, c), sv1)"
  shows "map rn_aborted (sv_runs sv1) = map rn_aborted (sv_runs sv) @ [False]"
proof -
  have forgets: "sv_runs (fold forget ev sv) = sv_runs sv" for ev and sv :: a2a_server
    by (induction ev arbitrary: sv) (simp_all add: forget_def)
  show ?thesis using assms
    by (auto simp: a2a_start_def start_run_def Let_def attach_handle_def spawn_run_def persist_def insert_entry_def forgets
        split: if_splits prod.splits option.splits sum.splits dest!: make_room_runs)
qed

section \<open>An example\<close>

definition ex_link_fresh :: fresh where
  "ex_link_fresh = \<lparr>fr_context = ''c'', fr_task = ''t'', fr_now = ''now'', fr_message = \<lambda>_. ''m''\<rparr>"

definition ex_link_adapter :: a2a_adapter where
  "ex_link_adapter =
     \<lparr>aa_id = AgentId ''cuma'', aa_endpoint = ''https://peer/'', aa_auth_handle = None,
      aa_peer = \<lparr>pr_url = ''https://peer/'', pr_dialect = V1, pr_streaming = False\<rparr>, aa_descriptor = new_agent (AgentId ''cuma'') ''cuma'' A2A\<rparr>"

definition ex_link_request :: execution_request where
  "ex_link_request =
     \<lparr>xr_task = new_task (TaskId ''x'') (new_spec ''fix'' BugFix), xr_model = None, xr_prompt = ''fix it'', xr_workspace = ''/w'',
      xr_handoff = None, xr_timeout_ms = 1000\<rparr>"

definition ex_link_server :: a2a_server where
  "ex_link_server = new_server (new_card ''CUMA'' ''https://peer/'')"

definition ex_link_network :: "json \<Rightarrow> nat \<Rightarrow> (a2a_server \<Rightarrow> a2a_server) \<Rightarrow> a2a_server network" where
  "ex_link_network v t steps =
     \<lparr>nw_send = link_send (\<lambda>_. ''reply'') (\<lambda>s. s) ex_link_fresh (\<lambda>sv. (t, steps sv)), nw_timed_out = ''timed out'', nw_parse = \<lambda>_. Inr v,
      nw_shape = \<lambda>_. ''shape'', nw_card = \<lambda>_. Inl ''no card'', nw_card_root = \<lambda>_. None, nw_status = \<lambda>_. [], nw_debug = \<lambda>s. s,
      nw_secret = \<lambda>_. None, nw_uuid = \<lambda>_. ''u''\<rparr>"

definition ex_link_params :: json where
  "ex_link_params = send_params ''u'' ''fix it'' V1"

definition ex_link_started :: a2a_server where
  "ex_link_started = snd (a2a_start ex_link_fresh ex_link_params ex_link_server)"

lemma ex_link_params: "first_params (ex_link_network v t steps) ex_link_adapter ex_link_request = ex_link_params"
  by (simp add: first_params_def ex_link_network_def ex_link_adapter_def ex_link_request_def ex_link_params_def)

lemma ex_link_start: "a2a_start ex_link_fresh ex_link_params ex_link_server = (Inr (''t'', 0), ex_link_started)"
proof -
  have "goal_from_params ex_link_params = ''fix it''" "Option.bind (json_pointer [''message'', ''taskId''] ex_link_params) as_str = None"
    by code_simp+
  then have "fst (a2a_start ex_link_fresh ex_link_params ex_link_server) = Inr (''t'', 0)"
    by (simp add: a2a_start_def start_run_def ex_link_server_def new_server_def active_tasks_def max_active_tasks_def make_room.simps
        max_retained_tasks_def ex_link_fresh_def Let_def)
  then show ?thesis by (simp add: ex_link_started_def prod_eq_iff)
qed

end
