(* ===== verification/Spec2Isabelle.thy ===== *)
theory Spec2Isabelle
  imports Examples Interface_Examples Acp_Examples A2A_Link
begin

text \<open>
  This library models \<open>cuma\<close>, an orchestrator that plans a goal as a graph of tasks and runs them on
  coding agents. It follows the crates under \<open>src/crates/\<close>; names are those of the Rust code, with a
  prefix where they clash.

  \<^bold>\<open>How the program works.\<close> A session (\<open>cuma-orchestrator/src/executor.rs\<close>) asks a planner for a task
  graph, validates it, and runs it in passes. A pass takes the ready tasks, admits those whose predicted
  writes do not overlap (\<open>cuma-workspace/src/ownership.rs\<close>), and runs the admitted ones concurrently as a
  wave, each on its own copy of the graph. A task loops: route to the best eligible target
  (\<open>cuma-router\<close>, over the registries and the circuit breakers), invoke the agent, account for the attempt
  (\<open>cuma-usage\<close>, routing history, registries, breakers, events), and on a failure ask the retry policy
  (\<open>cuma-resilience\<close>) whether to retry, reroute with a handoff, replan or give up. When the wave has
  ended the rows of its tasks are folded back and failures cascade to their dependents.

  \<^bold>\<open>Which theory models what.\<close>
  \<^item> \<open>Cuma_Prelude\<close>, \<open>F64\<close>, \<open>BTree\<close>: what the code uses of Rust's standard library: saturating words,
    trimming, splitting and case of UTF-8 byte strings, binary64 arithmetic with round to nearest even,
    ordered maps and sets as sorted lists.
  \<^item> \<open>Ids\<close>, \<open>Errors\<close>, \<open>Capability\<close>, \<open>Agent\<close>, \<open>Task\<close>, \<open>Task_Graph\<close>: \<open>cuma-core/src/\<close> \<open>ids.rs\<close>, \<open>error.rs\<close>,
    \<open>capability.rs\<close>, \<open>agent.rs\<close>, \<open>task.rs\<close>, and \<open>cuma-resilience/src/classify.rs\<close>.
    \<open>Kahn\<close> proves the validation of graphs against acyclicity; \<open>Schedule\<close> the ready set and the cascade.
  \<^item> \<open>Step_System\<close>: the interfaces the stateful components share, as locales: an invariant kept by every
    event, and a frame condition for what an event does not name. Registry, history, breakers and ledger
    interpret them.
  \<^item> \<open>Retry\<close>, \<open>Breaker\<close>: \<open>cuma-resilience/src/\<close> \<open>retry.rs\<close>, \<open>breaker.rs\<close>.
  \<^item> \<open>Config\<close>, \<open>Sandbox_Config\<close>, \<open>Config_Layers\<close>: \<open>cuma-config/src/\<close> \<open>model.rs\<close>, \<open>sandbox.rs\<close>, and \<open>merge.rs\<close>,
    \<open>env.rs\<close> with \<open>lib.rs\<close>: the sections and their validation, the merge of the files over the defaults, the
    variables over both. The locale \<open>layered_field\<close> is the contract of a field that layers override; the
    fields interpret it.
  \<^item> \<open>Adaptive\<close>, \<open>Score\<close>, \<open>Router\<close>: \<open>cuma-router/src/\<close> \<open>adaptive.rs\<close>, \<open>score.rs\<close>, \<open>router.rs\<close> and \<open>explain.rs\<close>.
    \<open>Router\<close> also holds the specification of routing (eligible targets, ranked) that the walk with its
    reads of the breakers refines.
  \<^item> \<open>Registry\<close>, \<open>Usage\<close>: \<open>cuma-registry/src/\<close> \<open>agents.rs\<close>, \<open>capabilities.rs\<close>, \<open>models.rs\<close> and \<open>cuma-usage/src/lib.rs\<close>.
  \<^item> \<open>Paths\<close>, \<open>Ownership\<close>, \<open>Guard\<close>: \<open>cuma-workspace/src/\<close> \<open>index.rs\<close>, \<open>ownership.rs\<close>, \<open>guard.rs\<close>.
    \<open>Wrappers\<close>: \<open>rtk.rs\<close> and \<open>sandbox.rs\<close>, what is put in front of a command. \<open>Confine\<close>: \<open>confine.rs\<close>, the
    profile of an agent, its rendering for each runtime, and what bubblewrap's mounts make of it.
  \<^item> \<open>Context\<close>, \<open>Planner\<close>, \<open>Events\<close>: \<open>cuma-core/src/handoff.rs\<close> with \<open>cuma-orchestrator/src/context.rs\<close>,
    \<open>cuma-planner/src/heuristic.rs\<close>, \<open>cuma-core/src/event.rs\<close>.
  \<^item> \<open>Executor\<close>, \<open>Task_Run\<close>: \<open>execute_task\<close> as a state machine. A \<open>phase\<close> is a point at which the task awaits;
    \<open>task_step\<close> runs from one to the next on the state all tasks share (\<open>shared\<close>). \<open>Task_Run\<close> proves what
    holds of a task when the shared state may change arbitrarily between its steps.
  \<^item> \<open>Session\<close>, \<open>Progress\<close>: admission, waves under an arbitrary scheduler, folding of results, passes and
    sessions; and that they come to an end with every task settled. The locale \<open>session_planner\<close> states
    what a session needs of its planner and the heuristic planner interprets it.
  \<^item> \<open>A2A_Wire\<close>, \<open>A2A_Server\<close>, \<open>A2A_Runs\<close>: \<open>cuma-protocol-a2a/src/\<close> \<open>wire.rs\<close> with \<open>card.rs\<close>, and \<open>server.rs\<close>: the
    vocabulary in both dialects, the server's calls and the runs it spawns, and the server as a state
    machine (\<open>a2a_next\<close>, \<open>a2a_reachable\<close>) with its invariant.
  \<^item> \<open>Skill_Files\<close>, \<open>Skill_Policy\<close>, \<open>Skill_Registries\<close>, \<open>Skills\<close>, \<open>Skill_Faults\<close>: \<open>cuma-skills/src/\<close>: packages and their
    digests (\<open>package.rs\<close>, \<open>integrity.rs\<close>), signatures, validation and generation (\<open>validation.rs\<close>,
    \<open>creation.rs\<close>), the registries (\<open>local.rs\<close>, \<open>index.rs\<close>, \<open>git.rs\<close>) against the locale \<open>skill_source\<close>, and the
    manager (\<open>manager.rs\<close>) as a \<open>step_system\<close> whose file operations may fail. Its guides are what
    \<open>Executor\<close> puts in prompts.
  \<^item> \<open>Llm_Planner\<close>: \<open>cuma-planner/src/llm.rs\<close>: the plan read from a model's reply, and the fall back on \<open>Planner\<close>. It
    interprets \<open>session_planner\<close> as well.
  \<^item> \<open>Announcements\<close>, \<open>Interface\<close>, \<open>Interface_Runs\<close>: the events of a session as a whole (every \<open>publish\<close> of
    \<open>executor.rs\<close>), and \<open>cuma-tui/src/\<close> \<open>state.rs\<close>, \<open>view.rs\<close>, \<open>app.rs\<close>: the view model they are folded into, the text
    of the screens, the keys, and the loop as a \<open>step_system\<close>.
  \<^item> \<open>Sse\<close>, \<open>A2A_Client\<close>, \<open>A2A_Attempts\<close>, \<open>A2A_Link\<close>: \<open>cuma-protocol-a2a/src/client.rs\<close>: event streams, the calls of a
    client with their failures and times, and discovery. \<open>A2A_Attempts\<close> has the locales \<open>attempt_relation\<close> and \<open>timed_relation\<close>: what every wait
    and request keeps, an attempt keeps. \<open>A2A_Link\<close> puts client and server together. Polling ends because each wait uses up the deadline.
  \<^item> \<open>Acp_Sessions\<close>, \<open>Acp_Server\<close>, \<open>Acp_Runs\<close>: \<open>cuma-server-acp/src/\<close> \<open>session.rs\<close> with \<open>workspaces.rs\<close>, \<open>translate.rs\<close> with
    \<open>lib.rs\<close>: the sessions of clients with their files, the pool of orchestrators, and the server as a machine of
    concurrent tasks (\<open>acp_step\<close>) with its invariant. Building an orchestrator is one step.
  \<^item> \<open>Examples\<close>, \<open>Skill_Examples\<close>, \<open>Interface_Examples\<close>, \<open>Acp_Examples\<close>: concrete inputs for the witnesses.

  \<^bold>\<open>Parameters.\<close> What the code calls but does not contain is an argument: the agents' answers, clocks,
  random numbers, worktrees and memory (\<open>attempt_env\<close>, \<open>task_env\<close>), the scheduler, the planner, the power
  function of binary64, the test for alphanumeric characters, the lower-casing of Unicode text and the
  freshness of generated identifiers. Effects on memory and git are recorded as calls in the shared state.

  \<^bold>\<open>Fuel and bounds.\<close> A wave of \<open>n\<close> tasks is given \<open>wave_fuel oc n\<close> steps: each task takes two steps per
  attempt and three to start, stop and settle, and attempts are bounded by the retry policy; \<open>run_wave_ok\<close>
  shows that this suffices. The cascade is given one round per task and one more, the graph loop the passes
  \<open>max_passes\<close> the code allows itself; both are shown to be enough. Counters are words of the code's width.

  \<^bold>\<open>Not modelled.\<close> The clients of agents over ACP and of tool servers over MCP, the model providers, the sandbox providers,
  persistence and the memory stores talk to processes, databases and networks; the command line parses
  arguments and prints.
\<close>

section \<open>Sessions and waves\<close>









text \<open>C5. Two tasks admitted to one wave, both allowed to write, never claim overlapping parts of the
  workspace.\<close>

theorem admitted_writers_apart:
  assumes "ledger_ok l" "admit_concurrently alnum index g ready l = (admitted, l')"
    "i \<in> set admitted" "j \<in> set admitted" "i \<noteq> j" "graph_get g i = Some t" "graph_get g j = Some u"
    "ts_risk (tk_spec t) \<noteq> ReadOnly" "ts_risk (tk_spec u) \<noteq> ReadOnly"
    "p \<in> set (task_writes alnum index g t)" "q \<in> set (task_writes alnum index g u)"
  shows "\<not> key_overlaps (claim_key p) (claim_key q)"
  by (rule admitted_apart [OF assms(1), of i alnum index g ready j]) (use assms in simp_all)

theorem admitted_writers_apart_witness: "\<not> key_overlaps (claim_key ''a/b'') (claim_key ''c/d'')"
proof -
  obtain l where "admit_concurrently (\<lambda>c. True) None ex_pair [TaskId ''t'', TaskId ''u''] new_ledger =
      ([TaskId ''t'', TaskId ''u''], l)"
    using ex_admitted by blast
  from admitted_writers_apart [OF ledger_ok_new this, of "TaskId ''t''" "TaskId ''u''"] show ?thesis
    by (simp add: ex_pair_get ex_writes)
qed



section \<open>Routing\<close>

text \<open>C8. The router filters and ranks: the decision is the head of the ranked list of the scores of all
  eligible targets of the snapshot, with the next five as alternatives; every other target, or the agent
  as a whole, is among the rejections, in snapshot order; and without an eligible target the task is
  refused with a routing error. Reading the breakers during the walk changes nothing the walk sees.\<close>

theorem route_filters_and_ranks:
  "\<exists>rejected br'. rejected_ids rejected = concat (map (rejections_of clk (ro_config ro) br rq) (rq_snapshot rq)) \<and>
     drift clk br br' \<and>
     route clk ro rq br =
       (case rank_candidates (candidates_of clk ro br rq) of
          [] \<Rightarrow> (Inl (ERouting (tk_id (rq_task rq)) (no_route_reason rejected)), br')
        | selected # others \<Rightarrow>
            (Inr \<lparr>rd_selected = selected, rd_alternatives = take max_alternatives others, rd_rejected = rejected,
                  rd_weights = router_weights_of ro, rd_strategy = rc_strategy (ro_config ro)\<rparr>, br'))"
  by (rule route_refines)

text \<open>No eligible target scores higher than the selected one, when the router's weights, history and
  the inputs to the scores are numbers in range.\<close>

theorem route_selects_best:
  assumes "router_ok ro" "task_ok (rq_task rq)"
    "\<forall>(agent, model) \<in> set (snapshot_targets (rq_snapshot rq)). target_ok agent model"
    "route clk ro rq br = (Inr d, br')"
    "(agent, model) \<in> set (snapshot_targets (rq_snapshot rq))" "eligible clk (ro_config ro) br rq (agent, model)"
  shows "fle (total_of (score_candidate ro rq agent model)) (total_of (rd_selected d))"
proof -
  let ?cs = "candidates_of clk ro br rq"
  have ok: "\<forall>c \<in> set ?cs. fle f0 (total_of c)"
    using assms(1-3) score_candidate_ok by (fastforce simp: candidates_of_def breakdown_ok_def)
  then have num: "\<forall>c \<in> set ?cs. total_of c \<noteq> NaN" by auto
  obtain others where ranked: "rank_candidates ?cs = rd_selected d # others"
    using route_refines [of clk ro br rq] unfolding assms(4) by (cases "rank_candidates ?cs") (clarsimp, fastforce)
  have "score_candidate ro rq agent model \<in> set (rank_candidates ?cs)"
    using assms(5,6) by (auto simp: candidates_of_def)
  moreover have "fle (total_of (rd_selected d)) (total_of (rd_selected d))"
    using ok ranked set_rank_candidates [of ?cs] by (metis fle_refl list.set_intros(1) num)
  ultimately show ?thesis using rank_candidates_sorted [OF num] by (auto simp: ranked)
qed

theorem route_selects_best_witness:
  "\<exists>d br'. route (\<lambda>a m. 0) ex_router (new_request ex_task [ex_agent]) ex_breakers = (Inr d, br') \<and>
     fle (total_of (score_candidate ex_router (new_request ex_task [ex_agent]) ex_agent None)) (total_of (rd_selected d))"
proof -
  let ?rq = "new_request ex_task [ex_agent]"
  have rq: "rq_task ?rq = ex_task" "rq_snapshot ?rq = [ex_agent]" "rq_exclude_targets ?rq = []" "rq_budget_usd ?rq = None"
    by (simp_all add: new_request_def)
  have el: "eligible (\<lambda>a m. 0) (ro_config ex_router) ex_breakers ?rq (ex_agent, None)"
    by (rule ex_eligible) (simp_all add: rq ex_router_def default_router_config_def)
  obtain d br' where "route (\<lambda>a m. 0) ex_router ?rq ex_breakers = (Inr d, br')"
    using route_eligible [OF _ el] by (auto simp: rq ex_targets)
  with route_selects_best [OF ex_router_ok, of ?rq "\<lambda>a m. 0" ex_breakers d br' ex_agent None] el ex_task_ok ex_target_ok
  show ?thesis by (simp add: rq ex_targets)
qed



section \<open>The task graph\<close>

text \<open>C36. \<open>validate\<close> accepts exactly the graphs whose dependencies exist, form no cycle, and are not
  listed twice by one task. (The last clause is a surprise: a duplicated dependency is reported as a
  cycle.)\<close>

theorem validate_accepts_exactly:
  assumes "graph_wf g"
  shows "graph_validate g = Inr () \<longleftrightarrow> closed_deps g \<and> acyclic (dep_edges g) \<and> (\<forall>i. distinct (gdeps g i))"
  by (rule graph_validate_iff [OF assms])

theorem validate_accepts_exactly_witness:
  "graph_validate ex_graph = Inr () \<longleftrightarrow>
     closed_deps ex_graph \<and> acyclic (dep_edges ex_graph) \<and> (\<forall>i. distinct (gdeps ex_graph i))"
  by (rule validate_accepts_exactly) (use ex_valid in \<open>simp add: valid_graph_def\<close>)

text \<open>C37. \<open>cascade_skip\<close> returns, and it skips exactly the unsettled tasks that reach the failed one
  through unsettled tasks, each once; nothing else in the graph changes.\<close>

theorem cascade_skips_exactly_the_blocked:
  assumes "graph_wf g"
  shows "\<exists>ids. cascade_skip f g = Some (mark_skipped ids g, ids) \<and> distinct ids \<and> set ids = {i. blocked g f i} \<and>
    (\<forall>i. graph_get (mark_skipped ids g) i =
       map_option (\<lambda>t. if blocked g f i then t\<lparr>tk_status := Skipped\<rparr> else t) (graph_get g i))"
proof -
  obtain ids where "cascade_skip f g = Some (mark_skipped ids g, ids)" "distinct ids" "set ids = {i. blocked g f i}"
    using cascade_skip_correct [OF assms] by blast
  then show ?thesis by (auto simp: graph_get_mark_skipped)
qed

theorem cascade_skips_exactly_the_blocked_witness:
  "\<exists>ids. cascade_skip (TaskId ''t'') ex_graph = Some (mark_skipped ids ex_graph, ids) \<and> set ids = {i. blocked ex_graph (TaskId ''t'') i}"
  using cascade_skips_exactly_the_blocked [of ex_graph "TaskId ''t''"] ex_valid by (auto simp: valid_graph_def)

text \<open>Tasks are offered in the order of their priority, highest first, and among equals in the order
  of the plan; every offered task is pending or ready with all its dependencies completed.\<close>

theorem ready_tasks_ordered:
  "sorted_wrt (\<lambda>s t. ts_priority (tk_spec t) \<le> ts_priority (tk_spec s)) (ready_tasks g) \<and>
   filter (\<lambda>t. ts_priority (tk_spec t) = p) (ready_tasks g) =
     filter (\<lambda>t. ts_priority (tk_spec t) = p \<and> tk_status t \<in> {Pending, Ready} \<and> deps_completed g t) (graph_iter g)"
  using ready_tasks_priority ready_tasks_stable by blast

text \<open>A valid plan in which nothing runs and no open task waits on a failed one has a task to offer,
  unless it is complete.\<close>

theorem unfinished_plan_has_ready_task:
  assumes "valid_graph g" "unblocked g" "none_running g" "\<not> graph_is_complete g"
  shows "ready_tasks g \<noteq> []"
  using ready_exists [of g] assms by (simp add: valid_graph_def)

theorem unfinished_plan_has_ready_task_witness: "ready_tasks ex_graph \<noteq> []"
proof -
  have "open_ids ex_graph = {TaskId ''t''}" by (auto simp: open_ids_def ex_graph_get ex_status)
  then have "\<not> graph_is_complete ex_graph"
    using ex_valid by (simp add: graph_is_complete_iff valid_graph_def)
  with unfinished_plan_has_ready_task [of ex_graph] ex_idle show ?thesis by (simp add: idle_graph_def)
qed

section \<open>Planning\<close>

text \<open>With fresh ids, the heuristic planner turns every goal that is not blank into a plan that
  validates, and whose only task to start with is the inspection of the workspace.\<close>

theorem heuristic_plan_starts_with_inspection:
  assumes "inj fresh" "trim goal \<noteq> []"
  shows "\<exists>g. plan to_lowercase fresh always_validate goal = Inr g \<and> valid_graph g \<and>
    ready_tasks g = [new_task (fresh 0) (inspect_spec (trim goal))]"
  using assms plan_graph_valid [OF assms(1)] plan_ready [OF assms(1)] valid_graph_validate
  by (simp add: plan_def Let_def)

theorem heuristic_plan_starts_with_inspection_witness:
  "\<exists>g. plan to_ascii_lowercase ex_fresh True ''fix'' = Inr g \<and> valid_graph g"
proof -
  have "trim ''fix'' \<noteq> []" by code_simp
  from heuristic_plan_starts_with_inspection [OF inj_ex_fresh this] show ?thesis by blast
qed

text \<open>A goal that only asks a question or for a review never becomes a task that may write.\<close>

theorem questions_plan_no_writes:
  assumes "gs_is_investigation (shape_of to_lowercase (trim goal)) \<or> gs_is_review (shape_of to_lowercase (trim goal))"
    "\<not> gs_changes_code (shape_of to_lowercase (trim goal))"
    "plan to_lowercase fresh always_validate goal = Inr g" "graph_get g i = Some t"
  shows "ts_risk (tk_spec t) = ReadOnly"
proof -
  have "g = plan_graph always_validate fresh (shape_of to_lowercase (trim goal)) (trim goal)"
    using assms(3) by (auto simp: plan_def Let_def split: if_splits sum.splits)
  with plan_readonly [OF assms(1,2)] assms(4) show ?thesis by (auto simp: all_tasks_def)
qed

theorem questions_plan_no_writes_witness:
  "\<exists>g t. plan to_ascii_lowercase ex_fresh True ''why'' = Inr g \<and> graph_get g (ex_fresh 0) = Some t \<and>
     ts_risk (tk_spec t) = ReadOnly"
proof -
  have trim: "trim ''why'' = ''why''" by code_simp
  have inv: "gs_is_investigation (shape_of to_ascii_lowercase ''why'')" "\<not> gs_changes_code (shape_of to_ascii_lowercase ''why'')"
    by code_simp+
  obtain g where g: "plan to_ascii_lowercase ex_fresh True ''why'' = Inr g"
    using plan_graph_valid [OF inj_ex_fresh] valid_graph_validate by (simp add: plan_def Let_def trim)
  then have "g = plan_graph True ex_fresh (shape_of to_ascii_lowercase ''why'') ''why''"
    by (auto simp: plan_def Let_def trim split: sum.splits)
  then obtain t where "graph_get g (ex_fresh 0) = Some t" using plan_has_inspection [OF inj_ex_fresh] by blast
  with g questions_plan_no_writes [of to_ascii_lowercase "''why''" ex_fresh True g] inv trim show ?thesis by auto
qed

text \<open>Splitting a task that did not fit strands its dependents: they still wait for the original,
  which is now skipped, so they can never become ready.\<close>

theorem split_strands_dependents:
  assumes "graph_wf g" "fresh 0 \<noteq> fresh 1" "fresh 0 \<notin> nodes g" "fresh 1 \<notin> nodes g"
    and "graph_get g (tk_id failed) = Some failed" "graph_get g i = Some t" "tk_id failed \<in> set (deps t)" "i \<noteq> tk_id failed"
  shows "t \<notin> set (ready_tasks (split_task fresh failed g)) \<and> graph_get (split_task fresh failed g) i = Some t"
  using split_task_strands [OF assms] by (auto simp: ready_tasks_def)

theorem split_strands_dependents_witness:
  "ex_dependent \<notin> set (ready_tasks (split_task ex_fresh ex_task ex_chain))"
  using split_strands_dependents [of ex_chain ex_fresh ex_task "TaskId ''u''" ex_dependent] ex_chain_wf ex_chain_facts by simp

section \<open>Resilience\<close>

text \<open>The retry policy spends its budget on failures that can be cured and on nothing else: whatever the
  class of the failure and the state of the task, a decision to go on is only taken below the attempt
  limit and never for a cancelled, unauthenticated, forbidden or misconfigured attempt; a decision is
  always taken.\<close>

theorem retry_stays_within_budget:
  assumes "2 * unat (bo_max_ms (rp_backoff p)) \<le> 2 ^ 53" "bo_jitter (rp_backoff p) \<noteq> NaN" "ranged rr"
  shows "\<exists>d. decide pow rr p cls attempts on_target alternatives = Some d \<and>
    (continues d \<longrightarrow> attempts < rp_max_attempts p \<and>
       cls \<notin> {Cancelled, AuthenticationFailure, SecurityViolation, Configuration})"
proof -
  obtain d where "decide pow rr p cls attempts on_target alternatives = Some d" using decide_total [OF assms] by blast
  with decide_in_budget [OF this] show ?thesis by (auto simp: never_retried_def)
qed

theorem retry_stays_within_budget_witness:
  "\<exists>d. decide (\<lambda>x n. x) (\<lambda>lo hi. Some lo) default_retry_policy RateLimit 1 1 True = Some d"
  using retry_stays_within_budget [of default_retry_policy "\<lambda>lo hi. Some lo" "\<lambda>x n. x" RateLimit 1 1 True]
  by (auto simp: default_retry_policy_def default_backoff_def ranged_def)

text \<open>A drawn delay never exceeds twice the configured ceiling, with any attempt number and any base,
  factor and jitter.\<close>

theorem delay_bounded:
  assumes "2 * unat (bo_max_ms b) \<le> 2 ^ 53" "bo_jitter b \<noteq> NaN" "ranged rr"
  shows "\<exists>d. delay_with_jitter pow rr b attempt = Some d \<and> unat d \<le> 2 * unat (bo_max_ms b)"
  using delay_with_jitter_le [OF assms, of pow attempt] delay_for_le_max [of b pow attempt] assms(1) by fastforce

theorem delay_bounded_witness:
  "\<exists>d. delay_with_jitter (\<lambda>x n. x) (\<lambda>lo hi. Some lo) default_backoff 7 = Some d \<and> unat d \<le> 2 * unat (bo_max_ms default_backoff)"
  using delay_bounded [of default_backoff "\<lambda>lo hi. Some lo"] by (simp add: default_backoff_def ranged_def)

text \<open>A new circuit breaker trips exactly at its threshold: a run of counted failures leaves it closed
  while it is shorter than the threshold and open from there on.\<close>

theorem breaker_trips_at_threshold:
  assumes "\<forall>e \<in> set es. \<exists>cls m t. e = Failure cls m t \<and> counts_against_health cls"
  shows "cb_state (fold breaker_step es (new_breaker c)) = (if length es < max 1 (unat (bc_failure_threshold c)) then Closed else Open)"
  using closed_failures [OF breaker_inv_new _ assms, of c] by (auto simp: new_breaker_def trip_at_def split: if_splits)

theorem breaker_trips_at_threshold_witness:
  "cb_state (fold breaker_step [Failure Timeout [] 1, Failure Timeout [] 2, Failure Timeout [] 3]
     (new_breaker default_breaker_config)) = Open"
  using breaker_trips_at_threshold [of "[Failure Timeout [] 1, Failure Timeout [] 2, Failure Timeout [] 3]" default_breaker_config]
  by (simp add: default_breaker_config_def counts_against_health_def)

text \<open>A half-open breaker waits for as many successes in a row as its threshold says and then closes,
  however large the threshold.\<close>

theorem half_open_closes_at_threshold:
  assumes "cb_state b = HalfOpen" "cb_consecutive_successes b = 0" "n \<le> unat (bc_success_threshold (cb_config b))" "0 < n"
  shows "cb_state ((record_success ^^ n) b) = (if n < unat (bc_success_threshold (cb_config b)) then HalfOpen else Closed)"
  using half_open_waits [OF assms(1,2), of n] half_open_recovers [OF assms(1,2)] assms(3,4) by auto

theorem half_open_closes_at_threshold_witness:
  "cb_state ((record_success ^^ 1) ((new_breaker default_breaker_config)\<lparr>cb_state := HalfOpen\<rparr>)) = Closed"
  using half_open_closes_at_threshold [of "(new_breaker default_breaker_config)\<lparr>cb_state := HalfOpen\<rparr>" 1]
  by (simp add: new_breaker_def default_breaker_config_def)

text \<open>In every registry that queries, successes and failures can produce, a target is let through
  exactly when neither the agent's breaker nor the model's is open and still cooling down.\<close>

theorem breakers_gate_exactly:
  assumes "r = fold registry_step es (new_breaker_registry c)" "\<not> br_poisoned r"
  shows "fst (reg_allows now a m r) \<longleftrightarrow>
    (\<forall>k \<in> insert (AgentKey a) (ModelKey a ` set_option m).
       cb_state (breaker_of r k) \<noteq> Open \<or> cooldown_over (breaker_of r k) now)"
  by (rule reg_allows_iff) (use assms breakers.inv_reached [of "new_breaker_registry c" es] in auto)

theorem breakers_gate_exactly_witness: "fst (reg_allows 0 (AgentId ''a'') None (new_breaker_registry default_breaker_config))"
  using breakers_gate_exactly [of "new_breaker_registry default_breaker_config" "[]" default_breaker_config 0 "AgentId ''a''" None]
  by (simp add: new_breaker_registry_def breaker_of_def bt_get_def new_breaker_def)

text \<open>Agents fail on their own: no event of one agent changes a breaker of another, and an unavailable
  model does not count against its agent.\<close>

theorem breakers_are_independent:
  assumes "\<forall>e \<in> set es. event_agent e \<noteq> key_agent k"
  shows "breaker_of (fold registry_step es (new_breaker_registry c)) k = new_breaker c \<and>
    cb_consecutive_failures (breaker_of (snd (reg_record_failure now a (Some m) ModelUnavailable msg r)) (AgentKey a)) =
      cb_consecutive_failures (breaker_of r (AgentKey a))"
proof -
  have "breaker_of (fold registry_step es (new_breaker_registry c)) k = breaker_of (new_breaker_registry c) k"
    by (rule breakers.frame_reached) (use assms in auto)
  then show ?thesis
    using model_failure_spares_agent by (simp add: breaker_of_def new_breaker_registry_def bt_get_def)
qed

theorem breakers_are_independent_witness:
  "breaker_of (fold registry_step [TargetFailed 0 (AgentId ''b'') None Timeout []] (new_breaker_registry default_breaker_config))
     (AgentKey (AgentId ''a'')) = new_breaker default_breaker_config"
  using breakers_are_independent [of "[TargetFailed 0 (AgentId ''b'') None Timeout []]" "AgentKey (AgentId ''a'')"
      default_breaker_config] by simp

section \<open>The workspace\<close>

text \<open>Whatever claims are requested and released, by whichever tasks and in whatever order, no two tasks
  ever hold overlapping paths.\<close>

theorem ledger_is_exclusive:
  assumes "l = fold ledger_step es new_ledger" "holds l t k" "holds l t' k'" "key_overlaps k k'"
  shows "t = t'"
  using ownership.exclusive [of l t k t' k'] ledger_runs.inv_reached [of new_ledger es] assms by simp

theorem ledger_is_exclusive_witness:
  "\<exists>k. holds (fold ledger_step [Claim (TaskId ''t'') [''a/b'']] new_ledger) (TaskId ''t'') k \<and> TaskId ''t'' = TaskId ''t''"
proof -
  let ?l = "fold ledger_step [Claim (TaskId ''t'') [''a/b'']] new_ledger"
  obtain l' where c: "claim (TaskId ''t'') [''a/b''] new_ledger = (Inr (), l')" using ex_claims(1) by (metis prod.collapse)
  then have h: "holds ?l (TaskId ''t'') (claim_key ''a/b'')"
    using ownership.claim_ok [OF ledger_ok_new c] by simp
  with ledger_is_exclusive [OF refl h h] key_overlaps_refl show ?thesis by blast
qed

text \<open>A claim is all or nothing: it is granted exactly when no other task holds a path that overlaps one
  of the requested ones; then the task holds all of them and the others keep theirs, and a refused claim
  changes nothing.\<close>

theorem claim_all_or_nothing:
  assumes "ledger_ok l" "claim t ps l = (r, l')"
  shows "(r = Inr () \<longleftrightarrow> (\<forall>p \<in> set ps. \<forall>t' k. holds l t' k \<longrightarrow> key_overlaps (claim_key p) k \<longrightarrow> t' = t)) \<and>
    (if r = Inr () then \<forall>t' k. holds l' t' k \<longleftrightarrow> holds l t' k \<or> t' = t \<and> k \<in> claim_key ` set ps else l' = l)"
proof (cases r)
  case (Inl c)
  then show ?thesis using assms claim_succeeds_iff [of l t ps] claim_refused [of t ps l c l'] by (simp add: ledger_ok_def)
next
  case (Inr u)
  then show ?thesis
    using assms claim_succeeds_iff [of l t ps] ownership.claim_ok [of l t ps l'] by (simp add: ledger_ok_def)
qed

theorem claim_all_or_nothing_witness:
  "\<exists>l'. claim (TaskId ''t'') [''a/b''] new_ledger = (Inr (), l') \<and> holds l' (TaskId ''t'') (claim_key ''a/b'')"
proof -
  obtain r l' where c: "claim (TaskId ''t'') [''a/b''] new_ledger = (r, l')" by force
  with claim_all_or_nothing [OF ledger_ok_new c] ex_claims(1) show ?thesis by auto
qed

text \<open>A writing task whose description names no file runs alone: it is predicted to write anywhere, and
  while it holds that claim every claim of another task for at least one path is refused.\<close>

theorem unpredictable_task_runs_alone:
  assumes "ledger_ok l" "fold (predict_token alnum) (split_whitespace description) [] = []"
    "claim t (predict_writes alnum description index outputs) l = (Inr (), l')" "t' \<noteq> t" "ps \<noteq> []"
  shows "predict_writes alnum description index outputs = [''.''] \<and> fst (claim t' ps l') \<noteq> Inr ()"
proof -
  have "list_all2 path_eq [''.''] [''.'']" by code_simp
  with assms(2) have w: "predict_writes alnum description index outputs = [''.'']"
    by (simp add: predict_writes_def predicted_writes_def)
  have l': "ledger_ok l'" "holds l' t (claim_key ''.'')"
    using ownership.claim_ok [OF assms(1,3)] by (auto simp: w)
  obtain p where "p \<in> set ps" using assms(5) by (cases ps) auto
  with l' assms(4) claim_succeeds_iff [of l' t' ps] root_overlaps [of "claim_key p"] key_overlaps_sym w show ?thesis
    by (auto simp: ledger_ok_def)
qed

theorem unpredictable_task_runs_alone_witness:
  "\<exists>l'. claim (TaskId ''t'') [''.''] new_ledger = (Inr (), l') \<and> fst (claim (TaskId ''u'') [''a/b''] l') \<noteq> Inr ()"
proof -
  have none: "fold (predict_token (\<lambda>c. True)) (split_whitespace ''hi'') [] = []" by code_simp
  have "fst (claim (TaskId ''t'') [''.''] new_ledger) = Inr ()" by code_simp
  then obtain l' where c: "claim (TaskId ''t'') [''.''] new_ledger = (Inr (), l')" by (metis prod.collapse)
  moreover have "list_all2 path_eq [''.''] [''.'']" by code_simp
  then have "predict_writes (\<lambda>c. True) ''hi'' None [] = [''.'']"
    using none by (simp add: predict_writes_def predicted_writes_def)
  ultimately show ?thesis
    using unpredictable_task_runs_alone [OF ledger_ok_new none, of "TaskId ''t''" None "[]" l' "TaskId ''u''" "[''a/b'']"] by simp
qed

section \<open>Planning with a language model\<close>





text \<open>The numbers in a reply count the rows that are accepted, not its lines: a first line that is skipped, for example a sentence of
  prose, leaves the plan what it is without that line, so every number after it points one row too far and the dependency on
  the last row is dropped.\<close>

theorem skipped_line_shifts_numbers:
  assumes "plan_line alnum available line [] = []" "CHR 0x0A \<notin> set line" "CHR 0x0D \<notin> set line"
  shows "plan_rows alnum (line @ CHR 0x0A # rest) available = plan_rows alnum rest available"
proof -
  have "strip_suffix_char (CHR 0x0D) line = line" using assms(3) by (metis last_in_set strip_suffix_char_def)
  then have "str_lines (line @ CHR 0x0A # rest) = line # str_lines rest"
    using assms(2) unfolding str_lines_def split_char_append by (simp add: Let_def split_char_single)
  then show ?thesis by (simp add: plan_rows_def assms(1))
qed

theorem skipped_line_shifts_numbers_witness:
  "map snd (plan_rows ex_letters (''Here is the plan:'' @ CHR 0x0A # ex_model_reply) []) = [[], []]"
  using skipped_line_shifts_numbers [OF ex_prose_skipped, of ex_model_reply] by (simp add: ex_model_rows)

text \<open>A command that is prepared for execution has passed the screen: it is not blank, the allow-list
  admits it, and unless destructive operations are permitted it contains none of the destructive patterns
  and deletes none of the protected places. What is run is the command itself, with the wrappers in front,
  and with an active sandbox it never runs bare.\<close>

theorem prepared_commands_are_screened:
  assumes "prepare_command debug_str guard rtk sandbox workspace command = Inr prepared"
  shows "suffix command prepared \<and> (sandbox_is_active sandbox \<longrightarrow> prepared \<noteq> rtk_wrap rtk command) \<and>
    (let n = normalize_command command in
     n \<noteq> [] \<and> allowlisted guard n \<and>
     (cg_allow_destructive guard \<or>
       (\<forall>(p, e) \<in> set destructive. \<not> str_contains n p) \<and> protected_target debug_str n = None))"
proof -
  have "screen debug_str guard command = Allow" and p: "prepared = sandbox_wrap sandbox (rtk_wrap rtk command) workspace"
    using assms by (auto simp: prepare_command_def split: command_verdict.splits)
  moreover have "suffix command prepared"
    unfolding p using rtk_wrap_suffix sandbox_wrap_suffix by (rule suffix_order.order_trans)
  ultimately show ?thesis using screen_allow_iff [of debug_str guard command] sandbox_wrap_active by auto
qed

theorem prepared_commands_are_screened_witness:
  "normalize_command ''ls'' \<noteq> []"
  using prepared_commands_are_screened [of "\<lambda>s. s" "\<lparr>cg_allow_destructive = True, cg_allowlist = []\<rparr>" RtkDisabled SbDisabled
      "''/work''" "''ls''" "''ls''"]
  by (simp add: prepare_command_def ex_ls_allowed Let_def rtk_wrap_def sandbox_wrap_def)

text \<open>The pattern that is meant to stop a forced branch deletion never matches, because the screen
  lower-cases the command first: for any command that mentions it the other checks alone decide.\<close>

theorem branch_deletion_never_matched:
  "\<not> str_contains (normalize_command command) ''git branch -D''"
  by (rule branch_pattern_dead)

section \<open>Context\<close>

text \<open>A prompt that had to be truncated is still longer than the budget it was truncated to: the notice
  that says so comes on top.\<close>

theorem truncated_prompt_over_budget:
  assumes "0 < budget_chars b" "budget_chars b < length (full_prompt cx t g h)"
  shows "budget_chars b < length (assemble cx t g h b)"
  by (rule truncated_over_budget [OF assms])

theorem truncated_prompt_over_budget_witness:
  "budget_chars 1 < length (assemble new_context_manager ex_task ex_graph None 1)"
  by (rule truncated_prompt_over_budget)
     (simp_all add: budget_chars_def saturating_mul_def chars_per_token_def full_prompt_def new_context_manager_def)

text \<open>A handoff that fits the budget reaches the next agent whole, at the front of its prompt, whatever
  else has to be cut.\<close>

theorem handoff_reaches_agent:
  assumes "length (to_prompt h) \<le> budget_chars b \<or> budget_chars b = 0"
  shows "prefix (to_prompt h) (assemble cx t g (Some h) b)"
  by (rule handoff_survives [OF assms])

theorem handoff_reaches_agent_witness:
  "prefix (to_prompt (new_handoff (TaskId ''t'') [] (AgentId ''a'') [])) (assemble new_context_manager ex_task ex_graph
     (Some (new_handoff (TaskId ''t'') [] (AgentId ''a'') [])) 0)"
  by (rule handoff_reaches_agent) (simp add: budget_chars_def saturating_mul_def)

section \<open>Scoring and history\<close>

text \<open>The routing history counts: after any sequence of outcomes, a bucket's statistics hold as many
  attempts and successes as the sequence has for its key, and nothing of any other key.\<close>

theorem history_counts_outcomes:
  assumes "mine = filter (\<lambda>out. history_key (outcome_bucket out) = history_key b) outs" "mine \<noteq> []" "length mine < 2 ^ 32"
  shows "\<exists>s. history_stats (fold history_record outs []) b = Some s \<and> unat (as_attempts s) = length mine \<and>
    unat (as_successes s) = length (filter or_success mine)"
  using stats_fold_counts [of default_stats mine] assms by (simp add: history_fold_stats default_stats_def)

theorem history_counts_outcomes_witness:
  "\<exists>s. history_stats (fold history_record [outcome_success 0 (AgentId ''a'') None BugFix 5 7] []) (AgentId ''a'', None, BugFix) =
     Some s \<and> unat (as_attempts s) = 1 \<and> unat (as_successes s) = 1"
  using history_counts_outcomes [OF refl, of "(AgentId ''a'', None, BugFix)" "[outcome_success 0 (AgentId ''a'') None BugFix 5 7]"]
  by (simp add: outcome_bucket_def outcome_success_def)

text \<open>History only ever changes a score that has enough samples behind it, and blending keeps the score
  between zero and one.\<close>

theorem blend_needs_samples:
  assumes "unit_range prior" "w \<noteq> NaN" "\<forall>s. history_stats h b = Some s \<longrightarrow> as_successes s \<le> as_attempts s"
  shows "unit_range (fst (blend h prior b w n)) \<and> (\<not> snd (blend h prior b w n) \<longrightarrow> fst (blend h prior b w n) = prior) \<and>
    (snd (blend h prior b w n) \<longrightarrow> (\<exists>s. history_stats h b = Some s \<and> max n 1 \<le> as_attempts s))"
proof (intro conjI)
  show "unit_range (fst (blend h prior b w n))" by (rule blend_unit [OF assms])
  show "\<not> snd (blend h prior b w n) \<longrightarrow> fst (blend h prior b w n) = prior"
    using blend_not_applied [of h prior b w n] by (metis prod.collapse)
qed (use blend_applied_iff [of h prior b w n] in blast)

theorem blend_needs_samples_witness: "unit_range (fst (blend [] f1 (AgentId ''a'', None, BugFix) f1 3))"
  using blend_needs_samples [of f1 f1 "[]" "(AgentId ''a'', None, BugFix)" 3] by (simp add: history_stats_def)



text \<open>Weights are accepted exactly when each is a finite number not below zero and they do not all
  vanish; accepted weights whose sum does not overflow are normalised into the unit interval.\<close>

theorem accepted_weights_normalise:
  assumes "all_weights representable w" "weights_sum w \<noteq> PInf"
  shows "(weights_validate show_f64 w = Inr () \<longleftrightarrow> all_weights valid_weight w \<and> \<not> fle (weights_sum w) f0) \<and>
    (weights_validate show_f64 w = Inr () \<longrightarrow> all_weights unit_range (weights_normalized w))"
  using weights_validate_iff weights_normalized_unit [OF _ assms] by blast

theorem accepted_weights_normalise_witness: "all_weights unit_range (weights_normalized ex_weights)"
proof -
  have "all_weights representable ex_weights" "weights_sum ex_weights \<noteq> PInf"
    by (simp_all add: ex_weights_sum) (simp add: all_weights_def ex_weights_def representable_def)
  from accepted_weights_normalise [OF this, of "\<lambda>v. []"] ex_weights_valid show ?thesis by blast
qed

section \<open>Usage, registries, configuration\<close>

text \<open>The usage totals are exact and complete: they count every recorded attempt and success, what they
  say was spent is what the budget check reads, and they claim to be complete exactly when every attempt
  was priced and its tokens were reported.\<close>

theorem usage_totals_exact:
  assumes "length (uk_records u) < 2 ^ 32"
  shows "unat (ut_attempts (tracker_totals u)) = length (uk_records u) \<and>
    unat (ut_successes (tracker_totals u)) = length (filter ur_success (uk_records u)) \<and>
    ut_estimated_cost_usd (tracker_totals u) = spent_usd u \<and>
    (totals_is_complete (tracker_totals u) \<longleftrightarrow>
       (\<forall>r \<in> set (uk_records u). ur_estimated_cost_usd r \<noteq> None \<and> tu_reported (ur_tokens r)))"
  using totals_counts [of default_totals "uk_records u"] spent_is_total [of u] tracker_complete_iff [OF assms] assms
  by (simp add: tracker_totals_def default_totals_def)

theorem usage_totals_exact_witness: "unat (ut_attempts (tracker_totals new_tracker)) = 0"
  using usage_totals_exact [of new_tracker] by (simp add: new_tracker_def)

text \<open>The report by agent splits the attempts and loses none: an agent appears exactly when it has an
  attempt, with the totals of its own records.\<close>

theorem usage_by_agent_partitions:
  "bt_get (by_agent u) a =
     (if a \<in> ur_agent_id ` set (uk_records u)
      then Some (fold totals_add (filter (\<lambda>r. ur_agent_id r = a) (uk_records u)) default_totals) else None)"
  by (rule by_agent_get)

text \<open>The agent registry keeps its agents apart, under their own ids, and what the router sees of an
  agent is what is stored: after any sequence of registrations, removals and updates an agent none of them
  names is unknown, and the snapshot finds every other one. Registering an agent again keeps what was
  observed of its health.\<close>

theorem registry_snapshot_faithful:
  assumes "r = fold agents_step es []"
  shows "snap_get (registry_snapshot_of r) i = bt_get r i \<and> map ad_id (registry_snapshot_of r) = bt_keys r \<and>
    ((\<forall>e \<in> set es. event_target e \<noteq> i) \<longrightarrow> bt_get r i = None) \<and>
    bt_get (register a r) (ad_id a) =
      Some (case bt_get r (ad_id a) of Some old \<Rightarrow> a\<lparr>ad_health := ad_health old\<rparr> | None \<Rightarrow> a)"
proof -
  have wf: "agents_wf r" unfolding assms by (rule agents.inv_reached) simp
  have "bt_get r i = None" if "\<forall>e \<in> set es. event_target e \<noteq> i"
    using agents.frame_reached [of "[]" es i] that by (auto simp: assms)
  then show ?thesis using snapshot_get [OF wf] snapshot_ids [OF wf] register_get by auto
qed

theorem registry_snapshot_faithful_witness:
  "snap_get (registry_snapshot_of (fold agents_step [Register ex_agent] [])) (AgentId ''a'') =
     bt_get (fold agents_step [Register ex_agent] []) (AgentId ''a'')"
  using registry_snapshot_faithful [OF refl, of "[Register ex_agent]" "AgentId ''a''"] by blast

text \<open>The capability index answers exactly: the providers of a non-empty set of capabilities are the
  routable agents of the snapshot each of whose listed capabilities is offered by the agent or one of its
  models; so every target that covers the set on its own is among them.\<close>

theorem capability_index_exact:
  assumes "required \<noteq> []"
  shows "set (providers_of_all (build_index s) required) =
    {i. \<forall>c \<in> set required. \<exists>a \<in> set s. ad_id a = i \<and> agent_is_routable a \<and> c \<in> set (agent_all_capabilities a)}"
  using assms by (auto simp: set_providers_of_all set_providers)

theorem capability_index_exact_witness:
  "set (providers_of_all (build_index [ex_agent]) [Debugging]) = {AgentId ''a''}"
proof -
  have "Debugging \<in> set (baseline_capabilities BugFix)" by code_simp
  moreover have "agent_is_routable ex_agent" by (simp add: agent_is_routable_def default_health_def health_is_routable_def)
  ultimately show ?thesis
    using capability_index_exact [of "[Debugging]" "[ex_agent]"] by (simp add: set_agent_all_capabilities)
qed

text \<open>The workspace index finds by name exactly what a scan of the listed files would, in their order.\<close>

theorem index_lookup_is_scan:
  "index_named (from_files all) name = filter (\<lambda>f. file_name f = Some name) (take max_files all)"
  by (rule index_named_scan)

text \<open>What the configuration states about an agent is added to what the agent reports, and models stated
  twice appear once.\<close>

theorem configuration_only_adds:
  assumes "distinct (map md_id (ad_models d))"
  shows "set (ad_capabilities (apply_to c d)) = set (ad_capabilities d) \<union> parse_capability ` set (ac_capabilities c) \<and>
    set (map md_id (ad_models (apply_to c d))) = set (map md_id (ad_models d)) \<union> ModelId ` set (ac_models c) \<and>
    distinct (map md_id (ad_models (apply_to c d)))"
  using apply_to_capabilities apply_to_models(1) apply_to_models(2) [OF assms] by blast

theorem configuration_only_adds_witness:
  "distinct (map md_id (ad_models (apply_to default_agent_config ex_agent)))"
  using configuration_only_adds [of ex_agent] by simp

text \<open>Capabilities survive being written down: what a name parses to is parsed again from its own
  rendering, for the built-in names and for custom ones.\<close>

theorem capability_roundtrip:
  "parse_capability (display_capability (parse_capability raw)) = parse_capability raw"
  by (rule parse_display_parsed)

section \<open>Configuration and confinement\<close>

text \<open>C28. A configuration that loads is valid, and the permission for destructive operations comes from a
  configuration file: no environment variable can give it, and no file that leaves it out takes it away.\<close>

theorem loaded_configuration_sound:
  assumes "config_load dbg show_f64 read_layer env home proj = Inr lc"
  shows "config_validate dbg show_f64 (ld_config lc) = Inr () \<and> 0 < lc_max_parallel_tasks (cf_limits (ld_config lc)) \<and>
    (se_allow_destructive_operations (cf_security (ld_config lc)) \<longleftrightarrow>
       (\<exists>l \<in> set (layers_of read_layer env home proj). se_allow_destructive_operations (cf_security l)))"
  using config_load_ok(1) [OF assms] destructive_from_files [OF assms] limits_validate_ok(1) by (simp add: config_validate_iff)

theorem loaded_configuration_sound_witness:
  "0 < lc_max_parallel_tasks (cf_limits default_config) \<and> \<not> se_allow_destructive_operations (cf_security default_config)"
proof -
  have "layers_of (\<lambda>_. None) (\<lambda>_. None) None '''' = []" by (simp add: layers_of_def file_layer_def)
  then show ?thesis
    using loaded_configuration_sound [OF config_load_nothing [of "\<lambda>s. s" "\<lambda>_. ''''" None "''''"]] by simp
qed

text \<open>The last file that departs from a default wins: the retry limit in force after the layers is that
  of the last one that sets another than the default, and so is the routing strategy.\<close>

theorem last_layer_wins:
  "lc_max_retries (cf_limits (foldl config_merge c ls)) =
     (case List.find (\<lambda>l. lc_max_retries (cf_limits l) \<noteq> 3) (rev ls) of
        Some l \<Rightarrow> lc_max_retries (cf_limits l) | None \<Rightarrow> lc_max_retries (cf_limits c)) \<and>
   rc_strategy (cf_router (foldl config_merge c ls)) =
     (case List.find (\<lambda>l. rc_strategy (cf_router l) \<noteq> Balanced) (rev ls) of
        Some l \<Rightarrow> rc_strategy (cf_router l) | None \<Rightarrow> rc_strategy (cf_router c))"
  using retries_layers.last_layer strategy_layers.last_layer by blast

text \<open>A configuration file that says nothing about skills takes the skill registries of the files before
  it away: merging the silent file puts the default list back and changes nothing else.\<close>

theorem silent_layer_resets_registries:
  "config_merge c default_config = c\<lparr>cf_skills := (cf_skills c)\<lparr>sk_registries := [''builtin'', ''local'']\<rparr>\<rparr>"
  by (rule merge_silent_layer)



text \<open>C22. Under bubblewrap an agent can write to nothing but the places its profile names, and a write there
  goes to the place it seems to.\<close>

theorem agents_write_where_allowed:
  assumes "bwrap_view (bubblewrap os pf) p = Some (RwMount s)"
  shows "s \<in> set (writable pf) \<and> path_starts_with p s"
  by (rule bwrap_writable [OF assms])

theorem agents_write_where_allowed_witness:
  "path_starts_with ''/home/u/proj/a'' ''/home/u/proj''"
  using agents_write_where_allowed [of ex_os "agent_profile ex_os ex_runtime ''/home/u/proj'' [] []" "''/home/u/proj/a''" "''/home/u/proj''"]
  by code_simp

text \<open>Requiring confinement does not beat switching it off: with the sandbox disabled, agents are not
  refused however the requirement is set, and they start with no confinement in front of them.\<close>

theorem disabled_sandbox_beats_requirement:
  assumes "\<not> se_sandbox c" "se_require_agent_sandbox c"
  shows "\<not> refuses_agents (detect_confinement home works c) \<and> launch_prefix os (detect_confinement home works c) w keep rd = None"
  using disabled_beats_required [OF assms(1)] by blast

theorem disabled_sandbox_beats_requirement_witness:
  "\<not> refuses_agents (detect_confinement None (\<lambda>_. True) (default_security_config\<lparr>se_sandbox := False, se_require_agent_sandbox := True\<rparr>))"
  using disabled_sandbox_beats_requirement [of "default_security_config\<lparr>se_sandbox := False, se_require_agent_sandbox := True\<rparr>" None "\<lambda>_. True"]
  by simp

section \<open>Serving other agents\<close>

text \<open>C12. However calls, spawned runs and their steps interleave, and whatever a store gave back at the
  start, the A2A server keeps at most 512 task records, lists each exactly once, and starts no task while
  32 are running.\<close>

theorem server_stays_bounded:
  assumes "a2a_reachable dbg (sv, pend)"
  shows "length (sv_entries sv) \<le> 512 \<and> distinct (sv_order sv) \<and> set (sv_order sv) = fst ` set (sv_entries sv) \<and>
    (start_run fr params sv = (Inr (i, c, r), sv') \<longrightarrow> active_tasks sv < 32)"
proof -
  have "active_tasks sv < 32" if "start_run fr params sv = (Inr (i, c, r), sv')"
    using that by (cases rule: start_run_cases) (auto simp: max_active_tasks_def)
  then show ?thesis
    using reachable_ok [OF assms] by (auto simp: server_ok_def records_ok_def max_retained_tasks_def)
qed

theorem server_stays_bounded_witness: "length (sv_entries (race_begun ex_card)) \<le> 512"
  using server_stays_bounded [OF race_reachable, of ex_card] by blast

text \<open>C13. A cancellation that finds the run of the task waiting is final: nothing that happens afterwards
  changes the cancelled task.\<close>

theorem cancel_is_final:
  assumes "a2a_reachable dbg (sv, pend)" "map_of (sv_entries sv) (task_id_param params) = Some e" "te_run e = Some r"
    and "\<not> wire_settled (wt_state (entry_current sv e))" "\<not> in_flight (sv_runs sv ! r)"
    and "(a2a_next dbg)\<^sup>*\<^sup>* (snd (cancel_task dbg fr i params d sv), pend) (sv', pend')"
  shows "wt_state (chan_task sv' (te_channel e)) = Canceled"
proof -
  let ?sv = "snd (cancel_task dbg fr i params d sv)"
  have ok: "server_ok sv pend" using reachable_ok [OF assms(1)] by simp
  note frozen = cancel_freezes [OF ok assms(2-5)]
  have "server_ok ?sv pend" using server_ok_frame [OF cancel_task_frame ok] .
  then show ?thesis using frozen_forever [OF assms(6), of "te_channel e"] frozen by simp
qed

theorem cancel_is_final_witness:
  "wt_state (chan_task (snd (cancel_task (\<lambda>s. s) race_fresh JNull (JObject [(''id'', JString ''t1'')]) V1 (race_start ex_card))) 0) = Canceled"
proof -
  have "map_of (sv_entries (race_start ex_card)) (task_id_param (JObject [(''id'', JString ''t1'')])) = Some \<lparr>te_channel = 0, te_run = Some 0\<rparr>"
    "\<not> wire_settled (wt_state (entry_current (race_start ex_card) \<lparr>te_channel = 0, te_run = Some 0\<rparr>))"
    "\<not> in_flight (sv_runs (race_start ex_card) ! 0)" by code_simp+
  from cancel_is_final [OF race_started this(1) _ this(2,3) rtranclp.rtrancl_refl] show ?thesis by simp
qed

text \<open>C14. Without that condition it is not: a cancellation that arrives between the start of the run's first
  poll and the write that poll ends with is answered as successful, and then the task is shown as working
  again although its run has been dropped, so that it counts as running from then on.\<close>

theorem cancel_can_be_overtaken:
  "\<exists>sv v sv1 sv2. a2a_reachable (\<lambda>s. s) (sv, []) \<and>
     cancel_task (\<lambda>s. s) (race_fresh\<lparr>fr_task := ''t2''\<rparr>) JNull (JObject [(''id'', JString ''t1'')]) V1 sv = (v, sv1) \<and>
     json_pointer [''result'', ''status'', ''state''] v = Some (JString ''TASK_STATE_CANCELED'') \<and>
     wt_state (chan_task sv1 0) = Canceled \<and> (a2a_next (\<lambda>s. s))\<^sup>*\<^sup>* (sv1, []) (sv2, []) \<and>
     wt_state (chan_task sv2 0) = Working \<and> map rn_phase (sv_runs sv2) = [RunDropped] \<and> active_tasks sv2 = 1"
proof -
  obtain v sv1 where rc: "race_cancel ex_card = (ReplyJson v, sv1)" using race_outcome(1) [of ex_card]
    by (auto split: prod.splits reply.splits)
  have "cancel_task (\<lambda>s. s) (race_fresh\<lparr>fr_task := ''t2''\<rparr>) JNull (JObject [(''id'', JString ''t1'')]) V1 (race_begun ex_card) = (v, sv1)"
    using rc race_cancel_call [of ex_card] by (auto split: prod.splits)
  then show ?thesis
    using rc race_outcome [of ex_card] race_reachable [of ex_card] race_overtakes [of ex_card]
    by (intro exI [of _ "race_begun ex_card"] exI [of _ v] exI [of _ sv1] exI [of _ "race_end ex_card"]) simp
qed

text \<open>C39. A caller that follows the page tokens of \<open>ListTasks\<close> until there is none reads every matching task
  exactly once, newest first, whatever page size it asks for.\<close>

theorem pages_list_every_task:
  assumes "a2a_reachable dbg (sv, pend)"
  shows "\<exists>vs. all_pages 513 fr i fs d sv '''' = Some vs \<and>
    map (json_get ''id'') vs = map (\<lambda>t. Some (JString (wt_id t))) (matching_tasks (JObject fs) sv)"
proof -
  have ok: "records_ok sv" "length (sv_entries sv) \<le> 512"
    using reachable_ok [OF assms] by (simp_all add: server_ok_def max_retained_tasks_def)
  have "page_offset (page_params fs '''') = 0" by (simp add: page_offset_token parse_unsigned_def)
  then show ?thesis
    using all_pages_from [of fs sv "''''" 513 fr i d] matching_bound [OF ok(1), of "JObject fs"] ok(2) by simp
qed

theorem pages_list_every_task_witness:
  "\<exists>vs. all_pages 513 race_fresh JNull [] V1 (race_begun ex_card) '''' = Some vs"
  using pages_list_every_task [OF race_reachable, of race_fresh JNull "[]" V1 ex_card] by blast

text \<open>A call gets past the door exactly when no token is configured or it presents one of them, and a
  call that does not leaves the server as it was, its body unread.\<close>

theorem callers_are_authorized:
  "(fst (serve_rpc dbg fr authorization request sv) = None \<longleftrightarrow>
      sv_tokens sv \<noteq> [] \<and> (\<forall>t \<in> set (sv_tokens sv). bearer_token authorization \<noteq> Some t)) \<and>
   (fst (serve_rpc dbg fr authorization request sv) = None \<longrightarrow> snd (serve_rpc dbg fr authorization request sv) = sv)"
  using is_authorized_iff [of sv authorization] by (auto simp: serve_rpc_def split: prod.splits)

theorem callers_are_authorized_witness:
  "fst (serve_rpc (\<lambda>s. s) race_fresh (Some ''Bearer x'') (Inl '''') (with_bearer_tokens [''secret''] (new_server ex_card))) = None"
  using callers_are_authorized [of "\<lambda>s. s" race_fresh "Some ''Bearer x''" "Inl ''''" "with_bearer_tokens [''secret''] (new_server ex_card)"]
  by code_simp



section \<open>Skills\<close>



text \<open>What guides an agent comes from a skill that is not untrusted, after any run; the guides for a task are
  those of relevant skills, the most trusted first.\<close>

theorem guidance_is_trusted_and_relevant:
  assumes "sm_installed sm = []" "sm_guides sm = []"
    and "sm' = fold (skill_step ke kc (fst (configured_entries dbg dot_cuma es))) calls sm"
  shows "sorted (map sg_trust (guidance_for sm' caps)) \<and>
    (\<forall>g \<in> set (guidance_for sm' caps). sg_trust g \<noteq> Untrusted \<and>
       (\<exists>provides. (provides, g) \<in> set (sm_guides sm') \<and> (provides = [] \<or> set provides \<inter> set caps \<noteq> {})))"
proof -
  have "manager_ok ke (kc_version kc) sm'" unfolding assms(3) by (rule skill_runs.inv_reached) (simp add: assms)
  then have "sg_trust g \<noteq> Untrusted" if "(provides, g) \<in> set (sm_guides sm')" for provides g
    using that by (auto simp: manager_ok_def list_all_iff)
  then show ?thesis using guidance_facts(1) [of sm' caps] guidance_facts(2) [where sm = sm' and caps = caps] by blast
qed

theorem guidance_is_trusted_and_relevant_witness:
  "sorted (map sg_trust (guidance_for ex_ran [VersionControl]))"
  using guidance_is_trusted_and_relevant [OF ex_start_manager ex_ran_def] by blast

text \<open>C31. A skill that was installed is still installed in the next process: a manager made over the same directory
  has the same record, the new skill in it, and gives the same guidance. The record is assumed to be read back as it
  was written.\<close>

theorem skills_survive_restart:
  assumes "install_skill ke io i sm = (Inr s, sm')" "sm_install_dir sm = Some p"
    and "ke_from_json ke (ke_to_json ke (sm_installed sm')) = Inr (sm_installed sm')" "ke_utf8 ke (ke_to_json ke (sm_installed sm'))"
  shows "\<exists>fresh. with_install_dir ke p (sm_disk sm') (new_skill_manager config rs) = Inr fresh \<and> s \<in> set (sm_installed fresh) \<and>
    sm_installed fresh = sm_installed sm' \<and> (\<forall>caps. guidance_for fresh caps = guidance_for sm' caps)"
proof -
  obtain disk where
    saved: "save_installed ke io (sm\<lparr>sm_disk := disk, sm_installed := add_record s (sm_installed sm)\<rparr>) = (Inr (), sm')"
    using assms(1) commit_skill_done by (auto simp: install_skill_def split: sum.splits) blast
  have after: "sm_installed sm' = add_record s (sm_installed sm)"
    using save_installed_keeps(5) [of ke io "sm\<lparr>sm_disk := disk, sm_installed := add_record s (sm_installed sm)\<rparr>"]
    unfolding saved by simp
  obtain fresh where "with_install_dir ke p (sm_disk sm') (new_skill_manager config rs) = Inr fresh"
      "sm_installed fresh = add_record s (sm_installed sm)" "sm_guides fresh = sm_guides sm'"
    using saved_then_loaded [OF saved, of p "new_skill_manager config rs"] assms(2-4) by (auto simp: after)
  then show ?thesis by (auto simp: guidance_for_def add_record_set after)
qed

theorem skills_survive_restart_witness:
  "\<exists>fresh. with_install_dir ex_disk_env ''/skills'' (sm_disk (snd ex_saved)) (new_skill_manager default_skills_config []) = Inr fresh \<and>
     sm_installed fresh \<noteq> []"
proof -
  obtain s where run: "install_skill ex_disk_env (no_faults []) ''git-workflow'' ex_builtin_manager = (Inr s, snd ex_saved)"
    using ex_saved_run ex_disk_run by auto
  from skills_survive_restart [OF run ex_builtin_dir, of default_skills_config "[]"] show ?thesis
    by (auto simp: ex_disk_env_def ex_skill_env_def)
qed

text \<open>C30. Only the policy installs a skill nobody asked for: when a gap makes the manager install something, skills are on and
  the one skill it adds, or replaces, is as trusted as \<open>auto_install\<close> demands.\<close>

theorem only_policy_installs_unasked:
  assumes "satisfy ke io c (sm\<lparr>sm_registries := map (open_registry kc w) (fst (configured_entries dbg dot_cuma es))\<rparr>) = (outcome, sm')"
    and "sm_installed sm' \<noteq> sm_installed sm"
  shows "sk_enabled (sm_config sm) \<and> sk_auto_install (sm_config sm) \<noteq> InstallNever \<and>
    (\<exists>s. sm_installed sm' = add_record s (sm_installed sm) \<and>
       mf_trust (is_manifest s) \<in> (if sk_auto_install (sm_config sm) = InstallVerified then {Trusted, Verified} else {Trusted}))"
proof -
  have "sources_ok (kc_version kc) (sm\<lparr>sm_registries := map (open_registry kc w) (fst (configured_entries dbg dot_cuma es))\<rparr>)"
    using configured_entries_secure [of dbg dot_cuma es] by (auto simp: sources_ok_def list_all_iff intro: secure_registry)
  from satisfy_changes [OF assms(1) _ this] assms(2) show ?thesis
    by (cases "sk_auto_install (sm_config sm)") (auto simp: may_auto_install_def)
qed

theorem only_policy_installs_unasked_witness:
  "\<exists>s. sm_installed (snd ex_satisfied) = add_record s [] \<and> mf_trust (is_manifest s) = Trusted"
proof -
  have run: "satisfy ex_skill_env (no_faults []) Vision
      (ex_manager\<lparr>sm_registries := map (open_registry ex_two_codecs ex_two_world) (fst (configured_entries (\<lambda>s. s) ''/w/.cuma'' [''builtin'', ''local'']))\<rparr>) =
      (fst ex_satisfied, snd ex_satisfied)"
    by (simp add: ex_satisfied_def ex_registries_def)
  have "sm_installed (snd ex_satisfied) \<noteq> sm_installed ex_manager"
    using ex_satisfied_run unfolding ex_manager_dir by (metis snd_conv)
  moreover have "sk_auto_install (sm_config ex_manager) = InstallTrustedOnly"
    by (simp add: ex_manager_def new_skill_manager_def default_skills_config_def)
  ultimately show ?thesis using only_policy_installs_unasked [OF run] by (simp add: ex_manager_dir)
qed



text \<open>An update that cannot be moved into place loses the skill: the outcome is a refusal, which is said to keep the
  installed version, but its files are gone while the record still lists it.\<close>

theorem failed_rename_loses_skill:
  assumes "stage_skill ke io sm (is_id s) (Some (is_registry s)) = Inr sd" "vr_permitted (sd_report sd)"
    and "ev_digest (sd_evidence sd) \<noteq> is_digest s" "sd_files sd = Some files"
    and "sm_install_dir sm = Some p" "dir_at (sm_disk sm) (is_id s) = Some d" "io_remove io = None" "io_place io = Some err"
  shows "(\<exists>why. fst (update_one ke io s sm) = UpRefused why) \<and> sm_installed (snd (update_one ke io s sm)) = sm_installed sm \<and>
    dir_at (sm_disk (snd (update_one ke io s sm))) (is_id s) = None"
  using assms stage_skill_id [OF assms(1)] place_fails [OF assms(6-8)]
  by (auto simp: update_one_def commit_skill_def place_staged_def Let_def dir_at_def delete_conv')

theorem failed_rename_loses_skill_witness:
  "dir_at (sm_disk ex_with_old) ''git-workflow'' \<noteq> None \<and>
   dir_at (sm_disk (snd (update_one ex_skill_env ex_no_rename ex_old ex_with_old))) ''git-workflow'' = None"
proof -
  obtain files where files: "sd_files ex_staged = Some files" using ex_staged_facts by blast
  have id: "is_id ex_old = ''git-workflow''" by (simp add: ex_old_def builtin_skill_def)
  have d: "dir_at (sm_disk ex_with_old) (is_id ex_old) = Some [(instructions_file, FsFile ''old'')]"
    by (simp add: id ex_with_old_def dir_at_def)
  have "dir_at (sm_disk (snd (update_one ex_skill_env ex_no_rename ex_old ex_with_old))) (is_id ex_old) = None"
    using failed_rename_loses_skill [OF _ _ _ files _ d, of ex_skill_env ex_no_rename "''/skills''" "''disk full''"] ex_staged_facts
    by (simp add: ex_no_rename_def no_faults_def ex_with_old_def ex_builtin_dir)
  then show ?thesis using d by (simp add: id)
qed

text \<open>A gap can be reported as filled by a skill that does not fill it: the manager finds a candidate that has the
  capability, installs the first skill of that name any registry offers, and answers that it was installed.\<close>

theorem gap_filled_by_another_skill:
  "\<exists>m sm'. satisfy ex_skill_env (no_faults []) Vision (ex_manager\<lparr>sm_registries := ex_registries\<rparr>) = (GapInstalled m, sm') \<and>
     Vision \<notin> set (mf_capabilities m) \<and> Vision \<notin> set (installed_capabilities sm')"
  using ex_satisfied_run unfolding ex_satisfied_def by blast

text \<open>A skill may be named like the record: its directory then takes the place of \<open>installed.json\<close>, the installation fails,
  the record can never be written again, and the next process starts with nothing installed.\<close>

theorem skill_named_like_the_record:
  assumes "stage_skill ke (no_faults now) sm skill_lockfile None = Inr sd" "vr_permitted (sd_report sd)" "sd_files sd = Some files"
    and "sm_install_dir sm = Some p" "map_of (sm_disk sm) skill_lockfile = None" "map_of (sm_disk sm) (skill_lockfile @ ''.tmp'') = None"
    and "sm' = snd (install_skill ke (no_faults now) skill_lockfile sm)"
  shows "(\<exists>e. fst (install_skill ke (no_faults now) skill_lockfile sm) = Inl e) \<and>
    (\<forall>io l. fst (write_lockfile ke io l (sm_disk sm')) \<noteq> Inr ()) \<and>
    (\<exists>fresh. with_install_dir ke p (sm_disk sm') (new_skill_manager config rs) = Inr fresh \<and> sm_installed fresh = [])"
proof -
  have blocked: "\<exists>disk r. install_skill ke (no_faults now) skill_lockfile sm = (Inl r, disk) \<and> entry_is_dir skill_lockfile (sm_disk disk)"
    using assms(1-6) stage_skill_id [OF assms(1)] by (rule record_replaced)
  then have dir: "entry_is_dir skill_lockfile (sm_disk sm')" by (auto simp: assms(7))
  then have "dir_file skill_lockfile (sm_disk sm') = None" by (auto simp: entry_is_dir_def dir_file_def split: option.splits fs_node.splits)
  then show ?thesis using blocked write_lockfile_blocked [OF dir] by (auto simp: with_install_dir_def)
qed

theorem skill_named_like_the_record_witness:
  "\<forall>io l. fst (write_lockfile ex_skill_env io l (sm_disk (snd (install_skill ex_skill_env (no_faults []) skill_lockfile ex_named_record)))) \<noteq> Inr ()"
proof -
  obtain files where files: "sd_files ex_record_staged = Some files" using ex_record_facts by blast
  have "stage_skill ex_skill_env (no_faults []) ex_named_record skill_lockfile None = Inr ex_record_staged" "vr_permitted (sd_report ex_record_staged)"
    using ex_record_facts by blast+
  moreover have "sm_install_dir ex_named_record = Some ''/skills''" "sm_disk ex_named_record = []" by (simp_all add: ex_named_record_def ex_manager_dir)
  ultimately show ?thesis using skill_named_like_the_record [OF _ _ files _ _ _ refl, of ex_skill_env "[]" ex_named_record "''/skills''"] by auto
qed

section \<open>The terminal interface\<close>



text \<open>C34. The interface never lists a task. A row is added for an event no part of the program publishes, so whatever was shown before,
  after the events of a session the plan is empty and the status line counts no task out of none.\<close>

theorem interface_lists_no_task:
  assumes "run_session pow alnum oc memories index env sched s goal (l, sh) = Some (r, l', sh')"
  shows "\<exists>es. sh_events sh' = sh_events sh @ es \<and>
    (\<forall>ui. plan_panel (fold ui_apply es ui) = [''No plan yet.''] \<and> prefix ''Meta Agent  |  0/0 tasks'' (status_line (fold ui_apply es ui)))"
proof -
  obtain es where es: "sh_events sh' = sh_events sh @ es" "session_log s goal r es" using session_announces [OF assms] by blast
  have "show_nat 0 = ''0''" by code_simp
  then have "plan_panel ui = [''No plan yet.''] \<and> prefix ''Meta Agent  |  0/0 tasks'' (status_line ui)" if "ui_tasks ui = []" for ui
    using that by (simp add: plan_panel_def plan_lines_def status_line_def completed_count_def)
  then show ?thesis using es session_shown(1) by blast
qed

theorem interface_lists_no_task_witness:
  "\<exists>r l sh. run_session (\<lambda>x n. x) (\<lambda>c. True) ex_orchestrator [] None (\<lambda>k i. ex_env) (\<lambda>k n. n) (SessionId ''s'')
     ''fix the bug'' (new_ledger, new_shared) = Some (r, l, sh) \<and> plan_panel (fold ui_apply (sh_events sh) new_app_state) = [''No plan yet.'']"
proof -
  have "session_planner (oc_plan ex_orchestrator)"
    using heuristic.session_planner_axioms [of to_ascii_lowercase ex_fresh True]
    by (simp add: ex_orchestrator_def new_orchestrator_def ex_plan_def [abs_def])
  from session_planner.session_settles [OF this refl ex_steady ex_unclaimed, of "\<lambda>k i. ex_env"] ex_sound
  obtain r l sh where r: "run_session (\<lambda>x n. x) (\<lambda>c. True) ex_orchestrator [] None (\<lambda>k i. ex_env) (\<lambda>k n. n) (SessionId ''s'')
     ''fix the bug'' (new_ledger, new_shared) = Some (r, l, sh)" by blast
  from interface_lists_no_task [OF r] r show ?thesis by (auto simp: new_shared_def)
qed



text \<open>C33. Whatever is pressed and announced, the log holds at most 500 lines, the cursor is on a skill when there is one, a search is shown
  exactly while one runs, the goal line is empty outside editing, and every goal or query handed on is trimmed and not blank.\<close>

theorem interface_stays_consistent:
  "case fold (loop_step has_skills has_memory) ws (start_interface has_skills has_memory agents listed) of lp \<Rightarrow>
     length (ui_logs (lp_ui lp)) \<le> 500 \<and>
     (selected_skill (lp_ui lp) = None \<longleftrightarrow> ui_skills (lp_ui lp) \<in> {None, Some []}) \<and>
     (ui_memory_searching (lp_ui lp) \<longleftrightarrow> lp_recall lp \<noteq> None) \<and>
     (ui_input_mode (lp_ui lp) = Editing \<or> ui_input (lp_ui lp) = []) \<and>
     list_all sent_goal (lp_calls lp)"
proof -
  define lp where "lp = fold (loop_step has_skills has_memory) ws (start_interface has_skills has_memory agents listed)"
  have "lp_ok has_memory lp" unfolding lp_def by (rule interface_runs.inv_reached) simp
  moreover have "selected_skill ui = None \<longleftrightarrow> ui_skills ui \<in> {None, Some []}" if "cursor_ok ui" for ui
    using that by (cases "ui_skills ui"; cases "the (ui_skills ui)") (auto simp: selected_skill_def cursor_ok_def)
  ultimately show ?thesis unfolding lp_def [symmetric]
    by (auto simp: lp_ok_def ui_ok_def max_log_lines_def searches_recall_def intro: input_mode.exhaust)
qed

text \<open>The tokens of a task that completes are counted twice: the executor announces them as usage and again with the completion, and the
  interface adds both.\<close>

theorem completed_task_counted_twice:
  assumes "end_pass pow oc s i te t a m rq st sh = Some (ph, sh')"
    and "outcome_of (snd (invoke_adapter oc (te_attempt te (es_pass st)) a rq)) = Some out" "eo_success out"
  shows "\<exists>es. sh_events sh' = sh_events sh @ es \<and>
    (\<forall>ui. ui_tokens (fold ui_apply es ui) = usage_merge (usage_merge (ui_tokens ui) (eo_tokens out)) (eo_tokens out))"
proof -
  obtain chunks r where r: "invoke_adapter oc (te_attempt te (es_pass st)) a rq = (chunks, r)" by force
  with completion_announced [OF assms(1) r _ assms(3)] assms(2) obtain cost where
    "sh_events sh' = sh_events sh @ map (\<lambda>c. task_event s i (AgentOutputReceived c)) chunks @
      [with_attempt (task_event s (tk_id t) (UsageRecorded (eo_tokens out) cost)) (ae_attempt_id (te_attempt te (es_pass st))),
       task_event s i (TaskCompletedEv (eo_tokens out))]" by auto
  moreover have "ui_tokens (ui_apply (with_attempt (task_event s (tk_id t) (UsageRecorded u cost)) x) ui) = usage_merge (ui_tokens ui) u"
    "ui_tokens (ui_apply (task_event s i (TaskCompletedEv u)) ui) = usage_merge (ui_tokens ui) u" for u x ui
    by (simp_all add: ui_apply_def task_event_def with_attempt_def Let_def split: option.split)
  ultimately show ?thesis by (auto simp: output_keeps_tokens)
qed

theorem completed_task_counted_twice_witness:
  "\<exists>es. usage_total (ui_tokens (fold ui_apply es new_app_state)) = 300 \<and> usage_total (eo_tokens ex_done) = 150"
proof -
  obtain ph sh where run: "end_pass (\<lambda>x n. x) ex_reaching (SessionId ''s'') (TaskId ''t'') ex_working ex_task (AgentId ''x'') None
      \<lparr>xr_task = ex_task, xr_model = None, xr_prompt = [], xr_workspace = [], xr_handoff = None, xr_timeout_ms = 0\<rparr> ex_state new_shared = Some (ph, sh)"
    using ex_completes(1) by blast
  have "es_pass ex_state = 0" by (simp add: ex_state_def)
  then have "outcome_of (snd (invoke_adapter ex_reaching (te_attempt ex_working (es_pass ex_state)) (AgentId ''x'') rq)) = Some ex_done" for rq
    using ex_completes(3) by simp
  moreover have "eo_success ex_done" by (simp add: ex_done_def)
  ultimately obtain es where "\<forall>ui. ui_tokens (fold ui_apply es ui) = usage_merge (usage_merge (ui_tokens ui) (eo_tokens ex_done)) (eo_tokens ex_done)"
    using completed_task_counted_twice [OF run] by blast
  then have "ui_tokens (fold ui_apply es new_app_state) = usage_merge (usage_merge (ui_tokens new_app_state) (eo_tokens ex_done)) (eo_tokens ex_done)"
    by blast
  then have "ui_tokens (fold ui_apply es new_app_state) = usage_merge (usage_merge (estimated_usage 0 0) (reported_usage 100 50)) (reported_usage 100 50)"
    unfolding new_app_state_def ex_done_def by simp
  moreover have "usage_total (usage_merge (usage_merge (estimated_usage 0 0) (reported_usage 100 50)) (reported_usage 100 50)) = 300"
    "usage_total (eo_tokens ex_done) = 150"
    by (simp_all add: usage_total_def usage_merge_def saturating_add_def estimated_usage_def reported_usage_def ex_done_def)
  ultimately show ?thesis by metis
qed

section \<open>The ACP server\<close>





text \<open>C25. A session id is never a way out of the session directory: whatever ids clients send, the only files written are named like an
  id the server issues and lie directly in that directory, and what a load answers depends on no other file.\<close>

theorem session_files_confined:
  "(\<forall>q. (\<forall>d. directory = Some d \<longrightarrow> \<not> session_file d q) \<longrightarrow>
     ag_files (ap_registry (fold (acp_step to_json of_json run_id) es (new_acp_server (new_acp_registry directory files) ws))) q = files q) \<and>
   ((\<forall>d p. directory = Some d \<and> session_file d p \<longrightarrow> files' p = files p) \<longrightarrow>
     fst (acp_load of_json i w (new_acp_registry directory files)) = fst (acp_load of_json i w (new_acp_registry directory files')))"
proof -
  have "spares q (new_acp_registry directory files)
      (ap_registry (fold (acp_step to_json of_json run_id) es (new_acp_server (new_acp_registry directory files) ws)))" for q
    using spares_run [of q "new_acp_server (new_acp_registry directory files) ws"] by (simp add: new_acp_server_def)
  moreover have "fst (acp_load of_json i w (new_acp_registry directory files)) = fst (acp_load of_json i w (new_acp_registry directory files'))"
    if "\<forall>d p. directory = Some d \<and> session_file d p \<longrightarrow> files' p = files p"
    using load_reads_session_files [of "new_acp_registry directory files" files' of_json i w] that by (simp add: new_acp_registry_def)
  ultimately show ?thesis by (auto simp: spares_def new_acp_registry_def)
qed

theorem session_files_confined_witness:
  "ag_files (ap_registry (acp_step (\<lambda>_. ''{}'') (\<lambda>_. None) ex_run_id (CancelPrompt ''../etc/passwd'')
      (new_acp_server (new_acp_registry (Some ''/s'') (\<lambda>_. Some ''secret'')) (per_directory (\<lambda>_. None) ''/d'' (0 :: nat))))) ''/etc/passwd'' = Some ''secret'' \<and>
   fst (acp_load (\<lambda>_. None) ''../etc/passwd'' ''/w'' (new_acp_registry (Some ''/s'') (\<lambda>p. if p = ''/etc/passwd'' then Some ''secret'' else None))) =
   fst (acp_load (\<lambda>_. None) ''../etc/passwd'' ''/w'' (new_acp_registry (Some ''/s'') (\<lambda>_. None)))"
proof -
  have outside: "\<not> session_file ''/s'' ''/etc/passwd''" by (auto simp: session_file_def path_join_def prefix_def)
  note both = session_files_confined [of "Some ''/s''" "\<lambda>_. ''{}''" "\<lambda>_. None" ex_run_id "[CancelPrompt ''../etc/passwd'']" "\<lambda>_. Some ''secret''"
      "per_directory (\<lambda>_. None) ''/d'' (0 :: nat)"] session_files_confined [of "Some ''/s''" _ "\<lambda>_. None" _ _ "\<lambda>p. if p = ''/etc/passwd'' then Some ''secret'' else None"
      _ "\<lambda>_. None" "''../etc/passwd''" "''/w''"]
  from conjunct1 [OF both(1), THEN spec, of "''/etc/passwd''"] outside
  have written: "ag_files (ap_registry (acp_step (\<lambda>_. ''{}'') (\<lambda>_. None) ex_run_id (CancelPrompt ''../etc/passwd'')
      (new_acp_server (new_acp_registry (Some ''/s'') (\<lambda>_. Some ''secret'')) (per_directory (\<lambda>_. None) ''/d'' (0 :: nat))))) ''/etc/passwd'' = Some ''secret''"
    by simp
  have "\<forall>d p. Some ''/s'' = Some d \<and> session_file d p \<longrightarrow> (\<lambda>_. None) p = (if p = ''/etc/passwd'' then Some ''secret'' else None)"
    using outside by auto
  from written mp [OF conjunct2 [OF both(2)] this] show ?thesis by simp
qed

text \<open>C26. A conversation survives a restart: once a turn is recorded and its file written, another process over the same directory loads the
  session with that turn at its end, in the directory the client names now and with nothing running. Wherever writing
  the file stops, it holds what it held or the new text, never part of it.\<close>

theorem conversation_survives_restart:
  assumes "acp_get i rg = Some s" "path_for i rg = Some p"
    and "of_json (to_json (record_turn prompt response s)) = Some ((record_turn prompt response s)\<lparr>as_running := None\<rparr>)"
  shows "fst (acp_load of_json i w (new_acp_registry (ag_directory rg) (ag_files (acp_record to_json WriteDone i prompt response rg)))) =
      Some ((record_turn prompt response s)\<lparr>as_workspace := w, as_running := None\<rparr>) \<and>
    last (turn_history (record_turn prompt response s)) = clip response \<and>
    ag_files (acp_record to_json we i prompt response rg) p \<in> {ag_files rg p, Some (to_json (record_turn prompt response s))}"
proof -
  have "path_for i (rg\<lparr>ag_sessions := x\<rparr>) = Some p" for x using assms(2) by (simp add: path_for_def)
  then have "ag_files (acp_record to_json we i prompt response rg) p \<in> {ag_files rg p, Some (to_json (record_turn prompt response s))}"
    using assms(1) write_is_atomic by (simp add: acp_record_def acp_get_def Let_def acp_persist_def)
  moreover have "last (turn_history (record_turn prompt response s)) = clip response"
    by (simp add: turn_history_def record_turn_def Let_def last_map max_history_def)
  ultimately show ?thesis using recorded_then_loaded [of rg i s p of_json to_json prompt response w] assms by (simp add: acp_get_def)
qed

theorem conversation_survives_restart_witness:
  "\<exists>s. fst (acp_load (\<lambda>_. Some (record_turn ''fix'' ''done'' (new_acp_session ''/w'' 0))) ''cuma-1'' ''/v''
      (new_acp_registry (Some ''/s'') (ag_files (acp_record (\<lambda>_. ''{}'') WriteDone ''cuma-1'' ''fix'' ''done''
        (new_acp_registry (Some ''/s'') (\<lambda>_. None)\<lparr>ag_sessions := [(''cuma-1'', new_acp_session ''/w'' 0)]\<rparr>))))) = Some s \<and> as_workspace s = ''/v''"
proof -
  let ?rg = "new_acp_registry (Some ''/s'') (\<lambda>_. None)\<lparr>ag_sessions := [(''cuma-1'', new_acp_session ''/w'' 0)]\<rparr>"
  have plausible: "is_plausible_id ''cuma-1''" by code_simp
  have get: "acp_get ''cuma-1'' ?rg = Some (new_acp_session ''/w'' 0)" by (simp add: acp_get_def bt_get_def)
  have path: "path_for ''cuma-1'' ?rg = Some (path_join ''/s'' ''cuma-1.json'')" using plausible by (simp add: path_for_def new_acp_registry_def)
  have directory: "ag_directory ?rg = Some ''/s''" by (simp add: new_acp_registry_def)
  have "as_running (record_turn ''fix'' ''done'' (new_acp_session ''/w'' 0)) = None"
    by (simp add: record_turn_def new_acp_session_def Let_def)
  then have "Some (record_turn ''fix'' ''done'' (new_acp_session ''/w'' 0)) =
      Some ((record_turn ''fix'' ''done'' (new_acp_session ''/w'' 0))\<lparr>as_running := None\<rparr>)" by simp
  from conversation_survives_restart [OF get path, of "\<lambda>_. Some (record_turn ''fix'' ''done'' (new_acp_session ''/w'' 0))" "\<lambda>_. ''{}''", OF this, where w = "''/v''"]
  have "fst (acp_load (\<lambda>_. Some (record_turn ''fix'' ''done'' (new_acp_session ''/w'' 0))) ''cuma-1'' ''/v''
      (new_acp_registry (Some ''/s'') (ag_files (acp_record (\<lambda>_. ''{}'') WriteDone ''cuma-1'' ''fix'' ''done'' ?rg)))) =
      Some ((record_turn ''fix'' ''done'' (new_acp_session ''/w'' 0))\<lparr>as_workspace := ''/v'', as_running := None\<rparr>)"
    unfolding directory by (rule conjunct1)
  moreover have "as_workspace ((record_turn ''fix'' ''done'' (new_acp_session ''/w'' 0))\<lparr>as_workspace := ''/v'', as_running := None\<rparr>) = ''/v''" by simp
  ultimately show ?thesis by blast
qed

text \<open>C27. One prompt at a time is not kept. When the run of a prompt has ended and the next prompt of the session has started before the first
  one's task proceeds, its clean-up clears the handle of the second: a cancellation then aborts nothing and a third
  prompt is let in beside the second, which is still at work.\<close>

theorem ended_prompt_forgets_the_next:
  assumes "k < length (ap_prompts ap)" "pq_phase (ap_prompts ap ! k) = PromptWaiting" "cr_end (ap_runs ap ! pq_run (ap_prompts ap ! k)) = Some e"
    and "i = pq_session (ap_prompts ap ! k)" "ap' = prompt_proceeds to_json late now dir we k ap"
  shows "acp_cancel_prompt i ap' = ap' \<and> ap_runs ap' = ap_runs ap \<and> fst (acp_start (run_finished ap') now' dir' i h (ap_registry ap'))"
  using finish_forgets_another [OF assms(1-3,5,4)] by (simp add: acp_cancel_prompt_def)

theorem ended_prompt_forgets_the_next_witness:
  "\<exists>ap. ap = prompt_proceeds (\<lambda>_. ''{}'') False 0 ''/d'' WriteDone 0 ex_acp \<and> cr_end (ap_runs ap ! 1) = None \<and>
     \<not> cr_aborted (ap_runs (acp_cancel_prompt ''cuma-1'' ap) ! 1) \<and> fst (acp_start (run_finished ap) 0 ''/d'' ''cuma-1'' 2 (ap_registry ap))"
proof -
  obtain r0 r1 where runs: "ap_runs ex_acp = [r0, r1]" using ex_acp_runs by (auto simp: map_eq_Cons_conv)
  obtain q0 q1 where prompts: "ap_prompts ex_acp = [q0, q1]" using ex_acp_prompts by (auto simp: map_eq_Cons_conv)
  have facts: "0 < length (ap_prompts ex_acp)" "pq_phase (ap_prompts ex_acp ! 0) = PromptWaiting" "''cuma-1'' = pq_session (ap_prompts ex_acp ! 0)"
      "cr_end (ap_runs ex_acp ! pq_run (ap_prompts ex_acp ! 0)) = Some (RunReturned (Inl (EOther ''x'')))" "cr_end r1 = None" "\<not> cr_aborted r1"
    using ex_acp_runs ex_acp_prompts by (simp_all add: runs prompts)
  from ended_prompt_forgets_the_next [OF facts(1,2,4,3) refl, of "\<lambda>_. ''{}''" False 0 "''/d''" WriteDone 0 "''/d''" 2] facts(5,6)
  show ?thesis by (simp add: runs)
qed

text \<open>The pool of workspaces is bounded only for directories whose orchestrator can be built: a slot is made for every directory asked
  for, and one whose build failed is never idle, so it stays.\<close>

theorem failed_builds_fill_the_pool:
  assumes "ws_builds ws" "distinct ps" "set ps \<inter> sl_path ` set (ws_slots ws) = {}" "\<forall>p \<in> set ps. \<exists>err. build p = Inl err"
  shows "length ps \<le> length (ws_slots (fold (\<lambda>p ws. snd (workspace_orchestrator in_use build (Some p) ws)) ps ws))"
proof -
  let ?ws = "fold (\<lambda>p ws. snd (workspace_orchestrator in_use build (Some p) ws)) ps ws"
  have "set ps \<subseteq> sl_path ` set (ws_slots ?ws)" using failed_builds_stay [OF assms] by (auto simp: unbuilt_def)
  then have "card (set ps) \<le> card (sl_path ` set (ws_slots ?ws))" by (intro card_mono) auto
  also have "\<dots> \<le> length (ws_slots ?ws)" by (meson card_image_le card_length List.finite_set le_trans)
  finally show ?thesis using distinct_card [OF assms(2)] by simp
qed

theorem failed_builds_fill_the_pool_witness:
  "100 \<le> length (ws_slots (fold (\<lambda>p ws. snd (workspace_orchestrator (\<lambda>_. False) (\<lambda>_. Inl (EOther ''x'')) (Some p) ws))
     (map (\<lambda>n. replicate n (CHR ''a'')) [0..<100]) (per_directory (\<lambda>_. None) ''/d'' (0 :: nat))))"
proof -
  have "CHR ''/'' \<notin> set (replicate n (CHR ''a''))" for n by simp
  then have slash: "''/d'' \<noteq> replicate n (CHR ''a'')" for n by (metis list.set_intros(1))
  have "distinct (map (\<lambda>n. replicate n (CHR ''a'')) [0..<100])" by (auto simp: distinct_map inj_on_def dest: arg_cong [where f = length])
  moreover have "set (map (\<lambda>n. replicate n (CHR ''a'')) [0..<100]) \<inter> sl_path ` set (ws_slots (per_directory (\<lambda>_. None) ''/d'' (0 :: nat))) = {}"
    using slash by (simp add: per_directory_def Let_def image_iff)
  moreover have "ws_builds (per_directory (\<lambda>_. None) ''/d'' (0 :: nat))" by (simp add: per_directory_def Let_def)
  ultimately show ?thesis
    using failed_builds_fill_the_pool [of "per_directory (\<lambda>_. None) ''/d'' (0 :: nat)" "map (\<lambda>n. replicate n (CHR ''a'')) [0..<100]" "\<lambda>_. Inl (EOther ''x'')" "\<lambda>_. False"]
    by simp
qed

section \<open>The A2A client\<close>

text \<open>C15. Whatever a peer answers, and however slowly, an attempt is over by its deadline, with at most sixteen requests and two
  more for every five seconds of it.\<close>

theorem remote_attempt_ends_in_time:
  "at_elapsed (snd (a2a_execute nw guarded attempt request ad w)) \<le> max 1 (unat (xr_timeout_ms request)) \<and>
   length (at_sent (snd (a2a_execute nw guarded attempt request ad w))) \<le> 16 + 2 * (max 1 (unat (xr_timeout_ms request)) div 5000)"
  using execute_bounded [of nw guarded attempt request ad w, OF prod.collapse [symmetric]]
  by (simp add: attempt_deadline_def polls_bound_def poll_max_def)




text \<open>C18. A deadline does not reach a task sent without streaming: the call waits for the task to settle, so when the deadline passes the
  client has learned no id, asks for no cancellation, and the run started for it at the other end is not aborted.\<close>

theorem overrun_leaves_the_task_running:
  assumes "\<not> pr_streaming (aa_peer ad)" "nw_send nw = link_send to_text dbg fr progress"
    and "sv_tokens sv = []" "a2a_start fr (first_params nw ad request) sv = (Inr (i, c), sv1)"
    and "progress sv1 = (t, fold (\<lambda>(mid, now, r, p). drive_step mid now r p) steps sv1)" "attempt_deadline request \<le> t"
  shows "\<exists>e a. a2a_execute nw guarded attempt request ad sv = (Inl e, a) \<and> error_class_of e = Timeout \<and> length (at_sent a) = 1 \<and>
    \<not> list_ex is_cancel (at_sent a) \<and> length (sv_runs (at_world a)) = Suc (length (sv_runs sv)) \<and> \<not> rn_aborted (last (sv_runs (at_world a)))"
proof -
  let ?sv2 = "fold (\<lambda>(mid, now, r, p). drive_step mid now r p) steps sv1"
  obtain a where a: "a2a_execute nw guarded attempt request ad sv = (Inl (attempt_error (aa_id ad) request CallDropped), a)"
      "at_world a = ?sv2" "at_sent a = [first_request nw ad request sv]"
    using cuma_overrun [OF assms(1-6)] by blast
  have runs: "map rn_aborted (sv_runs ?sv2) = map rn_aborted (sv_runs sv) @ [False]"
    using start_adds_run [OF assms(4)] by (simp add: drives_keep_aborted)
  have len: "length (sv_runs ?sv2) = Suc (length (sv_runs sv))" using arg_cong [OF runs, of length] unfolding length_map by simp
  then have "rn_aborted (last (sv_runs ?sv2)) = last (map rn_aborted (sv_runs ?sv2))" by (intro last_map [symmetric]) auto
  then have "\<not> rn_aborted (last (sv_runs ?sv2))" using runs by simp
  moreover have "\<not> is_cancel (first_request nw ad request sv)"
    by (cases "pr_dialect (aa_peer ad)") (simp_all add: is_cancel_def request_method_def first_request_def call_request_def post_body_def wire_name_def
        legacy_name_def legacy_methods_def method_defs)
  ultimately show ?thesis using a len by (simp add: attempt_error_def)
qed

theorem overrun_leaves_the_task_running_witness:
  "\<exists>e a. a2a_execute (ex_link_network JNull 2000 (\<lambda>sv. fold (\<lambda>(mid, now, r, p). drive_step mid now r p) [(''m'', ''now'', 0, PollOutput [])] sv)) True (AttemptId ''a'')
     ex_link_request ex_link_adapter ex_link_server = (Inl e, a) \<and> error_class_of e = Timeout \<and> \<not> rn_aborted (last (sv_runs (at_world a)))"
proof -
  let ?steps = "[(''m'', ''now'', 0, PollOutput [])] :: (string \<times> string \<times> nat \<times> poll) list"
  let ?progress = "\<lambda>sv. (2000 :: nat, fold (\<lambda>(mid, now, r, p). drive_step mid now r p) ?steps sv)"
  have facts: "\<not> pr_streaming (aa_peer ex_link_adapter)" "sv_tokens ex_link_server = []" "attempt_deadline ex_link_request \<le> 2000"
    by (simp_all add: ex_link_adapter_def ex_link_server_def new_server_def attempt_deadline_def ex_link_request_def)
  have net: "nw_send (ex_link_network JNull 2000 (\<lambda>sv. snd (?progress sv))) = link_send (\<lambda>_. ''reply'') (\<lambda>s. s) ex_link_fresh ?progress"
    by (simp add: ex_link_network_def)
  have start: "a2a_start ex_link_fresh (first_params (ex_link_network JNull 2000 (\<lambda>sv. snd (?progress sv))) ex_link_adapter ex_link_request) ex_link_server =
      (Inr (''t'', 0), ex_link_started)"
    by (simp only: ex_link_params ex_link_start)
  from overrun_leaves_the_task_running [OF facts(1) net facts(2) start refl facts(3), where guarded = True and attempt = "AttemptId ''a''"]
  show ?thesis by auto
qed

text \<open>C19. What is read from an event stream does not depend on how it is cut into chunks, if no cut falls within a character or a line end:
  the events of the chunks are those of the whole text.\<close>

theorem events_read_as_one:
  assumes "list_all clean_cut chunks"
  shows "sse_feed_all chunks = sse_feed [] (concat chunks)"
  using fed_as_one [OF assms] utf8_lossy_valid [OF valid_concat [OF assms]] by (simp add: sse_feed_def)

theorem events_read_as_one_witness:
  "sse_feed_all [''data: a'', ''b'' @ [CHR 0x0A], CHR 0x0A # ''data: c'' @ [CHR 0x0A, CHR 0x0A]] = sse_feed [] (''data: ab'' @ [CHR 0x0A, CHR 0x0A] @ ''data: c'' @ [CHR 0x0A, CHR 0x0A])"
proof -
  have "list_all clean_cut [''data: a'', ''b'' @ [CHR 0x0A], CHR 0x0A # ''data: c'' @ [CHR 0x0A, CHR 0x0A]]" by code_simp
  from events_read_as_one [OF this] show ?thesis by simp
qed

text \<open>A cut between the two characters of a line end tears an event in two, and one within a character
  replaces it by two others.\<close>

theorem event_torn_between_chunks:
  "fst (sse_feed_all [''data: a'' @ [CHR 0x0D], CHR 0x0A # ''data: b'' @ [CHR 0x0A, CHR 0x0A]]) = [''a'', ''b''] \<and>
   fst (sse_feed [] (''data: a'' @ [CHR 0x0D, CHR 0x0A] @ ''data: b'' @ [CHR 0x0A, CHR 0x0A])) = [''a'' @ [CHR 0x0A] @ ''b''] \<and>
   fst (sse_feed_all [''data: '' @ [CHR 0xC3], CHR 0xA9 # [CHR 0x0A, CHR 0x0A]]) = [replacement @ replacement]"
  by (intro conjI; code_simp)

text \<open>C20. Endpoints without user information are called over TLS or on this machine only, whatever card a peer publishes. With user
  information the check is deceived: it takes what precedes a password for the host.\<close>

theorem cleartext_check_misses_users:
  assumes "ad \<in> set (a2a_adapters dbg agents)" "url = pr_url (peer_from_card dbg (aa_id ad) published (aa_peer ad))"
  shows "(prefix ''https://'' url \<or> CHR ''@'' \<in> set url \<or> (\<exists>h \<in> this_machine. http_host url = Some h)) \<and>
    ensure_acceptable_endpoint dbg i ''http://localhost:x@example.com/'' = Inr () \<and> http_host ''http://localhost:x@example.com/'' = Some ''example.com''"
proof -
  have "prefix ''https://'' url \<or> CHR ''@'' \<in> set url \<or> (\<exists>h \<in> this_machine. http_host url = Some h)"
    using card_keeps_acceptable [OF adapters_acceptable [OF assms(1)], of dbg "aa_id ad" published] local_is_local [of url] assms(2)
    by (auto simp: acceptable_endpoint_def)
  moreover have "is_local_endpoint ''http://localhost:x@example.com/''" by code_simp
  moreover have "http_host ''http://localhost:x@example.com/'' = Some ''example.com''" by code_simp
  ultimately show ?thesis by (simp add: ensure_acceptable_endpoint_def)
qed

theorem cleartext_check_misses_users_witness:
  "\<exists>ad. ad \<in> set (a2a_adapters (\<lambda>s. s) [(''p'', default_agent_config\<lparr>ac_protocol := ''a2a'', ac_endpoint := Some ''http://[::1]:9/''\<rparr>)]) \<and>
     http_host (pr_url (peer_from_card (\<lambda>s. s) (aa_id ad) (new_card ''p'' ''http://example.com/'') (aa_peer ad))) \<in> Some ` this_machine"
proof -
  let ?agents = "[(''p'', default_agent_config\<lparr>ac_protocol := ''a2a'', ac_endpoint := Some ''http://[::1]:9/''\<rparr>)]"
  have "is_local_endpoint ''http://[::1]:9/''" "eq_ignore_ascii_case ''a2a'' ''a2a''" by code_simp+
  then obtain ad where ad: "a2a_adapters (\<lambda>s. s) ?agents = [ad]" "pr_url (aa_peer ad) = ''http://[::1]:9/''"
    by (simp add: a2a_adapters_def adapter_for_def new_adapter_def ensure_acceptable_endpoint_def default_agent_config_def List.map_filter_simps)
  have "\<not> acceptable_endpoint ''http://example.com/''" by code_simp
  then have url: "pr_url (peer_from_card (\<lambda>s. s) (aa_id ad) (new_card ''p'' ''http://example.com/'') (aa_peer ad)) = ''http://[::1]:9/''"
    by (simp add: peer_from_card_def jsonrpc_endpoint_def new_card_def ensure_acceptable_endpoint_def acceptable_endpoint_def ad(2) eq_ignore_ascii_case_def)
  have "ad \<in> set (a2a_adapters (\<lambda>s. s) ?agents)" by (simp add: ad(1))
  from cleartext_check_misses_users [OF this refl, of "new_card ''p'' ''http://example.com/''"] obtain h where "h \<in> this_machine" "http_host ''http://[::1]:9/'' = Some h"
    unfolding url by (auto simp: prefix_def)
  then show ?thesis using \<open>ad \<in> _\<close> url by (intro exI [of _ ad]) simp
qed

end
